(* ===== verification/Prelude.thy ===== *)
theory Prelude
  imports Main "HOL-Library.AList" "HOL-Library.Sublist" "HOL-Library.Char_ord"
    "HOL-Library.List_Lexorder"
begin

section \<open>Prelude: errors, results, Go maps\<close>

text \<open>
  What every component of the development shares. Go's \<open>error\<close> values are a datatype,
  because the code looks inside them (\<open>os.IsNotExist\<close>, \<open>errors.IsNotFound\<close>,
  \<open>strings.Contains(err.Error(), ...)\<close>); a function that returns \<open>(T, error)\<close> returns
  \<open>goerror + 'a\<close>; a function that returns only an \<open>error\<close> returns \<open>goerror option\<close>;
  a Go map is an association list, so that a \<open>range\<close> over it visits the entries in list
  order and a theorem over all lists covers every iteration order; a pointer that may be nil is
  an \<open>option\<close>.
\<close>

named_theorems go_simps \<open>evaluation rules of the Go string and map functions\<close>
named_theorems fs_simps \<open>lookup after update in the file store\<close>
named_theorems frame_rules \<open>what an operation leaves unchanged\<close>

subsection \<open>Errors\<close>

type_synonym apath = "string list" \<comment> \<open>an absolute, cleaned path: its components\<close>

datatype errno = ENOENT | ENOTDIR | EISDIR | EEXIST | ENOTEMPTY | ELOOP | EINVAL

datatype api_reason = NotFound | AlreadyExists | Conflict | Forbidden | OtherReason

datatype goerror =
    Errorf string                 \<comment> \<open>\<open>fmt.Errorf\<close> without \<open>%w\<close>\<close>
  | Wrapf string goerror          \<comment> \<open>\<open>fmt.Errorf("...: %w", err)\<close>\<close>
  | PathError string apath errno  \<comment> \<open>an error of package os: operation, path, cause\<close>
  | ApiError api_reason string    \<comment> \<open>a status error of the Kubernetes API\<close>

type_synonym 'a res = "goerror + 'a"

text \<open>\<open>os.IsNotExist\<close> looks at the error itself and not at what it wraps.\<close>

fun is_not_exist :: "goerror \<Rightarrow> bool" where
  "is_not_exist (PathError _ _ e) = (e = ENOENT)"
| "is_not_exist _ = False"

text \<open>The predicates of \<open>k8s.io/apimachinery/pkg/api/errors\<close> unwrap.\<close>

fun reason_for_error :: "goerror \<Rightarrow> api_reason option" where
  "reason_for_error (ApiError r _) = Some r"
| "reason_for_error (Wrapf _ e) = reason_for_error e"
| "reason_for_error _ = None"

definition api_is :: "api_reason \<Rightarrow> goerror \<Rightarrow> bool" where
  "api_is r e \<longleftrightarrow> reason_for_error e = Some r"

lemma api_is_simps [simp]:
  "api_is r (ApiError r' m) \<longleftrightarrow> r = r'"
  "api_is r (Wrapf m e) \<longleftrightarrow> api_is r e"
  "\<not> api_is r (Errorf m)"
  "\<not> api_is r (PathError a b c)"
  by (auto simp: api_is_def)

lemma api_is_unique: "api_is r e \<Longrightarrow> api_is r' e \<Longrightarrow> r = r'"
  by (simp add: api_is_def)

subsection \<open>Go maps\<close>

type_synonym ('k, 'v) gomap = "('k \<times> 'v) list"

definition mget :: "('k, 'v) gomap \<Rightarrow> 'k \<Rightarrow> 'v option" where
  "mget m k = map_of m k"

definition mput :: "('k, 'v) gomap \<Rightarrow> 'k \<Rightarrow> 'v \<Rightarrow> ('k, 'v) gomap" where
  "mput m k v = AList.update k v m"

definition mdel :: "('k, 'v) gomap \<Rightarrow> 'k \<Rightarrow> ('k, 'v) gomap" where
  "mdel m k = AList.delete k m"

definition mkeys :: "('k, 'v) gomap \<Rightarrow> 'k list" where
  "mkeys m = map fst m"

text \<open>\<open>m[k]\<close> of a \<open>map[string]string\<close>: the empty string when the key is missing.\<close>

definition mstr :: "('k, string) gomap \<Rightarrow> 'k \<Rightarrow> string" where
  "mstr m k = (case mget m k of None \<Rightarrow> [] | Some v \<Rightarrow> v)"

text \<open>\<open>maps.Copy(dst, src)\<close>.\<close>

fun mcopy :: "('k, 'v) gomap \<Rightarrow> ('k, 'v) gomap \<Rightarrow> ('k, 'v) gomap" where
  "mcopy dst [] = dst"
| "mcopy dst ((k, v) # src) = mcopy (mput dst k v) src"

text \<open>\<open>reflect.DeepEqual\<close> on two maps: the same keys with the same values.\<close>

definition meq :: "('k, 'v) gomap \<Rightarrow> ('k, 'v) gomap \<Rightarrow> bool" where
  "meq a b \<longleftrightarrow> (\<forall>k \<in> set (mkeys a) \<union> set (mkeys b). mget a k = mget b k)"

text \<open>A Go map has one entry for each key.\<close>

definition mwf :: "('k, 'v) gomap \<Rightarrow> bool" where
  "mwf m \<longleftrightarrow> distinct (mkeys m)"

text \<open>
  The contract the clients of a map use: lookup after insertion and deletion, and that the
  operations keep the keys distinct.
\<close>

locale go_map =
  fixes lookup :: "'m \<Rightarrow> 'k \<Rightarrow> 'v option"
    and put :: "'m \<Rightarrow> 'k \<Rightarrow> 'v \<Rightarrow> 'm"
    and del :: "'m \<Rightarrow> 'k \<Rightarrow> 'm"
    and empty :: 'm
    and wf :: "'m \<Rightarrow> bool"
  assumes lookup_empty: "lookup empty k = None"
    and lookup_put: "lookup (put m k v) k' = (if k' = k then Some v else lookup m k')"
    and lookup_del: "lookup (del m k) k' = (if k' = k then None else lookup m k')"
    and wf_empty: "wf empty"
    and wf_put: "wf m \<Longrightarrow> wf (put m k v)"
    and wf_del: "wf m \<Longrightarrow> wf (del m k)"
begin

lemma lookup_put_same: "lookup (put m k v) k = Some v"
  by (simp add: lookup_put)

lemma lookup_put_other: "k' \<noteq> k \<Longrightarrow> lookup (put m k v) k' = lookup m k'"
  by (simp add: lookup_put)

lemma lookup_del_same: "lookup (del m k) k = None"
  by (simp add: lookup_del)

lemma lookup_del_other: "k' \<noteq> k \<Longrightarrow> lookup (del m k) k' = lookup m k'"
  by (simp add: lookup_del)

lemma lookup_put_put: "lookup (put (put m k v) k v') = lookup (put m k v')"
  by (rule ext) (simp add: lookup_put)

lemma lookup_del_put: "lookup (del (put m k v) k) = lookup (del m k)"
  by (rule ext) (simp add: lookup_put lookup_del)

lemma lookup_put_commute:
  "k \<noteq> k' \<Longrightarrow> lookup (put (put m k v) k' v') = lookup (put (put m k' v') k v)"
  by (rule ext) (simp add: lookup_put)

end

interpretation gm: go_map mget mput mdel "[]" mwf
proof unfold_locales
  fix m :: "('k, 'v) gomap" and k k' :: 'k and v :: 'v
  show "mget (mput m k v) k' = (if k' = k then Some v else mget m k')"
    by (simp add: mget_def mput_def update_conv')
  show "mget (mdel m k) k' = (if k' = k then None else mget m k')"
    by (simp add: mget_def mdel_def delete_conv')
  show "mwf m \<Longrightarrow> mwf (mput m k v)"
    by (simp add: mwf_def mkeys_def mput_def distinct_update)
  show "mwf m \<Longrightarrow> mwf (mdel m k)"
    by (simp add: mwf_def mkeys_def mdel_def distinct_delete)
qed (simp_all add: mget_def mwf_def mkeys_def)

lemmas gomap_simps [simp] = gm.lookup_empty gm.lookup_put gm.lookup_del

lemma mget_Cons [simp]: "mget ((k, v) # m) k' = (if k' = k then Some v else mget m k')"
  by (auto simp: mget_def)

lemma mget_append: "mget (a @ b) k = (case mget a k of Some v \<Rightarrow> Some v | None \<Rightarrow> mget b k)"
  by (auto simp: mget_def map_add_def split: option.splits)

lemma mstr_mput [simp]: "mstr (mput m k v) k' = (if k' = k then v else mstr m k')"
  by (simp add: mstr_def)

lemma mstr_mdel [simp]: "mstr (mdel m k) k' = (if k' = k then [] else mstr m k')"
  by (simp add: mstr_def)

lemma mstr_Cons [simp]: "mstr ((k, v) # m) k' = (if k' = k then v else mstr m k')"
  by (simp add: mstr_def)

lemma mstr_Nil [simp]: "mstr [] k = []"
  by (simp add: mstr_def)

lemma in_mkeys_iff: "k \<in> set (mkeys m) \<longleftrightarrow> mget m k \<noteq> None"
  by (force simp: mkeys_def mget_def map_of_eq_None_iff)

lemma mget_mcopy:
  "mwf src \<Longrightarrow> mget (mcopy dst src) k = (case mget src k of Some v \<Rightarrow> Some v | None \<Rightarrow> mget dst k)"
proof (induction dst src rule: mcopy.induct)
  case (1 dst)
  then show ?case by simp
next
  case (2 dst k' v src)
  have notin: "mget src k' = None"
    using "2.prems" by (auto simp: mwf_def in_mkeys_iff mkeys_def mget_def map_of_eq_None_iff)
  from "2.prems" have "mwf src" by (simp add: mwf_def mkeys_def)
  with "2.IH" notin show ?case by (auto split: option.splits)
qed

lemma mwf_mcopy: "mwf dst \<Longrightarrow> mwf (mcopy dst src)"
  by (induction dst src rule: mcopy.induct) (auto intro: gm.wf_put)

lemma meq_iff: "meq a b \<longleftrightarrow> (\<forall>k. mget a k = mget b k)"
  unfolding meq_def by (auto simp: in_mkeys_iff)

lemma meq_refl [simp]: "meq a a"
  by (simp add: meq_iff)

subsection \<open>Lists\<close>

lemma prefix_snoc_iff: "prefix p (q @ [x]) \<longleftrightarrow> p = q @ [x] \<or> prefix p q"
  by (rule prefix_snoc)

lemma sorted_distinct_eqI:
  fixes xs ys :: "('a::linorder) list"
  assumes "set xs = set ys" "sorted xs" "sorted ys" "distinct xs" "distinct ys"
  shows "xs = ys"
  using assms sorted_distinct_set_unique by blast

lemma length_filter_distinct_card:
  "distinct xs \<Longrightarrow> length (filter P xs) = card {x \<in> set xs. P x}"
  by (simp add: distinct_length_filter Int_def conj_commute)

end
