(* ===== verification/GoPath.thy ===== *)
theory GoPath
  imports GoStrings
begin

section \<open>Package path/filepath on Unix\<close>

text \<open>
  Two kinds of path occur in the source. A path relative to a root, and every path a user
  writes, is a \<open>string\<close> with slashes, as in the code. An absolute path that names a place on
  disk (the repository, the live directory, the staging directory and what
  \<open>filepath.Join\<close> builds from them) is its list of components, type \<open>apath\<close>: such
  paths are always results of \<open>Join\<close>, hence cleaned. \<open>filepath.ToSlash\<close> is the identity
  on Unix.
\<close>

definition name_ok :: "string \<Rightarrow> bool" where
  "name_ok x \<longleftrightarrow> x \<noteq> [] \<and> x \<noteq> ''.'' \<and> x \<noteq> ''..'' \<and> CHR ''/'' \<notin> set x"

abbreviation slash_split :: "string \<Rightarrow> string list" where
  "slash_split \<equiv> split_on CHR ''/''"

abbreviation slash_join :: "string list \<Rightarrow> string" where
  "slash_join \<equiv> join_with ''/''"

text \<open>
  The component loop of \<open>filepath.Clean\<close>; the accumulator is reversed. An empty component
  and \<open>.\<close> are dropped, \<open>..\<close> removes the component before it, is dropped at the root,
  and is kept at the front of a relative path.
\<close>

definition clean_step :: "bool \<Rightarrow> string list \<Rightarrow> string \<Rightarrow> string list" where
  "clean_step rooted acc c =
     (if c = [] \<or> c = ''.'' then acc
      else if c = ''..'' then
        (case acc of
           [] \<Rightarrow> if rooted then [] else [c]
         | a # acc' \<Rightarrow> if a = ''..'' then c # acc else acc')
      else c # acc)"

definition clean_acc :: "bool \<Rightarrow> string list \<Rightarrow> string list \<Rightarrow> string list" where
  "clean_acc rooted acc cs = foldl (clean_step rooted) acc cs"

definition clean_rel :: "string \<Rightarrow> string list" where
  "clean_rel s = rev (clean_acc False [] (slash_split s))"

definition is_abs :: "string \<Rightarrow> bool" where
  "is_abs s = has_prefix s ''/''"

definition filepath_clean :: "string \<Rightarrow> string" where
  "filepath_clean s =
     (if is_abs s then CHR ''/'' # slash_join (rev (clean_acc True [] (slash_split s)))
      else if clean_rel s = [] then ''.'' else slash_join (clean_rel s))"

text \<open>\<open>filepath.Join(a, b)\<close> of two strings.\<close>

definition filepath_join :: "string \<Rightarrow> string \<Rightarrow> string" where
  "filepath_join a b =
     (if a \<noteq> [] then filepath_clean (a @ ''/'' @ b)
      else if b \<noteq> [] then filepath_clean b else [])"

text \<open>\<open>filepath.Join(root, s)\<close> for an absolute root: cleaning starts at the root's components.\<close>

definition join_abs :: "apath \<Rightarrow> string \<Rightarrow> apath" where
  "join_abs root s = rev (clean_acc True (rev root) (slash_split s))"

definition abs_string :: "apath \<Rightarrow> string" where
  "abs_string p = ''/'' @ slash_join p"

text \<open>\<open>filepath.Dir\<close> and \<open>filepath.Base\<close>, on strings and on absolute paths.\<close>

definition filepath_dir :: "string \<Rightarrow> string" where
  "filepath_dir s =
     filepath_clean (rev (dropWhile (\<lambda>c. c \<noteq> CHR ''/'') (rev s)))"

definition filepath_base :: "string \<Rightarrow> string" where
  "filepath_base s =
     (if s = [] then ''.''
      else let t = rev (dropWhile (\<lambda>c. c = CHR ''/'') (rev s));
               b = rev (takeWhile (\<lambda>c. c \<noteq> CHR ''/'') (rev t))
           in if b = [] then ''/'' else b)"

definition abs_dir :: "apath \<Rightarrow> apath" where
  "abs_dir p = butlast p"

definition abs_base :: "apath \<Rightarrow> string" where
  "abs_base p = (if p = [] then ''/'' else last p)"

text \<open>
  \<open>filepath.Rel(base, targ)\<close> for two absolute paths: it never fails on them (its error
  cases need a relative argument or a base that starts with \<open>..\<close>).
\<close>

fun rel_comps :: "apath \<Rightarrow> apath \<Rightarrow> string list" where
  "rel_comps (b # bs) (t # ts) =
     (if b = t then rel_comps bs ts else replicate (Suc (length bs)) ''..'' @ t # ts)"
| "rel_comps bs ts = replicate (length bs) ''..'' @ ts"

definition filepath_rel :: "apath \<Rightarrow> apath \<Rightarrow> string" where
  "filepath_rel base targ = (if base = targ then ''.'' else slash_join (rel_comps base targ))"

subsection \<open>Cleaning\<close>

lemma name_ok_not_special:
  "name_ok x \<Longrightarrow> x \<noteq> [] \<and> x \<noteq> ''.'' \<and> x \<noteq> ''..'' \<and> CHR ''/'' \<notin> set x"
  by (simp add: name_ok_def)

lemma clean_acc_simps [simp]:
  "clean_acc r acc [] = acc"
  "clean_acc r acc (c # cs) = clean_acc r (clean_step r acc c) cs"
  by (simp_all add: clean_acc_def)

lemma clean_acc_append: "clean_acc r acc (xs @ ys) = clean_acc r (clean_acc r acc xs) ys"
  by (simp add: clean_acc_def)

lemma clean_step_name [simp]: "name_ok c \<Longrightarrow> clean_step r acc c = c # acc"
  by (simp add: clean_step_def name_ok_def)

lemma clean_step_dot [simp]: "clean_step r acc ''.'' = acc" "clean_step r acc [] = acc"
  by (simp_all add: clean_step_def)

lemma component_cases:
  assumes "CHR ''/'' \<notin> set c"
  obtains (skip) "c = [] \<or> c = ''.''" | (up) "c = ''..''" | (name) "name_ok c"
  using assms by (auto simp: name_ok_def)

lemma clean_acc_names: "list_all name_ok cs \<Longrightarrow> clean_acc r acc cs = rev cs @ acc"
  by (induction cs arbitrary: acc) auto

text \<open>The shape of a cleaned relative path: some \<open>..\<close>, then names.\<close>

definition clean_form :: "string list \<Rightarrow> bool" where
  "clean_form acc \<longleftrightarrow> (\<exists>ns k. acc = ns @ replicate k ''..'' \<and> list_all name_ok ns)"

lemma clean_formI: "list_all name_ok ns \<Longrightarrow> clean_form (ns @ replicate k ''..'')"
  by (auto simp: clean_form_def)

lemma clean_form_Nil [simp]: "clean_form []"
  using clean_formI [of "[]" 0] by simp

lemma clean_form_dot1 [simp]: "clean_form [''..'']"
  using clean_formI [of "[]" 1] by simp

lemma clean_form_push: "name_ok x \<Longrightarrow> clean_form acc \<Longrightarrow> clean_form (x # acc)"
  unfolding clean_form_def by (metis append_Cons list.pred_inject(2))

lemma not_name_ok_dots [simp]: "\<not> name_ok ''..''" "\<not> name_ok ''.''" "\<not> name_ok []"
  by (simp_all add: name_ok_def)

lemma clean_form_Cons:
  "clean_form (a # acc) \<longleftrightarrow>
     (name_ok a \<and> clean_form acc) \<or> (a = ''..'' \<and> (\<exists>k. acc = replicate k ''..''))"
proof
  assume "clean_form (a # acc)"
  then obtain ns k where eq: "a # acc = ns @ replicate k ''..''" and ns: "list_all name_ok ns"
    by (auto simp: clean_form_def)
  show "(name_ok a \<and> clean_form acc) \<or> (a = ''..'' \<and> (\<exists>k. acc = replicate k ''..''))"
  proof (cases ns)
    case Nil
    with eq show ?thesis by (cases k) auto
  next
    case (Cons n ns')
    with eq ns show ?thesis by (auto intro: clean_formI)
  qed
next
  assume "(name_ok a \<and> clean_form acc) \<or> (a = ''..'' \<and> (\<exists>k. acc = replicate k ''..''))"
  then show "clean_form (a # acc)"
    using clean_formI [of "[]" "Suc k" for k] by (auto intro: clean_form_push)
qed

lemma clean_form_tail: "clean_form (a # acc) \<Longrightarrow> clean_form acc"
  using clean_formI [of "[]"] by (auto simp: clean_form_Cons)

lemma clean_step_form:
  "CHR ''/'' \<notin> set c \<Longrightarrow> clean_form acc \<Longrightarrow> clean_form (clean_step r acc c)"
  by (cases rule: component_cases [of c])
    (auto simp: clean_step_def clean_form_Cons replicate_Suc [symmetric]
      simp del: replicate_Suc split: list.splits intro: clean_form_push clean_form_tail)

lemma clean_acc_form:
  "clean_form acc \<Longrightarrow> \<forall>c \<in> set cs. CHR ''/'' \<notin> set c \<Longrightarrow> clean_form (clean_acc r acc cs)"
  by (induction cs arbitrary: acc) (auto intro: clean_step_form)

lemma split_no_slash: "\<forall>c \<in> set (slash_split s). CHR ''/'' \<notin> set c"
  using split_on_no_sep_elem by blast

lemma clean_rel_form: "clean_form (rev (clean_rel s))"
  unfolding clean_rel_def by (simp add: clean_acc_form split_no_slash)

text \<open>A cleaned relative path without a leading \<open>..\<close> consists of names only.\<close>

lemma clean_rel_names:
  assumes "clean_rel s = [] \<or> hd (clean_rel s) \<noteq> ''..''"
  shows "list_all name_ok (clean_rel s)"
proof -
  obtain ns k where eq: "rev (clean_rel s) = ns @ replicate k ''..''" and ns: "list_all name_ok ns"
    using clean_rel_form [of s] by (auto simp: clean_form_def)
  then have cs: "clean_rel s = replicate k ''..'' @ rev ns"
    by (metis rev_append rev_replicate rev_rev_ident)
  with assms have "k = 0" by (cases k) auto
  with cs ns show ?thesis by (simp add: list_all_rev)
qed

lemma clean_step_rooted_names:
  "CHR ''/'' \<notin> set c \<Longrightarrow> list_all name_ok acc \<Longrightarrow> list_all name_ok (clean_step True acc c)"
  by (cases rule: component_cases [of c]; cases acc) (auto simp: clean_step_def)

lemma clean_acc_rooted_names:
  "list_all name_ok acc \<Longrightarrow> \<forall>c \<in> set cs. CHR ''/'' \<notin> set c \<Longrightarrow>
   list_all name_ok (clean_acc True acc cs)"
  by (induction cs arbitrary: acc) (simp_all add: clean_step_rooted_names)

lemma join_abs_names: "list_all name_ok root \<Longrightarrow> list_all name_ok (join_abs root s)"
  unfolding join_abs_def
  by (simp add: list_all_rev clean_acc_rooted_names split_no_slash)

text \<open>Cleaning from a root sees only the cleaned relative path.\<close>

lemma clean_step_via_rel:
  assumes "CHR ''/'' \<notin> set c" "clean_form acc" "list_all name_ok A"
  shows "clean_step True (clean_acc True A (rev acc)) c = clean_acc True A (rev (clean_step False acc c))"
  using assms(1)
proof (cases rule: component_cases)
  case up
  show ?thesis
  proof (cases acc)
    case (Cons a acc')
    with assms(2) have "name_ok a \<or> a = ''..''" by (auto simp: clean_form_Cons)
    with up Cons show ?thesis by (auto simp: clean_step_def clean_acc_append)
  qed (use up in \<open>simp add: clean_step_def\<close>)
qed (auto simp: clean_acc_append)

lemma clean_acc_via_rel:
  "clean_form acc \<Longrightarrow> \<forall>c \<in> set cs. CHR ''/'' \<notin> set c \<Longrightarrow> list_all name_ok A \<Longrightarrow>
   clean_acc True (clean_acc True A (rev acc)) cs = clean_acc True A (rev (clean_acc False acc cs))"
proof (induction cs arbitrary: acc)
  case (Cons c cs)
  then have "clean_step True (clean_acc True A (rev acc)) c
      = clean_acc True A (rev (clean_step False acc c))"
    by (simp add: clean_step_via_rel)
  with Cons.IH [of "clean_step False acc c"] Cons.prems show ?case
    by (simp add: clean_step_form)
qed simp

lemma join_abs_clean:
  "list_all name_ok root \<Longrightarrow> join_abs root s = rev (clean_acc True (rev root) (clean_rel s))"
  using clean_acc_via_rel [of "[]" "slash_split s" "rev root"]
  by (simp add: join_abs_def clean_rel_def split_no_slash list_all_rev)

lemma join_abs_below:
  assumes "list_all name_ok root" "list_all name_ok (clean_rel s)"
  shows "join_abs root s = root @ clean_rel s"
  using assms by (simp add: join_abs_clean clean_acc_names)

subsection \<open>Strings of names\<close>

lemma slash_split_join:
  "cs \<noteq> [] \<Longrightarrow> list_all name_ok cs \<Longrightarrow> slash_split (slash_join cs) = cs"
  by (rule split_join) (auto simp: list_all_iff name_ok_def)

lemma clean_rel_join: "list_all name_ok cs \<Longrightarrow> clean_rel (slash_join cs) = cs"
  by (cases "cs = []") (simp_all add: clean_rel_def slash_split_join clean_acc_names)

lemma clean_rel_dot [simp]: "clean_rel ''.'' = []"
  by (simp add: clean_rel_def)

lemma clean_rel_empty [simp]: "clean_rel [] = []"
  by (simp add: clean_rel_def)

lemma join_abs_join:
  "list_all name_ok root \<Longrightarrow> list_all name_ok cs \<Longrightarrow> join_abs root (slash_join cs) = root @ cs"
  by (simp add: join_abs_below clean_rel_join)

lemma is_abs_join: "list_all name_ok cs \<Longrightarrow> \<not> is_abs (slash_join cs)"
proof (cases cs)
  case (Cons x xs)
  assume "list_all name_ok cs"
  then have "x \<noteq> []" "CHR ''/'' \<notin> set x" by (auto simp: Cons name_ok_def)
  then show ?thesis by (cases x; cases xs) (auto simp: Cons is_abs_def has_prefix_iff)
qed (simp add: is_abs_def has_prefix_iff)

lemma rel_comps_below: "rel_comps base (base @ rs) = rs"
  by (induction base) (cases rs; simp)+

lemma filepath_rel_below:
  "filepath_rel base (base @ rs) = (if rs = [] then ''.'' else slash_join rs)"
  by (simp add: filepath_rel_def rel_comps_below)

lemma join_abs_rel:
  "list_all name_ok root \<Longrightarrow> list_all name_ok base \<Longrightarrow> list_all name_ok rs \<Longrightarrow>
   join_abs root (filepath_rel base (base @ rs)) = root @ rs"
  by (simp add: filepath_rel_below join_abs_join join_abs_below)

text \<open>\<open>Join(dst, rel)\<close> of a destination that stays inside, and the comps of the result.\<close>

lemma slash_split_app: "slash_split (a @ ''/'' @ b) = slash_split a @ slash_split b"
  using split_on_sep [of "CHR ''/''" a b] by simp

lemma is_abs_Cons [simp]: "is_abs (c # s) \<longleftrightarrow> c = CHR ''/''"
  by (auto simp: is_abs_def has_prefix_def)

lemma is_abs_Nil [simp]: "\<not> is_abs []"
  by (simp add: is_abs_def has_prefix_def)

lemma filepath_join_names:
  assumes "\<not> is_abs dst" "list_all name_ok (clean_rel dst)" "list_all name_ok rs" "rs \<noteq> []"
  shows "filepath_join dst (slash_join rs) = slash_join (clean_rel dst @ rs)"
proof (cases "dst = []")
  case True
  have "slash_join rs \<noteq> []"
    using slash_split_join [OF assms(4,3)] assms(3,4) by (auto simp: name_ok_def)
  with True assms show ?thesis
    by (simp add: filepath_join_def filepath_clean_def clean_rel_join is_abs_join)
next
  case False
  then have nabs: "\<not> is_abs (dst @ ''/'' @ slash_join rs)" using assms(1) by (cases dst) auto
  have "clean_rel (dst @ ''/'' @ slash_join rs) = clean_rel dst @ rs"
  proof -
    have "clean_acc False [] (slash_split (dst @ ''/'' @ slash_join rs))
        = clean_acc False (clean_acc False [] (slash_split dst)) rs"
      unfolding slash_split_app clean_acc_append slash_split_join [OF assms(4,3)] ..
    also have "\<dots> = rev rs @ clean_acc False [] (slash_split dst)"
      by (rule clean_acc_names [OF assms(3)])
    finally show ?thesis by (simp add: clean_rel_def)
  qed
  with nabs False assms(4) show ?thesis by (simp add: filepath_join_def filepath_clean_def)
qed

end
