(* ===== verification/FileSys.thy ===== *)
theory FileSys
  imports GoPath
begin

section \<open>The file system as package os shows it\<close>

text \<open>
  A store maps absolute paths to nodes; the root is always a directory. The world adds the log
  of the mutating system calls made so far (so that a crash between two of them is a prefix of
  the log), the source of the random numbers \<open>os.CreateTemp\<close> puts in a name, and the buffer
  size of \<open>io.Copy\<close>. Every operation below is the effect and the error of one function of
  package os on such a store. A symbolic link is followed where the function follows it at the
  end of a path; a link that stands for a directory inside a path is not traversed (the path
  then ends in \<open>ENOTDIR\<close>), and spontaneous I/O faults are not modelled.
\<close>

datatype node = File string nat | Dir | Link apath

datatype kind = KFile | KDir | KLink

fun kind_of :: "node \<Rightarrow> kind" where
  "kind_of (File _ _) = KFile"
| "kind_of Dir = KDir"
| "kind_of (Link _) = KLink"

type_synonym fs = "(apath, node) gomap"

definition node_at :: "fs \<Rightarrow> apath \<Rightarrow> node option" where
  "node_at m p = (if p = [] then Some Dir else mget m p)"

text \<open>A well-formed store: one node for each path, valid names, every node inside a directory.\<close>

definition fs_ok :: "fs \<Rightarrow> bool" where
  "fs_ok m \<longleftrightarrow> mwf m \<and>
     (\<forall>p \<in> set (mkeys m). p = [] \<or> (list_all name_ok p \<and> node_at m (butlast p) = Some Dir))"

datatype sysop = SetNode apath node | DelNode apath | DelTree apath | Move apath apath

definition del_tree :: "fs \<Rightarrow> apath \<Rightarrow> fs" where
  "del_tree m p = filter (\<lambda>(q, _). \<not> prefix p q) m"

fun apply_op :: "sysop \<Rightarrow> fs \<Rightarrow> fs" where
  "apply_op (SetNode p n) m = mput m p n"
| "apply_op (DelNode p) m = mdel m p"
| "apply_op (DelTree p) m = del_tree m p"
| "apply_op (Move s d) m = (case mget m s of None \<Rightarrow> m | Some n \<Rightarrow> mput (mdel m s) d n)"

fun replay :: "sysop list \<Rightarrow> fs \<Rightarrow> fs" where
  "replay [] m = m"
| "replay (x # xs) m = replay xs (apply_op x m)"

record world =
  store :: fs
  oplog :: "sysop list"
  rng :: "nat \<Rightarrow> nat"
  rpos :: nat
  iobuf :: nat

definition sys :: "sysop \<Rightarrow> world \<Rightarrow> world" where
  "sys x w = w\<lparr>store := apply_op x (store w), oplog := oplog w @ [x]\<rparr>"

abbreviation nodew :: "world \<Rightarrow> apath \<Rightarrow> node option" where
  "nodew w p \<equiv> node_at (store w) p"

subsection \<open>Reading\<close>

definition non_dir :: "node option \<Rightarrow> bool" where
  "non_dir n = (case n of None \<Rightarrow> False | Some Dir \<Rightarrow> False | Some _ \<Rightarrow> True)"

text \<open>Why a path has no node: a component on the way is not a directory, or it is missing.\<close>

definition missing_errno :: "fs \<Rightarrow> apath \<Rightarrow> errno" where
  "missing_errno m p =
     (if \<exists>q \<in> set (prefixes (butlast p)). non_dir (node_at m q) then ENOTDIR else ENOENT)"

definition lstat :: "fs \<Rightarrow> apath \<Rightarrow> node res" where
  "lstat m p = (case node_at m p of
      Some n \<Rightarrow> Inr n
    | None \<Rightarrow> Inl (PathError ''lstat'' p (missing_errno m p)))"

fun follow :: "nat \<Rightarrow> string \<Rightarrow> fs \<Rightarrow> apath \<Rightarrow> apath res" where
  "follow 0 op m p = Inl (PathError op p ELOOP)"
| "follow (Suc n) op m p = (case node_at m p of
      None \<Rightarrow> Inl (PathError op p (missing_errno m p))
    | Some (Link t) \<Rightarrow> follow n op m t
    | Some _ \<Rightarrow> Inr p)"

definition max_links :: nat where
  "max_links = 40"

definition stat :: "fs \<Rightarrow> apath \<Rightarrow> node res" where
  "stat m p = (case follow max_links ''stat'' m p of
      Inl e \<Rightarrow> Inl e
    | Inr q \<Rightarrow> lstat m q)"

definition children :: "fs \<Rightarrow> apath \<Rightarrow> string list" where
  "children m p = sort (remdups (map (\<lambda>(q, _). last q) (filter (\<lambda>(q, _). q \<noteq> [] \<and> butlast q = p) m)))"

definition dir_entries :: "fs \<Rightarrow> apath \<Rightarrow> (string \<times> kind) list" where
  "dir_entries m p =
     map (\<lambda>x. (x, case node_at m (p @ [x]) of None \<Rightarrow> KFile | Some n \<Rightarrow> kind_of n)) (children m p)"

text \<open>\<open>os.ReadDir\<close>: the entries sorted by name.\<close>

definition read_dir :: "fs \<Rightarrow> apath \<Rightarrow> (string \<times> kind) list res" where
  "read_dir m p = (case follow max_links ''open'' m p of
      Inl e \<Rightarrow> Inl e
    | Inr q \<Rightarrow> if node_at m q = Some Dir then Inr (dir_entries m q)
               else Inl (PathError ''readdirent'' p ENOTDIR))"

definition read_file :: "fs \<Rightarrow> apath \<Rightarrow> string res" where
  "read_file m p = (case follow max_links ''open'' m p of
      Inl e \<Rightarrow> Inl e
    | Inr q \<Rightarrow> (case node_at m q of
          Some (File c _) \<Rightarrow> Inr c
        | _ \<Rightarrow> Inl (PathError ''read'' p EISDIR)))"

subsection \<open>Writing\<close>

text \<open>The loop of \<open>os.MkdirAll\<close> over the ancestors of a path, from the root down.\<close>

fun mkdir_rec :: "apath \<Rightarrow> string list \<Rightarrow> world \<Rightarrow> goerror option \<times> world" where
  "mkdir_rec pre [] w = (None, w)"
| "mkdir_rec pre (x # r) w =
     (let q = pre @ [x] in
      case nodew w q of
        Some Dir \<Rightarrow> mkdir_rec q r w
      | None \<Rightarrow> mkdir_rec q r (sys (SetNode q Dir) w)
      | Some _ \<Rightarrow> (Some (PathError ''mkdir'' q (if r = [] then EEXIST else ENOTDIR)), w))"

definition mkdir_all :: "apath \<Rightarrow> world \<Rightarrow> goerror option \<times> world" where
  "mkdir_all p w = (case stat (store w) p of
      Inr Dir \<Rightarrow> (None, w)
    | Inr _ \<Rightarrow> (Some (PathError ''mkdir'' p ENOTDIR), w)
    | Inl _ \<Rightarrow> mkdir_rec [] p w)"

definition remove_all :: "apath \<Rightarrow> world \<Rightarrow> goerror option \<times> world" where
  "remove_all p w =
     (if nodew w p = None \<and> missing_errno (store w) p = ENOTDIR
      then (Some (PathError ''open'' (abs_dir p) ENOTDIR), w)
      else (None, sys (DelTree p) w))"

definition remove :: "apath \<Rightarrow> world \<Rightarrow> goerror option \<times> world" where
  "remove p w = (case nodew w p of
      None \<Rightarrow> (Some (PathError ''remove'' p (missing_errno (store w) p)), w)
    | Some Dir \<Rightarrow> if children (store w) p \<noteq> [] \<or> p = []
                  then (Some (PathError ''remove'' p ENOTEMPTY), w)
                  else (None, sys (DelNode p) w)
    | Some _ \<Rightarrow> (None, sys (DelNode p) w))"

text \<open>Renaming a file (the only renames of the source): the target may be missing or a file.\<close>

definition rename_file :: "apath \<Rightarrow> apath \<Rightarrow> world \<Rightarrow> goerror option \<times> world" where
  "rename_file s d w =
     (if nodew w s = None then (Some (PathError ''rename'' s (missing_errno (store w) s)), w)
      else if nodew w d = Some Dir then (Some (PathError ''rename'' d EISDIR), w)
      else if nodew w (abs_dir d) \<noteq> Some Dir
      then (Some (PathError ''rename'' d (missing_errno (store w) d)), w)
      else (None, sys (Move s d) w))"

text \<open>\<open>os.WriteFile\<close>: truncate an existing file or create one, then write.\<close>

definition write_file :: "apath \<Rightarrow> string \<Rightarrow> nat \<Rightarrow> world \<Rightarrow> goerror option \<times> world" where
  "write_file p c perm w = (case follow max_links ''open'' (store w) p of
      Inr q \<Rightarrow> (case nodew w q of
          Some (File _ mode) \<Rightarrow> (None, sys (SetNode q (File c mode)) (sys (SetNode q (File [] mode)) w))
        | _ \<Rightarrow> (Some (PathError ''open'' p EISDIR), w))
    | Inl e \<Rightarrow>
        if nodew w p = None \<and> nodew w (abs_dir p) = Some Dir
        then (None, sys (SetNode p (File c perm)) (sys (SetNode p (File [] perm)) w))
        else (Some e, w))"

text \<open>
  \<open>os.CreateTemp(dir, base)\<close> with the pattern \<open>base*\<close>: a random number until the name is
  free, at most 10000 times; the file is created empty with mode 0600 (384 in decimal).
\<close>

fun create_temp_try :: "nat \<Rightarrow> apath \<Rightarrow> string \<Rightarrow> world \<Rightarrow> apath res \<times> world" where
  "create_temp_try 0 dir base w = (Inl (PathError ''createtemp'' (dir @ [base]) EEXIST), w)"
| "create_temp_try (Suc n) dir base w =
     (let p = dir @ [base @ nat_digits (rng w (rpos w))];
          w1 = w\<lparr>rpos := Suc (rpos w)\<rparr>
      in if nodew w p = None then (Inr p, sys (SetNode p (File [] 384)) w1)
         else create_temp_try n dir base w1)"

definition create_temp :: "apath \<Rightarrow> string \<Rightarrow> world \<Rightarrow> apath res \<times> world" where
  "create_temp dir base w =
     (if nodew w dir \<noteq> Some Dir \<or> CHR ''/'' \<in> set base
      then (Inl (PathError ''createtemp'' (dir @ [base]) EINVAL), w)
      else create_temp_try 10000 dir base w)"

text \<open>\<open>io.Copy\<close> appends to the open file what the buffer holds, until the source is read.\<close>

function chunks_of :: "nat \<Rightarrow> 'a list \<Rightarrow> 'a list list" where
  "chunks_of n xs = (if xs = [] then [] else take (Suc n) xs # chunks_of n (drop (Suc n) xs))"
  by pat_completeness auto
termination
  by (relation "measure (\<lambda>(n, xs). length xs)") auto

declare chunks_of.simps [simp del]

fun append_chunks :: "apath \<Rightarrow> string list \<Rightarrow> world \<Rightarrow> world" where
  "append_chunks p [] w = w"
| "append_chunks p (c # cs) w = (case nodew w p of
      Some (File d mode) \<Rightarrow> append_chunks p cs (sys (SetNode p (File (d @ c) mode)) w)
    | _ \<Rightarrow> w)"

definition io_copy :: "apath \<Rightarrow> string \<Rightarrow> world \<Rightarrow> world" where
  "io_copy p c w = append_chunks p (chunks_of (iobuf w) c) w"

definition chmod :: "apath \<Rightarrow> nat \<Rightarrow> world \<Rightarrow> goerror option \<times> world" where
  "chmod p mode w = (case nodew w p of
      Some (File c _) \<Rightarrow> (None, sys (SetNode p (File c mode)) w)
    | Some _ \<Rightarrow> (None, w)
    | None \<Rightarrow> (Some (PathError ''chmod'' p (missing_errno (store w) p)), w))"

subsection \<open>Lookup after one system call\<close>

lemma node_at_Nil [simp]: "node_at m [] = Some Dir"
  by (simp add: node_at_def)

lemma node_at_mput [fs_simps]:
  "node_at (mput m p n) q = (if q \<noteq> [] \<and> q = p then Some n else node_at m q)"
  by (auto simp: node_at_def)

lemma node_at_mdel [fs_simps]:
  "node_at (mdel m p) q = (if q \<noteq> [] \<and> q = p then None else node_at m q)"
  by (auto simp: node_at_def)

lemma mget_filter_key:
  "mget (filter (\<lambda>(k, _). P k) m) k = (if P k then mget m k else None)"
  by (induction m) auto

lemma node_at_del_tree [fs_simps]:
  "node_at (del_tree m p) q = (if q \<noteq> [] \<and> prefix p q then None else node_at m q)"
  by (auto simp: node_at_def del_tree_def mget_filter_key)

lemma store_sys [simp]: "store (sys x w) = apply_op x (store w)"
  by (simp add: sys_def)

lemma oplog_sys [simp]: "oplog (sys x w) = oplog w @ [x]"
  by (simp add: sys_def)

lemma sys_simps [simp]: "rng (sys x w) = rng w" "rpos (sys x w) = rpos w" "iobuf (sys x w) = iobuf w"
  by (simp_all add: sys_def)

lemma replay_append: "replay (xs @ ys) m = replay ys (replay xs m)"
  by (induction xs arbitrary: m) auto

subsection \<open>Well-formed stores\<close>

lemma fs_okD:
  assumes "fs_ok m" "node_at m p \<noteq> None" "p \<noteq> []"
  shows "list_all name_ok p" "node_at m (butlast p) = Some Dir"
proof -
  have "p \<in> set (mkeys m)" using assms(2,3) by (simp add: in_mkeys_iff node_at_def)
  with assms(1) show "list_all name_ok p" "node_at m (butlast p) = Some Dir"
    by (auto simp: fs_ok_def)
qed

lemma fs_ok_names: "fs_ok m \<Longrightarrow> node_at m p \<noteq> None \<Longrightarrow> list_all name_ok p"
  by (cases "p = []") (auto dest: fs_okD)

lemma fs_ok_parent: "fs_ok m \<Longrightarrow> node_at m (p @ [x]) \<noteq> None \<Longrightarrow> node_at m p = Some Dir"
  using fs_okD(2) [of m "p @ [x]"] by simp

lemma fs_ok_ancestor:
  "fs_ok m \<Longrightarrow> node_at m (p @ q) \<noteq> None \<Longrightarrow> q \<noteq> [] \<Longrightarrow> node_at m p = Some Dir"
proof (induction q rule: rev_induct)
  case (snoc x q)
  then have "node_at m (p @ q) = Some Dir"
    using fs_ok_parent [of m "p @ q" x] by simp
  with snoc show ?case by (cases "q = []") auto
qed simp

lemma fs_ok_prefix:
  "fs_ok m \<Longrightarrow> node_at m q \<noteq> None \<Longrightarrow> strict_prefix p q \<Longrightarrow> node_at m p = Some Dir"
  by (auto elim!: strict_prefixE' intro: fs_ok_ancestor)

lemma fs_okI:
  assumes "mwf m"
    and "\<And>p. p \<noteq> [] \<Longrightarrow> node_at m p \<noteq> None \<Longrightarrow> list_all name_ok p \<and> node_at m (butlast p) = Some Dir"
  shows "fs_ok m"
  unfolding fs_ok_def
proof (intro conjI ballI)
  fix p assume p: "p \<in> set (mkeys m)"
  show "p = [] \<or> (list_all name_ok p \<and> node_at m (butlast p) = Some Dir)"
  proof (cases "p = []")
    case False
    with p have "node_at m p \<noteq> None" by (simp add: in_mkeys_iff node_at_def)
    with assms(2) [OF False] show ?thesis by simp
  qed simp
qed (rule assms(1))

lemma fs_ok_mwf: "fs_ok m \<Longrightarrow> mwf m"
  by (simp add: fs_ok_def)

lemma mwf_del_tree: "mwf m \<Longrightarrow> mwf (del_tree m p)"
  by (auto simp: mwf_def mkeys_def del_tree_def distinct_map_filter)

lemma mwf_apply_op: "mwf m \<Longrightarrow> mwf (apply_op x m)"
  by (cases x) (auto simp: gm.wf_put gm.wf_del mwf_del_tree split: option.splits)

text \<open>Each system call keeps a well-formed store well formed, under its own guard.\<close>

lemma fs_ok_SetNode:
  assumes "fs_ok m" "p \<noteq> []" "list_all name_ok p" "node_at m (butlast p) = Some Dir"
    and "n = Dir \<or> node_at m p \<noteq> Some Dir"
  shows "fs_ok (mput m p n)"
proof (rule fs_okI)
  show "mwf (mput m p n)" using assms(1) by (simp add: fs_ok_mwf gm.wf_put)
  fix q assume q: "q \<noteq> []" "node_at (mput m p n) q \<noteq> None"
  have neq: "butlast p \<noteq> p" using assms(2) by (metis append_butlast_last_id not_Cons_self2 self_append_conv)
  show "list_all name_ok q \<and> node_at (mput m p n) (butlast q) = Some Dir"
  proof (cases "q = p")
    case True
    with assms neq show ?thesis by (simp add: node_at_mput)
  next
    case False
    with q have "node_at m q \<noteq> None" by (simp add: node_at_mput)
    with q assms(1) have "list_all name_ok q" "node_at m (butlast q) = Some Dir"
      by (auto dest: fs_okD)
    with assms(5) show ?thesis by (auto simp: node_at_mput)
  qed
qed

lemma fs_ok_DelNode:
  assumes "fs_ok m" "\<And>x. node_at m (p @ [x]) = None"
  shows "fs_ok (mdel m p)"
proof (rule fs_okI)
  show "mwf (mdel m p)" using assms(1) by (simp add: fs_ok_mwf gm.wf_del)
  fix q assume q: "q \<noteq> []" "node_at (mdel m p) q \<noteq> None"
  then have n: "node_at m q \<noteq> None" by (auto simp: node_at_mdel split: if_splits)
  then have "butlast q \<noteq> p" using assms(2) q(1) by (metis append_butlast_last_id)
  with n q(1) assms(1) show "list_all name_ok q \<and> node_at (mdel m p) (butlast q) = Some Dir"
    by (auto dest: fs_okD simp: node_at_mdel)
qed

lemma fs_ok_del_tree:
  assumes "fs_ok m"
  shows "fs_ok (del_tree m p)"
proof (rule fs_okI)
  show "mwf (del_tree m p)" using assms by (simp add: fs_ok_mwf mwf_del_tree)
  fix q assume q: "q \<noteq> []" "node_at (del_tree m p) q \<noteq> None"
  then have n: "node_at m q \<noteq> None" "\<not> prefix p q"
    by (auto simp: node_at_del_tree split: if_splits)
  then have "\<not> prefix p (butlast q)" using prefix_order.trans prefixeq_butlast by blast
  with n q(1) assms show "list_all name_ok q \<and> node_at (del_tree m p) (butlast q) = Some Dir"
    by (auto dest: fs_okD simp: node_at_del_tree)
qed

subsection \<open>Directory listings\<close>

lemma set_children: "fs_ok m \<Longrightarrow> set (children m p) = {x. node_at m (p @ [x]) \<noteq> None}"
proof (intro set_eqI iffI)
  fix x assume ok: "fs_ok m" and "x \<in> set (children m p)"
  then obtain q n where q: "(q, n) \<in> set m" "q \<noteq> []" "butlast q = p" "last q = x"
    by (auto simp: children_def)
  then have "q = p @ [x]" by (metis append_butlast_last_id)
  moreover have "q \<in> set (mkeys m)" using q(1) by (force simp: mkeys_def)
  ultimately show "x \<in> {x. node_at m (p @ [x]) \<noteq> None}" by (simp add: in_mkeys_iff node_at_def)
next
  fix x assume "fs_ok m" "x \<in> {x. node_at m (p @ [x]) \<noteq> None}"
  then have "p @ [x] \<in> set (mkeys m)" by (simp add: in_mkeys_iff node_at_def)
  then obtain n where "(p @ [x], n) \<in> set m" by (auto simp: mkeys_def)
  then show "x \<in> set (children m p)" by (force simp: children_def)
qed

lemma children_sorted [simp]: "sorted (children m p)" "distinct (children m p)"
  by (simp_all add: children_def)

lemma children_cong:
  assumes "fs_ok m" "fs_ok m'" "\<And>x. node_at m (p @ [x]) = node_at m' (p @ [x])"
  shows "children m p = children m' p"
  by (rule sorted_distinct_eqI) (simp_all add: set_children assms)

lemma dir_entries_cong:
  assumes "fs_ok m" "fs_ok m'" "\<And>x. node_at m (p @ [x]) = node_at m' (p @ [x])"
  shows "dir_entries m p = dir_entries m' p"
  by (simp add: dir_entries_def children_cong [OF assms] assms(3))

lemma set_dir_entries:
  "fs_ok m \<Longrightarrow> (x, k) \<in> set (dir_entries m p) \<longleftrightarrow> (\<exists>n. node_at m (p @ [x]) = Some n \<and> k = kind_of n)"
  by (auto simp: dir_entries_def set_children)

lemma max_links_pos [simp]: "0 < max_links"
  by (simp add: max_links_def)

lemma follow_plain:
  "0 < n \<Longrightarrow> node_at m p = Some d \<Longrightarrow> kind_of d \<noteq> KLink \<Longrightarrow> follow n op m p = Inr p"
  by (cases n; cases d) simp_all

lemma read_dir_Dir: "node_at m p = Some Dir \<Longrightarrow> read_dir m p = Inr (dir_entries m p)"
  by (simp add: read_dir_def follow_plain)

lemma stat_plain: "node_at m p = Some n \<Longrightarrow> kind_of n \<noteq> KLink \<Longrightarrow> stat m p = Inr n"
  by (simp add: stat_def follow_plain lstat_def)

lemma read_file_File: "node_at m p = Some (File c d) \<Longrightarrow> read_file m p = Inr c"
  by (simp add: read_file_def follow_plain)

lemma follow_missing: "node_at m p = None \<Longrightarrow> \<exists>e. follow n op m p = Inl e"
  by (cases n) auto

lemma stat_missing: "node_at m p = None \<Longrightarrow> \<exists>e. stat m p = Inl e"
  using follow_missing [of m p max_links "''stat''"] by (auto simp: stat_def)

end
