(* ===== verification/FileOps.thy ===== *)
theory FileOps
  imports FileSys
begin

section \<open>What each file operation does to the store\<close>

text \<open>
  For every operation of \<open>FileSys\<close>: which nodes it changes, that it keeps the store well
  formed, and through which intermediate stores it goes. The last is the predicate
  \<open>runs_through P w w'\<close>: the world \<open>w'\<close> comes from \<open>w\<close> by system calls, and the store
  satisfies \<open>P\<close> before the first, between any two and after the last of them. A process that
  dies in the middle leaves one of these stores behind.
\<close>

definition runs_through :: "(fs \<Rightarrow> bool) \<Rightarrow> world \<Rightarrow> world \<Rightarrow> bool" where
  "runs_through P w w' \<longleftrightarrow> (\<exists>ops. oplog w' = oplog w @ ops \<and>
     (\<forall>k \<le> length ops. P (replay (take k ops) (store w))) \<and> store w' = replay ops (store w))"

lemma runs_through_refl: "P (store w) \<Longrightarrow> oplog w' = oplog w \<Longrightarrow> store w' = store w \<Longrightarrow> runs_through P w w'"
  unfolding runs_through_def by (rule exI [of _ "[]"]) simp

lemma runs_through_step: "P (store w) \<Longrightarrow> P (apply_op x (store w)) \<Longrightarrow> runs_through P w (sys x w)"
  unfolding runs_through_def by (rule exI [of _ "[x]"]) (auto simp: le_Suc_eq)

lemma runs_through_trans:
  assumes "runs_through P u v" "runs_through P v w"
  shows "runs_through P u w"
proof -
  obtain xs where xs: "oplog v = oplog u @ xs" "store v = replay xs (store u)"
      "\<forall>k \<le> length xs. P (replay (take k xs) (store u))"
    using assms(1) by (auto simp: runs_through_def)
  obtain ys where ys: "oplog w = oplog v @ ys" "store w = replay ys (store v)"
      "\<forall>k \<le> length ys. P (replay (take k ys) (store v))"
    using assms(2) by (auto simp: runs_through_def)
  have "P (replay (take k (xs @ ys)) (store u))" if "k \<le> length (xs @ ys)" for k
  proof (cases "k \<le> length xs")
    case True
    with xs(3) show ?thesis by simp
  next
    case False
    with that have "k - length xs \<le> length ys" by simp
    with ys(3) have "P (replay (take (k - length xs) ys) (store v))" by blast
    with False show ?thesis by (simp add: replay_append xs(2))
  qed
  with xs ys show ?thesis
    unfolding runs_through_def by (intro exI [of _ "xs @ ys"]) (simp add: replay_append)
qed

lemma runs_through_final: "runs_through P w w' \<Longrightarrow> P (store w')"
  unfolding runs_through_def by (metis order_refl take_all)

lemma runs_through_initial: "runs_through P w w' \<Longrightarrow> P (store w)"
  unfolding runs_through_def using le0 by (metis replay.simps(1) take0)

lemma runs_through_mono: "runs_through P w w' \<Longrightarrow> (\<And>m. P m \<Longrightarrow> Q m) \<Longrightarrow> runs_through Q w w'"
  unfolding runs_through_def by blast

lemma runs_through_prefix:
  "runs_through P w w' \<Longrightarrow> n \<le> length (oplog w') - length (oplog w) \<Longrightarrow>
   P (replay (take n (drop (length (oplog w)) (oplog w'))) (store w))"
  unfolding runs_through_def by auto

subsection \<open>Creating directories\<close>

definition mk_effect :: "apath \<Rightarrow> world \<Rightarrow> world \<Rightarrow> bool" where
  "mk_effect p w w' \<longleftrightarrow> (\<forall>q. nodew w' q = nodew w q \<or>
     (nodew w q = None \<and> nodew w' q = Some Dir \<and> prefix q p))"

lemma mk_effect_refl [simp]: "mk_effect p w w"
  by (simp add: mk_effect_def)

lemma mkdir_rec_effect:
  "mkdir_rec pre r w = (e, w') \<Longrightarrow> mk_effect (pre @ r) w w'"
proof (induction pre r w rule: mkdir_rec.induct)
  case (2 pre x r w)
  let ?q = "pre @ [x]"
  show ?case
  proof (cases "nodew w ?q")
    case None
    with 2 have IH: "mk_effect (?q @ r) (sys (SetNode ?q Dir) w) w'" by (simp add: Let_def)
    show ?thesis unfolding mk_effect_def
    proof
      fix q
      from IH have "nodew w' q = nodew (sys (SetNode ?q Dir) w) q \<or>
          (nodew (sys (SetNode ?q Dir) w) q = None \<and> nodew w' q = Some Dir \<and> prefix q (?q @ r))"
        unfolding mk_effect_def by blast
      with None show "nodew w' q = nodew w q \<or>
          (nodew w q = None \<and> nodew w' q = Some Dir \<and> prefix q (pre @ x # r))"
        by (auto simp: node_at_mput split: if_splits)
    qed
  next
    case (Some n)
    with 2 show ?thesis by (cases n) (auto simp: Let_def)
  qed
qed simp

lemma mkdir_rec_fs_ok:
  "mkdir_rec pre r w = (e, w') \<Longrightarrow> fs_ok (store w) \<Longrightarrow> nodew w pre = Some Dir \<Longrightarrow>
   list_all name_ok (pre @ r) \<Longrightarrow> fs_ok (store w')"
proof (induction pre r w rule: mkdir_rec.induct)
  case (2 pre x r w)
  let ?q = "pre @ [x]"
  show ?case
  proof (cases "nodew w ?q")
    case None
    have ok: "fs_ok (store (sys (SetNode ?q Dir) w))"
      using 2(4-6) by (simp add: fs_ok_SetNode)
    with None 2 show ?thesis by (simp add: Let_def node_at_mput)
  next
    case (Some n)
    with 2 show ?thesis by (cases n) (auto simp: Let_def)
  qed
qed simp

lemma mkdir_rec_dirs:
  "mkdir_rec pre r w = (None, w') \<Longrightarrow> nodew w pre = Some Dir \<Longrightarrow>
   prefix pre q \<Longrightarrow> prefix q (pre @ r) \<Longrightarrow> nodew w' q = Some Dir"
proof (induction pre r w rule: mkdir_rec.induct)
  case (1 pre w)
  then have "q = pre" by (simp add: prefix_order.antisym)
  with 1 show ?case by simp
next
  case (2 pre x r w)
  let ?q = "pre @ [x]"
  have keep: "mk_effect (?q @ r) v w' \<Longrightarrow> nodew v pre = Some Dir \<Longrightarrow> nodew w' pre = Some Dir" for v
    unfolding mk_effect_def by (metis option.distinct(1))
  have pq: "q = pre \<or> prefix ?q q"
    using 2(5,6) by (auto simp: prefix_def append_eq_append_conv2 Cons_eq_append_conv)
  show ?case
  proof (cases "nodew w ?q")
    case None
    then have run: "mkdir_rec ?q r (sys (SetNode ?q Dir) w) = (None, w')"
      using 2(3) by (simp add: Let_def)
    have "nodew w' pre = Some Dir"
      using keep [OF mkdir_rec_effect [OF run]] 2(4) by (auto simp: node_at_mput)
    moreover have "prefix ?q q \<Longrightarrow> nodew w' q = Some Dir"
      using 2(1) [OF refl] None run 2(6) by (simp add: node_at_mput)
    ultimately show ?thesis using pq by auto
  next
    case (Some n)
    with 2(3) have run: "n = Dir" "mkdir_rec ?q r w = (None, w')"
      by (cases n; simp add: Let_def)+
    have "nodew w' pre = Some Dir" using keep [OF mkdir_rec_effect [OF run(2)]] 2(4) by simp
    moreover have "prefix ?q q \<Longrightarrow> nodew w' q = Some Dir"
      using 2(2) [OF refl] Some run 2(6) by simp
    ultimately show ?thesis using pq by auto
  qed
qed

lemma mkdir_all_cases:
  assumes "mkdir_all p w = (e, w')"
  obtains (unchanged) "w' = w" "e = None \<Longrightarrow> stat (store w) p = Inr Dir"
  | (made) "mkdir_rec [] p w = (e, w')"
  using assms unfolding mkdir_all_def
  by (cases "stat (store w) p") (auto split: node.splits)

lemma mkdir_all_effect: "mkdir_all p w = (e, w') \<Longrightarrow> mk_effect p w w'"
  by (erule mkdir_all_cases) (auto dest: mkdir_rec_effect)

lemma mkdir_all_fs_ok:
  "mkdir_all p w = (e, w') \<Longrightarrow> fs_ok (store w) \<Longrightarrow> list_all name_ok p \<Longrightarrow> fs_ok (store w')"
  by (erule mkdir_all_cases) (auto dest: mkdir_rec_fs_ok)

lemma mkdir_all_dir:
  assumes "mkdir_all p w = (None, w')" "\<forall>t. nodew w p \<noteq> Some (Link t)" "prefix q p" "fs_ok (store w)"
  shows "nodew w' q = Some Dir"
  using assms(1)
proof (cases rule: mkdir_all_cases)
  case unchanged
  have st: "stat (store w) p = Inr Dir" using unchanged(2) by simp
  have dir: "nodew w p = Some Dir"
  proof (cases "nodew w p")
    case None
    then obtain e where "stat (store w) p = Inl e" using stat_missing by blast
    with st show ?thesis by simp
  next
    case (Some n)
    with assms(2) have "kind_of n \<noteq> KLink" by (cases n) auto
    with stat_plain [OF Some] st Some show ?thesis by simp
  qed
  show ?thesis
  proof (cases "q = p")
    case False
    with assms(3) have "strict_prefix q p" by (simp add: strict_prefix_def)
    then have "nodew w q = Some Dir" using fs_ok_prefix [OF assms(4), of p q] dir by simp
    with unchanged(1) show ?thesis by simp
  qed (use dir unchanged(1) in simp)
next
  case made
  show ?thesis by (rule mkdir_rec_dirs [OF made]) (use assms(3) in simp_all)
qed

lemma mk_effect_cases:
  assumes "mk_effect p w w'"
  obtains (same) "nodew w' q = nodew w q"
  | (made) "nodew w q = None" "nodew w' q = Some Dir" "prefix q p"
  using assms [unfolded mk_effect_def, rule_format, of q] same made
  by (elim disjE conjE) assumption+

lemma mk_effect_keeps: "mk_effect p w w' \<Longrightarrow> nodew w q \<noteq> None \<Longrightarrow> nodew w' q = nodew w q"
  by (erule mk_effect_cases [of p w w' q]) simp_all

lemma mk_effect_other: "mk_effect p w w' \<Longrightarrow> \<not> prefix q p \<Longrightarrow> nodew w' q = nodew w q"
  by (erule mk_effect_cases [of p w w' q]) simp_all

lemma mk_effect_kinds:
  "mk_effect p w w' \<Longrightarrow> nodew w' q = Some n \<Longrightarrow> n \<noteq> Dir \<Longrightarrow> nodew w q = Some n"
  by (erule mk_effect_cases [of p w w' q]) simp_all

subsection \<open>Temporary files and copying bytes\<close>

lemma create_temp_try_Inr:
  "create_temp_try n dir base w = (Inr p, w') \<Longrightarrow>
   \<exists>k. p = dir @ [base @ nat_digits k] \<and> nodew w p = None \<and>
     store w' = mput (store w) p (File [] 384) \<and> oplog w' = oplog w @ [SetNode p (File [] 384)]"
proof (induction n dir base w rule: create_temp_try.induct)
  case (2 n dir base w)
  then show ?case by (auto simp: Let_def split: if_splits)
qed simp

lemma create_temp_try_Inl:
  "create_temp_try n dir base w = (Inl e, w') \<Longrightarrow> store w' = store w \<and> oplog w' = oplog w"
proof (induction n dir base w rule: create_temp_try.induct)
  case (2 n dir base w)
  then show ?case by (auto simp: Let_def split: if_splits)
qed simp

lemma create_temp_Inr:
  assumes "create_temp dir base w = (Inr p, w')"
  obtains k where "p = dir @ [base @ nat_digits k]" "nodew w p = None" "nodew w dir = Some Dir"
    "store w' = mput (store w) p (File [] 384)" "oplog w' = oplog w @ [SetNode p (File [] 384)]"
    "CHR ''/'' \<notin> set base"
  using assms create_temp_try_Inr unfolding create_temp_def
  by (metis (no_types, lifting) Pair_inject sum.distinct(1))

lemma create_temp_Inl:
  "create_temp dir base w = (Inl e, w') \<Longrightarrow> store w' = store w \<and> oplog w' = oplog w"
  using create_temp_try_Inl unfolding create_temp_def by (auto split: if_splits)

lemma concat_chunks_of: "concat (chunks_of n xs) = xs"
proof (induction n xs rule: chunks_of.induct)
  case (1 n xs)
  then show ?case by (subst chunks_of.simps) (auto simp del: take_Suc_Cons drop_Suc_Cons)
qed

lemma append_chunks_node:
  "nodew w p = Some (File d m) \<Longrightarrow> p \<noteq> [] \<Longrightarrow>
   nodew (append_chunks p cs w) q = (if q = p then Some (File (d @ concat cs) m) else nodew w q)"
proof (induction cs arbitrary: w d)
  case (Cons c cs)
  show ?case
    using Cons.prems Cons.IH [of "sys (SetNode p (File (d @ c) m)) w" "d @ c"]
    by (simp add: node_at_mput)
qed simp

text \<open>A property of the store that no write or removal at a path can break.\<close>

definition stable :: "apath \<Rightarrow> (fs \<Rightarrow> bool) \<Rightarrow> bool" where
  "stable p P \<longleftrightarrow> (\<forall>m n. P m \<longrightarrow> P (mput m p n)) \<and> (\<forall>m. P m \<longrightarrow> P (mdel m p))"

lemma stable_put: "stable p P \<Longrightarrow> P m \<Longrightarrow> P (mput m p n)"
  by (simp add: stable_def)

lemma stable_del: "stable p P \<Longrightarrow> P m \<Longrightarrow> P (mdel m p)"
  by (simp add: stable_def)

lemma stable_node_at: "p \<noteq> q \<Longrightarrow> stable p (\<lambda>m. R (node_at m q))"
  by (simp add: stable_def node_at_mput node_at_mdel)

lemma stable_mwf: "stable p mwf"
  by (simp add: stable_def gm.wf_put gm.wf_del)

lemma mkdir_rec_runs:
  "(\<And>q. prefix q (pre @ r) \<Longrightarrow> stable q P) \<Longrightarrow> P (store w) \<Longrightarrow> mkdir_rec pre r w = (e, w') \<Longrightarrow>
   runs_through P w w'"
proof (induction pre r w rule: mkdir_rec.induct)
  case (1 pre w)
  then show ?case by (simp add: runs_through_refl)
next
  case (2 pre x r w)
  let ?q = "pre @ [x]"
  show ?case
  proof (cases "nodew w ?q")
    case None
    let ?w1 = "sys (SetNode ?q Dir) w"
    have P1: "P (store ?w1)" using 2(3) [of ?q] 2(4) by (simp add: stable_put)
    then have "runs_through P w ?w1" using 2(4) by (simp add: runs_through_step)
    moreover have "runs_through P ?w1 w'"
      using 2(1) [OF refl None] 2(3,5) P1 None by (simp add: Let_def)
    ultimately show ?thesis by (rule runs_through_trans)
  next
    case (Some n)
    show ?thesis
    proof (cases n)
      case Dir
      with 2(2) [OF refl] 2(3-5) Some show ?thesis by (simp add: Let_def)
    qed (use 2(4,5) Some in \<open>auto simp: Let_def runs_through_refl\<close>)
  qed
qed

lemma mkdir_all_runs:
  "(\<And>q. prefix q p \<Longrightarrow> stable q P) \<Longrightarrow> P (store w) \<Longrightarrow> mkdir_all p w = (e, w') \<Longrightarrow>
   runs_through P w w'"
  by (erule mkdir_all_cases) (auto intro: runs_through_refl mkdir_rec_runs [of "[]" p])

lemma runs_through_mwf: "runs_through P w w' \<Longrightarrow> mwf (store w) \<Longrightarrow> mwf (store w')"
proof -
  have "mwf m \<Longrightarrow> mwf (replay ops m)" for ops m
    by (induction ops arbitrary: m) (auto simp: mwf_apply_op)
  then show "runs_through P w w' \<Longrightarrow> mwf (store w) \<Longrightarrow> mwf (store w')"
    by (auto simp: runs_through_def)
qed

lemma append_chunks_runs:
  "stable p P \<Longrightarrow> P (store w) \<Longrightarrow> runs_through P w (append_chunks p cs w)"
proof (induction cs arbitrary: w)
  case Nil
  then show ?case by (simp add: runs_through_refl)
next
  case (Cons c cs)
  show ?case
  proof (cases "\<exists>d m. nodew w p = Some (File d m)")
    case True
    then obtain d m where n: "nodew w p = Some (File d m)" by blast
    let ?w1 = "sys (SetNode p (File (d @ c) m)) w"
    have P1: "P (store ?w1)" using Cons.prems by (simp add: stable_put)
    then have "runs_through P w ?w1" using Cons.prems(2) by (simp add: runs_through_step)
    moreover have "runs_through P ?w1 (append_chunks p cs ?w1)"
      using Cons.IH Cons.prems(1) P1 by blast
    ultimately show ?thesis using n by (simp add: runs_through_trans)
  next
    case False
    then have "append_chunks p (c # cs) w = w" by (auto split: option.splits node.splits)
    with Cons.prems(2) show ?thesis by (simp add: runs_through_refl)
  qed
qed

lemma append_chunks_fs_ok:
  "fs_ok (store w) \<Longrightarrow> nodew w p = Some (File d m) \<Longrightarrow> p \<noteq> [] \<Longrightarrow> fs_ok (store (append_chunks p cs w))"
proof (induction cs arbitrary: w d)
  case (Cons c cs)
  have "fs_ok (mput (store w) p (File (d @ c) m))"
    using Cons.prems by (intro fs_ok_SetNode) (auto dest: fs_okD)
  with Cons show ?case by (simp add: node_at_mput)
qed simp

end
