(* ===== verification/CopyFile.thy ===== *)
theory CopyFile
  imports FileOps
begin

section \<open>internal/syncengine/copy.go\<close>

text \<open>
  Copying one file: the equality check, the temporary file, the rename. SHA-256 and the glob
  matcher are code outside the repository and are fields of \<open>sysenv\<close>.
\<close>

record sysenv =
  sha256hex :: "string \<Rightarrow> string"
  glob_match :: "string \<Rightarrow> string \<Rightarrow> bool option"  \<comment> \<open>\<open>doublestar.Match\<close>; \<open>None\<close> is ErrBadPattern\<close>

fun node_size :: "node \<Rightarrow> nat" where
  "node_size (File c _) = length c"
| "node_size Dir = 4096"
| "node_size (Link t) = length (abs_string t)"

fun node_mode :: "node \<Rightarrow> nat" where
  "node_mode (File _ m) = m"
| "node_mode _ = 0"

definition sha256_file :: "sysenv \<Rightarrow> fs \<Rightarrow> apath \<Rightarrow> string res" where
  "sha256_file E m p = (case read_file m p of Inl e \<Rightarrow> Inl e | Inr c \<Rightarrow> Inr (sha256hex E c))"

definition files_equal :: "sysenv \<Rightarrow> fs \<Rightarrow> apath \<Rightarrow> apath \<Rightarrow> bool" where
  "files_equal E m a b =
     (case (lstat m a, lstat m b) of
        (Inr info_a, Inr info_b) \<Rightarrow>
          if kind_of info_a = KLink \<or> kind_of info_b = KLink then False
          else if node_size info_a \<noteq> node_size info_b then False
          else (case (sha256_file E m a, sha256_file E m b) of
                  (Inr hash_a, Inr hash_b) \<Rightarrow> hash_a = hash_b
                | _ \<Rightarrow> False)
      | _ \<Rightarrow> False)"

text \<open>
  The part of \<open>copyFile\<close> between \<open>CreateTemp\<close> and the deferred removal of the temporary
  file: \<open>io.Copy\<close>, \<open>Chmod\<close> with the mode seen by the first \<open>Lstat\<close>, \<open>Rename\<close>.
\<close>

definition fill_and_rename :: "node \<Rightarrow> apath \<Rightarrow> apath \<Rightarrow> apath \<Rightarrow> apath \<Rightarrow> world \<Rightarrow> bool res \<times> world" where
  "fill_and_rename info src opened tmp dst w =
     (case nodew w opened of
        Some (File c _) \<Rightarrow>
          (let w1 = io_copy tmp c w in
           case chmod tmp (node_mode info) w1 of
             (Some err, w2) \<Rightarrow> (Inl (Wrapf (''setting mode on '' @ abs_string dst) err), w2)
           | (None, w2) \<Rightarrow>
               (case rename_file tmp dst w2 of
                  (Some err, w3) \<Rightarrow> (Inl (Wrapf (''renaming temp file to '' @ abs_string dst) err), w3)
                | (None, w3) \<Rightarrow> (Inr True, w3)))
      | _ \<Rightarrow> (Inl (Wrapf (''copying '' @ abs_string src @ '' to '' @ abs_string dst)
               (PathError ''read'' src EISDIR)), w))"

definition tmp_suffix :: string where
  "tmp_suffix = ''.stoker-tmp-''"

definition copy_file :: "sysenv \<Rightarrow> apath \<Rightarrow> apath \<Rightarrow> world \<Rightarrow> bool res \<times> world" where
  "copy_file E src dst w =
     (case lstat (store w) src of
        Inl err \<Rightarrow> (Inl (Wrapf (''stat source '' @ abs_string src) err), w)
      | Inr info \<Rightarrow>
          if kind_of info = KLink
          then (Inl (Errorf (''refusing to copy symlink source: '' @ abs_string src)), w)
          else if files_equal E (store w) src dst then (Inr False, w)
          else (case mkdir_all (abs_dir dst) w of
              (Some err, w1) \<Rightarrow> (Inl (Wrapf (''creating parent dir for '' @ abs_string dst) err), w1)
            | (None, w1) \<Rightarrow>
                (case follow max_links ''open'' (store w1) src of
                   Inl err \<Rightarrow> (Inl (Wrapf (''opening source '' @ abs_string src) err), w1)
                 | Inr opened \<Rightarrow>
                     (case create_temp (abs_dir dst) (abs_base dst @ tmp_suffix) w1 of
                        (Inl err, w2) \<Rightarrow>
                          (Inl (Wrapf (''creating temp file for '' @ abs_string dst) err), w2)
                      | (Inr tmp, w2) \<Rightarrow>
                          (let (r, w3) = fill_and_rename info src opened tmp dst w2
                           in (r, snd (remove tmp w3)))))))"

text \<open>
  What the engine means by two files having the same content: the same size and the same digest.
\<close>

fun same_digest :: "sysenv \<Rightarrow> node option \<Rightarrow> node option \<Rightarrow> bool" where
  "same_digest E (Some (File c _)) (Some (File d _)) \<longleftrightarrow>
     length c = length d \<and> sha256hex E c = sha256hex E d"
| "same_digest E _ _ \<longleftrightarrow> False"

lemma files_equal_iff: "files_equal E m a b \<longleftrightarrow> same_digest E (node_at m a) (node_at m b)"
proof (cases "node_at m a")
  case None
  then show ?thesis by (simp add: files_equal_def lstat_def)
next
  case a: (Some na)
  show ?thesis
  proof (cases "node_at m b")
    case None
    with a show ?thesis by (cases na) (simp_all add: files_equal_def lstat_def)
  next
    case b: (Some nb)
    have dir: "node_at m p = Some Dir \<Longrightarrow> read_file m p = Inl (PathError ''read'' p EISDIR)" for p
      by (simp add: read_file_def follow_plain)
    show ?thesis
      using a b read_file_File [of m a] read_file_File [of m b] dir [of a] dir [of b]
      by (cases na; cases nb) (auto simp: files_equal_def lstat_def sha256_file_def)
  qed
qed

lemma same_digest_refl: "same_digest E (Some (File c m)) (Some (File c m'))"
  by simp

subsection \<open>The temporary file\<close>

lemma nat_digits_no_slash: "CHR ''/'' \<notin> set (nat_digits k)"
  using nat_digits_digits [of k] by (auto simp: list_all_iff is_digit_def)

lemma name_ok_tmp: "name_ok b \<Longrightarrow> name_ok (b @ tmp_suffix @ nat_digits k)"
  using nat_digits_no_slash [of k] by (cases b) (auto simp: name_ok_def tmp_suffix_def)

lemma abs_dir_base: "dst \<noteq> [] \<Longrightarrow> abs_dir dst @ [abs_base dst] = dst"
  by (simp add: abs_dir_def abs_base_def)

lemma strict_prefix_abs_dir: "dst \<noteq> [] \<Longrightarrow> prefix q (abs_dir dst) \<Longrightarrow> strict_prefix q dst"
  using prefix_snoc [of q "abs_dir dst" "abs_base dst"] abs_dir_base [of dst]
  by (auto simp: strict_prefix_def prefix_def)

definition is_tmp_of :: "apath \<Rightarrow> apath \<Rightarrow> bool" where
  "is_tmp_of dst tmp \<longleftrightarrow> (\<exists>k. tmp = abs_dir dst @ [abs_base dst @ tmp_suffix @ nat_digits k])"

lemma is_tmp_of_neq:
  assumes "dst \<noteq> []" "is_tmp_of dst tmp"
  shows "tmp \<noteq> dst" "tmp \<noteq> []"
proof -
  obtain k where k: "tmp = abs_dir dst @ [abs_base dst @ tmp_suffix @ nat_digits k]"
    using assms(2) by (auto simp: is_tmp_of_def)
  then have "last tmp = abs_base dst @ tmp_suffix @ nat_digits k" by simp
  moreover have "last dst = abs_base dst" using assms(1) by (simp add: abs_base_def)
  ultimately show "tmp \<noteq> dst" by (auto simp: tmp_suffix_def)
  show "tmp \<noteq> []" using k by simp
qed

lemma is_tmp_of_names:
  assumes "dst \<noteq> []" "list_all name_ok dst" "is_tmp_of dst tmp"
  shows "list_all name_ok tmp"
proof -
  obtain k where k: "tmp = abs_dir dst @ [abs_base dst @ tmp_suffix @ nat_digits k]"
    using assms(3) by (auto simp: is_tmp_of_def)
  have "list_all name_ok (abs_dir dst @ [abs_base dst])"
    using assms(1,2) by (simp add: abs_dir_base)
  with k show ?thesis by (simp add: name_ok_tmp)
qed

text \<open>\<open>fill_and_rename\<close> on a fresh temporary file.\<close>

lemma fill_and_rename_cases:
  assumes run: "fill_and_rename info src opened tmp dst w = (r, w')"
    and tmp: "nodew w tmp = Some (File [] m0)" "tmp \<noteq> []" and neq: "tmp \<noteq> opened"
  obtains (failed) e d m1 where "r = Inl e" "\<And>q. nodew w' q = (if q = tmp then Some (File d m1) else nodew w q)"
  | (renamed) c m where "r = Inr True" "nodew w opened = Some (File c m)"
      "nodew w (abs_dir dst) = Some Dir" "nodew w dst \<noteq> Some Dir"
      "\<And>q. nodew w' q = (if q = dst then Some (File c (node_mode info))
                        else if q = tmp then None else nodew w q)"
proof (cases "\<exists>c m. nodew w opened = Some (File c m)")
  case False
  then have "r = Inl (Wrapf (''copying '' @ abs_string src @ '' to '' @ abs_string dst)
      (PathError ''read'' src EISDIR)) \<and> w' = w"
    using run by (auto simp: fill_and_rename_def split: option.splits node.splits)
  with tmp failed [of _ "[]" m0] show ?thesis by simp
next
  case True
  then obtain c m where c: "nodew w opened = Some (File c m)" by blast
  define w1 where "w1 = io_copy tmp c w"
  have w1: "nodew w1 q = (if q = tmp then Some (File c m0) else nodew w q)" for q
    unfolding w1_def io_copy_def append_chunks_node [OF tmp] by (simp add: concat_chunks_of)
  define w2 where "w2 = sys (SetNode tmp (File c (node_mode info))) w1"
  have w2: "nodew w2 q = (if q = tmp then Some (File c (node_mode info)) else nodew w q)" for q
    using tmp(2) by (simp add: w2_def node_at_mput w1)
  have ch: "chmod tmp (node_mode info) w1 = (None, w2)" by (simp add: chmod_def w1 w2_def)
  have eq: "fill_and_rename info src opened tmp dst w =
      (case rename_file tmp dst w2 of
         (Some err, w3) \<Rightarrow> (Inl (Wrapf (''renaming temp file to '' @ abs_string dst) err), w3)
       | (None, w3) \<Rightarrow> (Inr True, w3))"
    unfolding fill_and_rename_def c using ch by (simp add: w1_def [symmetric])
  show ?thesis
  proof (cases "nodew w2 dst = Some Dir \<or> nodew w2 (abs_dir dst) \<noteq> Some Dir")
    case True
    moreover have "nodew w2 tmp \<noteq> None" by (simp add: w2)
    ultimately obtain e where e: "rename_file tmp dst w2 = (Some e, w2)"
      unfolding rename_file_def by (cases "nodew w2 dst = Some Dir") auto
    show ?thesis
      by (rule failed [of _ c "node_mode info"]) (use run eq e w2 in auto)
  next
    case False
    moreover have "nodew w2 tmp \<noteq> None" by (simp add: w2)
    ultimately have ren: "rename_file tmp dst w2 = (None, sys (Move tmp dst) w2)"
      unfolding rename_file_def by simp
    have dne: "dst \<noteq> []" using \<open>\<not> (nodew w2 dst = Some Dir \<or> _)\<close> by auto
    have "mget (store w2) tmp = Some (File c (node_mode info))"
      using w2 [of tmp] tmp(2) by (simp add: node_at_def)
    then have "nodew (sys (Move tmp dst) w2) q = (if q = dst then Some (File c (node_mode info))
                        else if q = tmp then None else nodew w q)" for q
      using dne tmp(2) by (simp add: node_at_mput node_at_mdel w2)
    moreover have "nodew w (abs_dir dst) = Some Dir" "nodew w dst \<noteq> Some Dir"
      using False w2 tmp(1) by (auto split: if_splits)
    moreover have "r = Inr True" "w' = sys (Move tmp dst) w2" using run eq ren by auto
    ultimately show ?thesis using renamed c by blast
  qed
qed

subsection \<open>The whole copy\<close>

text \<open>
  The outcome of \<open>copyFile\<close>: an error, the file was equal and nothing was done, or the
  target now holds the source's content and mode. In every case only missing ancestors of the
  target have been created besides.
\<close>

definition copy_outcome :: "apath \<Rightarrow> apath \<Rightarrow> world \<Rightarrow> bool res \<Rightarrow> world \<Rightarrow> bool" where
  "copy_outcome src dst w r w' \<longleftrightarrow> (\<exists>w1. mk_effect (abs_dir dst) w w1 \<and>
     (w1 = w \<or> w1 = snd (mkdir_all (abs_dir dst) w)) \<and>
     (case r of
        Inl _ \<Rightarrow> (\<forall>q. nodew w' q = nodew w1 q)
      | Inr False \<Rightarrow> w' = w
      | Inr True \<Rightarrow> dst \<noteq> [] \<and> (\<exists>c m. nodew w src = Some (File c m) \<and> nodew w1 dst \<noteq> Some Dir \<and>
          nodew w1 (abs_dir dst) = Some Dir \<and>
          (\<forall>q. nodew w' q = (if q = dst then Some (File c m) else nodew w1 q)))))"

lemma copy_file_stages:
  assumes run: "copy_file E src dst w = (r, w')"
  obtains (early) e where "r = Inl e" "w' = w"
  | (equal) "r = Inr False" "w' = w" "files_equal E (store w) src dst"
  | (no_temp) e w1 where "r = Inl e" "mk_effect (abs_dir dst) w w1" "store w' = store w1"
      "oplog w' = oplog w1" "mkdir_all (abs_dir dst) w = (fst (mkdir_all (abs_dir dst) w), w1)"
  | (temp) info opened tmp w1 w2 w3 where "nodew w src = Some info" "kind_of info \<noteq> KLink"
      "mkdir_all (abs_dir dst) w = (None, w1)"
      "follow max_links ''open'' (store w1) src = Inr opened"
      "create_temp (abs_dir dst) (abs_base dst @ tmp_suffix) w1 = (Inr tmp, w2)"
      "fill_and_rename info src opened tmp dst w2 = (r, w3)" "w' = snd (remove tmp w3)"
proof (cases "nodew w src")
  case None
  with run early show ?thesis by (auto simp: copy_file_def lstat_def)
next
  case (Some info)
  note src = this
  then have l: "lstat (store w) src = Inr info" by (simp add: lstat_def)
  show ?thesis
  proof (cases "kind_of info = KLink \<or> files_equal E (store w) src dst")
    case True
    with run l early equal show ?thesis by (auto simp: copy_file_def split: if_splits)
  next
    case False
    obtain e w1 where mk: "mkdir_all (abs_dir dst) w = (e, w1)" by force
    have eff: "mk_effect (abs_dir dst) w w1" by (rule mkdir_all_effect [OF mk])
    show ?thesis
    proof (cases e)
      case (Some err)
      with run l False mk eff no_temp show ?thesis by (auto simp: copy_file_def)
    next
      case None
      show ?thesis
      proof (cases "follow max_links ''open'' (store w1) src")
        case (Inl err)
        with None run l False mk eff no_temp show ?thesis by (auto simp: copy_file_def)
      next
        case (Inr opened)
        obtain t w2 where ct: "create_temp (abs_dir dst) (abs_base dst @ tmp_suffix) w1 = (t, w2)"
          by force
        show ?thesis
        proof (cases t)
          case (Inl err)
          have "store w2 = store w1" "oplog w2 = oplog w1"
            using create_temp_Inl ct Inl by auto
          with Inl Inr None run l False mk eff ct no_temp show ?thesis
            by (auto simp: copy_file_def)
        next
          case (Inr tmp)
          obtain r3 w3 where "fill_and_rename info src opened tmp dst w2 = (r3, w3)" by force
          with Inr \<open>follow _ _ _ _ = Inr opened\<close> None run l False mk ct src temp show ?thesis
            by (auto simp: copy_file_def)
        qed
      qed
    qed
  qed
qed

text \<open>The source is still the same file when it is opened.\<close>

lemma opened_is_source:
  assumes "nodew w src = Some info" "kind_of info \<noteq> KLink" "mk_effect p w w1"
    and "follow max_links ''open'' (store w1) src = Inr opened"
  shows "opened = src" "nodew w1 src = Some info"
proof -
  show n: "nodew w1 src = Some info" using mk_effect_keeps [OF assms(3), of src] assms(1) by simp
  show "opened = src" using follow_plain [OF max_links_pos n assms(2)] assms(4) by simp
qed

lemma remove_tmp:
  assumes "tmp \<noteq> []" "nodew w tmp = None \<or> (\<exists>d m. nodew w tmp = Some (File d m))"
  shows "nodew (snd (remove tmp w)) q = (if q = tmp then None else nodew w q)"
  using assms by (auto simp: remove_def node_at_mdel split: option.splits)

lemma create_temp_is_tmp:
  assumes "create_temp (abs_dir dst) (abs_base dst @ tmp_suffix) w = (Inr tmp, w')"
  shows "is_tmp_of dst tmp" "nodew w tmp = None" "nodew w (abs_dir dst) = Some Dir" "dst \<noteq> []"
    "store w' = mput (store w) tmp (File [] 384)" "oplog w' = oplog w @ [SetNode tmp (File [] 384)]"
proof -
  obtain k where k: "tmp = abs_dir dst @ [(abs_base dst @ tmp_suffix) @ nat_digits k]" "nodew w tmp = None"
    "nodew w (abs_dir dst) = Some Dir" "store w' = mput (store w) tmp (File [] 384)"
    "oplog w' = oplog w @ [SetNode tmp (File [] 384)]" "CHR ''/'' \<notin> set (abs_base dst @ tmp_suffix)"
    by (rule create_temp_Inr [OF assms]) blast
  from k(1) show "is_tmp_of dst tmp" by (auto simp: is_tmp_of_def)
  from k(6) show "dst \<noteq> []" by (auto simp: abs_base_def)
qed (use assms create_temp_Inr in \<open>metis (no_types)\<close>)+

theorem copy_file_outcome:
  assumes run: "copy_file E src dst w = (r, w')"
  shows "copy_outcome src dst w r w'"
  using run
proof (cases rule: copy_file_stages)
  case (early e)
  then show ?thesis unfolding copy_outcome_def by (intro exI [of _ w]) simp
next
  case equal
  then show ?thesis unfolding copy_outcome_def by (intro exI [of _ w]) simp
next
  case (no_temp e w1)
  then have "w1 = snd (mkdir_all (abs_dir dst) w)" by (metis snd_conv)
  with no_temp show ?thesis unfolding copy_outcome_def by (intro exI [of _ w1]) simp
next
  case (temp info opened tmp w1 w2 w3)
  have eff: "mk_effect (abs_dir dst) w w1" by (rule mkdir_all_effect [OF temp(3)])
  have w1: "w1 = snd (mkdir_all (abs_dir dst) w)" using temp(3) by simp
  note op = opened_is_source [OF temp(1,2) eff temp(4)]
  note ct = create_temp_is_tmp [OF temp(5)]
  note neq = is_tmp_of_neq [OF ct(4,1)]
  have w2: "nodew w2 q = (if q = tmp then Some (File [] 384) else nodew w1 q)" for q
    using ct(5) neq(2) by (simp add: node_at_mput)
  have tn: "tmp \<noteq> opened" using op ct(2) by auto
  have "nodew w2 tmp = Some (File [] 384)" by (simp add: w2)
  from temp(6) this neq(2) tn show ?thesis
  proof (cases rule: fill_and_rename_cases)
    case (failed e d m1)
    then have "nodew w' q = nodew w1 q" for q
      using temp(7) remove_tmp [OF neq(2), of w3] w2 ct(2) by simp
    with eff w1 failed(1) show ?thesis unfolding copy_outcome_def by (intro exI [of _ w1]) simp
  next
    case (renamed c m)
    have src: "nodew w src = Some (File c m)"
      using renamed(2) op w2 tn temp(1) by simp
    with temp(1) have "info = File c m" by simp
    then have "nodew w' q = (if q = dst then Some (File c m) else nodew w1 q)" for q
      using temp(7) remove_tmp [OF neq(2), of w3] renamed(5) w2 ct(2) neq(1) by simp
    moreover have "nodew w1 dst \<noteq> Some Dir" "nodew w1 (abs_dir dst) = Some Dir"
      using renamed(4) w2 [of dst] neq(1) ct(3) by simp_all
    ultimately show ?thesis
      using eff w1 renamed(1) src ct(4) unfolding copy_outcome_def by (intro exI [of _ w1]) auto
  qed
qed

text \<open>
  The intermediate stores of a copy: any property survives that holds at the start, that writes
  to missing ancestors and to the temporary file cannot break, and that the final rename keeps.
\<close>

lemma fill_and_rename_runs:
  assumes "fill_and_rename info src opened tmp dst w = (r, w')" "stable tmp P" "P (store w)"
    and "\<And>c m m'. nodew w opened = Some (File c m') \<Longrightarrow> P m \<Longrightarrow> P (mput m dst (File c (node_mode info)))"
    and "nodew w tmp = Some (File [] m0)" "tmp \<noteq> []" "tmp \<noteq> opened"
  shows "runs_through P w w'"
proof (cases "\<exists>c m. nodew w opened = Some (File c m)")
  case False
  with assms(1,3) show ?thesis
    by (auto simp: fill_and_rename_def runs_through_refl split: option.splits node.splits)
next
  case True
  then obtain c m where c: "nodew w opened = Some (File c m)" by blast
  define w1 where "w1 = io_copy tmp c w"
  have w1: "nodew w1 tmp = Some (File c m0)"
    unfolding w1_def io_copy_def append_chunks_node [OF assms(5,6)] by (simp add: concat_chunks_of)
  have r1: "runs_through P w w1"
    unfolding w1_def io_copy_def by (rule append_chunks_runs [OF assms(2,3)])
  then have P1: "P (store w1)" by (rule runs_through_final)
  define w2 where "w2 = sys (SetNode tmp (File c (node_mode info))) w1"
  have ch: "chmod tmp (node_mode info) w1 = (None, w2)" by (simp add: chmod_def w1 w2_def)
  have P2: "P (store w2)" using P1 assms(2) by (simp add: w2_def stable_put)
  have r2: "runs_through P w1 w2"
    using runs_through_step [of P w1 "SetNode tmp (File c (node_mode info))"] P1 P2
    by (simp add: w2_def)
  obtain e w3 where ren: "rename_file tmp dst w2 = (e, w3)" by force
  then have w': "w' = w3"
    using assms(1) c ch by (auto simp: fill_and_rename_def w1_def [symmetric] Let_def split: option.splits)
  have "runs_through P w2 w3"
  proof (cases "w3 = w2")
    case True
    with P2 show ?thesis by (simp add: runs_through_refl)
  next
    case False
    with ren have w3: "w3 = sys (Move tmp dst) w2"
      by (auto simp: rename_file_def split: if_splits)
    have "mget (store w2) tmp = Some (File c (node_mode info))" by (simp add: w2_def)
    moreover have "P (mput (mdel (store w2) tmp) dst (File c (node_mode info)))"
      using assms(4) [OF c] stable_del [OF assms(2) P2] by blast
    ultimately show ?thesis using P2 unfolding w3 by (intro runs_through_step) simp_all
  qed
  with r1 r2 w' show ?thesis by (blast intro: runs_through_trans)
qed

lemma remove_runs: "stable p P \<Longrightarrow> P (store w) \<Longrightarrow> runs_through P w (snd (remove p w))"
  by (auto simp: remove_def runs_through_refl stable_del
      intro!: runs_through_step split: option.splits node.splits)

lemma copy_file_runs:
  assumes run: "copy_file E src dst w = (r, w')" and P0: "P (store w)"
    and anc: "\<And>q. prefix q (abs_dir dst) \<Longrightarrow> stable q P"
    and tmps: "\<And>tmp. dst \<noteq> [] \<Longrightarrow> is_tmp_of dst tmp \<Longrightarrow> stable tmp P"
    and final: "\<And>c m k. nodew w src = Some (File c k) \<Longrightarrow> P m \<Longrightarrow> P (mput m dst (File c k))"
  shows "runs_through P w w'"
  using run
proof (cases rule: copy_file_stages)
  case (no_temp e w1)
  have "runs_through P w w1" by (rule mkdir_all_runs [OF anc P0 no_temp(5)])
  moreover have "runs_through P w1 w'"
    using calculation no_temp by (auto intro: runs_through_refl runs_through_final)
  ultimately show ?thesis by (rule runs_through_trans)
next
  case (temp info opened tmp w1 w2 w3)
  have r1: "runs_through P w w1" by (rule mkdir_all_runs [OF anc P0 temp(3)])
  note op = opened_is_source [OF temp(1,2) mkdir_all_effect [OF temp(3)] temp(4)]
  note ct = create_temp_is_tmp [OF temp(5)]
  note neq = is_tmp_of_neq [OF ct(4,1)]
  have st: "stable tmp P" by (rule tmps [OF ct(4,1)])
  have P1: "P (store w1)" by (rule runs_through_final [OF r1])
  have P2: "P (store w2)" using P1 st by (simp add: ct(5) stable_put)
  have r2: "runs_through P w1 w2"
    unfolding runs_through_def
    by (rule exI [of _ "[SetNode tmp (File [] 384)]"]) (use P1 P2 ct in \<open>auto simp: le_Suc_eq\<close>)
  have w2: "nodew w2 q = (if q = tmp then Some (File [] 384) else nodew w1 q)" for q
    using ct(5) neq(2) by (simp add: node_at_mput)
  have tn: "tmp \<noteq> opened" using op ct(2) by auto
  have n2: "nodew w2 tmp = Some (File [] 384)" by (simp add: w2)
  have r3: "runs_through P w2 w3"
  proof (rule fill_and_rename_runs [OF temp(6) st P2 _ n2 neq(2) tn])
    fix c m m' assume a: "nodew w2 opened = Some (File c m')" "P m"
    then have "info = File c m'" using op w2 tn by simp
    with temp(1) a(2) final show "P (mput m dst (File c (node_mode info)))" by simp
  qed
  have "runs_through P w3 w'"
    unfolding temp(7) by (rule remove_runs [OF st runs_through_final [OF r3]])
  with r1 r2 r3 show ?thesis by (blast intro: runs_through_trans)
qed (use P0 in \<open>simp_all add: runs_through_refl\<close>)

lemma copy_file_fs_ok:
  assumes run: "copy_file E src dst w = (r, w')" and ok: "fs_ok (store w)"
    and names: "list_all name_ok dst"
  shows "fs_ok (store w')"
proof -
  have mwf': "mwf (store w')"
  proof (rule runs_through_final [of mwf w])
    show "runs_through mwf w w'"
      by (rule copy_file_runs [OF run]) (use ok in \<open>simp_all add: fs_ok_mwf stable_mwf gm.wf_put\<close>)
  qed
  obtain w1 where w1: "w1 = w \<or> w1 = snd (mkdir_all (abs_dir dst) w)" and nodes:
    "case r of Inl _ \<Rightarrow> (\<forall>q. nodew w' q = nodew w1 q) | Inr False \<Rightarrow> w' = w
      | Inr True \<Rightarrow> dst \<noteq> [] \<and> (\<exists>c m. nodew w src = Some (File c m) \<and> nodew w1 dst \<noteq> Some Dir \<and>
          nodew w1 (abs_dir dst) = Some Dir \<and>
          (\<forall>q. nodew w' q = (if q = dst then Some (File c m) else nodew w1 q)))"
    using copy_file_outcome [OF run] unfolding copy_outcome_def by blast
  have "list_all name_ok (abs_dir dst)"
    using names by (auto simp: abs_dir_def list_all_iff dest: in_set_butlastD)
  then have ok1: "fs_ok (store w1)"
    using w1 ok mkdir_all_fs_ok [of "abs_dir dst" w] by (metis prod.collapse)
  have same: "fs_ok m \<Longrightarrow> mwf m' \<Longrightarrow> (\<And>q. node_at m' q = node_at m q) \<Longrightarrow> fs_ok m'" for m m'
    by (rule fs_okI) (auto dest: fs_okD)
  show ?thesis
  proof (cases r)
    case (Inl e)
    with same [OF ok1 mwf'] nodes show ?thesis by simp
  next
    case (Inr b)
    show ?thesis
    proof (cases b)
      case True
      with Inr nodes obtain c m where n: "dst \<noteq> []" "nodew w1 dst \<noteq> Some Dir"
        "nodew w1 (abs_dir dst) = Some Dir"
        "\<And>q. nodew w' q = (if q = dst then Some (File c m) else nodew w1 q)" by auto
      have "fs_ok (mput (store w1) dst (File c m))"
        by (rule fs_ok_SetNode) (use ok1 n names in \<open>simp_all add: abs_dir_def\<close>)
      from same [OF this mwf'] n show ?thesis by (simp add: node_at_mput)
    next
      case False
      with Inr nodes ok show ?thesis by simp
    qed
  qed
qed

subsection \<open>What the engine relies on\<close>

lemma copy_outcomeD:
  assumes "copy_outcome src dst w r w'"
  obtains w1 where "mk_effect (abs_dir dst) w w1"
    "\<And>q. q \<noteq> dst \<Longrightarrow> nodew w' q = nodew w q \<or> nodew w' q = nodew w1 q"
proof -
  obtain w1 where "mk_effect (abs_dir dst) w w1" and c: "case r of
      Inl _ \<Rightarrow> (\<forall>q. nodew w' q = nodew w1 q)
    | Inr False \<Rightarrow> w' = w
    | Inr True \<Rightarrow> dst \<noteq> [] \<and> (\<exists>c m. nodew w src = Some (File c m) \<and> nodew w1 dst \<noteq> Some Dir \<and>
          nodew w1 (abs_dir dst) = Some Dir \<and>
          (\<forall>q. nodew w' q = (if q = dst then Some (File c m) else nodew w1 q)))"
    using assms unfolding copy_outcome_def by blast
  moreover have "q \<noteq> dst \<Longrightarrow> nodew w' q = nodew w q \<or> nodew w' q = nodew w1 q" for q
    using c by (cases r) (auto split: bool.splits)
  ultimately show ?thesis using that by blast
qed

text \<open>A successful copy leaves the source's content and mode in the target.\<close>

lemma copy_file_True:
  assumes "copy_file E src dst w = (Inr True, w')"
  obtains c m where "nodew w src = Some (File c m)" "nodew w' dst = Some (File c m)" "dst \<noteq> []"
  using copy_file_outcome [OF assms] unfolding copy_outcome_def by auto

lemma copy_file_error_keeps:
  assumes "copy_file E src dst w = (Inl e, w')" "nodew w q \<noteq> None"
  shows "nodew w' q = nodew w q"
proof -
  obtain w1 where "mk_effect (abs_dir dst) w w1" "nodew w' q = nodew w1 q"
    using copy_file_outcome [OF assms(1)] unfolding copy_outcome_def by auto
  with mk_effect_keeps assms(2) show ?thesis by metis
qed

lemma copy_file_False:
  assumes "copy_file E src dst w = (Inr False, w')"
  shows "w' = w" "same_digest E (nodew w src) (nodew w dst)"
proof -
  show "w' = w" using copy_file_outcome [OF assms] by (auto simp: copy_outcome_def)
  show "same_digest E (nodew w src) (nodew w dst)"
    using assms
  proof (cases rule: copy_file_stages)
    case equal
    then show ?thesis by (simp add: files_equal_iff)
  next
    case (temp info opened tmp w1 w2 w3)
    have "fst (fill_and_rename info src opened tmp dst w2) \<noteq> Inr False"
      by (auto simp: fill_and_rename_def Let_def split: option.splits node.splits prod.splits)
    with temp show ?thesis by simp
  qed simp_all
qed

text \<open>Everything but the target and its missing ancestors is as before, whatever the outcome.\<close>

lemma copy_file_frame:
  assumes "copy_file E src dst w = (r, w')" "q \<noteq> dst"
  shows "nodew w' q = nodew w q \<or> (nodew w q = None \<and> nodew w' q = Some Dir \<and> prefix q (abs_dir dst))"
proof -
  obtain w1 where w1: "mk_effect (abs_dir dst) w w1" "nodew w' q = nodew w q \<or> nodew w' q = nodew w1 q"
    using copy_outcomeD [OF copy_file_outcome [OF assms(1)]] assms(2) by metis
  from w1(1) show ?thesis by (cases rule: mk_effect_cases [where q = q]) (use w1(2) in auto)
qed

text \<open>
  A process that dies in the middle: after any number of the copy's system calls the target is
  as before or holds the whole source file, and besides it only its missing ancestors and the
  temporary files beside it can have been written.
\<close>

definition after_calls :: "nat \<Rightarrow> world \<Rightarrow> world \<Rightarrow> fs" where
  "after_calls n w w' = replay (take n (drop (length (oplog w)) (oplog w'))) (store w)"

definition copy_safe :: "apath \<Rightarrow> apath \<Rightarrow> world \<Rightarrow> fs \<Rightarrow> bool" where
  "copy_safe src dst w m \<longleftrightarrow>
     (node_at m dst = nodew w dst \<or>
      (node_at m dst = nodew w src \<and> (\<exists>c k. nodew w src = Some (File c k)))) \<and>
     (\<forall>q. q \<noteq> dst \<longrightarrow> \<not> prefix q (abs_dir dst) \<longrightarrow> \<not> is_tmp_of dst q \<longrightarrow> node_at m q = nodew w q)"

lemma copy_safe_touch:
  assumes "p \<noteq> dst" "prefix p (abs_dir dst) \<or> is_tmp_of dst p"
  shows "stable p (copy_safe src dst w)"
  using assms unfolding stable_def copy_safe_def by (auto simp: node_at_mput node_at_mdel)

lemma copy_file_crash_atomic:
  assumes "copy_file E src dst w = (r, w')" "dst \<noteq> []" "n \<le> length (oplog w') - length (oplog w)"
  shows "copy_safe src dst w (after_calls n w w')"
proof -
  have "runs_through (copy_safe src dst w) w w'"
  proof (rule copy_file_runs [OF assms(1)])
    show "copy_safe src dst w (store w)" by (simp add: copy_safe_def)
    show "stable q (copy_safe src dst w)" if "prefix q (abs_dir dst)" for q
      using that strict_prefix_abs_dir [OF assms(2) that] by (intro copy_safe_touch) auto
    show "stable tmp (copy_safe src dst w)" if "is_tmp_of dst tmp" for tmp
      using that is_tmp_of_neq(1) [OF assms(2) that] by (intro copy_safe_touch) auto
    fix c m k assume "nodew w src = Some (File c k)" "copy_safe src dst w m"
    with assms(2) show "copy_safe src dst w (mput m dst (File c k))"
      by (auto simp: copy_safe_def node_at_mput)
  qed
  from runs_through_prefix [OF this assms(3)] show ?thesis by (simp add: after_calls_def)
qed

end
