(* ===== verification/Exclude.thy ===== *)
theory Exclude
  imports CopyFile
begin

section \<open>internal/syncengine/exclude.go\<close>

text \<open>
  Exclude patterns, protected paths. \<open>doublestar.Match\<close> is the field \<open>glob_match\<close> of the
  environment; a pattern it rejects never matches.
\<close>

definition mbool :: "('k, bool) gomap \<Rightarrow> 'k \<Rightarrow> bool" where
  "mbool m k \<longleftrightarrow> mget m k = Some True"

lemma mbool_simps [simp]: "\<not> mbool [] k" "mbool (mput m k' True) k \<longleftrightarrow> k = k' \<or> mbool m k"
  by (auto simp: mbool_def)

definition hardcoded_excludes :: "string list" where
  "hardcoded_excludes = [''**/.sync-staging/**'']"

definition protected_patterns :: "string list" where
  "protected_patterns = [''**/.resources/**'', ''**/.resources'']"

fun merge_user :: "string list \<Rightarrow> (string, bool) gomap \<Rightarrow> string list \<Rightarrow> (string, bool) gomap \<times> string list" where
  "merge_user [] seen result = (seen, result)"
| "merge_user (p # ps) seen result =
     (let p = trim_space p in
      if p = [] \<or> mbool seen p then merge_user ps seen result
      else merge_user ps (mput seen p True) (result @ [p]))"

fun merge_hardcoded :: "string list \<Rightarrow> (string, bool) gomap \<Rightarrow> string list \<Rightarrow> string list" where
  "merge_hardcoded [] seen result = result"
| "merge_hardcoded (p # ps) seen result =
     (if mbool seen p then merge_hardcoded ps seen result
      else merge_hardcoded ps (mput seen p True) (result @ [p]))"

definition merge_excludes :: "string list \<Rightarrow> string list" where
  "merge_excludes userExcludes =
     (let (seen, result) = merge_user userExcludes [] []
      in merge_hardcoded hardcoded_excludes seen result)"

fun matches_any :: "sysenv \<Rightarrow> string list \<Rightarrow> string \<Rightarrow> bool" where
  "matches_any E [] relPath = False"
| "matches_any E (pattern # ps) relPath =
     (case glob_match E pattern relPath of
        Some True \<Rightarrow> True
      | _ \<Rightarrow> matches_any E ps relPath)"

definition should_exclude :: "sysenv \<Rightarrow> string \<Rightarrow> string list \<Rightarrow> bool" where
  "should_exclude E relPath excludes = matches_any E excludes relPath"

definition is_protected :: "sysenv \<Rightarrow> string \<Rightarrow> bool" where
  "is_protected E relPath = matches_any E protected_patterns relPath"

lemma matches_any_iff: "matches_any E ps s \<longleftrightarrow> (\<exists>p \<in> set ps. glob_match E p s = Some True)"
  by (induction ps) (auto split: option.splits bool.splits)

text \<open>The first occurrences of a list, in order.\<close>

fun first_occ :: "string list \<Rightarrow> string list \<Rightarrow> string list" where
  "first_occ seen [] = []"
| "first_occ seen (x # xs) =
     (if x \<in> set seen then first_occ seen xs else x # first_occ (x # seen) xs)"

lemma first_occ_cong: "set seen = set seen' \<Longrightarrow> first_occ seen xs = first_occ seen' xs"
proof (induction xs arbitrary: seen seen')
  case (Cons x xs)
  have "first_occ (x # seen) xs = first_occ (x # seen') xs"
    by (rule Cons.IH) (simp add: Cons.prems)
  with Cons.IH [OF Cons.prems] Cons.prems show ?case by simp
qed simp

lemma set_first_occ: "set (first_occ seen xs) = set xs - set seen"
  by (induction xs arbitrary: seen) auto

lemma distinct_first_occ: "distinct (first_occ seen xs)"
  by (induction xs arbitrary: seen) (auto simp: set_first_occ)

lemma first_occ_append:
  "first_occ seen (xs @ ys) = first_occ seen xs @ first_occ (rev xs @ seen) ys"
proof (induction xs arbitrary: seen)
  case (Cons x xs)
  show ?case
  proof (cases "x \<in> set seen")
    case True
    then have "first_occ (rev xs @ seen) ys = first_occ (rev xs @ x # seen) ys"
      by (intro first_occ_cong) auto
    with True Cons.IH [of seen] show ?thesis by simp
  qed (use Cons.IH [of "x # seen"] in simp)
qed simp

lemma merge_user_eq:
  assumes "merge_user ps seen res = (seen', res')" "\<And>k. mbool seen k \<longleftrightarrow> k \<in> set res"
  shows "res' = res @ first_occ res (filter (\<lambda>p. p \<noteq> []) (map trim_space ps)) \<and>
    (\<forall>k. mbool seen' k \<longleftrightarrow> k \<in> set res')"
  using assms
proof (induction ps seen res rule: merge_user.induct)
  case (2 p ps seen res)
  let ?p = "trim_space p"
  show ?case
  proof (cases "?p = [] \<or> mbool seen ?p")
    case True
    with 2 show ?thesis by (auto simp: Let_def)
  next
    case False
    have "first_occ (res @ [?p]) xs = first_occ (?p # res) xs" for xs
      by (rule first_occ_cong) auto
    with False 2(2) [OF refl False] 2(3,4) show ?thesis by (simp add: Let_def)
  qed
qed simp

lemma merge_hardcoded_eq:
  assumes "\<And>k. mbool seen k \<longleftrightarrow> k \<in> set res"
  shows "merge_hardcoded ps seen res = res @ first_occ res ps"
  using assms
proof (induction ps seen res rule: merge_hardcoded.induct)
  case (2 p ps seen res)
  have "first_occ (res @ [p]) xs = first_occ (p # res) xs" for xs
    by (rule first_occ_cong) auto
  with 2 show ?case by auto
qed simp

lemma merge_excludes_eq:
  "merge_excludes us =
     first_occ [] (filter (\<lambda>p. p \<noteq> []) (map trim_space us) @ hardcoded_excludes)"
proof -
  obtain seen res where r: "merge_user us [] [] = (seen, res)" by force
  let ?u = "filter (\<lambda>p. p \<noteq> []) (map trim_space us)"
  from merge_user_eq [OF r] have res: "res = first_occ [] ?u" "\<And>k. mbool seen k \<longleftrightarrow> k \<in> set res"
    by auto
  have "merge_excludes us = res @ first_occ res hardcoded_excludes"
    unfolding merge_excludes_def r by (simp add: merge_hardcoded_eq [OF res(2)])
  also have "first_occ res hardcoded_excludes = first_occ (rev ?u) hardcoded_excludes"
    by (rule first_occ_cong) (simp add: res(1) set_first_occ)
  finally show ?thesis by (simp add: res(1) first_occ_append)
qed

lemma merge_excludes_set:
  "set (merge_excludes us) = {p. p \<noteq> [] \<and> p \<in> trim_space ` set us} \<union> set hardcoded_excludes"
  by (auto simp: merge_excludes_eq set_first_occ)

text \<open>
  What \<open>doublestar.Match\<close> documents for the two shapes of pattern the engine itself uses: a
  pattern \<open>**/name/**\<close> or \<open>**/name\<close> is about the components of the path.
\<close>

definition glob_documented :: "sysenv \<Rightarrow> bool" where
  "glob_documented E \<longleftrightarrow>
     (\<forall>cs. list_all name_ok cs \<longrightarrow> cs \<noteq> [] \<longrightarrow>
        glob_match E ''**/.resources/**'' (slash_join cs) = Some (''.resources'' \<in> set cs) \<and>
        glob_match E ''**/.resources'' (slash_join cs) = Some (last cs = ''.resources'') \<and>
        glob_match E ''**/.sync-staging/**'' (slash_join cs) = Some (''.sync-staging'' \<in> set cs))"

lemma is_protected_documented:
  assumes "glob_documented E" "list_all name_ok cs" "cs \<noteq> []"
  shows "is_protected E (slash_join cs) \<longleftrightarrow> ''.resources'' \<in> set cs"
proof -
  have "glob_match E ''**/.resources/**'' (slash_join cs) = Some (''.resources'' \<in> set cs)"
    "glob_match E ''**/.resources'' (slash_join cs) = Some (last cs = ''.resources'')"
    using assms unfolding glob_documented_def by blast+
  then show ?thesis
    using last_in_set [OF assms(3)]
    by (auto simp: is_protected_def protected_patterns_def split: bool.splits)
qed

lemma should_exclude_staging:
  assumes "glob_documented E" "list_all name_ok cs" "''.sync-staging'' \<in> set cs"
  shows "should_exclude E (slash_join cs) (merge_excludes us)"
proof -
  have "cs \<noteq> []" using assms(3) by auto
  with assms show ?thesis
    unfolding glob_documented_def should_exclude_def
    by (auto simp: matches_any_iff merge_excludes_set hardcoded_excludes_def)
qed

end
