(* ===== verification/WalkDir.thy ===== *)
theory WalkDir
  imports FileOps
begin

section \<open>filepath.WalkDir\<close>

text \<open>
  The tree walk of the Go library the engine drives with four different callbacks, and the
  contract under which a walk is the plain iteration of one step over the entries of the tree
  in preorder. The callback gets the path, the kind of the directory entry (absent when the
  root's \<open>Lstat\<close> failed), the error of a failed \<open>ReadDir\<close> and its own variables.
\<close>

datatype wres = WNil | WSkipDir | WErr goerror | WFuel

fun wres_of :: "goerror option \<Rightarrow> wres" where
  "wres_of None = WNil"
| "wres_of (Some e) = WErr e"

type_synonym 'a wst = "'a \<times> world"

type_synonym 'a walkfn = "apath \<Rightarrow> kind option \<Rightarrow> goerror option \<Rightarrow> 'a wst \<Rightarrow> wres \<times> 'a wst"

fun walk_list :: "(apath \<Rightarrow> kind \<Rightarrow> 's \<Rightarrow> wres \<times> 's) \<Rightarrow> apath \<Rightarrow> (string \<times> kind) list \<Rightarrow> 's \<Rightarrow> wres \<times> 's" where
  "walk_list f p [] s = (WNil, s)"
| "walk_list f p ((x, k) # es) s =
     (case f (p @ [x]) k s of
        (WNil, s') \<Rightarrow> walk_list f p es s'
      | (WSkipDir, s') \<Rightarrow> (WNil, s')
      | (r, s') \<Rightarrow> (r, s'))"

definition skip_dir_done :: "kind \<Rightarrow> wres \<Rightarrow> wres" where
  "skip_dir_done k r = (if r = WSkipDir \<and> k = KDir then WNil else r)"

primrec walk_dir :: "nat \<Rightarrow> 'a walkfn \<Rightarrow> apath \<Rightarrow> kind \<Rightarrow> 'a wst \<Rightarrow> wres \<times> 'a wst" where
  "walk_dir 0 cb p k s = (WFuel, s)"
| "walk_dir (Suc n) cb p k s =
     (let (r, s1) = cb p (Some k) None s in
      if r \<noteq> WNil \<or> k \<noteq> KDir then (skip_dir_done k r, s1)
      else (case read_dir (store (snd s1)) p of
          Inr dirs \<Rightarrow> walk_list (walk_dir n cb) p dirs s1
        | Inl err \<Rightarrow> (let (r, s2) = cb p (Some k) (Some err) s1 in (skip_dir_done k r, s2))))"

definition walk_fuel :: "fs \<Rightarrow> nat" where
  "walk_fuel m = Suc (fold max (map length (mkeys m)) 0)"

definition walk :: "'a walkfn \<Rightarrow> apath \<Rightarrow> 'a wst \<Rightarrow> wres \<times> 'a wst" where
  "walk cb root s =
     (let (r, s') = (case lstat (store (snd s)) root of
          Inl err \<Rightarrow> cb root None (Some err) s
        | Inr info \<Rightarrow> walk_dir (walk_fuel (store (snd s))) cb root (kind_of info) s)
      in (if r = WSkipDir then WNil else r, s'))"

text \<open>The error a walk returns; running out of fuel never happens (below) and is an error too.\<close>

fun walk_err :: "wres \<Rightarrow> goerror option" where
  "walk_err WNil = None"
| "walk_err WSkipDir = None"
| "walk_err (WErr e) = Some e"
| "walk_err WFuel = Some (Errorf ''walk out of fuel'')"

subsection \<open>What every step keeps, the walk keeps\<close>

lemma walk_list_inv:
  assumes step: "\<And>q k s r s'. I s \<Longrightarrow> prefix p q \<Longrightarrow> f q k s = (r, s') \<Longrightarrow> I s'"
  shows "I s \<Longrightarrow> walk_list f p es s = (r, s') \<Longrightarrow> I s'"
proof (induction es arbitrary: s)
  case (Cons e es)
  obtain x k where e: "e = (x, k)" by (rule prod.exhaust)
  obtain r1 s1 where f: "f (p @ [x]) k s = (r1, s1)" by (rule prod.exhaust)
  have "I s1" using step [OF Cons.prems(1) _ f] by simp
  with Cons f e show ?case by (cases r1) auto
qed simp

lemma walk_dir_inv:
  assumes cb: "\<And>q d e s r s'. I s \<Longrightarrow> prefix root q \<Longrightarrow> cb q d e s = (r, s') \<Longrightarrow> I s'"
  shows "I s \<Longrightarrow> prefix root p \<Longrightarrow> walk_dir n cb p k s = (r, s') \<Longrightarrow> I s'"
proof (induction n arbitrary: p k s r s')
  case (Suc n)
  obtain r1 s1 where c1: "cb p (Some k) None s = (r1, s1)" by (rule prod.exhaust)
  have I1: "I s1" using cb [OF Suc.prems(1,2) c1] .
  show ?case
  proof (cases "r1 \<noteq> WNil \<or> k \<noteq> KDir")
    case True
    with Suc.prems c1 I1 show ?thesis by auto
  next
    case False
    show ?thesis
    proof (cases "read_dir (store (snd s1)) p")
      case (Inl err)
      obtain r2 s2 where c2: "cb p (Some k) (Some err) s1 = (r2, s2)" by (rule prod.exhaust)
      have "I s2" using cb [OF I1 Suc.prems(2) c2] .
      with Inl False Suc.prems c1 c2 show ?thesis by simp
    next
      case (Inr dirs)
      then have w: "walk_list (walk_dir n cb) p dirs s1 = (r, s')"
        using False Suc.prems c1 by simp
      show ?thesis
      proof (rule walk_list_inv [where I = I, OF _ I1 w])
        fix q k s r s' assume "I s" "prefix p q" "walk_dir n cb q k s = (r, s')"
        with Suc.IH [of s q k r s'] Suc.prems(2) show "I s'" by (metis prefix_order.trans)
      qed
    qed
  qed
qed simp

lemma walk_inv:
  assumes cb: "\<And>q d e s r s'. I s \<Longrightarrow> prefix root q \<Longrightarrow> cb q d e s = (r, s') \<Longrightarrow> I s'"
    and I: "I s" and run: "walk cb root s = (r, s')"
  shows "I s'"
proof (cases "lstat (store (snd s)) root")
  case (Inl err)
  obtain r1 s1 where c: "cb root None (Some err) s = (r1, s1)" by (rule prod.exhaust)
  from cb [OF I _ c] have "I s1" by simp
  with Inl c run show ?thesis by (simp add: walk_def)
next
  case (Inr info)
  obtain r1 s1 where w: "walk_dir (walk_fuel (store (snd s))) cb root (kind_of info) s = (r1, s1)"
    by (rule prod.exhaust)
  have "I s1" by (rule walk_dir_inv [where I = I, OF cb I _ w]) auto
  with Inr w run show ?thesis by (simp add: walk_def)
qed

subsection \<open>The walk as an iteration\<close>

primrec visits :: "nat \<Rightarrow> fs \<Rightarrow> (apath \<Rightarrow> kind \<Rightarrow> bool) \<Rightarrow> apath \<Rightarrow> kind \<Rightarrow> (apath \<times> kind) list" where
  "visits 0 m skip p k = []"
| "visits (Suc n) m skip p k =
     (if skip p k then []
      else (p, k) # (if k = KDir
        then concat (map (\<lambda>(x, k'). visits n m skip (p @ [x]) k') (dir_entries m p)) else []))"

fun run_steps :: "(apath \<Rightarrow> kind \<Rightarrow> 's \<Rightarrow> goerror option \<times> 's) \<Rightarrow> (apath \<times> kind) list \<Rightarrow> 's \<Rightarrow> goerror option \<times> 's" where
  "run_steps step [] s = (None, s)"
| "run_steps step ((p, k) # vs) s =
     (case step p k s of
        (None, s') \<Rightarrow> run_steps step vs s'
      | (Some e, s') \<Rightarrow> (Some e, s'))"

lemma run_steps_append:
  "run_steps step (us @ vs) s =
     (case run_steps step us s of (None, s') \<Rightarrow> run_steps step vs s' | (Some e, s') \<Rightarrow> (Some e, s'))"
  by (induction step us s rule: run_steps.induct) (auto split: prod.splits option.splits)

text \<open>A run in which every step is taken at an entry that exists, in a state with the invariant.\<close>

fun sound_run :: "('a wst \<Rightarrow> bool) \<Rightarrow> (apath \<Rightarrow> kind \<Rightarrow> bool) \<Rightarrow> (apath \<Rightarrow> kind \<Rightarrow> 'a wst \<Rightarrow> goerror option \<times> 'a wst) \<Rightarrow> (apath \<times> kind) list \<Rightarrow> 'a wst \<Rightarrow> bool" where
  "sound_run I skip step [] s \<longleftrightarrow> I s"
| "sound_run I skip step ((p, k) # vs) s \<longleftrightarrow>
     I s \<and> \<not> skip p k \<and> (\<exists>n. nodew (snd s) p = Some n \<and> k = kind_of n) \<and>
     (case step p k s of (None, s') \<Rightarrow> sound_run I skip step vs s' | (Some e, s') \<Rightarrow> I s')"

lemma sound_run_append:
  "sound_run I skip step us s \<Longrightarrow> run_steps step us s = (None, s') \<Longrightarrow> sound_run I skip step vs s' \<Longrightarrow>
   sound_run I skip step (us @ vs) s"
  by (induction I skip step us s rule: sound_run.induct) (auto split: prod.splits option.splits)

lemma sound_run_append_err:
  "sound_run I skip step us s \<Longrightarrow> run_steps step us s = (Some e, s') \<Longrightarrow> sound_run I skip step (us @ vs) s"
  by (induction I skip step us s rule: sound_run.induct) (auto split: prod.splits option.splits)

lemma sound_run_final: "sound_run I skip step vs s \<Longrightarrow> run_steps step vs s = (e, s') \<Longrightarrow> I s'"
  by (induction I skip step vs s rule: sound_run.induct) (auto split: prod.splits option.splits)

text \<open>What every step keeps holds at the end of the run.\<close>

lemma sound_run_keeps:
  assumes step: "\<And>s p n e s'. I s \<Longrightarrow> Q s \<Longrightarrow> (p, kind_of n) \<in> V \<Longrightarrow> nodew (snd s) p = Some n \<Longrightarrow>
      \<not> skip p (kind_of n) \<Longrightarrow> step p (kind_of n) s = (e, s') \<Longrightarrow> Q s'"
  shows "sound_run I skip step vs s \<Longrightarrow> set vs \<subseteq> V \<Longrightarrow> run_steps step vs s = (e, s') \<Longrightarrow> Q s \<Longrightarrow> Q s'"
proof (induction vs arbitrary: s)
  case (Cons v vs)
  obtain p k where v: "v = (p, k)" by (rule prod.exhaust)
  obtain e1 s1 where st: "step p k s = (e1, s1)" by (rule prod.exhaust)
  obtain n where n: "nodew (snd s) p = Some n" "k = kind_of n" using Cons.prems(1) v by auto
  have "Q s1"
    by (rule step [OF _ Cons.prems(4) _ n(1) _ st [unfolded n(2)]]) (use Cons.prems v n in auto)
  show ?case
  proof (cases e1)
    case None
    have "sound_run I skip step vs s1" "run_steps step vs s1 = (e, s')"
      using Cons.prems(1,3) v st None by simp_all
    from Cons.IH [OF this(1) _ this(2) \<open>Q s1\<close>] Cons.prems(2) show ?thesis by simp
  qed (use Cons.prems(3) v st \<open>Q s1\<close> in simp)
qed simp

lemma sound_run_conj:
  assumes step: "\<And>s p n e s'. I s \<Longrightarrow> Q s \<Longrightarrow> (p, kind_of n) \<in> V \<Longrightarrow> nodew (snd s) p = Some n \<Longrightarrow>
      \<not> skip p (kind_of n) \<Longrightarrow> step p (kind_of n) s = (e, s') \<Longrightarrow> Q s'"
  shows "sound_run I skip step vs s \<Longrightarrow> set vs \<subseteq> V \<Longrightarrow> Q s \<Longrightarrow> sound_run (\<lambda>t. I t \<and> Q t) skip step vs s"
proof (induction vs arbitrary: s)
  case (Cons v vs)
  obtain p k where v: "v = (p, k)" by (rule prod.exhaust)
  obtain e1 s1 where st: "step p k s = (e1, s1)" by (rule prod.exhaust)
  obtain n where n: "nodew (snd s) p = Some n" "k = kind_of n" using Cons.prems(1) v by auto
  have Q1: "Q s1"
    by (rule step [OF _ Cons.prems(3) _ n(1) _ st [unfolded n(2)]]) (use Cons.prems v n in auto)
  show ?case
  proof (cases e1)
    case None
    have "sound_run I skip step vs s1" using Cons.prems(1) v st None by simp
    from Cons.IH [OF this _ Q1] Cons.prems v st None n show ?thesis by auto
  next
    case (Some err)
    with Cons.prems v st n Q1 show ?thesis by auto
  qed
qed simp

lemma sound_run_keeps_ok:
  assumes step: "\<And>s p n s'. I s \<Longrightarrow> Q s \<Longrightarrow> (p, kind_of n) \<in> V \<Longrightarrow> nodew (snd s) p = Some n \<Longrightarrow>
      \<not> skip p (kind_of n) \<Longrightarrow> step p (kind_of n) s = (None, s') \<Longrightarrow> Q s'"
  shows "sound_run I skip step vs s \<Longrightarrow> set vs \<subseteq> V \<Longrightarrow> run_steps step vs s = (None, s') \<Longrightarrow> Q s \<Longrightarrow> Q s'"
proof (induction vs arbitrary: s)
  case (Cons v vs)
  obtain p k where v: "v = (p, k)" by (rule prod.exhaust)
  with Cons.prems(3) obtain s1 where st: "step p k s = (None, s1)" "run_steps step vs s1 = (None, s')"
    by (auto split: prod.splits option.splits)
  obtain n where n: "nodew (snd s) p = Some n" "k = kind_of n" using Cons.prems(1) v by auto
  have "Q s1"
    by (rule step [OF _ Cons.prems(4) _ n(1) _ st(1) [unfolded n(2)]]) (use Cons.prems v n in auto)
  have "sound_run I skip step vs s1" using Cons.prems(1) v st(1) by simp
  from Cons.IH [OF this _ st(2) \<open>Q s1\<close>] Cons.prems(2) show ?case by simp
qed simp

text \<open>
  After a run without error, what a step establishes of its entry holds of every entry, when
  later steps keep it.
\<close>

lemma sound_run_post:
  assumes est: "\<And>s p n s'. I s \<Longrightarrow> (p, kind_of n) \<in> V \<Longrightarrow> nodew (snd s) p = Some n \<Longrightarrow>
      \<not> skip p (kind_of n) \<Longrightarrow> step p (kind_of n) s = (None, s') \<Longrightarrow> Post p (kind_of n) s'"
    and keep: "\<And>s p n s' q l. I s \<Longrightarrow> (p, kind_of n) \<in> V \<Longrightarrow> nodew (snd s) p = Some n \<Longrightarrow>
      \<not> skip p (kind_of n) \<Longrightarrow> step p (kind_of n) s = (None, s') \<Longrightarrow> q \<noteq> p \<Longrightarrow> Post q l s \<Longrightarrow> Post q l s'"
  shows "sound_run I skip step vs s \<Longrightarrow> set vs \<subseteq> V \<Longrightarrow> distinct (map fst vs) \<Longrightarrow>
     run_steps step vs s = (None, s') \<Longrightarrow> (p, k) \<in> set vs \<Longrightarrow> Post p k s'"
proof (induction vs arbitrary: s)
  case (Cons v vs)
  obtain q l where v: "v = (q, l)" by (rule prod.exhaust)
  with Cons.prems(4) obtain s1 where st: "step q l s = (None, s1)" "run_steps step vs s1 = (None, s')"
    by (auto split: prod.splits option.splits)
  obtain n where n: "nodew (snd s) q = Some n" "l = kind_of n" using Cons.prems(1) v by auto
  have sr: "sound_run I skip step vs s1" using Cons.prems(1) v st(1) by simp
  show ?case
  proof (cases "(p, k) = (q, l)")
    case False
    with Cons.prems(5) v have "(p, k) \<in> set vs" by auto
    with Cons.IH [OF sr _ _ st(2)] Cons.prems(2,3) show ?thesis by simp
  next
    case True
    have "Post p k s1"
      using est [of s q n s1] Cons.prems(1,2) v n st(1) True by auto
    have "p \<notin> set (map fst vs)" using Cons.prems(3) v True by simp
    note pn = this
    show ?thesis
    proof (rule sound_run_keeps_ok [where I = I and Q = "Post p k" and V = "set vs", OF _ sr order_refl st(2)])
      fix t r n t'
      assume a: "I t" "Post p k t" "(r, kind_of n) \<in> set vs" "nodew (snd t) r = Some n"
        "\<not> skip r (kind_of n)" "step r (kind_of n) t = (None, t')"
      have "p \<noteq> r" using pn a(3) by force
      with keep [OF a(1) _ a(4-6) _ a(2)] a(3) Cons.prems(2) show "Post p k t'" by auto
    qed (rule \<open>Post p k s1\<close>)
  qed
qed simp

text \<open>
  The contract of a walk's client. A step at an entry that exists changes nothing below the
  walk's root except, for an entry that is not a directory, that entry and its ancestors: the
  part of the tree the walk has not listed yet is untouched. Only directories are skipped.
\<close>

locale walk_client =
  fixes cb :: "'a walkfn"
    and skip :: "apath \<Rightarrow> kind \<Rightarrow> bool"
    and step :: "apath \<Rightarrow> kind \<Rightarrow> 'a wst \<Rightarrow> goerror option \<times> 'a wst"
    and inv :: "'a wst \<Rightarrow> bool"
    and root :: apath
  assumes cb_skip: "inv s \<Longrightarrow> prefix root p \<Longrightarrow> nodew (snd s) p = Some n \<Longrightarrow> skip p (kind_of n) \<Longrightarrow>
        kind_of n = KDir \<and> cb p (Some (kind_of n)) None s = (WSkipDir, s)"
    and cb_step: "inv s \<Longrightarrow> prefix root p \<Longrightarrow> nodew (snd s) p = Some n \<Longrightarrow> \<not> skip p (kind_of n) \<Longrightarrow>
        step p (kind_of n) s = (e, s') \<Longrightarrow> cb p (Some (kind_of n)) None s = (wres_of e, s')"
    and step_inv: "inv s \<Longrightarrow> prefix root p \<Longrightarrow> nodew (snd s) p = Some n \<Longrightarrow> \<not> skip p (kind_of n) \<Longrightarrow>
        step p (kind_of n) s = (e, s') \<Longrightarrow> inv s'"
    and step_frame: "inv s \<Longrightarrow> prefix root p \<Longrightarrow> nodew (snd s) p = Some n \<Longrightarrow> \<not> skip p (kind_of n) \<Longrightarrow>
        step p (kind_of n) s = (e, s') \<Longrightarrow> prefix root q \<Longrightarrow> nodew (snd s') q \<noteq> nodew (snd s) q \<Longrightarrow>
        kind_of n \<noteq> KDir \<and> prefix q p"
    and inv_ok: "inv s \<Longrightarrow> fs_ok (store (snd s))"
begin

definition walked :: "(apath \<Rightarrow> bool) \<Rightarrow> 'a wst \<Rightarrow> (apath \<times> kind) list \<Rightarrow> wres \<times> 'a wst \<Rightarrow> bool" where
  "walked sub s vs out \<longleftrightarrow>
     out = (let (e, s') = run_steps step vs s in (wres_of e, s')) \<and> sound_run inv skip step vs s \<and>
     (\<forall>q. prefix root q \<longrightarrow> nodew (snd (snd out)) q \<noteq> nodew (snd s) q \<longrightarrow> sub q)"

lemma walkedI:
  assumes "run_steps step vs s = (e, s')" "sound_run inv skip step vs s"
    and "\<And>q. prefix root q \<Longrightarrow> nodew (snd s') q \<noteq> nodew (snd s) q \<Longrightarrow> sub q"
  shows "walked sub s vs (wres_of e, s')"
  using assms by (simp add: walked_def)

lemma walk_list_walked:
  assumes f: "\<And>x k nd s. (x, k) \<in> set es \<Longrightarrow> inv s \<Longrightarrow> nodew (snd s) (p @ [x]) = Some nd \<Longrightarrow> k = kind_of nd \<Longrightarrow>
        (\<forall>q. prefix (p @ [x]) q \<longrightarrow> nodew (snd s) q = node_at m q) \<Longrightarrow>
        walked (\<lambda>q. prefix q (p @ [x]) \<or> prefix (p @ [x]) q) s (V x k) (f (p @ [x]) k s)"
    and p: "prefix root p"
  shows "inv s \<Longrightarrow> distinct (map fst es) \<Longrightarrow>
    (\<forall>(x, k) \<in> set es. \<exists>nd. node_at m (p @ [x]) = Some nd \<and> k = kind_of nd) \<Longrightarrow>
    (\<forall>(x, k) \<in> set es. \<forall>q. prefix (p @ [x]) q \<longrightarrow> nodew (snd s) q = node_at m q) \<Longrightarrow>
    walked (\<lambda>q. prefix q p \<or> prefix p q) s (concat (map (\<lambda>(x, k). V x k) es)) (walk_list f p es s)"
  using f
proof (induction es arbitrary: s)
  case Nil
  show ?case using walkedI [of "[]" s None s] Nil.prems(1) by simp
next
  case (Cons e es)
  obtain x k where e: "e = (x, k)" by (rule prod.exhaust)
  obtain nd where nd: "node_at m (p @ [x]) = Some nd" "k = kind_of nd"
    using Cons.prems(3) e by auto
  have ag: "\<forall>q. prefix (p @ [x]) q \<longrightarrow> nodew (snd s) q = node_at m q" using Cons.prems(4) e by simp
  then have nw: "nodew (snd s) (p @ [x]) = Some nd" using nd by simp
  have w1: "walked (\<lambda>q. prefix q (p @ [x]) \<or> prefix (p @ [x]) q) s (V x k) (f (p @ [x]) k s)"
    by (rule Cons.prems(5) [OF _ Cons.prems(1) nw nd(2) ag]) (simp add: e)
  obtain e1 s1 where r1: "run_steps step (V x k) s = (e1, s1)" by (rule prod.exhaust)
  with w1 have f1: "f (p @ [x]) k s = (wres_of e1, s1)" and sr1: "sound_run inv skip step (V x k) s"
    and fr1: "\<And>q. prefix root q \<Longrightarrow> nodew (snd s1) q \<noteq> nodew (snd s) q \<Longrightarrow>
        prefix q (p @ [x]) \<or> prefix (p @ [x]) q"
    by (auto simp: walked_def)
  have i1: "inv s1" by (rule sound_run_final [OF sr1 r1])
  have sub: "prefix q (p @ [x]) \<or> prefix (p @ [x]) q \<Longrightarrow> prefix q p \<or> prefix p q" for q
    by (metis prefix_order.trans prefix_snoc prefixI append_prefixD)
  show ?case
  proof (cases e1)
    case (Some err)
    have "run_steps step (concat (map (\<lambda>(x, k). V x k) (e # es))) s = (Some err, s1)"
      using r1 Some e by (simp add: run_steps_append)
    moreover have "sound_run inv skip step (concat (map (\<lambda>(x, k). V x k) (e # es))) s"
      using sound_run_append_err [OF sr1 r1 [unfolded Some]] e by simp
    ultimately have "walked (\<lambda>q. prefix q p \<or> prefix p q) s
        (concat (map (\<lambda>(x, k). V x k) (e # es))) (wres_of (Some err), s1)"
      by (rule walkedI) (rule sub [OF fr1])
    with f1 Some e show ?thesis by simp
  next
    case None
    have ag1: "\<forall>(y, l) \<in> set es. \<forall>q. prefix (p @ [y]) q \<longrightarrow> nodew (snd s1) q = node_at m q"
    proof (intro ballI, clarify)
      fix y l q assume y: "(y, l) \<in> set es" and q: "prefix (p @ [y]) q"
      have "y \<noteq> x" using y Cons.prems(2) e by force
      then have "\<not> (prefix q (p @ [x]) \<or> prefix (p @ [x]) q)"
        using q by (auto simp: prefix_def append_eq_append_conv2 Cons_eq_append_conv append_eq_Cons_conv)
      moreover have "prefix root q" using p q by (metis append_prefixD prefix_order.trans)
      ultimately have "nodew (snd s1) q = nodew (snd s) q" using fr1 by blast
      with Cons.prems(4) y q show "nodew (snd s1) q = node_at m q" by auto
    qed
    have w2: "walked (\<lambda>q. prefix q p \<or> prefix p q) s1 (concat (map (\<lambda>(x, k). V x k) es)) (walk_list f p es s1)"
      by (rule Cons.IH [OF i1 _ _ ag1]) (use Cons.prems in auto)
    obtain e2 s2 where r2: "run_steps step (concat (map (\<lambda>(x, k). V x k) es)) s1 = (e2, s2)"
      by (rule prod.exhaust)
    with w2 have l2: "walk_list f p es s1 = (wres_of e2, s2)"
      and sr2: "sound_run inv skip step (concat (map (\<lambda>(x, k). V x k) es)) s1"
      and fr2: "\<And>q. prefix root q \<Longrightarrow> nodew (snd s2) q \<noteq> nodew (snd s1) q \<Longrightarrow> prefix q p \<or> prefix p q"
      by (auto simp: walked_def)
    have "run_steps step (concat (map (\<lambda>(x, k). V x k) (e # es))) s = (e2, s2)"
      using r1 r2 None e by (simp add: run_steps_append)
    moreover have "sound_run inv skip step (concat (map (\<lambda>(x, k). V x k) (e # es))) s"
      using sound_run_append [OF sr1 r1 [unfolded None] sr2] e by simp
    ultimately have "walked (\<lambda>q. prefix q p \<or> prefix p q) s
        (concat (map (\<lambda>(x, k). V x k) (e # es))) (wres_of e2, s2)"
    proof (rule walkedI)
      fix q assume q: "prefix root q" "nodew (snd s2) q \<noteq> nodew (snd s) q"
      show "prefix q p \<or> prefix p q"
      proof (cases "nodew (snd s2) q = nodew (snd s1) q")
        case True
        with q(2) have "nodew (snd s1) q \<noteq> nodew (snd s) q" by simp
        from sub [OF fr1 [OF q(1) this]] show ?thesis .
      next
        case False
        from fr2 [OF q(1) this] show ?thesis .
      qed
    qed
    with f1 l2 None e show ?thesis by simp
  qed
qed

lemma walk_dir_walked:
  assumes m: "fs_ok m"
  shows "inv s \<Longrightarrow> prefix root p \<Longrightarrow> node_at m p = Some nd \<Longrightarrow>
    (\<forall>q. prefix p q \<longrightarrow> nodew (snd s) q = node_at m q) \<Longrightarrow>
    (\<forall>q. prefix p q \<longrightarrow> node_at m q \<noteq> None \<longrightarrow> length q < length p + n) \<Longrightarrow>
    walked (\<lambda>q. prefix q p \<or> prefix p q) s (visits n m skip p (kind_of nd)) (walk_dir n cb p (kind_of nd) s)"
proof (induction n arbitrary: p nd s)
  case 0
  then have "node_at m p = None" by auto
  with 0 show ?case by simp
next
  case (Suc n)
  let ?k = "kind_of nd"
  have nw: "nodew (snd s) p = Some nd" using Suc.prems(3,4) by simp
  show ?case
  proof (cases "skip p ?k")
    case True
    have k: "?k = KDir" and c: "cb p (Some ?k) None s = (WSkipDir, s)"
      using cb_skip [OF Suc.prems(1,2) nw True] by (rule conjunct1, rule conjunct2)
    from c [unfolded k] have "walk_dir (Suc n) cb p KDir s = (WNil, s)"
      by (simp add: skip_dir_done_def)
    with k True walkedI [of "[]" s None s] Suc.prems(1) show ?thesis by simp
  next
    case False
    obtain e1 s1 where st: "step p ?k s = (e1, s1)" by (rule prod.exhaust)
    note cb = cb_step [OF Suc.prems(1,2) nw False st]
    have i1: "inv s1" by (rule step_inv [OF Suc.prems(1,2) nw False st])
    have fr1: "prefix root q \<Longrightarrow> nodew (snd s1) q \<noteq> nodew (snd s) q \<Longrightarrow> ?k \<noteq> KDir \<and> prefix q p" for q
      by (rule step_frame [OF Suc.prems(1,2) nw False st])
    show ?thesis
    proof (cases "e1 = None \<and> ?k = KDir")
      case False
      have "run_steps step (visits (Suc n) m skip p ?k) s = (e1, s1)"
        using st False \<open>\<not> skip p ?k\<close> by (cases e1) auto
      moreover have "sound_run inv skip step (visits (Suc n) m skip p ?k) s"
        using st False \<open>\<not> skip p ?k\<close> nw Suc.prems(1) i1 by (cases e1) auto
      ultimately have "walked (\<lambda>q. prefix q p \<or> prefix p q) s (visits (Suc n) m skip p ?k) (wres_of e1, s1)"
        using fr1 by (intro walkedI) auto
      moreover have "walk_dir (Suc n) cb p ?k s = (wres_of e1, s1)"
        using cb False by (cases e1) (auto simp: skip_dir_done_def)
      ultimately show ?thesis by simp
    next
      case True
      then have dir: "nd = Dir" by (cases nd) auto
      have ag: "prefix p q \<Longrightarrow> nodew (snd s1) q = node_at m q" for q
        using fr1 [of q] True Suc.prems(2,4) by (metis prefix_order.trans)
      have rd: "read_dir (store (snd s1)) p = Inr (dir_entries m p)"
        using ag [of p] Suc.prems(3) dir dir_entries_cong [OF inv_ok [OF i1] m, of p] ag
        by (simp add: read_dir_Dir)
      have eq: "walk_dir (Suc n) cb p ?k s = walk_list (walk_dir n cb) p (dir_entries m p) s1"
        using cb True rd by simp
      have "walked (\<lambda>q. prefix q p \<or> prefix p q) s1
          (concat (map (\<lambda>(x, k). visits n m skip (p @ [x]) k) (dir_entries m p)))
          (walk_list (walk_dir n cb) p (dir_entries m p) s1)"
      proof (rule walk_list_walked [where m = m, OF _ Suc.prems(2) i1])
        fix x k nd' t
        assume a: "(x, k) \<in> set (dir_entries m p)" "inv t" "nodew (snd t) (p @ [x]) = Some nd'"
          "k = kind_of nd'" "\<forall>q. prefix (p @ [x]) q \<longrightarrow> nodew (snd t) q = node_at m q"
        have "prefix root (p @ [x])" using Suc.prems(2) by simp
        moreover have "length q < length (p @ [x]) + n" if "prefix (p @ [x]) q" "node_at m q \<noteq> None" for q
          using Suc.prems(5) that by (auto dest: append_prefixD)
        ultimately show "walked (\<lambda>q. prefix q (p @ [x]) \<or> prefix (p @ [x]) q) t
            (visits n m skip (p @ [x]) k) (walk_dir n cb (p @ [x]) k t)"
          using Suc.IH [of t "p @ [x]" nd'] a by simp
      next
        show "distinct (map fst (dir_entries m p))" by (simp add: dir_entries_def comp_def)
      next
        show "\<forall>(x, k) \<in> set (dir_entries m p). \<exists>nd. node_at m (p @ [x]) = Some nd \<and> k = kind_of nd"
          using set_dir_entries [OF m] by blast
      next
        show "\<forall>(x, k) \<in> set (dir_entries m p). \<forall>q. prefix (p @ [x]) q \<longrightarrow> nodew (snd s1) q = node_at m q"
          using ag by (auto dest: append_prefixD)
      qed
      then have w: "walked (\<lambda>q. prefix q p \<or> prefix p q) s1
          (concat (map (\<lambda>(x, k). visits n m skip (p @ [x]) k) (dir_entries m p)))
          (walk_dir (Suc n) cb p ?k s)" using eq by simp
      have same: "prefix root q \<Longrightarrow> nodew (snd s1) q = nodew (snd s) q" for q
        using fr1 [of q] True by blast
      have "run_steps step (visits (Suc n) m skip p ?k) s =
          run_steps step (concat (map (\<lambda>(x, k). visits n m skip (p @ [x]) k) (dir_entries m p))) s1"
        using st True False by simp
      moreover have "sound_run inv skip step (visits (Suc n) m skip p ?k) s"
        using w st True False nw Suc.prems(1) by (simp add: walked_def)
      ultimately show ?thesis
        using w same unfolding walked_def
        by (metis (no_types, lifting))
    qed
  qed
qed

end

text \<open>Enough fuel: one more than the longest path of the store.\<close>

lemma fold_max_le: "x \<in> set xs \<or> x = a \<Longrightarrow> x \<le> fold max xs (a :: nat)"
proof (induction xs arbitrary: a)
  case (Cons y ys)
  have "max y a \<le> fold max ys (max y a)"
    by (induction ys arbitrary: a y) (auto intro: order_trans)
  moreover have "x \<in> set ys \<Longrightarrow> x \<le> fold max ys (max y a)" by (rule Cons.IH) simp
  ultimately show ?case using Cons.prems by auto
qed auto

lemma length_lt_walk_fuel: "node_at m q \<noteq> None \<Longrightarrow> length q < walk_fuel m"
proof (cases "q = []")
  case False
  assume "node_at m q \<noteq> None"
  with False have "q \<in> set (mkeys m)" by (simp add: in_mkeys_iff node_at_def)
  then show ?thesis using fold_max_le [of "length q" "map length (mkeys m)" 0]
    by (auto simp: walk_fuel_def)
qed (simp add: walk_fuel_def)

definition walk_visits :: "fs \<Rightarrow> (apath \<Rightarrow> kind \<Rightarrow> bool) \<Rightarrow> apath \<Rightarrow> (apath \<times> kind) list" where
  "walk_visits m skip root = (case node_at m root of
      None \<Rightarrow> [] | Some nd \<Rightarrow> visits (walk_fuel m) m skip root (kind_of nd))"

text \<open>The entries visited: those no skipped directory stands above, each once.\<close>

definition reached :: "(apath \<Rightarrow> kind \<Rightarrow> bool) \<Rightarrow> fs \<Rightarrow> apath \<Rightarrow> apath \<Rightarrow> bool" where
  "reached skip m root q \<longleftrightarrow> prefix root q \<and>
     (\<forall>a. prefix root a \<longrightarrow> prefix a q \<longrightarrow> (\<forall>n. node_at m a = Some n \<longrightarrow> \<not> skip a (kind_of n)))"

lemma visits_sound:
  "fs_ok m \<Longrightarrow> node_at m p = Some nd \<Longrightarrow> (q, k) \<in> set (visits n m skip p (kind_of nd)) \<Longrightarrow>
   (\<exists>nq. node_at m q = Some nq \<and> k = kind_of nq) \<and> reached skip m p q"
proof (induction n arbitrary: p nd)
  case (Suc n)
  from Suc.prems(3) have ns: "\<not> skip p (kind_of nd)" by (auto split: if_splits)
  show ?case
  proof (cases "(q, k) = (p, kind_of nd)")
    case True
    with Suc.prems(2) ns show ?thesis
      by (auto simp: reached_def dest: prefix_order.antisym)
  next
    case False
    with Suc.prems(3) ns have dir: "kind_of nd = KDir" and
      "(q, k) \<in> set (concat (map (\<lambda>(x, k'). visits n m skip (p @ [x]) k') (dir_entries m p)))"
      by (auto split: if_splits)
    then obtain x l where x: "(x, l) \<in> set (dir_entries m p)" "(q, k) \<in> set (visits n m skip (p @ [x]) l)"
      by auto
    then obtain nx where nx: "node_at m (p @ [x]) = Some nx" "l = kind_of nx"
      using set_dir_entries [OF Suc.prems(1)] by blast
    note IH = Suc.IH [OF Suc.prems(1) nx(1) x(2) [unfolded nx(2)]]
    have "reached skip m p q"
      unfolding reached_def
    proof (intro conjI allI impI)
      from IH have pq: "prefix (p @ [x]) q" by (simp add: reached_def)
      then show "prefix p q" by (rule append_prefixD)
      fix a n' assume a: "prefix p a" "prefix a q" "node_at m a = Some n'"
      show "\<not> skip a (kind_of n')"
      proof (cases "a = p")
        case False
        have "prefix (p @ [x]) a"
          using a(1,2) pq False prefix_same_cases [of a q "p @ [x]"]
          by (metis prefix_order.antisym prefix_snoc)
        with IH a show ?thesis by (auto simp: reached_def)
      qed (use a(3) Suc.prems(2) ns in simp)
    qed
    with IH show ?thesis by blast
  qed
qed simp

lemma visits_complete:
  "fs_ok m \<Longrightarrow> node_at m p = Some nd \<Longrightarrow> node_at m q = Some nq \<Longrightarrow> reached skip m p q \<Longrightarrow>
   length q < length p + n \<Longrightarrow> (q, kind_of nq) \<in> set (visits n m skip p (kind_of nd))"
proof (induction n arbitrary: p nd)
  case 0
  then show ?case by (auto simp: reached_def dest: prefix_length_le)
next
  case (Suc n)
  from Suc.prems(2,4) have ns: "\<not> skip p (kind_of nd)" by (auto simp: reached_def)
  show ?case
  proof (cases "q = p")
    case True
    with ns Suc.prems(2,3) show ?thesis by simp
  next
    case False
    moreover obtain zs where zs: "q = p @ zs" using Suc.prems(4) by (auto simp: reached_def prefix_def)
    ultimately obtain x r where q: "q = (p @ [x]) @ r" by (cases zs) auto
    have "nd = Dir" using fs_ok_ancestor [OF Suc.prems(1), of p "x # r"] Suc.prems(2,3) q by simp
    then have dir: "kind_of nd = KDir" by simp
    obtain nx where nx: "node_at m (p @ [x]) = Some nx"
    proof (cases "r = []")
      case True
      with q Suc.prems(3) that show ?thesis by simp
    next
      case False
      with fs_ok_ancestor [OF Suc.prems(1), of "p @ [x]" r] Suc.prems(3) q that show ?thesis by simp
    qed
    have "reached skip m (p @ [x]) q"
      using Suc.prems(4) q unfolding reached_def by (auto dest: append_prefixD)
    then have "(q, kind_of nq) \<in> set (visits n m skip (p @ [x]) (kind_of nx))"
      using Suc.IH [OF Suc.prems(1) nx Suc.prems(3)] Suc.prems(5) by simp
    moreover have "(x, kind_of nx) \<in> set (dir_entries m p)"
      using set_dir_entries [OF Suc.prems(1)] nx by blast
    ultimately show ?thesis using dir ns by (auto intro!: bexI [of _ "(x, kind_of nx)"])
  qed
qed

lemma walk_visits_iff:
  assumes "fs_ok m"
  shows "(q, k) \<in> set (walk_visits m skip root) \<longleftrightarrow>
    (\<exists>n. node_at m q = Some n \<and> k = kind_of n) \<and> reached skip m root q \<and> node_at m root \<noteq> None"
proof (cases "node_at m root")
  case (Some nd)
  show ?thesis
  proof
    assume "(q, k) \<in> set (walk_visits m skip root)"
    with Some visits_sound [OF assms Some, of q k] show "(\<exists>n. node_at m q = Some n \<and> k = kind_of n) \<and>
        reached skip m root q \<and> node_at m root \<noteq> None" by (auto simp: walk_visits_def)
  next
    assume "(\<exists>n. node_at m q = Some n \<and> k = kind_of n) \<and> reached skip m root q \<and> node_at m root \<noteq> None"
    then obtain n where n: "node_at m q = Some n" "k = kind_of n" "reached skip m root q" by blast
    have "length q < length root + walk_fuel m" using length_lt_walk_fuel [of m q] n(1) by simp
    from visits_complete [OF assms Some n(1,3) this] Some n(2)
    show "(q, k) \<in> set (walk_visits m skip root)" by (simp add: walk_visits_def)
  qed
qed (simp add: walk_visits_def)

lemma distinct_visits:
  assumes "fs_ok m"
  shows "node_at m p = Some nd \<Longrightarrow> distinct (map fst (visits n m skip p (kind_of nd)))"
proof (induction n arbitrary: p nd)
  case (Suc n)
  let ?f = "\<lambda>(x, k'). visits n m skip (p @ [x]) k'"
  have child: "(x, k') \<in> set (dir_entries m p) \<Longrightarrow> q \<in> fst ` set (?f (x, k')) \<Longrightarrow> prefix (p @ [x]) q" for x k' q
    using visits_sound [OF assms, of "p @ [x]"] set_dir_entries [OF assms, of x k' p]
    by (fastforce simp: reached_def)
  have "distinct (map fst (concat (map ?f es)))"
    if "set es \<subseteq> set (dir_entries m p)" "distinct (map fst es)" for es
    using that
  proof (induction es)
    case (Cons e es)
    obtain x k where e: "e = (x, k)" by (rule prod.exhaust)
    then have xk: "(x, k) \<in> set (dir_entries m p)" using Cons.prems(1) by simp
    then obtain nx where "node_at m (p @ [x]) = Some nx" "k = kind_of nx"
      using set_dir_entries [OF assms] by blast
    with Suc.IH have "distinct (map fst (?f e))" using e by simp
    moreover have "distinct (map fst (concat (map ?f es)))" using Cons by simp
    moreover have "q \<notin> fst ` set (concat (map ?f es))" if q: "q \<in> fst ` set (?f e)" for q
    proof
      assume "q \<in> fst ` set (concat (map ?f es))"
      then obtain y l where y: "(y, l) \<in> set es" "q \<in> fst ` set (?f (y, l))" by force
      have "prefix (p @ [y]) q" using child [OF _ y(2)] y(1) Cons.prems(1) by auto
      moreover have "prefix (p @ [x]) q" using child [OF xk] q e by simp
      ultimately have "x = y" by (auto simp: prefix_def)
      with y(1) e Cons.prems(2) show False by force
    qed
    ultimately have "distinct (map fst (?f e) @ map fst (concat (map ?f es)))"
      unfolding distinct_append by (metis (no_types, lifting) disjoint_iff list.set_map)
    then show ?case by simp
  qed simp
  from this [of "dir_entries m p"]
  have c: "distinct (map fst (concat (map ?f (dir_entries m p))))"
    by (simp add: dir_entries_def comp_def)
  have "p \<notin> fst ` set (concat (map ?f (dir_entries m p)))"
  proof
    assume "p \<in> fst ` set (concat (map ?f (dir_entries m p)))"
    then obtain x l where "(x, l) \<in> set (dir_entries m p)" "p \<in> fst ` set (?f (x, l))" by force
    from child [OF this] show False by (simp add: prefix_def)
  qed
  then have "p \<notin> set (map fst (concat (map ?f (dir_entries m p))))" unfolding list.set_map .
  with c have d: "distinct (map fst ((p, kind_of nd) # concat (map ?f (dir_entries m p))))"
    unfolding list.map distinct.simps fst_conv by (rule conjI [rotated])
  show ?case
  proof (cases "skip p (kind_of nd) \<or> kind_of nd \<noteq> KDir")
    case False
    then have ns: "\<not> skip p (kind_of nd)" and k: "kind_of nd = KDir" by blast+
    have "visits (Suc n) m skip p (kind_of nd) = (p, kind_of nd) # concat (map ?f (dir_entries m p))"
      unfolding visits.simps if_not_P [OF ns] if_P [OF k] ..
    with d show ?thesis by (simp only:)
  qed auto
qed simp

lemma distinct_walk_visits: "fs_ok m \<Longrightarrow> distinct (map fst (walk_visits m skip root))"
  by (auto simp: walk_visits_def distinct_visits split: option.splits)

context walk_client begin

text \<open>The walk of an existing root is the iteration of its client's step.\<close>

lemma walk_is_run:
  assumes "inv s" "nodew (snd s) root \<noteq> None"
  shows "walk cb root s =
      (let (e, s') = run_steps step (walk_visits (store (snd s)) skip root) s in (wres_of e, s'))"
    and "inv (snd (walk cb root s))"
    and "sound_run inv skip step (walk_visits (store (snd s)) skip root) s"
proof -
  obtain nd where nd: "nodew (snd s) root = Some nd" using assms(2) by blast
  let ?n = "walk_fuel (store (snd s))"
  have w: "walked (\<lambda>q. prefix q root \<or> prefix root q) s (visits ?n (store (snd s)) skip root (kind_of nd))
      (walk_dir ?n cb root (kind_of nd) s)"
    by (rule walk_dir_walked) (use assms(1) nd in \<open>auto simp: inv_ok intro: trans_less_add2 length_lt_walk_fuel\<close>)
  obtain e s' where r: "run_steps step (visits ?n (store (snd s)) skip root (kind_of nd)) s = (e, s')"
    by (rule prod.exhaust)
  with w have d: "walk_dir ?n cb root (kind_of nd) s = (wres_of e, s')"
    and sr: "sound_run inv skip step (visits ?n (store (snd s)) skip root (kind_of nd)) s"
    by (auto simp: walked_def)
  then have eq: "walk cb root s = (wres_of e, s')"
    using nd by (cases e) (simp_all add: walk_def lstat_def)
  with r nd show "walk cb root s =
      (let (e, s') = run_steps step (walk_visits (store (snd s)) skip root) s in (wres_of e, s'))"
    by (simp add: walk_visits_def)
  from eq sound_run_final [OF sr r] show "inv (snd (walk cb root s))" by simp
  from sr nd show "sound_run inv skip step (walk_visits (store (snd s)) skip root) s"
    by (simp add: walk_visits_def)
qed

lemma walk_fuel_enough:
  assumes "inv s" "nodew (snd s) root \<noteq> None"
  shows "fst (walk cb root s) \<noteq> WFuel"
proof -
  obtain e s' where "run_steps step (walk_visits (store (snd s)) skip root) s = (e, s')"
    by (rule prod.exhaust)
  with walk_is_run(1) [OF assms] show ?thesis by (cases e) simp_all
qed

text \<open>The two ways a client uses a walk: what every step keeps, and what a step establishes.\<close>

lemma walk_keeps:
  assumes "inv s" "nodew (snd s) root \<noteq> None" "Q s"
    and "\<And>t p n e t'. inv t \<Longrightarrow> Q t \<Longrightarrow> (p, kind_of n) \<in> set (walk_visits (store (snd s)) skip root) \<Longrightarrow>
      nodew (snd t) p = Some n \<Longrightarrow> \<not> skip p (kind_of n) \<Longrightarrow> step p (kind_of n) t = (e, t') \<Longrightarrow> Q t'"
  shows "Q (snd (walk cb root s))"
proof -
  obtain e s' where r: "run_steps step (walk_visits (store (snd s)) skip root) s = (e, s')"
    by (rule prod.exhaust)
  have "Q s'" by (rule sound_run_keeps [where I = inv and Q = Q, OF assms(4) walk_is_run(3) [OF assms(1,2)] order_refl r assms(3)])
  with r walk_is_run(1) [OF assms(1,2)] show ?thesis by simp
qed

lemma walk_post_inv:
  assumes "inv s" "nodew (snd s) root \<noteq> None" "walk cb root s = (WNil, s')"
    and "(p, k) \<in> set (walk_visits (store (snd s)) skip root)" "Q s"
    and Q: "\<And>t p n e t'. inv t \<Longrightarrow> Q t \<Longrightarrow> (p, kind_of n) \<in> set (walk_visits (store (snd s)) skip root) \<Longrightarrow>
      nodew (snd t) p = Some n \<Longrightarrow> \<not> skip p (kind_of n) \<Longrightarrow> step p (kind_of n) t = (e, t') \<Longrightarrow> Q t'"
    and est: "\<And>t p n t'. inv t \<and> Q t \<Longrightarrow> (p, kind_of n) \<in> set (walk_visits (store (snd s)) skip root) \<Longrightarrow>
      nodew (snd t) p = Some n \<Longrightarrow> \<not> skip p (kind_of n) \<Longrightarrow> step p (kind_of n) t = (None, t') \<Longrightarrow>
      Post p (kind_of n) t'"
    and keep: "\<And>t p n t' q l. inv t \<and> Q t \<Longrightarrow> (p, kind_of n) \<in> set (walk_visits (store (snd s)) skip root) \<Longrightarrow>
      nodew (snd t) p = Some n \<Longrightarrow> \<not> skip p (kind_of n) \<Longrightarrow> step p (kind_of n) t = (None, t') \<Longrightarrow>
      q \<noteq> p \<Longrightarrow> Post q l t \<Longrightarrow> Post q l t'"
  shows "Post p k s'"
proof -
  obtain e s1 where r: "run_steps step (walk_visits (store (snd s)) skip root) s = (e, s1)"
    by (rule prod.exhaust)
  with assms(3) walk_is_run(1) [OF assms(1,2)] have "e = None" "s1 = s'" by (cases e; simp)+
  with r have r: "run_steps step (walk_visits (store (snd s)) skip root) s = (None, s')" by simp
  have sr: "sound_run (\<lambda>t. inv t \<and> Q t) skip step (walk_visits (store (snd s)) skip root) s"
    by (rule sound_run_conj [where I = inv and Q = Q, OF Q walk_is_run(3) [OF assms(1,2)] order_refl assms(5)])
  show ?thesis
    by (rule sound_run_post [where I = "\<lambda>t. inv t \<and> Q t" and Post = Post, OF est keep sr order_refl
          distinct_walk_visits [OF inv_ok [OF assms(1)]] r assms(4)])
qed

lemma walk_post:
  assumes "inv s" "nodew (snd s) root \<noteq> None" "walk cb root s = (WNil, s')"
    and "(p, k) \<in> set (walk_visits (store (snd s)) skip root)"
    and "\<And>t p n t'. inv t \<Longrightarrow> (p, kind_of n) \<in> set (walk_visits (store (snd s)) skip root) \<Longrightarrow>
      nodew (snd t) p = Some n \<Longrightarrow> \<not> skip p (kind_of n) \<Longrightarrow> step p (kind_of n) t = (None, t') \<Longrightarrow>
      Post p (kind_of n) t'"
    and "\<And>t p n t' q l. inv t \<Longrightarrow> (p, kind_of n) \<in> set (walk_visits (store (snd s)) skip root) \<Longrightarrow>
      nodew (snd t) p = Some n \<Longrightarrow> \<not> skip p (kind_of n) \<Longrightarrow> step p (kind_of n) t = (None, t') \<Longrightarrow>
      q \<noteq> p \<Longrightarrow> Post q l t \<Longrightarrow> Post q l t'"
  shows "Post p k s'"
  by (rule walk_post_inv [where Q = "\<lambda>_. True" and Post = Post, OF assms(1-4)]) (use assms(5,6) in blast)+

end

end
