(* ===== verification/SyncPlan.thy ===== *)
theory SyncPlan
  imports Exclude WalkDir
begin

section \<open>internal/syncengine/plan.go, engine.go: the sync engine\<close>

text \<open>
  The plan, the callbacks of its four tree walks and \<open>ExecutePlan\<close>. The variables a callback
  closes over (\<open>staged\<close>, \<open>added\<close>, \<open>modified\<close>, \<open>deleted\<close>, \<open>diff\<close>) are the first component of
  the walk's state. \<open>ApplyTemplate\<close> and \<open>ApplyPatches\<close> are functions on the world that may be
  nil. The duration of a run is not modelled.
\<close>

type_synonym file_edit = "apath \<Rightarrow> world \<Rightarrow> goerror option \<times> world"

record resolved_mapping =
  m_source :: apath
  m_destination :: string
  m_type :: string
  m_template :: bool
  m_apply_patches :: "file_edit option"

record sync_plan =
  p_mappings :: "resolved_mapping list"
  p_exclude_patterns :: "string list"
  p_staging_dir :: apath
  p_live_dir :: apath
  p_dry_run :: bool
  p_apply_template :: "file_edit option"

record dry_run_diff =
  d_added :: "string list"
  d_modified :: "string list"
  d_deleted :: "string list"

record sync_result =
  r_files_added :: nat
  r_files_modified :: nat
  r_files_deleted :: nat
  r_projects_synced :: "string list"
  r_dry_run_diff :: "dry_run_diff option"

definition discover_projects :: "apath \<Rightarrow> world \<Rightarrow> string list" where
  "discover_projects dstRoot w =
     (case read_dir (store w) (join_abs dstRoot ''projects'') of
        Inl err \<Rightarrow> []
      | Inr entries \<Rightarrow> map fst (filter (\<lambda>(x, k). k = KDir) entries))"

subsection \<open>Staging\<close>

definition copy_file_raw :: "sysenv \<Rightarrow> apath \<Rightarrow> apath \<Rightarrow> world \<Rightarrow> bool res \<times> world" where
  "copy_file_raw E src dst w = copy_file E src dst w"

text \<open>
  The three writes both staging functions make once the parent directory exists: the copy, the
  template when the mapping asks for it, the patches when it has any. \<open>what\<close> is the verb of
  the first error message, the only place where the two functions differ.
\<close>

definition stage_file :: "sysenv \<Rightarrow> resolved_mapping \<Rightarrow> file_edit option \<Rightarrow> string \<Rightarrow> apath \<Rightarrow> apath \<Rightarrow> string \<Rightarrow> world \<Rightarrow> goerror option \<times> world" where
  "stage_file E m applyTemplate what src dstPath name w =
     (case copy_file_raw E src dstPath w of
        (Inl err, w1) \<Rightarrow> (Some (Wrapf (what @ name) err), w1)
      | (Inr _, w1) \<Rightarrow>
          (case (if m_template m then
                   (case applyTemplate of None \<Rightarrow> (None, w1) | Some f \<Rightarrow> f dstPath w1)
                 else (None, w1)) of
             (Some err, w2) \<Rightarrow> (Some (Wrapf (''templating '' @ name) err), w2)
           | (None, w2) \<Rightarrow>
               (case (case m_apply_patches m of None \<Rightarrow> (None, w2) | Some f \<Rightarrow> f dstPath w2) of
                  (Some err, w3) \<Rightarrow> (Some (Wrapf (''patching '' @ name) err), w3)
                | (None, w3) \<Rightarrow> (None, w3))))"

definition stage_single_file :: "sysenv \<Rightarrow> resolved_mapping \<Rightarrow> apath \<Rightarrow> string list \<Rightarrow> file_edit option \<Rightarrow> (string, bool) gomap wst \<Rightarrow> goerror option \<times> (string, bool) gomap wst" where
  "stage_single_file E m stagingDir excludes applyTemplate s =
     (let (staged, w) = s; relDst = m_destination m in
      if should_exclude E relDst excludes \<or> is_protected E relDst then (None, s)
      else
        (let dstPath = join_abs stagingDir (m_destination m) in
         case mkdir_all (abs_dir dstPath) w of
           (Some err, w1) \<Rightarrow>
             (Some (Wrapf (''creating staging parent for '' @ m_destination m) err), (staged, w1))
         | (None, w1) \<Rightarrow>
             (case stage_file E m applyTemplate ''staging file '' (m_source m) dstPath (m_destination m) w1 of
                (Some err, w2) \<Rightarrow> (Some err, (staged, w2))
              | (None, w2) \<Rightarrow> (None, (mput staged (m_destination m) True, w2)))))"

definition stage_cb :: "sysenv \<Rightarrow> resolved_mapping \<Rightarrow> apath \<Rightarrow> string list \<Rightarrow> file_edit option \<Rightarrow> (string, bool) gomap walkfn" where
  "stage_cb E m stagingDir excludes applyTemplate srcPath d err s =
     (case err of
        Some e \<Rightarrow> (WErr e, s)
      | None \<Rightarrow>
          if d = Some KLink then (WNil, s)
          else
            (let relToSrc = filepath_rel (m_source m) srcPath in
             if relToSrc = ''.'' then (WNil, s)
             else
               (let dstRel = filepath_join (m_destination m) relToSrc in
                if should_exclude E dstRel excludes
                then (if d = Some KDir then WSkipDir else WNil, s)
                else if is_protected E dstRel
                then (if d = Some KDir then WSkipDir else WNil, s)
                else
                  (let dstPath = join_abs stagingDir dstRel; (staged, w) = s in
                   if d = Some KDir
                   then (let (e, w1) = mkdir_all dstPath w in (wres_of e, (staged, w1)))
                   else
                     (case mkdir_all (abs_dir dstPath) w of
                        (Some e, w1) \<Rightarrow>
                          (WErr (Wrapf (''creating staging dir for '' @ dstRel) e), (staged, w1))
                      | (None, w1) \<Rightarrow>
                          (case stage_file E m applyTemplate ''staging '' srcPath dstPath dstRel w1 of
                             (Some e, w2) \<Rightarrow> (WErr e, (staged, w2))
                           | (None, w2) \<Rightarrow> (WNil, (mput staged dstRel True, w2))))))))"

definition stage_directory :: "sysenv \<Rightarrow> resolved_mapping \<Rightarrow> apath \<Rightarrow> string list \<Rightarrow> file_edit option \<Rightarrow> (string, bool) gomap wst \<Rightarrow> goerror option \<times> (string, bool) gomap wst" where
  "stage_directory E m stagingDir excludes applyTemplate s =
     (let (r, s1) = walk (stage_cb E m stagingDir excludes applyTemplate) (m_source m) s
      in (walk_err r, s1))"

definition mapping_type_file :: string where
  "mapping_type_file = ''file''"

fun stage_all :: "sysenv \<Rightarrow> sync_plan \<Rightarrow> string list \<Rightarrow> resolved_mapping list \<Rightarrow> (string, bool) gomap wst \<Rightarrow> goerror option \<times> (string, bool) gomap wst" where
  "stage_all E plan excludes [] s = (None, s)"
| "stage_all E plan excludes (m # ms) s =
     (case (if m_type m = mapping_type_file
            then stage_single_file E m (p_staging_dir plan) excludes (p_apply_template plan) s
            else stage_directory E m (p_staging_dir plan) excludes (p_apply_template plan) s) of
        (Some err, s1) \<Rightarrow> (Some err, s1)
      | (None, s1) \<Rightarrow> stage_all E plan excludes ms s1)"

subsection \<open>Managed roots\<close>

fun compute_managed_roots :: "resolved_mapping list \<Rightarrow> (string, bool) gomap \<Rightarrow> (string, bool) gomap" where
  "compute_managed_roots [] roots = roots"
| "compute_managed_roots (m # ms) roots = compute_managed_roots ms (mput roots (m_destination m) True)"

definition is_under_managed_root :: "string \<Rightarrow> (string, bool) gomap \<Rightarrow> bool" where
  "is_under_managed_root relPath managedRoots =
     list_ex (\<lambda>root. relPath = root \<or> has_prefix relPath (root @ ''/'')) (mkeys managedRoots)"

definition is_ancestor_of_managed_root :: "string \<Rightarrow> (string, bool) gomap \<Rightarrow> bool" where
  "is_ancestor_of_managed_root relPath managedRoots =
     list_ex (\<lambda>root. has_prefix root (relPath @ ''/'')) (mkeys managedRoots)"

subsection \<open>Merging into the live directory\<close>

definition merge_cb :: "sysenv \<Rightarrow> apath \<Rightarrow> apath \<Rightarrow> (nat \<times> nat) walkfn" where
  "merge_cb E stagingDir liveDir stagingPath d walkErr s =
     (case walkErr of
        Some e \<Rightarrow> (WErr e, s)
      | None \<Rightarrow>
          if d = Some KLink then (WNil, s)
          else
            (let relPath = filepath_rel stagingDir stagingPath in
             if relPath = ''.'' then (WNil, s)
             else
               (let livePath = join_abs liveDir relPath; ((added, modified), w) = s in
                if d = Some KDir
                then (let (e, w1) = mkdir_all livePath w in (wres_of e, ((added, modified), w1)))
                else
                  (let existed = (case lstat (store w) livePath of Inl _ \<Rightarrow> False | Inr _ \<Rightarrow> True) in
                   case copy_file E stagingPath livePath w of
                     (Inl e, w1) \<Rightarrow> (WErr (Wrapf (''merging '' @ relPath) e), ((added, modified), w1))
                   | (Inr written, w1) \<Rightarrow>
                       (WNil, (if \<not> written then (added, modified)
                               else if existed then (added, Suc modified)
                               else (Suc added, modified), w1))))))"

definition merge_staging_to_live :: "sysenv \<Rightarrow> apath \<Rightarrow> apath \<Rightarrow> world \<Rightarrow> goerror option \<times> (nat \<times> nat) wst" where
  "merge_staging_to_live E stagingDir liveDir w =
     (let (r, s1) = walk (merge_cb E stagingDir liveDir) stagingDir ((0, 0), w)
      in (walk_err r, s1))"

subsection \<open>Orphans\<close>

lemma remove_root: "remove [] w = (Some (PathError ''remove'' [] ENOTEMPTY), w)"
  by (simp add: remove_def)

function remove_empty_dirs :: "apath \<Rightarrow> (string, bool) gomap \<Rightarrow> apath \<Rightarrow> world \<Rightarrow> world" where
  "remove_empty_dirs liveDir managedRoots parentDir w =
     (if \<not> is_under_managed_root (filepath_rel liveDir parentDir) managedRoots then w
      else (case read_dir (store w) parentDir of
          Inl _ \<Rightarrow> w
        | Inr entries \<Rightarrow>
            if entries \<noteq> [] then w
            else (case remove parentDir w of
                (Some _, w1) \<Rightarrow> w1
              | (None, w1) \<Rightarrow> remove_empty_dirs liveDir managedRoots (abs_dir parentDir) w1)))"
  by pat_completeness auto
termination
proof (relation "measure (\<lambda>(_, _, p, _). length p)", simp)
  fix liveDir :: apath and managedRoots :: "(string, bool) gomap" and p :: apath and w w1 :: world
  fix es :: "(string \<times> kind) list" and o1 and x
  assume "(o1, w1) = remove p w" "o1 = None"
  then have "p \<noteq> []" by (auto simp: remove_root)
  then show "((liveDir, managedRoots, abs_dir p, w1), liveDir, managedRoots, p, w)
      \<in> measure (\<lambda>(_, _, p, _). length p)"
    by (simp add: abs_dir_def)
qed

declare remove_empty_dirs.simps [simp del]

definition orphan_cb :: "sysenv \<Rightarrow> apath \<Rightarrow> apath \<Rightarrow> (string, bool) gomap \<Rightarrow> string list \<Rightarrow> nat walkfn" where
  "orphan_cb E stagingDir liveDir managedRoots excludes livePath d walkErr s =
     (case walkErr of
        Some e \<Rightarrow> if is_not_exist e then (WNil, s) else (WErr e, s)
      | None \<Rightarrow>
          if d = Some KLink then (WNil, s)
          else
            (let relPath = filepath_rel liveDir livePath in
             if relPath = ''.'' then (WNil, s)
             else if is_protected E relPath then (if d = Some KDir then WSkipDir else WNil, s)
             else if should_exclude E relPath excludes then (if d = Some KDir then WSkipDir else WNil, s)
             else if \<not> is_under_managed_root relPath managedRoots
             then (if d = Some KDir then
                     (if is_ancestor_of_managed_root relPath managedRoots then WNil else WSkipDir)
                   else WNil, s)
             else if d = Some KDir then (WNil, s)
             else
               (let stagingPath = join_abs stagingDir relPath; (deleted, w) = s in
                case lstat (store w) stagingPath of
                  Inr _ \<Rightarrow> (WNil, s)
                | Inl e \<Rightarrow>
                    if \<not> is_not_exist e then (WNil, s)
                    else (case remove livePath w of
                        (Some removeErr, w1) \<Rightarrow>
                          if \<not> is_not_exist removeErr
                          then (WErr (Wrapf (''removing orphan '' @ relPath) removeErr), (deleted, w1))
                          else (WNil, (Suc deleted, remove_empty_dirs liveDir managedRoots (abs_dir livePath) w1))
                      | (None, w1) \<Rightarrow>
                          (WNil, (Suc deleted, remove_empty_dirs liveDir managedRoots (abs_dir livePath) w1))))))"

definition clean_orphans :: "sysenv \<Rightarrow> apath \<Rightarrow> apath \<Rightarrow> (string, bool) gomap \<Rightarrow> string list \<Rightarrow> world \<Rightarrow> goerror option \<times> nat wst" where
  "clean_orphans E stagingDir liveDir managedRoots excludes w =
     (let (r, s1) = walk (orphan_cb E stagingDir liveDir managedRoots excludes) liveDir (0, w)
      in (walk_err r, s1))"

subsection \<open>Dry run\<close>

definition diff_staging_cb :: "sysenv \<Rightarrow> apath \<Rightarrow> apath \<Rightarrow> dry_run_diff walkfn" where
  "diff_staging_cb E stagingDir liveDir stagingPath d walkErr s =
     (case walkErr of
        Some e \<Rightarrow> (WErr e, s)
      | None \<Rightarrow>
          if d = Some KLink then (WNil, s)
          else
            (let relPath = filepath_rel stagingDir stagingPath in
             if relPath = ''.'' \<or> d = Some KDir then (WNil, s)
             else
               (let livePath = join_abs liveDir relPath; (diff, w) = s in
                if (case lstat (store w) livePath of Inl e \<Rightarrow> is_not_exist e | Inr _ \<Rightarrow> False)
                then (WNil, (diff\<lparr>d_added := d_added diff @ [relPath]\<rparr>, w))
                else if \<not> files_equal E (store w) stagingPath livePath
                then (WNil, (diff\<lparr>d_modified := d_modified diff @ [relPath]\<rparr>, w))
                else (WNil, s))))"

definition diff_live_cb :: "sysenv \<Rightarrow> apath \<Rightarrow> apath \<Rightarrow> (string, bool) gomap \<Rightarrow> string list \<Rightarrow> dry_run_diff walkfn" where
  "diff_live_cb E stagingDir liveDir managedRoots excludes livePath d walkErr s =
     (case walkErr of
        Some e \<Rightarrow> if is_not_exist e then (WNil, s) else (WErr e, s)
      | None \<Rightarrow>
          if d = Some KLink then (WNil, s)
          else
            (let relPath = filepath_rel liveDir livePath in
             if relPath = ''.'' then (WNil, s)
             else if is_protected E relPath \<or> should_exclude E relPath excludes
             then (if d = Some KDir then WSkipDir else WNil, s)
             else if \<not> is_under_managed_root relPath managedRoots
             then (if d = Some KDir then
                     (if is_ancestor_of_managed_root relPath managedRoots then WNil else WSkipDir)
                   else WNil, s)
             else if d = Some KDir then (WNil, s)
             else
               (let stagingPath = join_abs stagingDir relPath; (diff, w) = s in
                if (case lstat (store w) stagingPath of Inl e \<Rightarrow> is_not_exist e | Inr _ \<Rightarrow> False)
                then (WNil, (diff\<lparr>d_deleted := d_deleted diff @ [relPath]\<rparr>, w))
                else (WNil, s))))"

definition empty_diff :: dry_run_diff where
  "empty_diff = \<lparr>d_added = [], d_modified = [], d_deleted = []\<rparr>"

definition compute_dry_run_diff :: "sysenv \<Rightarrow> apath \<Rightarrow> apath \<Rightarrow> (string, bool) gomap \<Rightarrow> string list \<Rightarrow> world \<Rightarrow> goerror option \<times> dry_run_diff wst" where
  "compute_dry_run_diff E stagingDir liveDir managedRoots excludes w =
     (let (r, s1) = walk (diff_staging_cb E stagingDir liveDir) stagingDir (empty_diff, w) in
      case walk_err r of
        Some e \<Rightarrow> (Some e, s1)
      | None \<Rightarrow>
          (let (r2, s2) = walk (diff_live_cb E stagingDir liveDir managedRoots excludes) liveDir s1
           in (walk_err r2, s2)))"

subsection \<open>ExecutePlan\<close>

definition empty_result :: sync_result where
  "empty_result = \<lparr>r_files_added = 0, r_files_modified = 0, r_files_deleted = 0,
     r_projects_synced = [], r_dry_run_diff = None\<rparr>"

text \<open>Phase 2 of \<open>ExecutePlan\<close>: the diff of a dry run, or the merge and the orphan cleanup.\<close>

definition apply_staging :: "sysenv \<Rightarrow> sync_plan \<Rightarrow> string list \<Rightarrow> (string, bool) gomap \<Rightarrow> world \<Rightarrow> sync_result res \<times> world" where
  "apply_staging E plan excludes managedRoots w =
     (if p_dry_run plan then
        (case compute_dry_run_diff E (p_staging_dir plan) (p_live_dir plan) managedRoots excludes w of
           (Some err, (_, w1)) \<Rightarrow> (Inl (Wrapf ''computing dry-run diff'' err), w1)
         | (None, (diff, w1)) \<Rightarrow>
             (Inr (empty_result\<lparr>r_dry_run_diff := Some diff,
                     r_files_added := length (d_added diff),
                     r_files_modified := length (d_modified diff),
                     r_files_deleted := length (d_deleted diff)\<rparr>), w1))
      else
        (case merge_staging_to_live E (p_staging_dir plan) (p_live_dir plan) w of
           (Some err, (_, w1)) \<Rightarrow> (Inl (Wrapf ''merging staging to live'' err), w1)
         | (None, ((added, modified), w1)) \<Rightarrow>
             (case clean_orphans E (p_staging_dir plan) (p_live_dir plan) managedRoots excludes w1 of
                (Some err, (_, w2)) \<Rightarrow> (Inl (Wrapf ''cleaning orphans'' err), w2)
              | (None, (deleted, w2)) \<Rightarrow>
                  (Inr (empty_result\<lparr>r_files_added := added, r_files_modified := modified,
                          r_files_deleted := deleted\<rparr>), w2))))"

text \<open>Phase 1: a fresh staging directory, built from the mappings in order.\<close>

definition build_staging :: "sysenv \<Rightarrow> sync_plan \<Rightarrow> string list \<Rightarrow> world \<Rightarrow> goerror option \<times> world" where
  "build_staging E plan excludes w =
     (case remove_all (p_staging_dir plan) w of
        (Some err, w1) \<Rightarrow> (Some (Wrapf ''cleaning staging dir'' err), w1)
      | (None, w1) \<Rightarrow>
        (case mkdir_all (p_staging_dir plan) w1 of
           (Some err, w2) \<Rightarrow> (Some (Wrapf ''creating staging dir'' err), w2)
         | (None, w2) \<Rightarrow>
           (case stage_all E plan excludes (p_mappings plan) ([], w2) of
              (e, (_, w3)) \<Rightarrow> (e, w3))))"

definition execute_plan :: "sysenv \<Rightarrow> sync_plan \<Rightarrow> world \<Rightarrow> sync_result res \<times> world" where
  "execute_plan E plan w =
     (let excludes = merge_excludes (p_exclude_patterns plan) in
      case build_staging E plan excludes w of
        (Some err, w1) \<Rightarrow> (Inl err, w1)
      | (None, w1) \<Rightarrow>
        (case apply_staging E plan excludes (compute_managed_roots (p_mappings plan) []) w1 of
           (Inl err, w2) \<Rightarrow> (Inl err, w2)
         | (Inr result, w2) \<Rightarrow>
             (let w3 = snd (remove_all (p_staging_dir plan) w2)
              in (Inr (result\<lparr>r_projects_synced := discover_projects (p_live_dir plan) w3\<rparr>), w3))))"

end
