(* ===== verification/SyncEffects.thy ===== *)
theory SyncEffects
  imports SyncPlan
begin

section \<open>What one callback of the sync engine does\<close>

text \<open>
  The effect of a callback as a relation between two worlds, and each callback evaluated at a
  path below its walk's root: with well-formed names the string paths of the code become
  lists of components appended to the root.
\<close>

subsection \<open>Files put at a set of places\<close>

text \<open>
  Between two worlds files appeared or were rewritten only at places of \<open>D\<close>, and missing
  directories were made only above places of \<open>D\<close>.
\<close>

definition put_effect :: "apath set \<Rightarrow> world \<Rightarrow> world \<Rightarrow> bool" where
  "put_effect D w w' \<longleftrightarrow> (\<forall>q. nodew w' q = nodew w q \<or>
     (nodew w q = None \<and> nodew w' q = Some Dir \<and> (\<exists>p \<in> D. prefix q p)) \<or>
     (q \<in> D \<and> nodew w q \<noteq> Some Dir \<and> (\<exists>c m. nodew w' q = Some (File c m))))"

lemma put_effect_cases:
  assumes "put_effect D w w'"
  obtains (same) "nodew w' q = nodew w q"
  | (made) p where "nodew w q = None" "nodew w' q = Some Dir" "p \<in> D" "prefix q p"
  | (put) c m where "q \<in> D" "nodew w q \<noteq> Some Dir" "nodew w' q = Some (File c m)"
  using assms [unfolded put_effect_def, rule_format, of q] by (elim disjE conjE exE bexE)

lemma put_effectI:
  "(\<And>q. nodew w' q = nodew w q \<or>
     (nodew w q = None \<and> nodew w' q = Some Dir \<and> (\<exists>p \<in> D. prefix q p)) \<or>
     (q \<in> D \<and> nodew w q \<noteq> Some Dir \<and> (\<exists>c m. nodew w' q = Some (File c m)))) \<Longrightarrow> put_effect D w w'"
  unfolding put_effect_def by blast

lemma put_effect_refl [simp]: "put_effect D w w"
  by (simp add: put_effect_def)

lemma put_effect_trans:
  assumes "put_effect D u v" "put_effect D v w"
  shows "put_effect D u w"
proof (rule put_effectI)
  fix q
  show "nodew w q = nodew u q \<or>
     (nodew u q = None \<and> nodew w q = Some Dir \<and> (\<exists>p \<in> D. prefix q p)) \<or>
     (q \<in> D \<and> nodew u q \<noteq> Some Dir \<and> (\<exists>c m. nodew w q = Some (File c m)))"
    by (cases rule: put_effect_cases [OF assms(1), of q]; cases rule: put_effect_cases [OF assms(2), of q])
      auto
qed

lemma put_effect_mono: "put_effect D w w' \<Longrightarrow> D \<subseteq> D' \<Longrightarrow> put_effect D' w w'"
  unfolding put_effect_def by blast

lemma put_effect_mk: "mk_effect p w w' \<Longrightarrow> prefix p d \<Longrightarrow> d \<in> D \<Longrightarrow> put_effect D w w'"
proof (rule put_effectI)
  fix q assume a: "mk_effect p w w'" "prefix p d" "d \<in> D"
  from a(1) show "nodew w' q = nodew w q \<or>
     (nodew w q = None \<and> nodew w' q = Some Dir \<and> (\<exists>p \<in> D. prefix q p)) \<or>
     (q \<in> D \<and> nodew w q \<noteq> Some Dir \<and> (\<exists>c m. nodew w' q = Some (File c m)))"
    by (cases rule: mk_effect_cases [where q = q]) (use a(2,3) prefix_order.trans in blast)+
qed

text \<open>What is outside: neither at nor above a place of \<open>D\<close>, or present and not at one.\<close>

lemma put_effect_outside:
  "put_effect D w w' \<Longrightarrow> (\<And>p. p \<in> D \<Longrightarrow> \<not> prefix q p) \<Longrightarrow> nodew w' q = nodew w q"
  by (erule put_effect_cases [where q = q]) auto

lemma put_effect_keeps:
  "put_effect D w w' \<Longrightarrow> nodew w q \<noteq> None \<Longrightarrow> q \<notin> D \<Longrightarrow> nodew w' q = nodew w q"
  by (erule put_effect_cases [where q = q]) auto

lemma put_effect_dir: "put_effect D w w' \<Longrightarrow> nodew w q = Some Dir \<Longrightarrow> nodew w' q = Some Dir"
  by (erule put_effect_cases [where q = q]) auto

lemma put_effect_no_link:
  "put_effect D w w' \<Longrightarrow> nodew w' q = Some (Link t) \<Longrightarrow> nodew w q = Some (Link t)"
  by (erule put_effect_cases [where q = q]) auto

lemma put_effect_empty: "put_effect {} w w' \<Longrightarrow> nodew w' q = nodew w q"
  by (erule put_effect_cases [where q = q]) auto

lemma copy_file_put:
  assumes run: "copy_file E src dst w = (r, w')"
  shows "put_effect {dst} w w'"
proof (rule put_effectI)
  fix q
  show "nodew w' q = nodew w q \<or>
     (nodew w q = None \<and> nodew w' q = Some Dir \<and> (\<exists>p \<in> {dst}. prefix q p)) \<or>
     (q \<in> {dst} \<and> nodew w q \<noteq> Some Dir \<and> (\<exists>c m. nodew w' q = Some (File c m)))"
  proof (cases "q = dst")
    case False
    with copy_file_frame [OF run] show ?thesis
      using prefix_order.trans [of q "abs_dir dst" dst] by (auto simp: abs_dir_def prefixeq_butlast)
  next
    case True
    show ?thesis
    proof (cases "r = Inr True")
      case r: True
      with copy_file_outcome [OF run] obtain w1
        where w1: "mk_effect (abs_dir dst) w w1" "nodew w1 dst \<noteq> Some Dir"
        unfolding copy_outcome_def by fastforce
      have "\<exists>c m. nodew w' dst = Some (File c m)"
        by (rule copy_file_True [OF run [unfolded r]]) blast
      have "nodew w dst \<noteq> Some Dir"
        by (cases rule: mk_effect_cases [OF w1(1), of dst]) (use w1(2) in auto)
      with True \<open>\<exists>c m. _\<close> show ?thesis by simp
    next
      case False
      with copy_file_outcome [OF run] obtain w1 where w1: "mk_effect (abs_dir dst) w w1"
        "nodew w' dst = nodew w dst \<or> nodew w' dst = nodew w1 dst"
        unfolding copy_outcome_def by (cases r) (fastforce split: bool.splits)+
      have "nodew w1 dst = nodew w dst \<or> (nodew w dst = None \<and> nodew w1 dst = Some Dir)"
        using w1(1) by (cases rule: mk_effect_cases [where q = dst]) auto
      with True w1(2) show ?thesis by auto
    qed
  qed
qed

text \<open>After a copy that returned no error, source and target have the same digest.\<close>

lemma copy_file_same:
  assumes run: "copy_file E src dst w = (Inr b, w')" and neq: "src \<noteq> dst"
  shows "same_digest E (nodew w' src) (nodew w' dst)" "nodew w' src = nodew w src"
proof -
  have "nodew w src \<noteq> None"
  proof
    assume "nodew w src = None"
    with run show False by (simp add: copy_file_def lstat_def)
  qed
  then show src: "nodew w' src = nodew w src"
    using put_effect_keeps [OF copy_file_put [OF run], of src] neq by simp
  show "same_digest E (nodew w' src) (nodew w' dst)"
  proof (cases b)
    case True
    with run have r: "copy_file E src dst w = (Inr True, w')" by simp
    show ?thesis by (rule copy_file_True [OF r]) (simp add: src)
  next
    case False
    with run have r: "copy_file E src dst w = (Inr False, w')" by simp
    show ?thesis using copy_file_False [OF r] by simp
  qed
qed

lemma same_digest_file: "same_digest E a (Some n) \<Longrightarrow> \<exists>c m. n = File c m"
  by (cases "(E, a, Some n)" rule: same_digest.cases) auto

lemma same_digest_Some: "same_digest E a b \<Longrightarrow> \<exists>c m d k. a = Some (File c m) \<and> b = Some (File d k)"
  by (cases "(E, a, b)" rule: same_digest.cases) auto

subsection \<open>Editing a staged file\<close>

text \<open>
  What the engine expects of \<open>ApplyTemplate\<close> and \<open>ApplyPatches\<close>: called on a file, they rewrite
  it in place or fail, and touch nothing else.
\<close>

definition edit_ok :: "file_edit \<Rightarrow> bool" where
  "edit_ok f \<longleftrightarrow> (\<forall>p w e w'. f p w = (e, w') \<longrightarrow> (\<exists>c m. nodew w p = Some (File c m)) \<longrightarrow>
     (\<exists>c m. nodew w' p = Some (File c m)) \<and> (\<forall>q. q \<noteq> p \<longrightarrow> nodew w' q = nodew w q) \<and>
     (mwf (store w) \<longrightarrow> mwf (store w')))"

definition edits_ok :: "file_edit option \<Rightarrow> resolved_mapping \<Rightarrow> bool" where
  "edits_ok applyT m \<longleftrightarrow> (\<forall>f. applyT = Some f \<longrightarrow> edit_ok f) \<and> (\<forall>f. m_apply_patches m = Some f \<longrightarrow> edit_ok f)"

lemma edit_okD:
  assumes "edit_ok f" "f p w = (e, w')" "nodew w p = Some (File c m)"
  shows "\<exists>c m. nodew w' p = Some (File c m)" "q \<noteq> p \<Longrightarrow> nodew w' q = nodew w q"
    "mwf (store w) \<Longrightarrow> mwf (store w')"
  using assms unfolding edit_ok_def by blast+

lemma edit_ok_put:
  assumes "edit_ok f" "f p w = (e, w')" "nodew w p = Some (File c m)"
  shows "put_effect {p} w w'"
proof (rule put_effectI)
  fix q
  show "nodew w' q = nodew w q \<or>
     (nodew w q = None \<and> nodew w' q = Some Dir \<and> (\<exists>p \<in> {p}. prefix q p)) \<or>
     (q \<in> {p} \<and> nodew w q \<noteq> Some Dir \<and> (\<exists>c m. nodew w' q = Some (File c m)))"
    using edit_okD [OF assms] assms(3) by (cases "q = p") auto
qed

lemma edit_ok_fs_ok:
  assumes "edit_ok f" "f p w = (e, w')" "nodew w p = Some (File c m)" "fs_ok (store w)"
  shows "fs_ok (store w')"
proof (rule fs_okI)
  show "mwf (store w')" using edit_okD(3) [OF assms(1-3)] assms(4) by (simp add: fs_ok_mwf)
  fix q assume q: "q \<noteq> []" "nodew w' q \<noteq> None"
  have n: "nodew w q \<noteq> None" using q(2) edit_okD(2) [OF assms(1-3), of q] assms(3) by (cases "q = p") auto
  note par = fs_okD [OF assms(4) n q(1)]
  then have "butlast q \<noteq> p" using assms(3) by auto
  with par edit_okD(2) [OF assms(1-3), of "butlast q"]
  show "list_all name_ok q \<and> nodew w' (butlast q) = Some Dir" by simp
qed

lemma edit_opt_put:
  assumes "case f of None \<Rightarrow> r = (None, w) | Some g \<Rightarrow> r = g p w" "\<forall>g. f = Some g \<longrightarrow> edit_ok g"
    and "r = (e, w')" "nodew w p = Some (File c m)"
  shows "put_effect {p} w w'" "\<exists>c m. nodew w' p = Some (File c m)"
    "fs_ok (store w) \<Longrightarrow> fs_ok (store w')"
  using assms edit_ok_put [of _ p w e w' c m] edit_okD(1) [of _ p w e w' c m] edit_ok_fs_ok [of _ p w e w' c m]
  by (auto split: option.splits)

lemma stage_file_effect:
  assumes run: "stage_file E m applyT what src dst name w = (e, w')" and ed: "edits_ok applyT m"
    and neq: "src \<noteq> dst"
  shows "put_effect {dst} w w'"
    "fs_ok (store w) \<Longrightarrow> list_all name_ok dst \<Longrightarrow> fs_ok (store w')"
    "e = None \<Longrightarrow> \<exists>c m. nodew w' dst = Some (File c m)"
proof -
  obtain r w1 where cp: "copy_file E src dst w = (r, w1)" by (rule prod.exhaust)
  note p1 = copy_file_put [OF cp]
  have ok1: "fs_ok (store w) \<Longrightarrow> list_all name_ok dst \<Longrightarrow> fs_ok (store w1)"
    by (rule copy_file_fs_ok [OF cp])
  have "put_effect {dst} w w' \<and> (fs_ok (store w) \<longrightarrow> list_all name_ok dst \<longrightarrow> fs_ok (store w')) \<and>
      (e = None \<longrightarrow> (\<exists>c m. nodew w' dst = Some (File c m)))"
  proof (cases r)
    case (Inl err)
    with run cp p1 ok1 show ?thesis by (auto simp: stage_file_def copy_file_raw_def)
  next
    case (Inr b)
    obtain c k where f1: "nodew w1 dst = Some (File c k)"
      using same_digest_Some [OF copy_file_same(1) [OF cp [unfolded Inr] neq]] by blast
    define T where "T = (if m_template m then (case applyT of None \<Rightarrow> (None, w1) | Some f \<Rightarrow> f dst w1) else (None, w1))"
    obtain e2 w2 where T: "T = (e2, w2)" by (rule prod.exhaust)
    have c2: "case (if m_template m then applyT else None) of None \<Rightarrow> T = (None, w1) | Some g \<Rightarrow> T = g dst w1"
      by (auto simp: T_def split: option.splits)
    have ed2: "\<forall>g. (if m_template m then applyT else None) = Some g \<longrightarrow> edit_ok g"
      using ed by (auto simp: edits_ok_def)
    note t2 = edit_opt_put [OF c2 ed2 T f1]
    show ?thesis
    proof (cases e2)
      case (Some err)
      with run cp Inr T have "w' = w2" "e \<noteq> None"
        by (auto simp: stage_file_def copy_file_raw_def T_def [symmetric])
      with t2 p1 ok1 put_effect_trans show ?thesis by blast
    next
      case None
      obtain c' k' where f2: "nodew w2 dst = Some (File c' k')" using t2(2) by blast
      define U where "U = (case m_apply_patches m of None \<Rightarrow> (None, w2) | Some f \<Rightarrow> f dst w2)"
      obtain e3 w3 where U: "U = (e3, w3)" by (rule prod.exhaust)
      have c3: "case m_apply_patches m of None \<Rightarrow> U = (None, w2) | Some g \<Rightarrow> U = g dst w2"
        by (auto simp: U_def split: option.splits)
      have ed3: "\<forall>g. m_apply_patches m = Some g \<longrightarrow> edit_ok g" using ed by (simp add: edits_ok_def)
      note t3 = edit_opt_put [OF c3 ed3 U f2]
      have "w' = w3" using run cp Inr T None U
        by (auto simp: stage_file_def copy_file_raw_def T_def [symmetric] U_def [symmetric] split: option.splits)
      with t2 t3 p1 ok1 put_effect_trans show ?thesis by blast
    qed
  qed
  then show "put_effect {dst} w w'"
    "fs_ok (store w) \<Longrightarrow> list_all name_ok dst \<Longrightarrow> fs_ok (store w')"
    "e = None \<Longrightarrow> \<exists>c m. nodew w' dst = Some (File c m)" by blast+
qed

subsection \<open>The callbacks below their roots\<close>

lemma slash_join_not_dot: "list_all name_ok rs \<Longrightarrow> rs \<noteq> [] \<Longrightarrow> slash_join rs \<noteq> ''.''"
  using slash_split_join [of rs] by (auto simp: name_ok_def)

lemma rel_below:
  "list_all name_ok rs \<Longrightarrow> filepath_rel root (root @ rs) = ''.'' \<longleftrightarrow> rs = []"
  by (auto simp: filepath_rel_below slash_join_not_dot)

definition blocked :: "sysenv \<Rightarrow> string list \<Rightarrow> string list \<Rightarrow> bool" where
  "blocked E excludes cs \<longleftrightarrow>
     should_exclude E (slash_join cs) excludes \<or> is_protected E (slash_join cs)"

text \<open>A destination as the validation of the agent accepts it: relative, and inside.\<close>

definition dest_ok :: "string \<Rightarrow> bool" where
  "dest_ok s \<longleftrightarrow> \<not> is_abs s \<and> list_all name_ok (clean_rel s)"

lemma stage_cb_at:
  assumes "dest_ok (m_destination m)" "list_all name_ok rs" "rs \<noteq> []" "list_all name_ok staging"
    and cs: "cs = clean_rel (m_destination m) @ rs"
  shows "stage_cb E m staging excludes applyT (m_source m @ rs) (Some k) None (staged, w) =
    (if k = KLink then (WNil, (staged, w))
     else if blocked E excludes cs then (if k = KDir then WSkipDir else WNil, (staged, w))
     else if k = KDir then (let (e, w1) = mkdir_all (staging @ cs) w in (wres_of e, (staged, w1)))
     else (case mkdir_all (abs_dir (staging @ cs)) w of
         (Some e, w1) \<Rightarrow> (WErr (Wrapf (''creating staging dir for '' @ slash_join cs) e), (staged, w1))
       | (None, w1) \<Rightarrow>
           (case stage_file E m applyT ''staging '' (m_source m @ rs) (staging @ cs) (slash_join cs) w1 of
              (Some e, w2) \<Rightarrow> (WErr e, (staged, w2))
            | (None, w2) \<Rightarrow> (WNil, (mput staged (slash_join cs) True, w2)))))"
proof -
  have rel: "filepath_rel (m_source m) (m_source m @ rs) = slash_join rs" "slash_join rs \<noteq> ''.''"
    using assms(2,3) by (simp_all add: filepath_rel_below slash_join_not_dot)
  have dst: "filepath_join (m_destination m) (slash_join rs) = slash_join cs"
    using assms by (simp add: dest_ok_def filepath_join_names)
  have "list_all name_ok cs" using assms by (simp add: dest_ok_def)
  then have abs: "join_abs staging (slash_join cs) = staging @ cs"
    using assms(4) by (simp add: join_abs_join)
  show ?thesis by (simp add: stage_cb_def rel dst abs blocked_def Let_def)
qed

lemma merge_cb_at:
  assumes "list_all name_ok rs" "rs \<noteq> []" "list_all name_ok live"
  shows "merge_cb E staging live (staging @ rs) (Some k) None ((added, modified), w) =
    (if k = KLink then (WNil, ((added, modified), w))
     else if k = KDir then (let (e, w1) = mkdir_all (live @ rs) w in (wres_of e, ((added, modified), w1)))
     else (case copy_file E (staging @ rs) (live @ rs) w of
         (Inl e, w1) \<Rightarrow> (WErr (Wrapf (''merging '' @ slash_join rs) e), ((added, modified), w1))
       | (Inr written, w1) \<Rightarrow>
           (WNil, (if \<not> written then (added, modified)
                   else if nodew w (live @ rs) \<noteq> None then (added, Suc modified)
                   else (Suc added, modified), w1))))"
proof -
  have rel: "filepath_rel staging (staging @ rs) = slash_join rs" "slash_join rs \<noteq> ''.''"
    using assms by (simp_all add: filepath_rel_below slash_join_not_dot)
  have abs: "join_abs live (slash_join rs) = live @ rs" using assms by (simp add: join_abs_join)
  show ?thesis
    by (cases "nodew w (live @ rs)") (simp_all add: merge_cb_def rel abs lstat_def Let_def)
qed

text \<open>Where the orphan walk and the second walk of a dry run go, and what they delete.\<close>

definition skipped_live :: "sysenv \<Rightarrow> string list \<Rightarrow> (string, bool) gomap \<Rightarrow> string list \<Rightarrow> bool" where
  "skipped_live E excludes roots rs \<longleftrightarrow> blocked E excludes rs \<or>
     (\<not> is_under_managed_root (slash_join rs) roots \<and> \<not> is_ancestor_of_managed_root (slash_join rs) roots)"

definition deletable :: "sysenv \<Rightarrow> string list \<Rightarrow> (string, bool) gomap \<Rightarrow> string list \<Rightarrow> bool" where
  "deletable E excludes roots rs \<longleftrightarrow>
     \<not> blocked E excludes rs \<and> is_under_managed_root (slash_join rs) roots"

text \<open>The staged copy is absent, as \<open>os.IsNotExist\<close> sees it.\<close>

definition absent :: "fs \<Rightarrow> apath \<Rightarrow> bool" where
  "absent m p \<longleftrightarrow> node_at m p = None \<and> missing_errno m p = ENOENT"

lemma lstat_not_exist: "(case lstat m p of Inl e \<Rightarrow> is_not_exist e | Inr _ \<Rightarrow> False) \<longleftrightarrow> absent m p"
  by (auto simp: lstat_def absent_def split: option.splits)

lemma orphan_cb_at:
  assumes "list_all name_ok rs" "rs \<noteq> []" "list_all name_ok staging"
    and ex: "nodew w (live @ rs) \<noteq> None"
  shows "orphan_cb E staging live roots excludes (live @ rs) (Some k) None (deleted, w) =
    (if k = KLink then (WNil, (deleted, w))
     else if k = KDir then (if skipped_live E excludes roots rs then WSkipDir else WNil, (deleted, w))
     else if \<not> deletable E excludes roots rs \<or> \<not> absent (store w) (staging @ rs) then (WNil, (deleted, w))
     else (case remove (live @ rs) w of
         (Some e, w1) \<Rightarrow> (WErr (Wrapf (''removing orphan '' @ slash_join rs) e), (deleted, w1))
       | (None, w1) \<Rightarrow> (WNil, (Suc deleted, remove_empty_dirs live roots (abs_dir (live @ rs)) w1))))"
proof -
  have rel: "filepath_rel live (live @ rs) = slash_join rs" "slash_join rs \<noteq> ''.''"
    using assms by (simp_all add: filepath_rel_below slash_join_not_dot)
  have abs: "join_abs staging (slash_join rs) = staging @ rs" using assms by (simp add: join_abs_join)
  have rm: "remove (live @ rs) w = (Some e, w1) \<Longrightarrow> \<not> is_not_exist e" for e w1
    using ex by (auto simp: remove_def split: option.splits node.splits if_splits)
  show ?thesis
  proof (cases k)
    case KFile
    then show ?thesis
      using rm by (auto simp: orphan_cb_def rel abs blocked_def deletable_def skipped_live_def absent_def
          lstat_def Let_def split: option.splits prod.splits)
  qed (auto simp: orphan_cb_def rel blocked_def skipped_live_def Let_def)
qed

lemma diff_staging_cb_at:
  assumes "list_all name_ok rs" "rs \<noteq> []" "list_all name_ok live"
  shows "diff_staging_cb E staging live (staging @ rs) (Some k) None (diff, w) =
    (WNil, (if k \<noteq> KFile then diff
            else if absent (store w) (live @ rs) then diff\<lparr>d_added := d_added diff @ [slash_join rs]\<rparr>
            else if \<not> same_digest E (nodew w (staging @ rs)) (nodew w (live @ rs))
            then diff\<lparr>d_modified := d_modified diff @ [slash_join rs]\<rparr> else diff, w))"
proof -
  have rel: "filepath_rel staging (staging @ rs) = slash_join rs" "slash_join rs \<noteq> ''.''"
    using assms by (simp_all add: filepath_rel_below slash_join_not_dot)
  have abs: "join_abs live (slash_join rs) = live @ rs" using assms by (simp add: join_abs_join)
  show ?thesis
    by (cases k) (simp_all add: diff_staging_cb_def rel abs lstat_not_exist files_equal_iff Let_def)
qed

lemma diff_live_cb_at:
  assumes "list_all name_ok rs" "rs \<noteq> []" "list_all name_ok staging"
  shows "diff_live_cb E staging live roots excludes (live @ rs) (Some k) None (diff, w) =
    (if k = KLink then (WNil, (diff, w))
     else if k = KDir then (if skipped_live E excludes roots rs then WSkipDir else WNil, (diff, w))
     else if \<not> deletable E excludes roots rs \<or> \<not> absent (store w) (staging @ rs) then (WNil, (diff, w))
     else (WNil, (diff\<lparr>d_deleted := d_deleted diff @ [slash_join rs]\<rparr>, w)))"
proof -
  have rel: "filepath_rel live (live @ rs) = slash_join rs" "slash_join rs \<noteq> ''.''"
    using assms by (simp_all add: filepath_rel_below slash_join_not_dot)
  have abs: "join_abs staging (slash_join rs) = staging @ rs" using assms by (simp add: join_abs_join)
  show ?thesis
    by (cases k) (auto simp: diff_live_cb_def rel abs blocked_def deletable_def skipped_live_def
        lstat_not_exist Let_def)
qed

end
