(* ===== verification/SyncWalks.thy ===== *)
theory SyncWalks
  imports SyncEffects
begin

section \<open>The four walks of the sync engine as iterations\<close>

text \<open>
  Each callback of \<open>plan.go\<close> meets the contract of \<open>walk_client\<close>, so the four walks visit
  what \<open>walk_visits\<close> lists in the tree as it was when the walk began, in that order, and never
  run out of fuel. The staging directory may lie beside the live directory or be its
  \<open>.sync-staging\<close> child, as the agent has it.
\<close>

definition step_of :: "'a walkfn \<Rightarrow> apath \<Rightarrow> kind \<Rightarrow> 'a wst \<Rightarrow> goerror option \<times> 'a wst" where
  "step_of cb p k s = (let (r, s') = cb p (Some k) None s in (walk_err r, s'))"

lemma step_ofD:
  assumes "step_of cb p k s = (e, s')" "fst (cb p (Some k) None s) \<noteq> WSkipDir" "fst (cb p (Some k) None s) \<noteq> WFuel"
  shows "cb p (Some k) None s = (wres_of e, s')"
proof -
  obtain r s1 where r: "cb p (Some k) None s = (r, s1)" by (rule prod.exhaust)
  with assms show ?thesis by (cases r) (auto simp: step_of_def)
qed

lemma below_root:
  assumes "fs_ok m" "prefix root p" "node_at m p \<noteq> None"
  obtains rs where "p = root @ rs" "list_all name_ok rs" "drop (length root) p = rs"
proof -
  from assms(2) obtain rs where p: "p = root @ rs" by (auto simp: prefix_def)
  moreover have "list_all name_ok p" by (rule fs_ok_names [OF assms(1,3)])
  ultimately show ?thesis using that by simp
qed

subsection \<open>Staging\<close>

definition stage_skip :: "sysenv \<Rightarrow> resolved_mapping \<Rightarrow> string list \<Rightarrow> apath \<Rightarrow> kind \<Rightarrow> bool" where
  "stage_skip E m excludes p k \<longleftrightarrow> k = KDir \<and> p \<noteq> m_source m \<and>
     blocked E excludes (clean_rel (m_destination m) @ drop (length (m_source m)) p)"

definition stage_inv :: "resolved_mapping \<Rightarrow> apath \<Rightarrow> file_edit option \<Rightarrow> 'a wst \<Rightarrow> bool" where
  "stage_inv m staging applyT s \<longleftrightarrow> fs_ok (store (snd s)) \<and> list_all name_ok staging \<and>
     dest_ok (m_destination m) \<and> edits_ok applyT m \<and> (m_source m \<parallel> staging)"

text \<open>The places one visit of the source tree can write.\<close>

definition stage_targets :: "sysenv \<Rightarrow> resolved_mapping \<Rightarrow> apath \<Rightarrow> string list \<Rightarrow> kind \<Rightarrow> string list \<Rightarrow> apath set" where
  "stage_targets E m staging excludes k rs =
     (if k = KLink \<or> rs = [] \<or> blocked E excludes (clean_rel (m_destination m) @ rs) then {}
      else {staging @ clean_rel (m_destination m) @ rs})"

lemma list_all_abs_dir: "list_all P p \<Longrightarrow> list_all P (abs_dir p)"
  by (auto simp: abs_dir_def list_all_iff dest: in_set_butlastD)

lemma parallel_not_prefix: "a \<parallel> b \<Longrightarrow> prefix a q \<Longrightarrow> \<not> prefix q (b @ r)"
  by (meson parallelD1 parallelD2 prefix_order.trans prefix_same_cases prefixI)

lemma stage_cb_visit:
  assumes inv: "stage_inv m staging applyT s"
    and n: "nodew (snd s) (m_source m @ rs) = Some n"
    and run: "stage_cb E m staging excludes applyT (m_source m @ rs) (Some (kind_of n)) None s = (r, s')"
  shows "r \<noteq> WFuel"
    and "r = WSkipDir \<longleftrightarrow> stage_skip E m excludes (m_source m @ rs) (kind_of n)"
    and "r = WSkipDir \<Longrightarrow> s' = s"
    and "put_effect (stage_targets E m staging excludes (kind_of n) rs) (snd s) (snd s')"
    and "fs_ok (store (snd s'))"
proof -
  obtain staged w where s: "s = (staged, w)" by (rule prod.exhaust)
  have ok: "fs_ok (store w)" and nm: "list_all name_ok staging" and d: "dest_ok (m_destination m)"
    and ed: "edits_ok applyT m" and par: "m_source m \<parallel> staging"
    using inv s by (simp_all add: stage_inv_def)
  have rs: "list_all name_ok rs" using fs_ok_names [OF ok, of "m_source m @ rs"] n s by simp
  let ?P = "r \<noteq> WFuel \<and> (r = WSkipDir \<longleftrightarrow> stage_skip E m excludes (m_source m @ rs) (kind_of n)) \<and>
    (r = WSkipDir \<longrightarrow> s' = s) \<and>
    put_effect (stage_targets E m staging excludes (kind_of n) rs) (snd s) (snd s') \<and> fs_ok (store (snd s'))"
  have ?P
  proof (cases "rs = []")
    case True
    then have "r = WNil \<and> s' = s"
      using run by (auto simp: stage_cb_def filepath_rel_def Let_def split: if_splits)
    with True ok s show ?thesis by (simp add: stage_skip_def)
  next
    case False
    let ?cs = "clean_rel (m_destination m) @ rs"
    let ?dst = "staging @ ?cs"
    have cs: "list_all name_ok ?dst" using d rs nm by (simp add: dest_ok_def)
    note cs = cs list_all_abs_dir [OF cs]
    note at = run [unfolded s stage_cb_at [OF d rs False nm refl]]
    consider (none) "kind_of n = KLink \<or> blocked E excludes ?cs"
      | (dir) "kind_of n = KDir" "\<not> blocked E excludes ?cs"
      | (regular) "kind_of n = KFile" "\<not> blocked E excludes ?cs" by (cases "kind_of n") auto
    then show ?thesis
    proof cases
      case none
      with at ok s False show ?thesis by (auto simp: stage_skip_def stage_targets_def split: if_splits)
    next
      case dir
      obtain e w1 where mk: "mkdir_all ?dst w = (e, w1)" by (rule prod.exhaust)
      with at dir have r: "r = wres_of e" "s' = (staged, w1)" by auto
      have "put_effect {?dst} w w1" by (rule put_effect_mk [OF mkdir_all_effect [OF mk]]) simp_all
      moreover have "fs_ok (store w1)" by (rule mkdir_all_fs_ok [OF mk ok cs(1)])
      ultimately show ?thesis
        using r s dir False by (cases e) (simp_all add: stage_skip_def stage_targets_def)
    next
      case regular
      have tgt: "stage_targets E m staging excludes (kind_of n) rs = {?dst}"
        using regular False by (simp add: stage_targets_def)
      have nsk: "\<not> stage_skip E m excludes (m_source m @ rs) (kind_of n)"
        using regular by (simp add: stage_skip_def)
      obtain e w1 where mk: "mkdir_all (abs_dir ?dst) w = (e, w1)" by (rule prod.exhaust)
      have p1: "put_effect {?dst} w w1"
        by (rule put_effect_mk [OF mkdir_all_effect [OF mk]]) (simp_all add: abs_dir_def prefixeq_butlast)
      have ok1: "fs_ok (store w1)" by (rule mkdir_all_fs_ok [OF mk ok cs(2)])
      show ?thesis
      proof (cases e)
        case (Some err)
        with at mk regular have "r = WErr (Wrapf (''creating staging dir for '' @ slash_join ?cs) err)" "s' = (staged, w1)"
          by auto
        with p1 ok1 tgt nsk s show ?thesis by simp
      next
        case None
        obtain e2 w2 where sf: "stage_file E m applyT ''staging '' (m_source m @ rs) ?dst (slash_join ?cs) w1 = (e2, w2)"
          by (rule prod.exhaust)
        have neq: "m_source m @ rs \<noteq> ?dst"
          using parallel_not_prefix [OF par, of "m_source m @ rs" ?cs] by (metis prefixI prefix_order.refl)
        note sfe = stage_file_effect [OF sf ed neq]
        have "put_effect {?dst} w w2" using p1 sfe(1) by (rule put_effect_trans)
        moreover have "fs_ok (store w2)" by (rule sfe(2) [OF ok1 cs(1)])
        moreover have "r = wres_of e2 \<and> snd s' = w2"
          using at mk None regular sf by (cases e2) auto
        ultimately show ?thesis using tgt nsk s by (cases e2) simp_all
      qed
    qed
  qed
  then show "r \<noteq> WFuel" "r = WSkipDir \<longleftrightarrow> stage_skip E m excludes (m_source m @ rs) (kind_of n)"
    "r = WSkipDir \<Longrightarrow> s' = s"
    "put_effect (stage_targets E m staging excludes (kind_of n) rs) (snd s) (snd s')"
    "fs_ok (store (snd s'))" by blast+
qed

interpretation stage_walk: walk_client "stage_cb E m staging excludes applyT" "stage_skip E m excludes"
  "step_of (stage_cb E m staging excludes applyT)" "stage_inv m staging applyT" "m_source m"
  for E m staging excludes applyT
proof unfold_locales
  let ?cb = "stage_cb E m staging excludes applyT"
  let ?inv = "stage_inv m staging applyT"
  fix s s' :: "(string, bool) gomap wst" and p q :: apath and n e
  { assume a: "?inv s" "prefix (m_source m) p" "nodew (snd s) p = Some n"
    then have "\<exists>rs. p = m_source m @ rs" by (auto simp: prefix_def)
    then obtain rs where p: "p = m_source m @ rs" ..
    obtain r s1 where c: "?cb p (Some (kind_of n)) None s = (r, s1)" by (rule prod.exhaust)
    note v = stage_cb_visit [OF a(1) a(3) [unfolded p] c [unfolded p]]
    show "stage_skip E m excludes p (kind_of n) \<Longrightarrow>
        kind_of n = KDir \<and> ?cb p (Some (kind_of n)) None s = (WSkipDir, s)"
      using v(2,3) c p by (auto simp: stage_skip_def)
    assume b: "\<not> stage_skip E m excludes p (kind_of n)" "step_of ?cb p (kind_of n) s = (e, s')"
    have nr: "r \<noteq> WSkipDir" using v(2) b(1) p by simp
    have c': "?cb p (Some (kind_of n)) None s = (wres_of e, s')"
      by (rule step_ofD [OF b(2)]) (use c nr v(1) in simp_all)
    then have s1: "s1 = s'" using c by simp
    show "?cb p (Some (kind_of n)) None s = (wres_of e, s')" by (rule c')
    show "?inv s'" using a(1) v(5) s1 by (simp add: stage_inv_def)
    assume q: "prefix (m_source m) q" "nodew (snd s') q \<noteq> nodew (snd s) q"
    have "\<not> prefix q (staging @ r)" for r
      using parallel_not_prefix [OF _ q(1)] a(1) by (simp add: stage_inv_def)
    then have "nodew (snd s') q = nodew (snd s) q"
      by (intro put_effect_outside [OF v(4) [unfolded s1]]) (auto simp: stage_targets_def split: if_splits)
    with q(2) show "kind_of n \<noteq> KDir \<and> prefix q p" by simp
  }
  show "?inv s \<Longrightarrow> fs_ok (store (snd s))" by (simp add: stage_inv_def)
qed

subsection \<open>Merging\<close>

text \<open>Where the staging directory lies, and what it never contains.\<close>

definition staging_name :: string where
  "staging_name = ''.sync-staging''"

definition layout :: "apath \<Rightarrow> apath \<Rightarrow> bool" where
  "layout live staging \<longleftrightarrow> staging = live @ [staging_name] \<or> live \<parallel> staging"

definition staged_tree :: "fs \<Rightarrow> apath \<Rightarrow> bool" where
  "staged_tree m staging \<longleftrightarrow> (\<forall>rs. node_at m (staging @ rs) \<noteq> None \<longrightarrow> staging_name \<notin> set rs)"

definition merge_inv :: "apath \<Rightarrow> apath \<Rightarrow> 'a wst \<Rightarrow> bool" where
  "merge_inv staging live s \<longleftrightarrow> fs_ok (store (snd s)) \<and> list_all name_ok staging \<and> list_all name_ok live \<and>
     layout live staging \<and> staged_tree (store (snd s)) staging"

lemma layout_apart:
  assumes "layout live staging" "staging_name \<notin> set rs" "prefix staging q"
  shows "\<not> prefix q (live @ rs)"
proof
  assume "prefix q (live @ rs)"
  with assms(3) have p: "prefix staging (live @ rs)" by (rule prefix_order.trans)
  from assms(1) show False
    unfolding layout_def
  proof
    assume "staging = live @ [staging_name]"
    with p have "prefix [staging_name] rs" by simp
    with assms(2) show False by (auto simp: prefix_def)
  next
    assume "live \<parallel> staging"
    with p prefix_same_cases [of live "live @ rs" staging] show False by auto
  qed
qed

definition merge_targets :: "apath \<Rightarrow> kind \<Rightarrow> string list \<Rightarrow> apath set" where
  "merge_targets live k rs = (if k = KLink \<or> rs = [] then {} else {live @ rs})"

lemma merge_cb_visit:
  assumes inv: "merge_inv staging live s"
    and n: "nodew (snd s) (staging @ rs) = Some n"
    and run: "merge_cb E staging live (staging @ rs) (Some (kind_of n)) None s = (r, s')"
  shows "r \<noteq> WFuel" "r \<noteq> WSkipDir"
    and "put_effect (merge_targets live (kind_of n) rs) (snd s) (snd s')"
    and "merge_inv staging live s'"
proof -
  obtain a mo w where s: "s = ((a, mo), w)" by (metis surj_pair)
  have ok: "fs_ok (store w)" and nm: "list_all name_ok live"
    using inv s by (simp_all add: merge_inv_def)
  have rs: "list_all name_ok rs" using fs_ok_names [OF ok, of "staging @ rs"] n s by simp
  have "r \<noteq> WFuel \<and> r \<noteq> WSkipDir \<and> put_effect (merge_targets live (kind_of n) rs) (snd s) (snd s') \<and>
      fs_ok (store (snd s'))"
  proof (cases "rs = []")
    case True
    then have "r = WNil \<and> s' = s"
      using run by (auto simp: merge_cb_def filepath_rel_def Let_def split: if_splits)
    with True ok s show ?thesis by simp
  next
    case False
    note at = run [unfolded s merge_cb_at [OF rs False nm]]
    have lr: "list_all name_ok (live @ rs)" using nm rs by simp
    show ?thesis
    proof (cases "kind_of n")
      case KLink
      with at ok s show ?thesis by auto
    next
      case KDir
      obtain e w1 where mk: "mkdir_all (live @ rs) w = (e, w1)" by (rule prod.exhaust)
      have "put_effect {live @ rs} w w1" by (rule put_effect_mk [OF mkdir_all_effect [OF mk]]) simp_all
      moreover have "fs_ok (store w1)" by (rule mkdir_all_fs_ok [OF mk ok lr])
      moreover have "r = wres_of e" "snd s' = w1" using at KDir mk by auto
      ultimately show ?thesis using s KDir False by (cases e) (simp_all add: merge_targets_def)
    next
      case KFile
      obtain x w1 where cp: "copy_file E (staging @ rs) (live @ rs) w = (x, w1)" by (rule prod.exhaust)
      note p = copy_file_put [OF cp] copy_file_fs_ok [OF cp ok lr]
      have "r \<noteq> WFuel \<and> r \<noteq> WSkipDir \<and> snd s' = w1" using at KFile cp by (cases x) auto
      with p s KFile False show ?thesis by (simp add: merge_targets_def)
    qed
  qed
  then have A: "r \<noteq> WFuel" "r \<noteq> WSkipDir" "put_effect (merge_targets live (kind_of n) rs) (snd s) (snd s')"
    and ok': "fs_ok (store (snd s'))" by blast+
  show "r \<noteq> WFuel" "r \<noteq> WSkipDir" "put_effect (merge_targets live (kind_of n) rs) (snd s) (snd s')"
    by (rule A)+
  have "nodew (snd s') q = nodew (snd s) q" if "prefix staging q" for q
  proof (rule put_effect_outside [OF A(3)])
    fix p assume "p \<in> merge_targets live (kind_of n) rs"
    then have "p = live @ rs" by (auto simp: merge_targets_def split: if_splits)
    moreover have "staging_name \<notin> set rs" using inv n by (auto simp: merge_inv_def staged_tree_def)
    ultimately show "\<not> prefix q p" using layout_apart [of live staging rs q] inv that by (simp add: merge_inv_def)
  qed
  then show "merge_inv staging live s'" using inv ok' by (simp add: merge_inv_def staged_tree_def)
qed

definition no_skip :: "apath \<Rightarrow> kind \<Rightarrow> bool" where
  "no_skip p k \<longleftrightarrow> False"

interpretation merge_walk: walk_client "merge_cb E staging live" no_skip
  "step_of (merge_cb E staging live)" "merge_inv staging live" staging
  for E staging live
proof unfold_locales
  let ?cb = "merge_cb E staging live"
  let ?inv = "merge_inv staging live"
  fix s s' :: "(nat \<times> nat) wst" and p q :: apath and n e
  show "no_skip p (kind_of n) \<Longrightarrow> kind_of n = KDir \<and> ?cb p (Some (kind_of n)) None s = (WSkipDir, s)"
    by (simp add: no_skip_def)
  { assume a: "?inv s" "prefix staging p" "nodew (snd s) p = Some n"
      and b: "step_of ?cb p (kind_of n) s = (e, s')"
    then have "\<exists>rs. p = staging @ rs" by (auto simp: prefix_def)
    then obtain rs where p: "p = staging @ rs" ..
    obtain r s1 where c: "?cb p (Some (kind_of n)) None s = (r, s1)" by (rule prod.exhaust)
    note v = merge_cb_visit [OF a(1) a(3) [unfolded p] c [unfolded p]]
    have c': "?cb p (Some (kind_of n)) None s = (wres_of e, s')"
      by (rule step_ofD [OF b]) (use c v(1,2) in simp_all)
    then have s1: "s1 = s'" using c by simp
    show "?cb p (Some (kind_of n)) None s = (wres_of e, s')" by (rule c')
    show "?inv s'" using v(4) s1 by simp
    assume q: "prefix staging q" "nodew (snd s') q \<noteq> nodew (snd s) q"
    have "staging_name \<notin> set rs" using a(1,3) p by (auto simp: merge_inv_def staged_tree_def)
    then have "\<not> prefix q (live @ rs)" using layout_apart [OF _ _ q(1)] a(1) by (simp add: merge_inv_def)
    then have "nodew (snd s') q = nodew (snd s) q"
      by (intro put_effect_outside [OF v(3) [unfolded s1]]) (auto simp: merge_targets_def split: if_splits)
    with q(2) show "kind_of n \<noteq> KDir \<and> prefix q p" by simp
  }
  show "?inv s \<Longrightarrow> fs_ok (store (snd s))" by (simp add: merge_inv_def)
qed

subsection \<open>Orphans\<close>

text \<open>Removing directories: empty ones, under a managed root, at or above a place.\<close>

definition rmdir_effect :: "apath \<Rightarrow> (string, bool) gomap \<Rightarrow> apath \<Rightarrow> world \<Rightarrow> world \<Rightarrow> bool" where
  "rmdir_effect live roots p w w' \<longleftrightarrow> (\<forall>q. nodew w' q = nodew w q \<or>
     (nodew w q = Some Dir \<and> nodew w' q = None \<and> prefix q p \<and>
      is_under_managed_root (filepath_rel live q) roots))"

lemma rmdir_effect_refl [simp]: "rmdir_effect live roots p w w"
  by (simp add: rmdir_effect_def)

lemma rmdir_effect_cases:
  assumes "rmdir_effect live roots p w w'"
  obtains (same) "nodew w' q = nodew w q"
  | (removed) "nodew w q = Some Dir" "nodew w' q = None" "prefix q p"
      "is_under_managed_root (filepath_rel live q) roots"
  using assms [unfolded rmdir_effect_def, rule_format, of q] by (elim disjE conjE)

lemma rmdir_effectI:
  "(\<And>q. nodew w' q = nodew w q \<or>
     (nodew w q = Some Dir \<and> nodew w' q = None \<and> prefix q p \<and>
      is_under_managed_root (filepath_rel live q) roots)) \<Longrightarrow> rmdir_effect live roots p w w'"
  unfolding rmdir_effect_def by blast

lemma remove_None:
  assumes "remove p w = (None, w')"
  shows "w' = sys (DelNode p) w" "p \<noteq> []" "nodew w p \<noteq> None" "nodew w p = Some Dir \<Longrightarrow> children (store w) p = []"
  using assms by (auto simp: remove_def split: option.splits node.splits if_splits)

lemma remove_Some: "remove p w = (Some e, w') \<Longrightarrow> w' = w"
  by (auto simp: remove_def split: option.splits node.splits if_splits)

lemma remove_fs_ok:
  assumes "remove p w = (e, w')" "fs_ok (store w)"
  shows "fs_ok (store w')"
proof (cases e)
  case None
  note r = remove_None [OF assms(1) [unfolded None]]
  have "node_at (store w) (p @ [x]) = None" for x
  proof (cases "nodew w p = Some Dir")
    case True
    with r(4) set_children [OF assms(2), of p] show ?thesis by auto
  next
    case False
    then show ?thesis using fs_ok_parent [OF assms(2), of p x] by (cases "nodew w (p @ [x])") auto
  qed
  with fs_ok_DelNode [OF assms(2), of p] r(1) show ?thesis by simp
qed (use assms remove_Some in auto)

lemma remove_empty_dirs_effect:
  "fs_ok (store w) \<Longrightarrow> nodew w p = Some Dir \<Longrightarrow>
   rmdir_effect live roots p w (remove_empty_dirs live roots p w) \<and>
   fs_ok (store (remove_empty_dirs live roots p w))"
proof (induction live roots p w rule: remove_empty_dirs.induct)
  case (1 live roots p w)
  obtain e w1 where rm: "remove p w = (e, w1)" by (rule prod.exhaust)
  have rd: "read_dir (store w) p = Inr (dir_entries (store w) p)" by (rule read_dir_Dir [OF "1.prems"(2)])
  show ?case
  proof (cases "is_under_managed_root (filepath_rel live p) roots \<and> dir_entries (store w) p = [] \<and> e = None")
    case False
    then have "remove_empty_dirs live roots p w = w \<or> remove_empty_dirs live roots p w = w1 \<and> e \<noteq> None"
      using rm rd by (subst (1 2) remove_empty_dirs.simps) (cases e; auto)
    moreover have "e \<noteq> None \<Longrightarrow> w1 = w" using remove_Some rm by (cases e) auto
    ultimately show ?thesis using "1.prems" by auto
  next
    case True
    note r = remove_None [of p w w1]
    have rm': "remove p w = (None, w1)" using rm True by simp
    note r = remove_None [OF rm']
    have ok1: "fs_ok (store w1)" by (rule remove_fs_ok [OF rm "1.prems"(1)])
    have n1: "nodew w1 q = (if q = p then None else nodew w q)" for q
      using r(1,2) by (simp add: node_at_mdel)
    have "nodew w (abs_dir p) = Some Dir"
      using fs_okD(2) [OF "1.prems"(1), of p] "1.prems"(2) r(2) by (simp add: abs_dir_def)
    moreover have "abs_dir p \<noteq> p" using r(2) by (metis abs_dir_base self_append_conv not_Cons_self2)
    ultimately have "nodew w1 (abs_dir p) = Some Dir" using n1 by simp
    then have IH: "rmdir_effect live roots (abs_dir p) w1 (remove_empty_dirs live roots (abs_dir p) w1) \<and>
        fs_ok (store (remove_empty_dirs live roots (abs_dir p) w1))"
      using "1.IH" [OF _ rd _ rm' [symmetric] refl ok1] True by simp
    have eq: "remove_empty_dirs live roots p w = remove_empty_dirs live roots (abs_dir p) w1"
      using True rd rm' by (subst remove_empty_dirs.simps) simp
    have pp: "prefix q (abs_dir p) \<Longrightarrow> prefix q p" for q
      by (metis abs_dir_def prefix_order.trans prefixeq_butlast)
    have "rmdir_effect live roots p w (remove_empty_dirs live roots p w)"
    proof (rule rmdir_effectI)
      fix q
      from IH have "rmdir_effect live roots (abs_dir p) w1 (remove_empty_dirs live roots p w)" using eq by simp
      then show "nodew (remove_empty_dirs live roots p w) q = nodew w q \<or>
         (nodew w q = Some Dir \<and> nodew (remove_empty_dirs live roots p w) q = None \<and> prefix q p \<and>
          is_under_managed_root (filepath_rel live q) roots)"
        by (cases rule: rmdir_effect_cases [where q = q])
          (use n1 [of q] "1.prems"(2) True pp in \<open>auto split: if_splits\<close>)
    qed
    with IH eq show ?thesis by simp
  qed
qed

text \<open>What one visit of the orphan walk does to the store.\<close>

definition orphan_skip :: "sysenv \<Rightarrow> apath \<Rightarrow> (string, bool) gomap \<Rightarrow> string list \<Rightarrow> apath \<Rightarrow> kind \<Rightarrow> bool" where
  "orphan_skip E live roots excludes p k \<longleftrightarrow> k = KDir \<and> p \<noteq> live \<and>
     skipped_live E excludes roots (drop (length live) p)"

definition live_inv :: "apath \<Rightarrow> apath \<Rightarrow> 'a wst \<Rightarrow> bool" where
  "live_inv staging live s \<longleftrightarrow> fs_ok (store (snd s)) \<and> list_all name_ok staging \<and> list_all name_ok live"

definition is_orphan :: "sysenv \<Rightarrow> apath \<Rightarrow> (string, bool) gomap \<Rightarrow> string list \<Rightarrow> fs \<Rightarrow> kind \<Rightarrow> string list \<Rightarrow> bool" where
  "is_orphan E staging roots excludes m k rs \<longleftrightarrow> rs \<noteq> [] \<and> k = KFile \<and>
     deletable E excludes roots rs \<and> absent m (staging @ rs)"

definition orphan_effect :: "apath \<Rightarrow> (string, bool) gomap \<Rightarrow> string list \<Rightarrow> bool \<Rightarrow> world \<Rightarrow> world \<Rightarrow> bool" where
  "orphan_effect live roots rs orphan w w' \<longleftrightarrow>
     (if orphan then nodew w' (live @ rs) = None \<and>
        (\<forall>q. q \<noteq> live @ rs \<longrightarrow> nodew w' q = nodew w q \<or>
          (nodew w q = Some Dir \<and> nodew w' q = None \<and> prefix q (abs_dir (live @ rs)) \<and>
           is_under_managed_root (filepath_rel live q) roots))
      else w' = w)"

lemma orphan_cb_visit:
  assumes inv: "live_inv staging live s"
    and n: "nodew (snd s) (live @ rs) = Some n"
    and run: "orphan_cb E staging live roots excludes (live @ rs) (Some (kind_of n)) None s = (r, s')"
  shows "r = (if orphan_skip E live roots excludes (live @ rs) (kind_of n) then WSkipDir else WNil)"
    and "orphan_effect live roots rs (is_orphan E staging roots excludes (store (snd s)) (kind_of n) rs) (snd s) (snd s')"
    and "fst s' = fst s + (if is_orphan E staging roots excludes (store (snd s)) (kind_of n) rs then 1 else 0)"
    and "fs_ok (store (snd s'))"
proof -
  obtain d w where s: "s = (d, w)" by (rule prod.exhaust)
  have ok: "fs_ok (store w)" and nm: "list_all name_ok staging" using inv s by (simp_all add: live_inv_def)
  have n': "nodew w (live @ rs) = Some n" using n s by simp
  have rs: "list_all name_ok rs" using fs_ok_names [OF ok, of "live @ rs"] n' by simp
  let ?o = "is_orphan E staging roots excludes (store w) (kind_of n) rs"
  have "r = (if orphan_skip E live roots excludes (live @ rs) (kind_of n) then WSkipDir else WNil) \<and>
      orphan_effect live roots rs ?o w (snd s') \<and> fst s' = d + (if ?o then 1 else 0) \<and> fs_ok (store (snd s'))"
  proof (cases "rs = []")
    case True
    then have "r = WNil \<and> s' = s"
      using run by (auto simp: orphan_cb_def filepath_rel_def Let_def split: if_splits)
    with True ok s show ?thesis by (simp add: orphan_skip_def is_orphan_def orphan_effect_def)
  next
    case False
    have ex: "nodew w (live @ rs) \<noteq> None" using n' by simp
    note at = run [unfolded s orphan_cb_at [OF rs False nm ex]]
    show ?thesis
    proof (cases ?o)
      case False
      with at ok s \<open>rs \<noteq> []\<close> show ?thesis
        by (cases "kind_of n") (auto simp: orphan_skip_def is_orphan_def orphan_effect_def split: if_splits)
    next
      case True
      then have k: "kind_of n = KFile" and del: "deletable E excludes roots rs" "absent (store w) (staging @ rs)"
        by (auto simp: is_orphan_def)
      then have "remove (live @ rs) w = (None, sys (DelNode (live @ rs)) w)"
        using n' by (cases n) (simp_all add: remove_def)
      define w1 where "w1 = sys (DelNode (live @ rs)) w"
      have rm: "remove (live @ rs) w = (None, w1)" using \<open>remove _ _ = _\<close> by (simp add: w1_def)
      have n1: "nodew w1 q = (if q = live @ rs then None else nodew w q)" for q
        using False by (simp add: w1_def node_at_mdel)
      have ok1: "fs_ok (store w1)" by (rule remove_fs_ok [OF rm ok])
      have "nodew w (abs_dir (live @ rs)) = Some Dir"
        using fs_okD(2) [OF ok ex] False by (simp add: abs_dir_def)
      moreover have "abs_dir (live @ rs) \<noteq> live @ rs"
        using False by (metis abs_dir_base append_is_Nil_conv self_append_conv not_Cons_self2)
      ultimately have "nodew w1 (abs_dir (live @ rs)) = Some Dir" using n1 by simp
      note eff = remove_empty_dirs_effect [OF ok1 this, of live roots]
      define w2 where "w2 = remove_empty_dirs live roots (abs_dir (live @ rs)) w1"
      have out: "r = WNil" "s' = (Suc d, w2)" using at k del rm w2_def by auto
      have e2: "rmdir_effect live roots (abs_dir (live @ rs)) w1 w2" "fs_ok (store w2)"
        using eff by (simp_all add: w2_def)
      have "orphan_effect live roots rs True w w2"
        unfolding orphan_effect_def
      proof (simp, intro conjI allI impI)
        from e2(1) show "nodew w2 (live @ rs) = None"
          by (cases rule: rmdir_effect_cases [where q = "live @ rs"]) (use n1 in auto)
        fix q assume q: "q \<noteq> live @ rs"
        from e2(1) show "nodew w2 q = nodew w q \<or> nodew w q = Some Dir \<and> nodew w2 q = None \<and>
            prefix q (abs_dir (live @ rs)) \<and> is_under_managed_root (filepath_rel live q) roots"
          by (cases rule: rmdir_effect_cases [where q = q]) (use n1 q in auto)
      qed
      with out True e2(2) k show ?thesis by (simp add: orphan_skip_def)
    qed
  qed
  then show "r = (if orphan_skip E live roots excludes (live @ rs) (kind_of n) then WSkipDir else WNil)"
    "orphan_effect live roots rs (is_orphan E staging roots excludes (store (snd s)) (kind_of n) rs) (snd s) (snd s')"
    "fst s' = fst s + (if is_orphan E staging roots excludes (store (snd s)) (kind_of n) rs then 1 else 0)"
    "fs_ok (store (snd s'))" using s by simp_all
qed

interpretation orphan_walk: walk_client "orphan_cb E staging live roots excludes"
  "orphan_skip E live roots excludes" "step_of (orphan_cb E staging live roots excludes)"
  "live_inv staging live" live
  for E staging live roots excludes
proof unfold_locales
  let ?cb = "orphan_cb E staging live roots excludes"
  let ?inv = "live_inv staging live"
  fix s s' :: "nat wst" and p q :: apath and n e
  { assume a: "?inv s" "prefix live p" "nodew (snd s) p = Some n"
    then have "\<exists>rs. p = live @ rs" by (auto simp: prefix_def)
    then obtain rs where p: "p = live @ rs" ..
    obtain r s1 where c: "?cb p (Some (kind_of n)) None s = (r, s1)" by (rule prod.exhaust)
    note v = orphan_cb_visit [OF a(1) a(3) [unfolded p] c [unfolded p]]
    show "orphan_skip E live roots excludes p (kind_of n) \<Longrightarrow>
        kind_of n = KDir \<and> ?cb p (Some (kind_of n)) None s = (WSkipDir, s)"
    proof
      assume sk: "orphan_skip E live roots excludes p (kind_of n)"
      then show k: "kind_of n = KDir" by (simp add: orphan_skip_def)
      then have "\<not> is_orphan E staging roots excludes (store (snd s)) (kind_of n) rs" by (simp add: is_orphan_def)
      with v(1-3) sk p have "r = WSkipDir" "s1 = s" by (auto simp: orphan_effect_def prod_eq_iff)
      with c show "?cb p (Some (kind_of n)) None s = (WSkipDir, s)" by simp
    qed
    assume b: "\<not> orphan_skip E live roots excludes p (kind_of n)" "step_of ?cb p (kind_of n) s = (e, s')"
    have c': "?cb p (Some (kind_of n)) None s = (wres_of e, s')"
      by (rule step_ofD [OF b(2)]) (use c v(1) b(1) p in simp_all)
    then have s1: "s1 = s'" using c by simp
    show "?cb p (Some (kind_of n)) None s = (wres_of e, s')" by (rule c')
    show "?inv s'" using a(1) v(4) s1 by (simp add: live_inv_def)
    assume q: "prefix live q" "nodew (snd s') q \<noteq> nodew (snd s) q"
    then have o: "is_orphan E staging roots excludes (store (snd s)) (kind_of n) rs"
      using v(2) s1 by (auto simp: orphan_effect_def split: if_splits)
    then have "kind_of n \<noteq> KDir" by (simp add: is_orphan_def)
    moreover have "prefix q p"
    proof (cases "q = p")
      case False
      with v(2) o q(2) s1 p have "prefix q (abs_dir p)" by (auto simp: orphan_effect_def)
      then show ?thesis by (metis abs_dir_def prefix_order.trans prefixeq_butlast)
    qed simp
    ultimately show "kind_of n \<noteq> KDir \<and> prefix q p" ..
  }
  show "?inv s \<Longrightarrow> fs_ok (store (snd s))" by (simp add: live_inv_def)
qed

subsection \<open>The walks of a dry run\<close>

lemma diff_staging_cb_visit:
  assumes inv: "live_inv staging live s"
    and n: "nodew (snd s) (staging @ rs) = Some n"
    and run: "diff_staging_cb E staging live (staging @ rs) (Some (kind_of n)) None s = (r, s')"
  shows "r = WNil" "snd s' = snd s"
proof -
  obtain d w where s: "s = (d, w)" by (rule prod.exhaust)
  have rs: "list_all name_ok rs" and nm: "list_all name_ok live"
    using fs_ok_names [of "store w" "staging @ rs"] inv n s by (simp_all add: live_inv_def)
  have "r = WNil \<and> snd s' = snd s"
  proof (cases "rs = []")
    case True
    then show ?thesis
      using run by (auto simp: diff_staging_cb_def filepath_rel_def Let_def split: if_splits)
  next
    case False
    from run [unfolded s diff_staging_cb_at [OF rs False nm]] s show ?thesis by auto
  qed
  then show "r = WNil" "snd s' = snd s" by simp_all
qed

lemma diff_live_cb_visit:
  assumes inv: "live_inv staging live s"
    and n: "nodew (snd s) (live @ rs) = Some n"
    and run: "diff_live_cb E staging live roots excludes (live @ rs) (Some (kind_of n)) None s = (r, s')"
  shows "r = (if orphan_skip E live roots excludes (live @ rs) (kind_of n) then WSkipDir else WNil)"
    and "snd s' = snd s" and "kind_of n = KDir \<Longrightarrow> s' = s"
proof -
  obtain d w where s: "s = (d, w)" by (rule prod.exhaust)
  have rs: "list_all name_ok rs" and nm: "list_all name_ok staging"
    using fs_ok_names [of "store w" "live @ rs"] inv n s by (simp_all add: live_inv_def)
  have "r = (if orphan_skip E live roots excludes (live @ rs) (kind_of n) then WSkipDir else WNil) \<and>
      snd s' = snd s \<and> (kind_of n = KDir \<longrightarrow> s' = s)"
  proof (cases "rs = []")
    case True
    then show ?thesis
      using run by (auto simp: diff_live_cb_def filepath_rel_def orphan_skip_def Let_def split: if_splits)
  next
    case False
    from run [unfolded s diff_live_cb_at [OF rs False nm]] s False show ?thesis
      by (cases "kind_of n") (auto simp: orphan_skip_def split: if_splits)
  qed
  then show "r = (if orphan_skip E live roots excludes (live @ rs) (kind_of n) then WSkipDir else WNil)"
    "snd s' = snd s" "kind_of n = KDir \<Longrightarrow> s' = s" by simp_all
qed

interpretation diff_staging_walk: walk_client "diff_staging_cb E staging live" no_skip
  "step_of (diff_staging_cb E staging live)" "live_inv staging live" staging
  for E staging live
proof unfold_locales
  let ?cb = "diff_staging_cb E staging live"
  let ?inv = "live_inv staging live"
  fix s s' :: "dry_run_diff wst" and p q :: apath and n e
  show "no_skip p (kind_of n) \<Longrightarrow> kind_of n = KDir \<and> ?cb p (Some (kind_of n)) None s = (WSkipDir, s)"
    by (simp add: no_skip_def)
  { assume a: "?inv s" "prefix staging p" "nodew (snd s) p = Some n"
      and b: "step_of ?cb p (kind_of n) s = (e, s')"
    then have "\<exists>rs. p = staging @ rs" by (auto simp: prefix_def)
    then obtain rs where p: "p = staging @ rs" ..
    obtain r s1 where c: "?cb p (Some (kind_of n)) None s = (r, s1)" by (rule prod.exhaust)
    note v = diff_staging_cb_visit [OF a(1) a(3) [unfolded p] c [unfolded p]]
    have c': "?cb p (Some (kind_of n)) None s = (wres_of e, s')"
      by (rule step_ofD [OF b]) (use c v(1) in simp_all)
    then have s1: "s1 = s'" using c by simp
    show "?cb p (Some (kind_of n)) None s = (wres_of e, s')" by (rule c')
    show "?inv s'" using a(1) v(2) s1 by (simp add: live_inv_def)
    show "nodew (snd s') q \<noteq> nodew (snd s) q \<Longrightarrow> kind_of n \<noteq> KDir \<and> prefix q p"
      using v(2) s1 by simp
  }
  show "?inv s \<Longrightarrow> fs_ok (store (snd s))" by (simp add: live_inv_def)
qed

interpretation diff_live_walk: walk_client "diff_live_cb E staging live roots excludes"
  "orphan_skip E live roots excludes" "step_of (diff_live_cb E staging live roots excludes)"
  "live_inv staging live" live
  for E staging live roots excludes
proof unfold_locales
  let ?cb = "diff_live_cb E staging live roots excludes"
  let ?inv = "live_inv staging live"
  fix s s' :: "dry_run_diff wst" and p q :: apath and n e
  { assume a: "?inv s" "prefix live p" "nodew (snd s) p = Some n"
    then have "\<exists>rs. p = live @ rs" by (auto simp: prefix_def)
    then obtain rs where p: "p = live @ rs" ..
    obtain r s1 where c: "?cb p (Some (kind_of n)) None s = (r, s1)" by (rule prod.exhaust)
    note v = diff_live_cb_visit [OF a(1) a(3) [unfolded p] c [unfolded p]]
    show "orphan_skip E live roots excludes p (kind_of n) \<Longrightarrow>
        kind_of n = KDir \<and> ?cb p (Some (kind_of n)) None s = (WSkipDir, s)"
      using v c p by (auto simp: orphan_skip_def)
    assume b: "\<not> orphan_skip E live roots excludes p (kind_of n)" "step_of ?cb p (kind_of n) s = (e, s')"
    have c': "?cb p (Some (kind_of n)) None s = (wres_of e, s')"
      by (rule step_ofD [OF b(2)]) (use c v(1) b(1) p in simp_all)
    then have s1: "s1 = s'" using c by simp
    show "?cb p (Some (kind_of n)) None s = (wres_of e, s')" by (rule c')
    show "?inv s'" using a(1) v(2) s1 by (simp add: live_inv_def)
    show "nodew (snd s') q \<noteq> nodew (snd s) q \<Longrightarrow> kind_of n \<noteq> KDir \<and> prefix q p"
      using v(2) s1 by simp
  }
  show "?inv s \<Longrightarrow> fs_ok (store (snd s))" by (simp add: live_inv_def)
qed

end
