(* ===== verification/SyncPhases.thy ===== *)
theory SyncPhases
  imports SyncWalks
begin

section \<open>The phases of ExecutePlan\<close>

text \<open>
  What each phase of a sync does to the whole tree: building the staging directory, merging it
  into the live directory, removing orphans.
\<close>

subsection \<open>Plans\<close>

definition mapping_ok :: "apath \<Rightarrow> file_edit option \<Rightarrow> resolved_mapping \<Rightarrow> bool" where
  "mapping_ok staging applyT m \<longleftrightarrow> dest_ok (m_destination m) \<and> edits_ok applyT m \<and> (m_source m \<parallel> staging) \<and>
     (m_type m = mapping_type_file \<longrightarrow>
        m_destination m = slash_join (clean_rel (m_destination m)) \<and> clean_rel (m_destination m) \<noteq> [])"

text \<open>
  The same without the demand on how the destination of a file is written: it holds of every mapping
  that the agent's validation accepts.
\<close>

definition mapping_safe :: "apath \<Rightarrow> file_edit option \<Rightarrow> resolved_mapping \<Rightarrow> bool" where
  "mapping_safe staging applyT m \<longleftrightarrow> dest_ok (m_destination m) \<and> edits_ok applyT m \<and> (m_source m \<parallel> staging)"

lemma mapping_ok_safe: "mapping_ok staging applyT m \<Longrightarrow> mapping_safe staging applyT m"
  by (simp add: mapping_ok_def mapping_safe_def)

definition plan_ok :: "sync_plan \<Rightarrow> bool" where
  "plan_ok plan \<longleftrightarrow> list_all name_ok (p_staging_dir plan) \<and> list_all name_ok (p_live_dir plan) \<and>
     layout (p_live_dir plan) (p_staging_dir plan) \<and>
     (\<forall>m \<in> set (p_mappings plan). mapping_ok (p_staging_dir plan) (p_apply_template plan) m)"

lemma layout_nonempty: "layout live staging \<Longrightarrow> staging \<noteq> []"
  by (auto simp: layout_def)

text \<open>Everything the staging functions can write.\<close>

definition stage_area :: "sysenv \<Rightarrow> string list \<Rightarrow> apath \<Rightarrow> apath set" where
  "stage_area E excludes staging =
     {staging @ cs |cs. cs \<noteq> [] \<and> list_all name_ok cs \<and> \<not> blocked E excludes cs}"

subsection \<open>Staging\<close>

text \<open>A file is staged at the cleaned form of its destination, or nothing is done.\<close>

lemma stage_single_file_put:
  assumes run: "stage_single_file E m staging excludes applyT (staged, w) = (e, (staged', w'))"
    and m: "mapping_safe staging applyT m" and w: "fs_ok (store w)" "list_all name_ok staging"
  shows "put_effect {staging @ clean_rel (m_destination m)} w w'" "fs_ok (store w')"
proof -
  let ?dst = "staging @ clean_rel (m_destination m)"
  have cs: "list_all name_ok (clean_rel (m_destination m))" using m by (simp add: mapping_safe_def dest_ok_def)
  have ed: "edits_ok applyT m" and par: "m_source m \<parallel> staging" using m by (simp_all add: mapping_safe_def)
  have abs: "join_abs staging (m_destination m) = ?dst" by (rule join_abs_below [OF w(2) cs])
  have names: "list_all name_ok ?dst" using w(2) cs by simp
  obtain e1 w1 where mk: "mkdir_all (abs_dir ?dst) w = (e1, w1)" by (rule prod.exhaust)
  have p1: "put_effect {?dst} w w1"
    by (rule put_effect_mk [OF mkdir_all_effect [OF mk]]) (simp_all add: abs_dir_def prefixeq_butlast)
  have ok1: "fs_ok (store w1)" by (rule mkdir_all_fs_ok [OF mk w(1) list_all_abs_dir [OF names]])
  obtain e2 w2 where sf: "stage_file E m applyT ''staging file '' (m_source m) ?dst (m_destination m) w1 = (e2, w2)"
    by (rule prod.exhaust)
  have neq: "m_source m \<noteq> ?dst" using parallel_not_prefix [OF par] by (metis prefix_order.refl)
  note sfe = stage_file_effect [OF sf ed neq]
  have "w' = w \<or> w' = w1 \<or> w' = w2"
    using run mk sf by (auto simp: stage_single_file_def abs Let_def split: if_splits option.splits)
  then have "put_effect {?dst} w w' \<and> fs_ok (store w')"
    using w(1) p1 ok1 put_effect_trans [OF p1 sfe(1)] sfe(2) [OF ok1 names] by auto
  then show "put_effect {?dst} w w'" "fs_ok (store w')" by simp_all
qed

lemma stage_single_file_effect:
  assumes run: "stage_single_file E m staging excludes applyT (staged, w) = (e, (staged', w'))"
    and m: "mapping_ok staging applyT m" "m_type m = mapping_type_file"
    and w: "fs_ok (store w)" "list_all name_ok staging"
  shows "put_effect (stage_area E excludes staging) w w'" "fs_ok (store w')"
proof -
  note p = stage_single_file_put [OF run mapping_ok_safe [OF m(1)] w]
  have cs: "list_all name_ok (clean_rel (m_destination m))" "clean_rel (m_destination m) \<noteq> []"
    "slash_join (clean_rel (m_destination m)) = m_destination m"
    using m by (simp_all add: mapping_ok_def dest_ok_def)
  show "put_effect (stage_area E excludes staging) w w'"
  proof (cases "blocked E excludes (clean_rel (m_destination m))")
    case True
    then have "w' = w" using run by (auto simp: stage_single_file_def blocked_def cs(3) Let_def split: if_splits)
    then show ?thesis by simp
  next
    case False
    with cs show ?thesis by (intro put_effect_mono [OF p(1)]) (auto simp: stage_area_def)
  qed
  show "fs_ok (store w')" by (rule p(2))
qed

lemma stage_targets_area:
  "dest_ok (m_destination m) \<Longrightarrow> list_all name_ok rs \<Longrightarrow>
   stage_targets E m staging excludes k rs \<subseteq> stage_area E excludes staging"
  by (auto simp: stage_targets_def stage_area_def dest_ok_def)

lemma stage_directory_effect:
  assumes run: "stage_directory E m staging excludes applyT (staged, w) = (e, (staged', w'))"
    and m: "mapping_safe staging applyT m"
    and w: "fs_ok (store w)" "list_all name_ok staging"
  shows "put_effect (stage_area E excludes staging) w w'" "fs_ok (store w')"
proof -
  let ?cb = "stage_cb E m staging excludes applyT"
  obtain r s1 where wk: "walk ?cb (m_source m) (staged, w) = (r, s1)" by (rule prod.exhaust)
  then have s1: "s1 = (staged', w')" using run by (simp add: stage_directory_def)
  have inv: "stage_inv m staging applyT (staged, w)"
    using m w by (simp add: stage_inv_def mapping_safe_def)
  have d: "dest_ok (m_destination m)" using m by (simp add: mapping_safe_def)
  have "put_effect (stage_area E excludes staging) w w' \<and> fs_ok (store w')"
  proof (cases "nodew w (m_source m)")
    case None
    then have "s1 = (staged, w)" using wk by (auto simp: walk_def lstat_def stage_cb_def)
    with s1 w show ?thesis by simp
  next
    case (Some nd)
    then have ex: "nodew (snd (staged, w)) (m_source m) \<noteq> None" by simp
    have "put_effect (stage_area E excludes staging) w (snd (snd (walk ?cb (m_source m) (staged, w))))"
    proof (rule stage_walk.walk_keeps [where Q = "\<lambda>t. put_effect (stage_area E excludes staging) w (snd t)", OF inv ex])
      fix t p n e t'
      assume a: "stage_inv m staging applyT t" "put_effect (stage_area E excludes staging) w (snd t)"
        "(p, kind_of n) \<in> set (walk_visits (store (snd (staged, w))) (stage_skip E m excludes) (m_source m))"
        "nodew (snd t) p = Some n" "step_of ?cb p (kind_of n) t = (e, t')"
      from a(3) w(1) have "prefix (m_source m) p" by (simp add: walk_visits_iff reached_def)
      then have "\<exists>rs. p = m_source m @ rs" by (auto simp: prefix_def)
      then obtain rs where p: "p = m_source m @ rs" ..
      have rs: "list_all name_ok rs"
        using fs_ok_names [of "store (snd t)" p] a(1,4) p by (simp add: stage_inv_def)
      obtain r' t1 where c: "?cb p (Some (kind_of n)) None t = (r', t1)" by (rule prod.exhaust)
      then have "t1 = t'" using a(5) by (simp add: step_of_def)
      with stage_cb_visit(4) [OF a(1) a(4) [unfolded p] c [unfolded p]] stage_targets_area [OF d rs]
      have "put_effect (stage_area E excludes staging) (snd t) (snd t')" using put_effect_mono by blast
      with a(2) show "put_effect (stage_area E excludes staging) w (snd t')" by (rule put_effect_trans)
    qed simp
    moreover have "stage_inv m staging applyT (snd (walk ?cb (m_source m) (staged, w)))"
      by (rule stage_walk.walk_is_run(2) [OF inv ex])
    ultimately show ?thesis using wk s1 by (simp add: stage_inv_def)
  qed
  then show "put_effect (stage_area E excludes staging) w w'" "fs_ok (store w')" by simp_all
qed

lemma stage_all_effect:
  assumes "stage_all E plan excludes ms (staged, w) = (e, (staged', w'))"
    and "\<forall>m \<in> set ms. mapping_ok (p_staging_dir plan) (p_apply_template plan) m"
    and "fs_ok (store w)" "list_all name_ok (p_staging_dir plan)"
  shows "put_effect (stage_area E excludes (p_staging_dir plan)) w w' \<and> fs_ok (store w')"
  using assms
proof (induction ms arbitrary: staged w)
  case (Cons m ms)
  obtain e1 staged1 w1 where st: "(if m_type m = mapping_type_file
            then stage_single_file E m (p_staging_dir plan) excludes (p_apply_template plan) (staged, w)
            else stage_directory E m (p_staging_dir plan) excludes (p_apply_template plan) (staged, w))
      = (e1, (staged1, w1))" by (metis surj_pair)
  have "put_effect (stage_area E excludes (p_staging_dir plan)) w w1 \<and> fs_ok (store w1)"
    using stage_single_file_effect [of E m "p_staging_dir plan" excludes "p_apply_template plan" staged w e1 staged1 w1]
      stage_directory_effect [of E m "p_staging_dir plan" excludes "p_apply_template plan" staged w e1 staged1 w1]
      st Cons.prems(2-4) by (auto intro: mapping_ok_safe split: if_splits)
  moreover have "stage_all E plan excludes ms (staged1, w1) = (e, (staged', w')) \<or> w' = w1"
    using Cons.prems(1) st by (cases e1) auto
  ultimately show ?case using Cons.IH [of staged1 w1] Cons.prems(2,4) put_effect_trans by auto
qed simp

text \<open>
  The staging directory after phase 1: it is the only place written, apart from missing
  directories above it; nothing in it is excluded or protected; it contains no links.
\<close>

definition staged_only :: "apath \<Rightarrow> world \<Rightarrow> world \<Rightarrow> bool" where
  "staged_only staging w w' \<longleftrightarrow> (\<forall>q. \<not> prefix staging q \<longrightarrow> nodew w' q = nodew w q \<or>
     (nodew w q = None \<and> nodew w' q = Some Dir \<and> strict_prefix q staging))"

definition staged_content :: "sysenv \<Rightarrow> string list \<Rightarrow> apath \<Rightarrow> fs \<Rightarrow> bool" where
  "staged_content E excludes staging m \<longleftrightarrow> node_at m staging = Some Dir \<and>
     (\<forall>cs n. cs \<noteq> [] \<longrightarrow> node_at m (staging @ cs) = Some n \<longrightarrow> list_all name_ok cs \<and>
        ((n = Dir \<and> (\<exists>cs'. list_all name_ok cs' \<and> prefix cs cs' \<and> \<not> blocked E excludes cs')) \<or>
         (kind_of n = KFile \<and> \<not> blocked E excludes cs)))"

lemma stage_area_staged:
  assumes "put_effect (stage_area E excludes staging) w w'"
    and empty: "\<And>cs. cs \<noteq> [] \<Longrightarrow> nodew w (staging @ cs) = None" and dir: "nodew w staging = Some Dir"
  shows "staged_content E excludes staging (store w')"
  unfolding staged_content_def
proof (intro conjI allI impI)
  show "nodew w' staging = Some Dir" by (rule put_effect_dir [OF assms(1) dir])
  fix cs n assume a: "cs \<noteq> []" "nodew w' (staging @ cs) = Some n"
  let ?R = "list_all name_ok cs \<and> ((n = Dir \<and> (\<exists>cs'. list_all name_ok cs' \<and> prefix cs cs' \<and> \<not> blocked E excludes cs')) \<or>
         (kind_of n = KFile \<and> \<not> blocked E excludes cs))"
  have ?R
    using assms(1)
  proof (cases rule: put_effect_cases [where q = "staging @ cs"])
    case same
    with a empty show ?thesis by simp
  next
    case (made p)
    then obtain cs' where cs': "p = staging @ cs'" "list_all name_ok cs'" "\<not> blocked E excludes cs'"
      by (auto simp: stage_area_def)
    with made have "prefix cs cs'" by simp
    moreover from this cs'(2) have "list_all name_ok cs" by (auto simp: prefix_def)
    ultimately show ?thesis using cs' made a by auto
  next
    case (put c m)
    then show ?thesis using a by (auto simp: stage_area_def)
  qed
  then show "list_all name_ok cs" "(n = Dir \<and> (\<exists>cs'. list_all name_ok cs' \<and> prefix cs cs' \<and> \<not> blocked E excludes cs')) \<or>
         (kind_of n = KFile \<and> \<not> blocked E excludes cs)" by simp_all
qed

lemma build_staging_effect:
  assumes run: "build_staging E plan excludes w = (e, w')"
    and plan: "plan_ok plan" and ok: "fs_ok (store w)"
  shows "fs_ok (store w')" "staged_only (p_staging_dir plan) w w'"
    "e = None \<Longrightarrow> staged_content E excludes (p_staging_dir plan) (store w')"
proof -
  let ?st = "p_staging_dir plan"
  have ne: "?st \<noteq> []" and nm: "list_all name_ok ?st"
    and ms: "\<forall>m \<in> set (p_mappings plan). mapping_ok ?st (p_apply_template plan) m"
    using plan layout_nonempty by (auto simp: plan_ok_def)
  obtain e1 w1 where ra: "remove_all ?st w = (e1, w1)" by (rule prod.exhaust)
  have "fs_ok (store w') \<and> staged_only ?st w w' \<and> (e = None \<longrightarrow> staged_content E excludes ?st (store w'))"
  proof (cases e1)
    case (Some err)
    then have "w1 = w" using ra by (auto simp: remove_all_def split: if_splits)
    with run ra Some ok show ?thesis by (auto simp: build_staging_def staged_only_def)
  next
    case None
    then have "w1 = sys (DelTree ?st) w" using ra by (auto simp: remove_all_def split: if_splits)
    then have n1: "nodew w1 q = (if q \<noteq> [] \<and> prefix ?st q then None else nodew w q)" for q
      by (simp add: node_at_del_tree)
    have ok1: "fs_ok (store w1)" using \<open>w1 = _\<close> ok by (simp add: fs_ok_del_tree)
    obtain e2 w2 where mk: "mkdir_all ?st w1 = (e2, w2)" by (rule prod.exhaust)
    note eff = mkdir_all_effect [OF mk]
    have ok2: "fs_ok (store w2)" by (rule mkdir_all_fs_ok [OF mk ok1 nm])
    have so2: "staged_only ?st w w2"
      unfolding staged_only_def
    proof (intro allI impI)
      fix q assume q: "\<not> prefix ?st q"
      from eff show "nodew w2 q = nodew w q \<or>
          (nodew w q = None \<and> nodew w2 q = Some Dir \<and> strict_prefix q ?st)"
        by (cases rule: mk_effect_cases [where q = q]) (use n1 [of q] q in \<open>auto simp: strict_prefix_def\<close>)
    qed
    show ?thesis
    proof (cases e2)
      case (Some err)
      with run ra None mk ok2 so2 show ?thesis by (auto simp: build_staging_def)
    next
      case e2: None
      obtain e3 staged3 w3 where st: "stage_all E plan excludes (p_mappings plan) ([], w2) = (e3, (staged3, w3))"
        by (metis surj_pair)
      then have out: "e = e3" "w' = w3" using run ra None mk e2 by (auto simp: build_staging_def)
      have s3: "put_effect (stage_area E excludes ?st) w2 w3" "fs_ok (store w3)"
        using stage_all_effect [OF st ms ok2 nm] by simp_all
      have dir2: "nodew w2 ?st = Some Dir"
        by (rule mkdir_all_dir [OF mk [unfolded e2] _ prefix_order.refl ok1]) (simp add: n1 ne)
      have empty2: "nodew w2 (?st @ cs) = None" if "cs \<noteq> []" for cs
        using mk_effect_other [OF eff, of "?st @ cs"] that n1 [of "?st @ cs"] ne by simp
      have "staged_only ?st w w3"
        unfolding staged_only_def
      proof (intro allI impI)
        fix q assume q: "\<not> prefix ?st q"
        have "nodew w3 q = nodew w2 q"
          using s3(1)
        proof (cases rule: put_effect_cases [where q = q])
          case (made p)
          then have "prefix q ?st \<or> prefix ?st q"
            using prefix_same_cases [of q p ?st] by (auto simp: stage_area_def)
          then have "prefix q ?st" using q by blast
          moreover have "nodew w2 q = Some Dir"
          proof (cases "q = ?st")
            case False
            with \<open>prefix q ?st\<close> have "strict_prefix q ?st" by (simp add: strict_prefix_def)
            with fs_ok_prefix [OF ok2, of ?st q] dir2 show ?thesis by simp
          qed (use dir2 in simp)
          ultimately show ?thesis using made by simp
        next
          case (put c m)
          with q show ?thesis by (auto simp: stage_area_def)
        qed
        with so2 q show "nodew w3 q = nodew w q \<or>
          (nodew w q = None \<and> nodew w3 q = Some Dir \<and> strict_prefix q ?st)"
          by (simp add: staged_only_def)
      qed
      with s3(2) stage_area_staged [OF s3(1) empty2 dir2] out show ?thesis by simp
    qed
  qed
  then show "fs_ok (store w')" "staged_only ?st w w'"
    "e = None \<Longrightarrow> staged_content E excludes ?st (store w')" by blast+
qed

text \<open>With the documented meaning of the built-in patterns nothing staged is reserved.\<close>

lemma not_blocked_names:
  assumes "glob_documented E" "list_all name_ok cs" "cs \<noteq> []" "\<not> blocked E (merge_excludes us) cs"
  shows "staging_name \<notin> set cs" "''.resources'' \<notin> set cs"
  using assms should_exclude_staging [OF assms(1,2)] is_protected_documented [OF assms(1-3)]
  by (auto simp: blocked_def staging_name_def)

lemma staged_content_names:
  assumes "glob_documented E" "staged_content E (merge_excludes us) staging m" "node_at m (staging @ cs) \<noteq> None"
  shows "staging_name \<notin> set cs" "''.resources'' \<notin> set cs" "list_all name_ok cs"
proof -
  have "staging_name \<notin> set cs \<and> ''.resources'' \<notin> set cs \<and> list_all name_ok cs"
  proof (cases "cs = []")
    case False
    from assms(3) obtain n where n: "node_at m (staging @ cs) = Some n" by blast
    with assms(2) False have "list_all name_ok cs" and
      "(\<exists>cs'. list_all name_ok cs' \<and> prefix cs cs' \<and> \<not> blocked E (merge_excludes us) cs')"
      unfolding staged_content_def by (blast intro: prefix_order.refl)+
    then obtain cs' where cs': "list_all name_ok cs'" "prefix cs cs'" "\<not> blocked E (merge_excludes us) cs'" by blast
    then have "cs' \<noteq> []" using False by auto
    note not_blocked_names [OF assms(1) cs'(1) this cs'(3)]
    with cs'(2) \<open>list_all name_ok cs\<close> show ?thesis by (auto simp: prefix_def)
  qed simp
  then show "staging_name \<notin> set cs" "''.resources'' \<notin> set cs" "list_all name_ok cs" by simp_all
qed

lemma staged_content_tree:
  "glob_documented E \<Longrightarrow> staged_content E (merge_excludes us) staging m \<Longrightarrow> staged_tree m staging"
  unfolding staged_tree_def using staged_content_names(1) by blast

subsection \<open>Merging\<close>

definition merge_area :: "fs \<Rightarrow> apath \<Rightarrow> apath \<Rightarrow> apath set" where
  "merge_area m staging live =
     {live @ rs |rs. rs \<noteq> [] \<and> (\<exists>n. node_at m (staging @ rs) = Some n \<and> kind_of n \<noteq> KLink)}"

text \<open>What holds after every visit of the merge walk.\<close>

definition merged :: "apath \<Rightarrow> apath \<Rightarrow> world \<Rightarrow> (nat \<times> nat) wst \<Rightarrow> bool" where
  "merged staging live w t \<longleftrightarrow> put_effect (merge_area (store w) staging live) w (snd t) \<and>
     (\<forall>q. prefix staging q \<longrightarrow> nodew (snd t) q = nodew w q)"

lemma merge_visit:
  assumes "fs_ok (store w)" and inv: "merge_inv staging live t"
    and v: "(p, kind_of n) \<in> set (walk_visits (store w) no_skip staging)" and n: "nodew (snd t) p = Some n"
    and step: "step_of (merge_cb E staging live) p (kind_of n) t = (e', t')"
  obtains rs where "p = staging @ rs" "put_effect (merge_targets live (kind_of n) rs) (snd t) (snd t')" "staging_name \<notin> set rs"
proof -
  have "\<exists>rs. p = staging @ rs" using v assms(1) by (auto simp: walk_visits_iff reached_def prefix_def)
  then obtain rs where p: "p = staging @ rs" ..
  obtain r' t1 where c: "merge_cb E staging live p (Some (kind_of n)) None t = (r', t1)" by (rule prod.exhaust)
  then have "t1 = t'" using step by (simp add: step_of_def)
  with merge_cb_visit(3) [OF inv n [unfolded p] c [unfolded p]] p inv n that
  show thesis by (auto simp: merge_inv_def staged_tree_def)
qed

lemma merge_keeps_staging:
  assumes "layout live staging" "put_effect (merge_targets live k rs) v v'" "staging_name \<notin> set rs" "prefix staging q"
  shows "nodew v' q = nodew v q"
  by (rule put_effect_outside [OF assms(2)])
    (use layout_apart [OF assms(1,3,4)] in \<open>auto simp: merge_targets_def split: if_splits\<close>)

lemma merged_step:
  assumes w: "fs_ok (store w)" "layout live staging" and t: "merge_inv staging live t" "merged staging live w t"
    and v: "(p, kind_of n) \<in> set (walk_visits (store w) no_skip staging)" "nodew (snd t) p = Some n"
    and step: "step_of (merge_cb E staging live) p (kind_of n) t = (e', t')"
  shows "merged staging live w t'"
proof -
  obtain rs where rs: "p = staging @ rs" "put_effect (merge_targets live (kind_of n) rs) (snd t) (snd t')" "staging_name \<notin> set rs"
    by (rule merge_visit [OF w(1) t(1) v step])
  have "nodew w (staging @ rs) = Some n" using t(2) v(2) rs(1) by (simp add: merged_def)
  then have "merge_targets live (kind_of n) rs \<subseteq> merge_area (store w) staging live"
    by (auto simp: merge_targets_def merge_area_def)
  from put_effect_mono [OF rs(2) this] merge_keeps_staging [OF w(2) rs(2,3)] t(2) put_effect_trans show ?thesis
    by (auto simp: merged_def)
qed

text \<open>A visit makes its own file the same on both sides, and leaves the others the same.\<close>

lemma merge_makes_same:
  assumes inv: "merge_inv staging live t" and lay: "list_all name_ok live" "layout live staging"
    and n: "nodew (snd t) (staging @ rs) = Some n" "kind_of n = KFile" "rs \<noteq> []"
    and step: "step_of (merge_cb E staging live) (staging @ rs) (kind_of n) t = (None, t')"
  shows "same_digest E (nodew (snd t') (staging @ rs)) (nodew (snd t') (live @ rs))"
proof -
  have rs: "list_all name_ok rs" "staging_name \<notin> set rs"
    using fs_ok_names [of "store (snd t)" "staging @ rs"] inv n by (auto simp: merge_inv_def staged_tree_def)
  obtain ad mo v where t: "t = ((ad, mo), v)" by (metis surj_pair)
  obtain x v1 where cp: "copy_file E (staging @ rs) (live @ rs) v = (x, v1)" by (rule prod.exhaust)
  have "\<exists>b. x = Inr b \<and> snd t' = v1"
    using step merge_cb_at [OF rs(1) n(3) lay(1), of E staging KFile ad mo v] cp n(2) t
    by (cases x) (auto simp: step_of_def)
  then obtain b where b: "x = Inr b" "snd t' = v1" by blast
  have "staging @ rs \<noteq> live @ rs" using layout_apart [OF lay(2) rs(2), of "staging @ rs"] by auto
  from copy_file_same(1) [OF cp [unfolded b(1)] this] b(2) show ?thesis by simp
qed

lemma merge_keeps_same:
  assumes lay: "layout live staging" and eff: "put_effect (merge_targets live k rs') v v'" "staging_name \<notin> set rs'"
    and ne: "rs \<noteq> rs'" and sd: "same_digest E (nodew v (staging @ rs)) (nodew v (live @ rs))"
  shows "same_digest E (nodew v' (staging @ rs)) (nodew v' (live @ rs))"
proof -
  have "nodew v' (live @ rs) = nodew v (live @ rs)"
    by (rule put_effect_keeps [OF eff(1)])
      (use same_digest_Some [OF sd] ne in \<open>auto simp: merge_targets_def split: if_splits\<close>)
  with sd merge_keeps_staging [OF lay eff, of "staging @ rs"] show ?thesis by simp
qed

lemma walk_no_skip_dir: "walk cb root s = (r, t) \<Longrightarrow> walk_err r = None \<Longrightarrow> r = WNil"
  by (cases r) (auto simp: walk_def Let_def split: prod.splits if_splits)

lemma merge_staging_merged:
  assumes wk: "walk (merge_cb E staging live) staging ((0, 0), w) = (r, s1)"
    and inv: "merge_inv staging live ((0 :: nat, 0 :: nat), w)" "layout live staging" and dir: "nodew w staging = Some Dir"
  shows "merged staging live w s1" "fs_ok (store (snd s1))"
proof -
  have w: "fs_ok (store w)" and Q0: "merged staging live w ((0, 0), w)" using inv(1) by (simp_all add: merge_inv_def merged_def)
  have ex: "nodew (snd ((0 :: nat, 0 :: nat), w)) staging \<noteq> None" using dir by simp
  have "merged staging live w (snd (walk (merge_cb E staging live) staging ((0, 0), w)))"
    by (rule merge_walk.walk_keeps [where Q = "merged staging live w", OF inv(1) ex Q0]) (rule merged_step [OF w inv(2)], simp_all)
  moreover have "merge_inv staging live (snd (walk (merge_cb E staging live) staging ((0, 0), w)))"
    by (rule merge_walk.walk_is_run(2) [OF inv(1) ex])
  ultimately show "merged staging live w s1" "fs_ok (store (snd s1))" using wk by (simp_all add: merge_inv_def)
qed

lemma merge_staging_complete:
  assumes wk: "walk (merge_cb E staging live) staging ((0, 0), w) = (WNil, s1)"
    and inv: "merge_inv staging live ((0 :: nat, 0 :: nat), w)" "list_all name_ok live" "layout live staging"
    and dir: "nodew w staging = Some Dir" and f: "nodew w (staging @ rs) = Some (File c m)"
  shows "same_digest E (nodew (snd s1) (staging @ rs)) (nodew (snd s1) (live @ rs))"
proof -
  let ?s = "((0, 0), w) :: (nat \<times> nat) wst"
  have w: "fs_ok (store w)" using inv(1) by (simp add: merge_inv_def)
  have ex: "nodew (snd ?s) staging \<noteq> None" using dir by simp
  have vf: "(staging @ rs, KFile) \<in> set (walk_visits (store (snd ?s)) no_skip staging)"
    using w f dir by (force simp: walk_visits_iff reached_def no_skip_def)
  define Post where "Post p k t \<longleftrightarrow> (\<forall>rs. p = staging @ rs \<longrightarrow> k = KFile \<longrightarrow>
    same_digest E (nodew (snd t) p) (nodew (snd t) (live @ rs)))" for p k and t :: "(nat \<times> nat) wst"
  have "Post (staging @ rs) KFile s1"
  proof (rule merge_walk.walk_post [where Post = Post, OF inv(1) ex wk vf])
    fix t p n t'
    assume t: "merge_inv staging live t" and v: "(p, kind_of n) \<in> set (walk_visits (store (snd ?s)) no_skip staging)" "nodew (snd t) p = Some n"
      and step: "step_of (merge_cb E staging live) p (kind_of n) t = (None, t')"
    have "same_digest E (nodew (snd t') p) (nodew (snd t') (live @ rs))" if p: "p = staging @ rs" "kind_of n = KFile" for rs
    proof -
      have "rs \<noteq> []" using v(1) dir p w by (auto simp: walk_visits_iff)
      from merge_makes_same [OF t inv(2,3) v(2) [unfolded p(1)] p(2) this step [unfolded p(1)]] show ?thesis by (simp only: p(1))
    qed
    then show "Post p (kind_of n) t'" unfolding Post_def by blast
    fix q l assume q: "q \<noteq> p" "Post q l t"
    obtain rs' where rs': "p = staging @ rs'" "put_effect (merge_targets live (kind_of n) rs') (snd t) (snd t')" "staging_name \<notin> set rs'"
      by (rule merge_visit [OF w t v [simplified] step])
    from merge_keeps_same [OF inv(3) rs'(2,3)] q rs'(1) show "Post q l t'" by (auto simp: Post_def)
  qed
  then show ?thesis by (simp add: Post_def)
qed

lemma merge_staging_effect:
  assumes run: "merge_staging_to_live E staging live w = (e, (cnt, w'))"
    and inv: "fs_ok (store w)" "list_all name_ok staging" "list_all name_ok live" "layout live staging"
      "staged_tree (store w) staging"
    and dir: "nodew w staging = Some Dir"
  shows "put_effect (merge_area (store w) staging live) w w'" "fs_ok (store w')"
    "\<And>q. prefix staging q \<Longrightarrow> nodew w' q = nodew w q"
    "e = None \<Longrightarrow> nodew w (staging @ rs) = Some (File c m) \<Longrightarrow>
       same_digest E (nodew w (staging @ rs)) (nodew w' (live @ rs))"
proof -
  obtain r s1 where wk: "walk (merge_cb E staging live) staging ((0, 0), w) = (r, s1)" by (rule prod.exhaust)
  then have s1: "s1 = (cnt, w')" "e = walk_err r" using run by (auto simp: merge_staging_to_live_def)
  have i: "merge_inv staging live ((0 :: nat, 0 :: nat), w)" using inv by (simp add: merge_inv_def)
  from merge_staging_merged [OF wk i inv(4) dir] s1
  show "put_effect (merge_area (store w) staging live) w w'" "fs_ok (store w')"
    and keep: "\<And>q. prefix staging q \<Longrightarrow> nodew w' q = nodew w q" by (simp_all add: merged_def)
  show "same_digest E (nodew w (staging @ rs)) (nodew w' (live @ rs))" if e: "e = None" and f: "nodew w (staging @ rs) = Some (File c m)"
  proof -
    have "r = WNil" using walk_no_skip_dir [OF wk] e s1(2) by simp
    from merge_staging_complete [OF wk [unfolded this] i inv(3,4) dir f] s1 keep [of "staging @ rs"] show ?thesis by simp
  qed
qed

subsection \<open>Orphan cleanup\<close>

lemma absent_cong:
  assumes "fs_ok m" "fs_ok m'" "node_at m staging = Some Dir" "node_at m' staging = Some Dir"
    and "\<And>q. prefix staging q \<Longrightarrow> node_at m q = node_at m' q"
  shows "absent m (staging @ rs) \<longleftrightarrow> absent m' (staging @ rs)"
proof -
  have "node_at m q = node_at m' q" if "q \<in> set (prefixes (butlast (staging @ rs)))" for q
  proof (cases "prefix staging q")
    case False
    have "prefix q (staging @ rs)" using that by (metis in_set_prefixes prefix_order.trans prefixeq_butlast)
    with False have "strict_prefix q staging"
      using prefix_same_cases [of q "staging @ rs" staging] by (auto simp: strict_prefix_def)
    then show ?thesis
      using fs_ok_prefix [OF assms(1), of staging q] fs_ok_prefix [OF assms(2), of staging q] assms(3,4) by simp
  qed (use assms(5) in blast)
  then show ?thesis using assms(5) [of "staging @ rs"] by (simp add: absent_def missing_errno_def)
qed

text \<open>What the cleanup may have removed: orphaned files, and directories under managed roots.\<close>

definition clean_effect :: "sysenv \<Rightarrow> apath \<Rightarrow> apath \<Rightarrow> (string, bool) gomap \<Rightarrow> string list \<Rightarrow> world \<Rightarrow> world \<Rightarrow> bool" where
  "clean_effect E staging live roots excludes w w' \<longleftrightarrow> (\<forall>q. nodew w' q = nodew w q \<or>
     (nodew w' q = None \<and>
       ((\<exists>rs c m. q = live @ rs \<and> rs \<noteq> [] \<and> nodew w q = Some (File c m) \<and> deletable E excludes roots rs \<and>
           absent (store w) (staging @ rs)) \<or>
        (nodew w q = Some Dir \<and> is_under_managed_root (filepath_rel live q) roots \<and>
           (\<exists>rs. list_all name_ok rs \<and> strict_prefix q (live @ rs) \<and> deletable E excludes roots rs)))))"

lemma clean_effectI:
  "(\<And>q. nodew w' q = nodew w q \<or>
     (nodew w' q = None \<and>
       ((\<exists>rs c m. q = live @ rs \<and> rs \<noteq> [] \<and> nodew w q = Some (File c m) \<and> deletable E excludes roots rs \<and>
           absent (store w) (staging @ rs)) \<or>
        (nodew w q = Some Dir \<and> is_under_managed_root (filepath_rel live q) roots \<and>
           (\<exists>rs. list_all name_ok rs \<and> strict_prefix q (live @ rs) \<and> deletable E excludes roots rs))))) \<Longrightarrow>
   clean_effect E staging live roots excludes w w'"
  unfolding clean_effect_def by blast

lemma clean_effect_cases:
  assumes "clean_effect E staging live roots excludes w w'"
  obtains (same) "nodew w' q = nodew w q"
  | (orphan) rs c m where "nodew w' q = None" "q = live @ rs" "rs \<noteq> []" "nodew w q = Some (File c m)"
      "deletable E excludes roots rs" "absent (store w) (staging @ rs)"
  | (rmdir) rs where "nodew w' q = None" "nodew w q = Some Dir" "is_under_managed_root (filepath_rel live q) roots"
      "list_all name_ok rs" "strict_prefix q (live @ rs)" "deletable E excludes roots rs"
  using assms [unfolded clean_effect_def, rule_format, of q] by (elim disjE conjE exE)

lemma prefix_same_strings:
  assumes "has_prefix s (a @ [c])" "has_prefix s (b @ [c])"
  shows "a = b \<or> has_prefix a (b @ [c]) \<or> has_prefix b (a @ [c])"
proof -
  have "prefix (a @ [c]) s" "prefix (b @ [c]) s"
    using assms by (auto simp: has_prefix_iff prefix_def)
  then have "prefix (a @ [c]) (b @ [c]) \<or> prefix (b @ [c]) (a @ [c])" by (metis prefix_same_cases)
  then have "a = b \<or> prefix (a @ [c]) b \<or> prefix (b @ [c]) a" unfolding prefix_snoc by auto
  then show ?thesis by (auto simp: has_prefix_iff prefix_def)
qed

text \<open>The walk goes through every directory above a managed path.\<close>

lemma managed_ancestors:
  assumes "is_under_managed_root (slash_join (a @ b)) roots" "a \<noteq> []" "b \<noteq> []"
  shows "is_under_managed_root (slash_join a) roots \<or> is_ancestor_of_managed_root (slash_join a) roots"
proof -
  from assms(1) obtain R where R: "R \<in> set (mkeys roots)"
    and c: "slash_join (a @ b) = R \<or> has_prefix (slash_join (a @ b)) (R @ ''/'')"
    by (auto simp: is_under_managed_root_def list_ex_iff)
  have ab: "has_prefix (slash_join (a @ b)) (slash_join a @ ''/'')"
    using assms(2,3) by (auto simp: join_with_append has_prefix_iff)
  from c have "slash_join a = R \<or> has_prefix (slash_join a) (R @ ''/'') \<or> has_prefix R (slash_join a @ ''/'')"
  proof
    assume "slash_join (a @ b) = R"
    with ab show ?thesis by simp
  next
    assume "has_prefix (slash_join (a @ b)) (R @ ''/'')"
    from prefix_same_strings [OF ab this] show ?thesis by auto
  qed
  with R show ?thesis
    by (auto simp: is_under_managed_root_def is_ancestor_of_managed_root_def list_ex_iff)
qed

text \<open>What holds after every visit of the orphan walk.\<close>

definition cleaned :: "sysenv \<Rightarrow> apath \<Rightarrow> apath \<Rightarrow> (string, bool) gomap \<Rightarrow> string list \<Rightarrow> world \<Rightarrow> nat wst \<Rightarrow> bool" where
  "cleaned E staging live roots X w t \<longleftrightarrow> clean_effect E staging live roots X w (snd t) \<and>
     (\<forall>q. prefix staging q \<longrightarrow> nodew (snd t) q = nodew w q)"

lemma cleaned_absent:
  assumes "fs_ok (store w)" "nodew w staging = Some Dir" "cleaned E staging live roots X w t" "live_inv staging live t"
  shows "absent (store (snd t)) (staging @ rs) \<longleftrightarrow> absent (store w) (staging @ rs)"
  by (rule absent_cong) (use assms in \<open>auto simp: cleaned_def live_inv_def\<close>)

lemma orphan_visit:
  assumes "fs_ok (store w)" and inv: "live_inv staging live t"
    and v: "(p, kind_of n) \<in> set (walk_visits (store w) (orphan_skip E live roots X) live)" and n: "nodew (snd t) p = Some n"
    and step: "step_of (orphan_cb E staging live roots X) p (kind_of n) t = (e', t')"
  obtains rs where "p = live @ rs" "list_all name_ok rs"
    "orphan_effect live roots rs (is_orphan E staging roots X (store (snd t)) (kind_of n) rs) (snd t) (snd t')"
proof -
  have "\<exists>rs. p = live @ rs" using v assms(1) by (auto simp: walk_visits_iff reached_def prefix_def)
  then obtain rs where p: "p = live @ rs" ..
  obtain r' t1 where c: "orphan_cb E staging live roots X p (Some (kind_of n)) None t = (r', t1)" by (rule prod.exhaust)
  then have "t1 = t'" using step by (simp add: step_of_def)
  moreover have "list_all name_ok rs" using fs_ok_names [of "store (snd t)" p] inv n p by (simp add: live_inv_def)
  ultimately show thesis using orphan_cb_visit(2) [OF inv n [unfolded p] c [unfolded p]] p that by auto
qed

lemma deletable_not_staging:
  assumes "glob_documented E" "layout live staging" "deletable E (merge_excludes us) roots rs" "list_all name_ok rs" "prefix staging q"
  shows "\<not> prefix q (live @ rs)"
proof (cases "rs = []")
  case True
  with layout_apart [OF assms(2) _ assms(5), of "[]"] show ?thesis by simp
next
  case False
  have "staging_name \<notin> set rs"
    using not_blocked_names(1) [OF assms(1,4) False, of us] assms(3) by (simp add: deletable_def)
  with layout_apart [OF assms(2) _ assms(5)] show ?thesis by simp
qed

lemma orphan_removed_cases:
  assumes "orphan_effect live roots rs True v v'" "rs \<noteq> []"
  obtains (same) "nodew v' q = nodew v q" | (file') "q = live @ rs" "nodew v' q = None"
  | (dir') "nodew v q = Some Dir" "nodew v' q = None" "strict_prefix q (live @ rs)" "is_under_managed_root (filepath_rel live q) roots"
proof -
  have "nodew v' q = nodew v q \<or> (q = live @ rs \<and> nodew v' q = None) \<or>
      (nodew v q = Some Dir \<and> nodew v' q = None \<and> prefix q (abs_dir (live @ rs)) \<and> is_under_managed_root (filepath_rel live q) roots)"
    using assms(1) by (cases "q = live @ rs") (simp_all add: orphan_effect_def)
  moreover have "prefix q (abs_dir (live @ rs)) \<Longrightarrow> strict_prefix q (live @ rs)"
    using strict_prefix_abs_dir [of "live @ rs" q] assms(2) by simp
  ultimately show thesis using same file' dir' by blast
qed

lemma clean_effect_orphan:
  assumes ce: "clean_effect E staging live roots X w v"
    and o1: "rs \<noteq> []" "list_all name_ok rs" "deletable E X roots rs" "absent (store w) (staging @ rs)" "nodew v (live @ rs) = Some (File c m)"
    and eff: "orphan_effect live roots rs True v v'"
  shows "clean_effect E staging live roots X w v'"
proof (rule clean_effectI)
  fix q
  show "nodew v' q = nodew w q \<or> (nodew v' q = None \<and>
     ((\<exists>rs c m. q = live @ rs \<and> rs \<noteq> [] \<and> nodew w q = Some (File c m) \<and> deletable E X roots rs \<and> absent (store w) (staging @ rs)) \<or>
      (nodew w q = Some Dir \<and> is_under_managed_root (filepath_rel live q) roots \<and>
         (\<exists>rs. list_all name_ok rs \<and> strict_prefix q (live @ rs) \<and> deletable E X roots rs))))"
    using ce
  proof (cases rule: clean_effect_cases [where q = q])
    case same
    show ?thesis
      using eff o1(1)
    proof (cases rule: orphan_removed_cases [where q = q])
      case file'
      with same o1 show ?thesis by (metis (no_types))
    next
      case dir'
      with same o1 show ?thesis by (metis (no_types))
    qed (use same in simp)
  next
    case (orphan rs' c m)
    have "nodew v' q = None" by (cases rule: orphan_removed_cases [OF eff o1(1), where q = q]) (use orphan in simp_all)
    with orphan show ?thesis by blast
  next
    case (rmdir rs')
    have "nodew v' q = None" by (cases rule: orphan_removed_cases [OF eff o1(1), where q = q]) (use rmdir in simp_all)
    with rmdir show ?thesis by blast
  qed
qed

lemma cleaned_step:
  assumes E: "glob_documented E" and w: "fs_ok (store w)" "layout live staging" "nodew w staging = Some Dir"
    and t: "live_inv staging live t" "cleaned E staging live roots (merge_excludes us) w t"
    and v: "(p, kind_of n) \<in> set (walk_visits (store w) (orphan_skip E live roots (merge_excludes us)) live)" "nodew (snd t) p = Some n"
    and step: "step_of (orphan_cb E staging live roots (merge_excludes us)) p (kind_of n) t = (e', t')"
  shows "cleaned E staging live roots (merge_excludes us) w t'"
proof -
  let ?X = "merge_excludes us"
  obtain rs where rs: "p = live @ rs" "list_all name_ok rs"
    "orphan_effect live roots rs (is_orphan E staging roots ?X (store (snd t)) (kind_of n) rs) (snd t) (snd t')"
    by (rule orphan_visit [OF w(1) t(1) v step])
  show ?thesis
  proof (cases "is_orphan E staging roots ?X (store (snd t)) (kind_of n) rs")
    case False
    with rs(3) t(2) show ?thesis by (simp add: orphan_effect_def cleaned_def)
  next
    case True
    then have o1: "rs \<noteq> []" "kind_of n = KFile" "deletable E ?X roots rs" "absent (store w) (staging @ rs)"
      using cleaned_absent [OF w(1,3) t(2,1)] by (auto simp: is_orphan_def)
    from o1(2) v(2) rs(1) obtain c m where "nodew (snd t) (live @ rs) = Some (File c m)" by (cases n) auto
    note f = this
    have eff: "orphan_effect live roots rs True (snd t) (snd t')" using rs(3) True by simp
    from t(2) have "clean_effect E staging live roots ?X w (snd t)" by (simp add: cleaned_def)
    then have "clean_effect E staging live roots ?X w (snd t')" by (rule clean_effect_orphan [OF _ o1(1) rs(2) o1(3,4) f eff])
    moreover have "nodew (snd t') q = nodew (snd t) q" if q: "prefix staging q" for q
      by (cases rule: orphan_removed_cases [OF eff o1(1), where q = q])
        (use deletable_not_staging [OF E w(2) o1(3) rs(2) q] in \<open>auto simp: strict_prefix_def\<close>)
    ultimately show ?thesis using t(2) by (simp add: cleaned_def)
  qed
qed

text \<open>The walk comes to a file no directory above which is left out.\<close>

lemma orphan_walk_reaches:
  assumes f: "fs_ok (store w)" "nodew w (live @ rs) = Some (File c m)" "nodew w live = Some Dir"
    and del: "is_under_managed_root (slash_join rs) roots" and anc: "\<And>a. a \<noteq> [] \<Longrightarrow> strict_prefix a rs \<Longrightarrow> \<not> blocked E X a"
  shows "(live @ rs, KFile) \<in> set (walk_visits (store w) (orphan_skip E live roots X) live)"
proof -
  have "\<not> orphan_skip E live roots X a (kind_of n)"
    if a: "prefix live a" "prefix a (live @ rs)" "nodew w a = Some n" for a n
  proof -
    from a(1) obtain b where b: "a = live @ b" by (auto simp: prefix_def)
    with a(2) obtain b' where b': "rs = b @ b'" by (auto simp: prefix_def)
    show ?thesis
    proof (cases "b = [] \<or> b' = []")
      case True
      with a(3) f(2) b b' show ?thesis by (auto simp: orphan_skip_def)
    next
      case False
      then have "\<not> blocked E X b" using anc [of b] b' by (auto simp: strict_prefix_def)
      moreover have "is_under_managed_root (slash_join b) roots \<or> is_ancestor_of_managed_root (slash_join b) roots"
        using managed_ancestors [of b b' roots] del b' False by simp
      ultimately show ?thesis using b by (simp add: orphan_skip_def skipped_live_def)
    qed
  qed
  then have "reached (orphan_skip E live roots X) (store w) live (live @ rs)" by (auto simp: reached_def)
  with f show ?thesis by (force simp: walk_visits_iff)
qed

lemma clean_orphans_cleaned:
  assumes wk: "walk (orphan_cb E staging live roots (merge_excludes us)) live (0, w) = (r, s1)"
    and E: "glob_documented E" and inv: "live_inv staging live (0 :: nat, w)" "layout live staging" and dir: "nodew w staging = Some Dir"
  shows "cleaned E staging live roots (merge_excludes us) w s1" "fs_ok (store (snd s1))"
proof -
  have w: "fs_ok (store w)" and Q0: "cleaned E staging live roots (merge_excludes us) w (0, w)"
    using inv(1) by (simp_all add: live_inv_def cleaned_def clean_effect_def)
  have "cleaned E staging live roots (merge_excludes us) w s1 \<and> fs_ok (store (snd s1))"
  proof (cases "nodew w live")
    case None
    then have "s1 = (0, w)" using wk by (auto simp: walk_def lstat_def orphan_cb_def split: if_splits)
    with Q0 w show ?thesis by simp
  next
    case (Some nd)
    then have ex: "nodew (snd (0 :: nat, w)) live \<noteq> None" by simp
    have "cleaned E staging live roots (merge_excludes us) w (snd (walk (orphan_cb E staging live roots (merge_excludes us)) live (0, w)))"
      by (rule orphan_walk.walk_keeps [where Q = "cleaned E staging live roots (merge_excludes us) w", OF inv(1) ex Q0]) (rule cleaned_step [OF E w inv(2) dir], simp_all)
    moreover have "live_inv staging live (snd (walk (orphan_cb E staging live roots (merge_excludes us)) live (0, w)))"
      by (rule orphan_walk.walk_is_run(2) [OF inv(1) ex])
    ultimately show ?thesis using wk by (simp add: live_inv_def)
  qed
  then show "cleaned E staging live roots (merge_excludes us) w s1" "fs_ok (store (snd s1))" by simp_all
qed

lemma clean_orphans_complete:
  assumes wk: "walk (orphan_cb E staging live roots (merge_excludes us)) live (0, w) = (WNil, s1)"
    and E: "glob_documented E" and inv: "live_inv staging live (0 :: nat, w)" "layout live staging" and dir: "nodew w staging = Some Dir"
    and rs: "rs \<noteq> []" "nodew (snd s1) (live @ rs) = Some (File c m)" "deletable E (merge_excludes us) roots rs"
    and anc: "\<And>a. a \<noteq> [] \<Longrightarrow> strict_prefix a rs \<Longrightarrow> \<not> blocked E (merge_excludes us) a"
  shows "\<not> absent (store w) (staging @ rs)"
proof
  let ?X = "merge_excludes us"
  let ?s = "(0, w) :: nat wst"
  assume ab: "absent (store w) (staging @ rs)"
  have w: "fs_ok (store w)" using inv(1) by (simp add: live_inv_def)
  note wdir = w inv(2) dir
  have "clean_effect E staging live roots ?X w (snd s1)" using clean_orphans_cleaned [OF wk E inv dir] by (simp add: cleaned_def)
  then have fw: "nodew w (live @ rs) = Some (File c m)"
    by (cases rule: clean_effect_cases [where q = "live @ rs"]) (use rs(2) in auto)
  have ld: "nodew w live = Some Dir" using fs_ok_ancestor [OF w, of live rs] fw rs(1) by simp
  then have ex: "nodew (snd ?s) live \<noteq> None" by simp
  have vf: "(live @ rs, KFile) \<in> set (walk_visits (store (snd ?s)) (orphan_skip E live roots ?X) live)"
    using orphan_walk_reaches [OF w fw ld _ anc] rs(3) by (simp add: deletable_def)
  have Q0: "cleaned E staging live roots ?X w ?s" by (simp add: cleaned_def clean_effect_def)
  define Post where "Post p k t \<longleftrightarrow> (p = live @ rs \<longrightarrow> nodew (snd t) p = None)" for p :: apath and k :: kind and t :: "nat wst"
  have "Post (live @ rs) KFile s1"
  proof (rule orphan_walk.walk_post_inv [where Post = Post and Q = "cleaned E staging live roots ?X w", OF inv(1) ex wk vf Q0])
    fix t p n t'
    assume t: "live_inv staging live t \<and> cleaned E staging live roots ?X w t"
      and v: "(p, kind_of n) \<in> set (walk_visits (store (snd ?s)) (orphan_skip E live roots ?X) live)" "nodew (snd t) p = Some n"
      and step: "step_of (orphan_cb E staging live roots ?X) p (kind_of n) t = (None, t')"
    obtain rs' where rs': "p = live @ rs'"
      "orphan_effect live roots rs' (is_orphan E staging roots ?X (store (snd t)) (kind_of n) rs') (snd t) (snd t')"
      by (rule orphan_visit [OF w conjunct1 [OF t] v [simplified] step])
    { have "is_orphan E staging roots ?X (store (snd t)) (kind_of n) rs" if p: "p = live @ rs"
      proof -
        have "kind_of n = KFile" using v(1) fw w p by (auto simp: walk_visits_iff)
        moreover have "absent (store (snd t)) (staging @ rs)" using cleaned_absent [OF w dir] t ab by blast
        ultimately show ?thesis using rs(1,3) by (simp add: is_orphan_def)
      qed
      with rs' show "Post p (kind_of n) t'" by (auto simp: Post_def orphan_effect_def) }
    fix q l assume "Post q l t"
    then show "Post q l t'" using rs'(2) unfolding Post_def orphan_effect_def by (metis option.distinct(1))
  qed (rule cleaned_step [OF E wdir], simp_all)
  then show False using rs(2) by (simp add: Post_def)
qed

lemma clean_orphans_effect:
  assumes run: "clean_orphans E staging live roots (merge_excludes us) w = (e, (d, w'))"
    and E: "glob_documented E"
    and inv: "fs_ok (store w)" "list_all name_ok staging" "list_all name_ok live" "layout live staging"
    and dir: "nodew w staging = Some Dir"
  shows "clean_effect E staging live roots (merge_excludes us) w w'" "fs_ok (store w')"
    "\<And>q. prefix staging q \<Longrightarrow> nodew w' q = nodew w q"
    "e = None \<Longrightarrow> rs \<noteq> [] \<Longrightarrow> nodew w' (live @ rs) = Some (File c m) \<Longrightarrow>
       deletable E (merge_excludes us) roots rs \<Longrightarrow>
       (\<And>a. a \<noteq> [] \<Longrightarrow> strict_prefix a rs \<Longrightarrow> \<not> blocked E (merge_excludes us) a) \<Longrightarrow>
       \<not> absent (store w) (staging @ rs)"
proof -
  obtain r s1 where wk: "walk (orphan_cb E staging live roots (merge_excludes us)) live (0, w) = (r, s1)" by (rule prod.exhaust)
  then have s1: "s1 = (d, w')" "e = walk_err r" using run by (auto simp: clean_orphans_def)
  have i: "live_inv staging live (0 :: nat, w)" using inv by (simp add: live_inv_def)
  from clean_orphans_cleaned [OF wk E i inv(4) dir] s1
  show "clean_effect E staging live roots (merge_excludes us) w w'" "fs_ok (store w')"
    "\<And>q. prefix staging q \<Longrightarrow> nodew w' q = nodew w q" by (simp_all add: cleaned_def)
  show "\<not> absent (store w) (staging @ rs)" if "e = None" "rs \<noteq> []" "nodew w' (live @ rs) = Some (File c m)"
    "deletable E (merge_excludes us) roots rs" "\<And>a. a \<noteq> [] \<Longrightarrow> strict_prefix a rs \<Longrightarrow> \<not> blocked E (merge_excludes us) a"
  proof -
    have "r = WNil" using walk_no_skip_dir [OF wk] that(1) s1(2) by simp
    with clean_orphans_complete [OF _ E i inv(4) dir that(2) _ that(4,5)] wk s1 that(3) show ?thesis by simp
  qed
qed

end
