(* ===== verification/SyncCorrect.thy ===== *)
theory SyncCorrect
  imports SyncPhases
begin

section \<open>ExecutePlan as a whole\<close>

text \<open>
  The phases composed. \<open>sync_change\<close> says what a whole run may change outside the staging
  directory; the properties of the engine are read off it.
\<close>

lemma execute_plan_stages:
  assumes "execute_plan E plan w = (r, w')"
  obtains (fail) e where "build_staging E plan (merge_excludes (p_exclude_patterns plan)) w = (Some e, w')" "r = Inl e"
  | (apply_err) w1 e where "build_staging E plan (merge_excludes (p_exclude_patterns plan)) w = (None, w1)"
      "apply_staging E plan (merge_excludes (p_exclude_patterns plan)) (compute_managed_roots (p_mappings plan) []) w1 = (Inl e, w')"
      "r = Inl e"
  | (success) w1 res w2 where "build_staging E plan (merge_excludes (p_exclude_patterns plan)) w = (None, w1)"
      "apply_staging E plan (merge_excludes (p_exclude_patterns plan)) (compute_managed_roots (p_mappings plan) []) w1 = (Inr res, w2)"
      "w' = snd (remove_all (p_staging_dir plan) w2)"
      "r = Inr (res\<lparr>r_projects_synced := discover_projects (p_live_dir plan) w'\<rparr>)"
proof -
  let ?X = "merge_excludes (p_exclude_patterns plan)"
  let ?R = "compute_managed_roots (p_mappings plan) []"
  obtain e1 w1 where b: "build_staging E plan ?X w = (e1, w1)" by (rule prod.exhaust)
  obtain x w2 where a: "apply_staging E plan ?X ?R w1 = (x, w2)" by (rule prod.exhaust)
  show ?thesis
  proof (cases e1)
    case (Some e)
    with assms b fail show ?thesis by (simp add: execute_plan_def)
  next
    case None
    show ?thesis
    proof (cases x)
      case (Inl e)
      have "r = Inl e" "w2 = w'" using assms b None a Inl by (simp_all add: execute_plan_def)
      show ?thesis by (rule apply_err [of w1 e]) (use b None a Inl \<open>r = Inl e\<close> \<open>w2 = w'\<close> in simp_all)
    next
      case (Inr res)
      have w': "w' = snd (remove_all (p_staging_dir plan) w2)"
        and r: "r = Inr (res\<lparr>r_projects_synced := discover_projects (p_live_dir plan) w'\<rparr>)"
        using assms b None a Inr by (auto simp: execute_plan_def Let_def)
      show ?thesis by (rule success [of w1 res w2]) (use b None a Inr w' r in simp_all)
    qed
  qed
qed

text \<open>A dry run's walks leave the world alone, whatever they meet.\<close>

lemma compute_dry_run_diff_same:
  assumes "compute_dry_run_diff E staging live roots excludes w = (e, (d, w'))"
  shows "w' = w"
proof -
  have c1: "snd (snd (diff_staging_cb E staging live q k err t)) = snd t" for q k err t
    by (simp add: diff_staging_cb_def Let_def split: option.splits prod.splits)
  have c2: "snd (snd (diff_live_cb E staging live roots excludes q k err t)) = snd t" for q k err t
    by (simp add: diff_live_cb_def Let_def split: option.splits prod.splits)
  obtain r1 s1 where w1: "walk (diff_staging_cb E staging live) staging (empty_diff, w) = (r1, s1)"
    by (rule prod.exhaust)
  have s1: "snd s1 = w"
    by (rule walk_inv [where I = "\<lambda>t. snd t = w", OF _ _ w1]) (use c1 in \<open>auto dest!: arg_cong [where f = "\<lambda>x. snd (snd x)"]\<close>)
  obtain r2 s2 where w2: "walk (diff_live_cb E staging live roots excludes) live s1 = (r2, s2)"
    by (rule prod.exhaust)
  have "snd s2 = w"
    by (rule walk_inv [where I = "\<lambda>t. snd t = w", OF _ s1 w2]) (use c2 in \<open>auto dest!: arg_cong [where f = "\<lambda>x. snd (snd x)"]\<close>)
  with assms w1 w2 s1 show ?thesis
    by (auto simp: compute_dry_run_diff_def split: option.splits)
qed

lemma apply_staging_dry:
  assumes "apply_staging E plan excludes roots w = (r, w')" "p_dry_run plan"
  shows "w' = w"
proof -
  obtain e d w1 where c: "compute_dry_run_diff E (p_staging_dir plan) (p_live_dir plan) roots excludes w = (e, (d, w1))"
    by (metis surj_pair)
  from compute_dry_run_diff_same [OF c] c assms show ?thesis
    by (cases e) (auto simp: apply_staging_def)
qed

lemma apply_staging_live:
  assumes "apply_staging E plan excludes roots w = (r, w')" "\<not> p_dry_run plan"
  obtains (merge_err) e cnt where "merge_staging_to_live E (p_staging_dir plan) (p_live_dir plan) w = (Some e, (cnt, w'))"
      "r = Inl (Wrapf ''merging staging to live'' e)"
  | (clean) cnt w1 e d where "merge_staging_to_live E (p_staging_dir plan) (p_live_dir plan) w = (None, (cnt, w1))"
      "clean_orphans E (p_staging_dir plan) (p_live_dir plan) roots excludes w1 = (e, (d, w'))"
      "case e of Some err \<Rightarrow> r = Inl (Wrapf ''cleaning orphans'' err)
        | None \<Rightarrow> r = Inr (empty_result\<lparr>r_files_added := fst cnt, r_files_modified := snd cnt, r_files_deleted := d\<rparr>)"
proof -
  obtain e a mo w1 where m: "merge_staging_to_live E (p_staging_dir plan) (p_live_dir plan) w = (e, ((a, mo), w1))"
    by (metis surj_pair)
  obtain e2 d w2 where c: "clean_orphans E (p_staging_dir plan) (p_live_dir plan) roots excludes w1 = (e2, (d, w2))"
    by (metis surj_pair)
  show ?thesis
  proof (cases e)
    case (Some err)
    with assms m merge_err show ?thesis by (simp add: apply_staging_def)
  next
    case None
    have "w' = w2" "case e2 of Some err \<Rightarrow> r = Inl (Wrapf ''cleaning orphans'' err)
        | None \<Rightarrow> r = Inr (empty_result\<lparr>r_files_added := a, r_files_modified := mo, r_files_deleted := d\<rparr>)"
      using assms m c None by (cases e2; simp add: apply_staging_def)+
    with m None c clean [of "(a, mo)" w1 e2 d] show ?thesis by (cases e2) simp_all
  qed
qed

subsection \<open>What a run may change\<close>

lemma mkeys_mput: "set (mkeys (mput m k v)) = insert k (set (mkeys m))"
  by (auto simp: in_mkeys_iff split: if_splits)

lemma compute_managed_roots_keys:
  "set (mkeys (compute_managed_roots ms roots)) = set (mkeys roots) \<union> m_destination ` set ms"
  by (induction ms roots rule: compute_managed_roots.induct) (auto simp: mkeys_mput)

lemma slash_split_Nil_head: "slash_split s = [] \<longleftrightarrow> False"
  by simp

lemma clean_acc_dots: "clean_acc False (replicate k ''..'') (replicate n ''..'') = replicate (n + k) ''..''"
proof (induction n arbitrary: k)
  case (Suc n)
  have "clean_step False (replicate k ''..'') ''..'' = replicate (Suc k) ''..''"
    by (cases k) (simp_all add: clean_step_def)
  with Suc.IH [of "Suc k"] show ?case by simp
qed simp

text \<open>No place above the live directory is under a managed root.\<close>

lemma not_managed_above:
  assumes q: "strict_prefix q live" and roots: "\<forall>R \<in> set (mkeys roots). dest_ok R"
  shows "\<not> is_under_managed_root (filepath_rel live q) roots"
proof
  assume "is_under_managed_root (filepath_rel live q) roots"
  then obtain R where R: "R \<in> set (mkeys roots)"
    and c: "filepath_rel live q = R \<or> has_prefix (filepath_rel live q) (R @ ''/'')"
    by (auto simp: is_under_managed_root_def list_ex_iff)
  obtain r where r: "live = q @ r" "r \<noteq> []" using q by (auto elim!: strict_prefixE')
  have "rel_comps live q = replicate (length r) ''..''"
    unfolding r(1) using r(2) by (induction q) (cases r; simp)+
  then have rel: "filepath_rel live q = slash_join (replicate (length r) ''..'')"
    using r by (simp add: filepath_rel_def)
  have sp: "slash_split (filepath_rel live q) = replicate (length r) ''..''"
    unfolding rel using r(2) by (intro split_join) auto
  obtain k where k: "slash_split R = replicate k ''..''" "k > 0"
  proof -
    from c show thesis
    proof
      assume "filepath_rel live q = R"
      with sp r(2) that [of "length r"] show thesis by simp
    next
      assume "has_prefix (filepath_rel live q) (R @ ''/'')"
      then obtain t where "filepath_rel live q = R @ ''/'' @ t" by (auto simp: has_prefix_iff)
      then have "slash_split R @ slash_split t = replicate (length r) ''..''"
        using sp slash_split_app [of R t] by simp
      then have "slash_split R = take (length (slash_split R)) (replicate (length r) ''..'')"
        by (metis append_eq_conv_conj)
      then obtain k where k: "slash_split R = replicate k ''..''" by (simp only: take_replicate)
      moreover have "k > 0" using k by (cases k) auto
      ultimately show thesis by (rule that)
    qed
  qed
  then have "clean_rel R = replicate k ''..''"
    using clean_acc_dots [of 0 k] by (simp add: clean_rel_def)
  with roots R k(2) show False by (cases k) (auto simp: dest_ok_def)
qed

text \<open>
  A node outside the staging directory after a run: as before, a directory made above a file
  that was put into the live directory or above the staging directory, a file put at an
  unreserved place of the live directory, or removed by the orphan cleanup.
\<close>

inductive sync_change :: "sysenv \<Rightarrow> sync_plan \<Rightarrow> fs \<Rightarrow> world \<Rightarrow> apath \<Rightarrow> node option \<Rightarrow> bool"
  for E plan st w q where
  same: "sync_change E plan st w q (nodew w q)"
| above: "nodew w q = None \<Longrightarrow> strict_prefix q (p_staging_dir plan) \<Longrightarrow> sync_change E plan st w q (Some Dir)"
| dir: "nodew w q = None \<Longrightarrow> prefix q (p_live_dir plan @ rs) \<Longrightarrow> node_at st (p_staging_dir plan @ rs) \<noteq> None \<Longrightarrow>
    sync_change E plan st w q (Some Dir)"
| put: "q = p_live_dir plan @ rs \<Longrightarrow> rs \<noteq> [] \<Longrightarrow> node_at st (p_staging_dir plan @ rs) \<noteq> None \<Longrightarrow>
    nodew w q \<noteq> Some Dir \<Longrightarrow> sync_change E plan st w q (Some (File c m))"
| orphan: "q = p_live_dir plan @ rs \<Longrightarrow> rs \<noteq> [] \<Longrightarrow> absent st (p_staging_dir plan @ rs) \<Longrightarrow>
    deletable E (merge_excludes (p_exclude_patterns plan)) (compute_managed_roots (p_mappings plan) []) rs \<Longrightarrow>
    nodew w q = Some (File c m) \<Longrightarrow> sync_change E plan st w q None"
| rmdir: "nodew w q = Some Dir \<or> nodew w q = None \<Longrightarrow> prefix (p_live_dir plan) q \<Longrightarrow> list_all name_ok rs \<Longrightarrow>
    strict_prefix q (p_live_dir plan @ rs) \<Longrightarrow>
    is_under_managed_root (filepath_rel (p_live_dir plan) q) (compute_managed_roots (p_mappings plan) []) \<Longrightarrow>
    deletable E (merge_excludes (p_exclude_patterns plan)) (compute_managed_roots (p_mappings plan) []) rs \<Longrightarrow>
    sync_change E plan st w q None"

lemma staged_only_cases:
  assumes "staged_only staging w w1" "\<not> prefix staging q"
  obtains (same) "nodew w1 q = nodew w q" | (made) "nodew w q = None" "nodew w1 q = Some Dir" "strict_prefix q staging"
  using assms(1) [unfolded staged_only_def, rule_format, OF assms(2)] that by (elim disjE conjE)

lemma sync_change_staged:
  assumes "staged_only (p_staging_dir plan) w w1" "\<not> prefix (p_staging_dir plan) q"
  shows "sync_change E plan st w q (nodew w1 q)"
proof -
  show ?thesis
  using assms
  proof (cases rule: staged_only_cases)
    case same
    then show ?thesis using sync_change.same [of E plan st w q] by simp
  next
    case made
    then show ?thesis using sync_change.above [of w q plan E st] by simp
  qed
qed

lemma sync_change_merged:
  assumes st: "staged_only (p_staging_dir plan) w w1"
    and mg: "put_effect (merge_area (store w1) (p_staging_dir plan) (p_live_dir plan)) w1 w2"
    and q: "\<not> prefix (p_staging_dir plan) q"
  shows "sync_change E plan (store w1) w q (nodew w2 q)"
  using mg
proof (cases rule: put_effect_cases [where q = q])
  case same
  with sync_change_staged [OF st q] show ?thesis by simp
next
  case (made p)
  then obtain rs where "p = p_live_dir plan @ rs" "nodew w1 (p_staging_dir plan @ rs) \<noteq> None"
    by (auto simp: merge_area_def)
  moreover have "nodew w q = None"
    by (cases rule: staged_only_cases [OF st q]) (use made(1) in auto)
  ultimately show ?thesis using made(2,4) by (auto intro: sync_change.dir)
next
  case (put c m)
  then obtain rs where rs: "q = p_live_dir plan @ rs" "rs \<noteq> []" "nodew w1 (p_staging_dir plan @ rs) \<noteq> None"
    by (auto simp: merge_area_def)
  have "nodew w q \<noteq> Some Dir"
    by (cases rule: staged_only_cases [OF st q]) (use put(2) in auto)
  from sync_change.put [OF rs this] put(3) show ?thesis by simp
qed

lemma sync_change_cleaned:
  assumes st: "staged_only (p_staging_dir plan) w w1"
    and mg: "put_effect (merge_area (store w1) (p_staging_dir plan) (p_live_dir plan)) w1 w2"
    and cl: "clean_effect E (p_staging_dir plan) (p_live_dir plan) (compute_managed_roots (p_mappings plan) [])
        (merge_excludes (p_exclude_patterns plan)) w2 w3"
    and ab: "\<And>rs. absent (store w2) (p_staging_dir plan @ rs) \<longleftrightarrow> absent (store w1) (p_staging_dir plan @ rs)"
    and roots: "\<forall>m \<in> set (p_mappings plan). dest_ok (m_destination m)"
    and q: "\<not> prefix (p_staging_dir plan) q"
  shows "sync_change E plan (store w1) w q (nodew w3 q)"
  using cl
proof (cases rule: clean_effect_cases [where q = q])
  case same
  with sync_change_merged [OF st mg q] show ?thesis by simp
next
  case (orphan rs c m)
  from mg have "nodew w1 q = Some (File c m)"
  proof (cases rule: put_effect_cases [where q = q])
    case (put c' m')
    then obtain rs' where "q = p_live_dir plan @ rs'" "nodew w1 (p_staging_dir plan @ rs') \<noteq> None"
      by (auto simp: merge_area_def)
    with orphan ab have False by (simp add: absent_def)
    then show ?thesis ..
  qed (use orphan(4) in simp_all)
  then have "nodew w q = Some (File c m)" by (cases rule: staged_only_cases [OF st q]) auto
  with orphan ab show ?thesis by (auto intro: sync_change.orphan)
next
  case (rmdir rs)
  have "nodew w1 q = Some Dir \<or> nodew w1 q = None"
    using mg by (cases rule: put_effect_cases [where q = q]) (use rmdir(2) in auto)
  then have "nodew w q = Some Dir \<or> nodew w q = None" by (cases rule: staged_only_cases [OF st q]) auto
  moreover have "prefix (p_live_dir plan) q"
  proof (rule ccontr)
    assume n: "\<not> prefix (p_live_dir plan) q"
    have "prefix q (p_live_dir plan @ rs)" using rmdir(5) by (simp add: strict_prefix_def)
    with n have "strict_prefix q (p_live_dir plan)"
      using prefix_same_cases [of q "p_live_dir plan @ rs" "p_live_dir plan"] by (auto simp: strict_prefix_def)
    moreover have "\<forall>R \<in> set (mkeys (compute_managed_roots (p_mappings plan) [])). dest_ok R"
      using roots by (auto simp: compute_managed_roots_keys) (simp add: mkeys_def)
    ultimately show False using not_managed_above rmdir(3) by blast
  qed
  ultimately show ?thesis using rmdir by (auto intro: sync_change.rmdir)
qed

lemma plan_okD:
  assumes "plan_ok plan"
  shows "list_all name_ok (p_staging_dir plan)" "list_all name_ok (p_live_dir plan)"
    "layout (p_live_dir plan) (p_staging_dir plan)"
    "\<forall>m \<in> set (p_mappings plan). dest_ok (m_destination m)"
  using assms by (auto simp: plan_ok_def mapping_ok_def)

lemma remove_all_frame: "\<not> prefix p q \<Longrightarrow> nodew (snd (remove_all p w)) q = nodew w q"
  by (simp add: remove_all_def node_at_del_tree)

lemma remove_all_fs_ok: "fs_ok (store w) \<Longrightarrow> fs_ok (store (snd (remove_all p w)))"
  by (simp add: remove_all_def fs_ok_del_tree)

text \<open>The live phase 2, from a staging directory as phase 1 leaves it.\<close>

lemma apply_staging_change:
  assumes run: "apply_staging E plan (merge_excludes (p_exclude_patterns plan)) (compute_managed_roots (p_mappings plan) []) w1 = (r, w3)"
    and plan: "plan_ok plan" and E: "glob_documented E" and ok: "fs_ok (store w1)"
    and so: "staged_only (p_staging_dir plan) w w1"
    and sc: "staged_content E (merge_excludes (p_exclude_patterns plan)) (p_staging_dir plan) (store w1)"
    and q: "\<not> prefix (p_staging_dir plan) q"
  shows "sync_change E plan (store w1) w q (nodew w3 q)" "fs_ok (store w3)"
proof -
  let ?st = "p_staging_dir plan" and ?live = "p_live_dir plan"
  note P = plan_okD [OF plan]
  have tree: "staged_tree (store w1) ?st" by (rule staged_content_tree [OF E sc])
  have dir: "nodew w1 ?st = Some Dir" using sc by (simp add: staged_content_def)
  have "sync_change E plan (store w1) w q (nodew w3 q) \<and> fs_ok (store w3)"
  proof (cases "p_dry_run plan")
    case True
    with apply_staging_dry [OF run] sync_change_staged [OF so q] ok show ?thesis by simp
  next
    case False
    from run this show ?thesis
    proof (cases rule: apply_staging_live)
      case (merge_err e cnt)
      note m = merge_staging_effect [OF merge_err(1) ok P(1-3) tree dir]
      from sync_change_merged [OF so m(1) q] m(2) show ?thesis by simp
    next
      case (clean cnt w2 e d)
      note m = merge_staging_effect [OF clean(1) ok P(1-3) tree dir]
      have dir2: "nodew w2 ?st = Some Dir" using m(3) [of ?st] dir by simp
      note c = clean_orphans_effect [OF clean(2) E m(2) P(1-3) dir2]
      have ab: "absent (store w2) (?st @ rs) \<longleftrightarrow> absent (store w1) (?st @ rs)" for rs
        by (rule absent_cong [OF m(2) ok dir2 dir]) (rule m(3))
      from sync_change_cleaned [OF so m(1) c(1) ab P(4) q] c(2) show ?thesis by simp
    qed
  qed
  then show "sync_change E plan (store w1) w q (nodew w3 q)" "fs_ok (store w3)" by simp_all
qed

text \<open>The store phase 1 leaves.\<close>

definition staged_store :: "sysenv \<Rightarrow> sync_plan \<Rightarrow> world \<Rightarrow> fs" where
  "staged_store E plan w = store (snd (build_staging E plan (merge_excludes (p_exclude_patterns plan)) w))"

lemma execute_plan_change:
  assumes run: "execute_plan E plan w = (r, w')"
    and plan: "plan_ok plan" and E: "glob_documented E" and ok: "fs_ok (store w)"
    and q: "\<not> prefix (p_staging_dir plan) q"
  shows "sync_change E plan (staged_store E plan w) w q (nodew w' q)" "fs_ok (store w')"
proof -
  have "sync_change E plan (staged_store E plan w) w q (nodew w' q) \<and> fs_ok (store w')"
    using run
  proof (cases rule: execute_plan_stages)
    case (fail e)
    note b = build_staging_effect [OF fail(1) plan ok]
    from sync_change_staged [OF b(2) q] b(1) show ?thesis by simp
  next
    case (apply_err w1 e)
    note b = build_staging_effect [OF apply_err(1) plan ok]
    from apply_staging_change [OF apply_err(2) plan E b(1,2) b(3) [OF refl] q] apply_err(1)
    show ?thesis by (simp add: staged_store_def)
  next
    case (success w1 res w2)
    note b = build_staging_effect [OF success(1) plan ok]
    from apply_staging_change [OF success(2) plan E b(1,2) b(3) [OF refl] q] success(1,3)
    show ?thesis by (simp add: staged_store_def remove_all_frame [OF q] remove_all_fs_ok)
  qed
  then show "sync_change E plan (staged_store E plan w) w q (nodew w' q)" "fs_ok (store w')" by simp_all
qed

subsection \<open>Where a run writes\<close>

lemma execute_plan_confined:
  assumes "execute_plan E plan w = (r, w')" "plan_ok plan" "glob_documented E" "fs_ok (store w)"
    and "\<not> prefix (p_staging_dir plan) q" "\<not> prefix (p_live_dir plan) q"
  shows "nodew w' q = nodew w q \<or> (nodew w q = None \<and> nodew w' q = Some Dir \<and>
     (strict_prefix q (p_live_dir plan) \<or> strict_prefix q (p_staging_dir plan)))"
  using execute_plan_change(1) [OF assms(1-5)]
proof (cases rule: sync_change.cases)
  case (dir rs)
  then have "strict_prefix q (p_live_dir plan)"
    using prefix_same_cases [of q "p_live_dir plan @ rs" "p_live_dir plan"] assms(6)
    by (auto simp: strict_prefix_def)
  with dir show ?thesis by simp
qed (use assms(6) in simp_all)

lemma execute_plan_dry:
  assumes "execute_plan E plan w = (r, w')" "plan_ok plan" "fs_ok (store w)" "p_dry_run plan"
    and "\<not> prefix (p_staging_dir plan) q"
  shows "nodew w' q = nodew w q \<or>
    (nodew w q = None \<and> nodew w' q = Some Dir \<and> strict_prefix q (p_staging_dir plan))"
proof -
  have "staged_only (p_staging_dir plan) w w'"
    using assms(1)
  proof (cases rule: execute_plan_stages)
    case (fail e)
    from build_staging_effect(2) [OF fail(1) assms(2,3)] show ?thesis .
  next
    case (apply_err w1 e)
    from build_staging_effect(2) [OF apply_err(1) assms(2,3)] apply_staging_dry [OF apply_err(2) assms(4)]
    show ?thesis by simp
  next
    case (success w1 res w2)
    from build_staging_effect(2) [OF success(1) assms(2,3)] apply_staging_dry [OF success(2) assms(4)] success(3)
    show ?thesis by (simp add: staged_only_def remove_all_frame)
  qed
  from staged_only_cases [OF this assms(5)] show ?thesis by blast
qed

end
