(* ===== verification/SyncProps.thy ===== *)
theory SyncProps
  imports SyncCorrect
begin

section \<open>Properties of the sync engine\<close>

text \<open>
  The theorems about \<open>copyFile\<close>, \<open>MergeExcludes\<close> and \<open>ExecutePlan\<close>, and a small repository,
  live directory and plan on which each of them is applied.
\<close>

definition sample_env :: sysenv where
  "sample_env = \<lparr>sha256hex = (\<lambda>c. c), glob_match = (\<lambda>pat p.
     if pat = ''**/.resources/**'' then Some (''.resources'' \<in> set (slash_split p))
     else if pat = ''**/.resources'' then Some (last (slash_split p) = ''.resources'')
     else if pat = ''**/.sync-staging/**'' then Some (''.sync-staging'' \<in> set (slash_split p))
     else Some False)\<rparr>"

definition sample_plan :: sync_plan where
  "sample_plan = \<lparr>p_mappings = [\<lparr>m_source = [''repo'', ''cfg''], m_destination = ''config'', m_type = ''dir'',
       m_template = False, m_apply_patches = None\<rparr>],
     p_exclude_patterns = [], p_staging_dir = [''live'', ''.sync-staging''], p_live_dir = [''live''],
     p_dry_run = False, p_apply_template = None\<rparr>"

definition sample_world :: world where
  "sample_world = \<lparr>store = [([''repo''], Dir), ([''repo'', ''cfg''], Dir), ([''repo'', ''cfg'', ''a''], File ''x'' 420),
       ([''live''], Dir), ([''live'', ''config''], Dir), ([''live'', ''config'', ''old''], File ''o'' 420),
       ([''live'', ''config'', ''.resources''], Dir), ([''live'', ''config'', ''.resources'', ''k''], File ''k'' 420)],
     oplog = [], rng = (\<lambda>n. n), rpos = 0, iobuf = 1\<rparr>"

lemma sample_env_ok: "glob_documented sample_env"
  by (auto simp: glob_documented_def sample_env_def slash_split_join)

lemma sample_plan_ok: "plan_ok sample_plan"
  by (auto simp: plan_ok_def sample_plan_def layout_def staging_name_def mapping_ok_def mapping_type_file_def
      dest_ok_def edits_ok_def name_ok_def clean_rel_def parallel_def prefix_def)

lemma sample_world_ok: "fs_ok (store sample_world)"
  by (simp add: fs_ok_def sample_world_def mwf_def mkeys_def name_ok_def node_at_def)

lemmas sample_ok = sample_plan_ok sample_env_ok sample_world_ok

lemma live_staging_name:
  assumes "layout live staging" "strict_prefix (live @ cs) staging"
  shows "cs = []"
proof -
  have "prefix (live @ cs) staging" "live @ cs \<noteq> staging" using assms(2) by (auto simp: strict_prefix_def)
  with assms(1) show ?thesis
    by (auto simp: layout_def prefix_Cons dest: append_prefixD)
qed

lemma absent_node: "absent m p \<Longrightarrow> node_at m p = None"
  by (simp add: absent_def)

subsection \<open>Copying one file\<close>

text \<open>
  C13: if the process dies after any number of the system calls of \<open>copyFile\<close>, the target is
  as it was before or holds the complete source file, and nothing else was written but missing
  directories above the target and temporary files beside it.
\<close>

theorem copy_crash_atomic:
  assumes "copy_file E src dst w = (r, w')" "dst \<noteq> []" "n \<le> length (oplog w') - length (oplog w)"
  shows "copy_safe src dst w (after_calls n w w')"
  using assms by (rule copy_file_crash_atomic)

theorem copy_crash_atomic_witness:
  "copy_safe [''repo'', ''cfg'', ''a''] [''live'', ''new'', ''a''] sample_world
     (after_calls 3 sample_world
        (snd (copy_file sample_env [''repo'', ''cfg'', ''a''] [''live'', ''new'', ''a''] sample_world)))"
proof (rule copy_crash_atomic [OF surjective_pairing])
  show "3 \<le> length (oplog (snd (copy_file sample_env [''repo'', ''cfg'', ''a''] [''live'', ''new'', ''a''] sample_world))) -
      length (oplog sample_world)" by code_simp
qed simp

text \<open>
  What \<open>copyFile\<close> returns. No error and \<open>true\<close>: the target now is the source file, content
  and mode. No error and \<open>false\<close>: nothing was done, because both files already had the same size
  and digest. A link is never copied, and an error leaves the target as it was.
\<close>

theorem copy_file_spec:
  assumes "copy_file E src dst w = (r, w')" "nodew w dst \<noteq> None"
  shows "case r of
      Inl e \<Rightarrow> nodew w' dst = nodew w dst
    | Inr written \<Rightarrow> (\<exists>c m. nodew w src = Some (File c m) \<and>
        (if written then nodew w' dst = Some (File c m)
         else w' = w \<and> same_digest E (nodew w src) (nodew w dst)))"
proof (cases r)
  case (Inl e)
  have "nodew w' dst = nodew w dst"
    using copy_file_error_keeps [OF assms(1) [unfolded Inl] assms(2)] .
  with Inl show ?thesis by simp
next
  case (Inr b)
  show ?thesis
  proof (cases b)
    case True
    from assms(1) Inr True have r: "copy_file E src dst w = (Inr True, w')" by simp
    show ?thesis by (rule copy_file_True [OF r]) (simp add: Inr True)
  next
    case False
    from assms(1) Inr False have r: "copy_file E src dst w = (Inr False, w')" by simp
    from copy_file_False [OF r] same_digest_Some show ?thesis by (fastforce simp: Inr False)
  qed
qed

theorem copy_file_spec_witness:
  "nodew (snd (copy_file sample_env [''repo'', ''cfg'', ''a''] [''live'', ''config'', ''old''] sample_world))
     [''live'', ''config'', ''old''] = Some (File ''x'' 420)"
proof -
  let ?out = "copy_file sample_env [''repo'', ''cfg'', ''a''] [''live'', ''config'', ''old''] sample_world"
  have "fst ?out = Inr True" by code_simp
  then have r: "?out = (Inr True, snd ?out)" by (metis prod.collapse)
  have "nodew sample_world [''live'', ''config'', ''old''] \<noteq> None"
    "nodew sample_world [''repo'', ''cfg'', ''a''] = Some (File ''x'' 420)"
    by (simp_all add: sample_world_def node_at_def)
  with copy_file_spec [OF r] show ?thesis by simp
qed

subsection \<open>Excludes\<close>

text \<open>
  \<open>MergeExcludes\<close> is the list of the user's patterns, trimmed, and of the built-in ones,
  without blanks and with every pattern at its first occurrence only; so each pattern occurs
  once and the built-in ones are always there.
\<close>

theorem merge_excludes_spec:
  "merge_excludes us = first_occ [] (filter (\<lambda>p. p \<noteq> []) (map trim_space us) @ hardcoded_excludes) \<and>
   distinct (merge_excludes us) \<and> set hardcoded_excludes \<subseteq> set (merge_excludes us) \<and> [] \<notin> set (merge_excludes us)"
  by (auto simp: merge_excludes_eq distinct_first_occ set_first_occ hardcoded_excludes_def)

subsection \<open>ExecutePlan\<close>

text \<open>
  C11: a sync writes only into the live and the staging directory. Any other path is as before,
  whether the sync succeeds or fails, except that missing directories above those two may have
  been made.
\<close>

theorem sync_confined:
  assumes "execute_plan E plan w = (r, w')" "plan_ok plan" "glob_documented E" "fs_ok (store w)"
    and "\<not> prefix (p_staging_dir plan) q" "\<not> prefix (p_live_dir plan) q"
  shows "nodew w' q = nodew w q \<or> (nodew w q = None \<and> nodew w' q = Some Dir \<and>
     (strict_prefix q (p_live_dir plan) \<or> strict_prefix q (p_staging_dir plan)))"
  using assms by (rule execute_plan_confined)

theorem sync_confined_witness:
  "nodew (snd (execute_plan sample_env sample_plan sample_world)) [''repo'', ''cfg'', ''a''] = Some (File ''x'' 420)"
proof -
  have "nodew sample_world [''repo'', ''cfg'', ''a''] = Some (File ''x'' 420)"
    by (simp add: sample_world_def node_at_def)
  with sync_confined [OF surjective_pairing sample_ok, of "[''repo'', ''cfg'', ''a'']"]
  show ?thesis by (simp add: sample_plan_def)
qed

text \<open>
  A dry run changes nothing outside the staging directory (missing directories above it
  apart): no file of the live directory is added, rewritten or removed.
\<close>

theorem dry_run_leaves_live:
  assumes "execute_plan E plan w = (r, w')" "plan_ok plan" "fs_ok (store w)" "p_dry_run plan"
    and "\<not> prefix (p_staging_dir plan) q"
  shows "nodew w' q = nodew w q \<or>
    (nodew w q = None \<and> nodew w' q = Some Dir \<and> strict_prefix q (p_staging_dir plan))"
  using assms by (rule execute_plan_dry)

theorem dry_run_leaves_live_witness:
  "nodew (snd (execute_plan sample_env (sample_plan\<lparr>p_dry_run := True\<rparr>) sample_world)) [''live'', ''config'', ''old''] =
     Some (File ''o'' 420)"
proof -
  have "plan_ok (sample_plan\<lparr>p_dry_run := True\<rparr>)" using sample_plan_ok by (simp add: plan_ok_def)
  from dry_run_leaves_live [OF surjective_pairing this sample_world_ok, of "[''live'', ''config'', ''old'']" sample_env]
  show ?thesis by (simp add: sample_plan_def sample_world_def node_at_def)
qed

text \<open>
  C2: what lies in a \<open>.resources\<close> directory of the live directory, or is one, is never
  created, rewritten or removed by a sync.
\<close>

theorem protected_untouched:
  assumes "execute_plan E plan w = (r, w')" "plan_ok plan" "glob_documented E" "fs_ok (store w)"
    and "''.resources'' \<in> set cs" "\<not> prefix (p_staging_dir plan) (p_live_dir plan @ cs)"
  shows "nodew w' (p_live_dir plan @ cs) = nodew w (p_live_dir plan @ cs)"
proof -
  let ?X = "merge_excludes (p_exclude_patterns plan)" and ?q = "p_live_dir plan @ cs"
  note P = plan_okD [OF assms(2)]
  have above: "\<not> strict_prefix ?q (p_staging_dir plan)" using live_staging_name [OF P(3)] assms(5) by force
  obtain e w1 where b: "build_staging E plan ?X w = (e, w1)" by (rule prod.exhaust)
  note be = build_staging_effect [OF b assms(2,4)]
  show ?thesis
  proof (cases e)
    case (Some err)
    then have "w' = w1" using assms(1) b by (simp add: execute_plan_def)
    with staged_only_cases [OF be(2) assms(6)] above show ?thesis by metis
  next
    case None
    have staged: "''.resources'' \<notin> set rs" if "node_at (staged_store E plan w) (p_staging_dir plan @ rs) \<noteq> None" for rs
      using staged_content_names(2) [OF assms(3) be(3) [OF None]] that b by (simp add: staged_store_def)
    have del: "''.resources'' \<notin> set rs" if "deletable E ?X R rs" "list_all name_ok rs" for rs R
      using not_blocked_names(2) [OF assms(3) that(2)] that(1) by (cases "rs = []") (auto simp: deletable_def)
    from execute_plan_change(1) [OF assms(1-4,6)] show ?thesis
    proof (cases rule: sync_change.cases)
      case (orphan rs c m)
      have "list_all name_ok cs" using fs_ok_names [OF assms(4), of ?q] orphan by simp
      with del [of _ cs] orphan assms(5) show ?thesis by auto
    next
      case (dir rs)
      with staged [of rs] assms(5) show ?thesis by (auto simp: prefix_def)
    next
      case (rmdir rs)
      then have "''.resources'' \<in> set rs" using assms(5) by (auto simp: strict_prefix_def prefix_def)
      with del [of "compute_managed_roots (p_mappings plan) []" rs] rmdir show ?thesis by simp
    qed (use above staged assms(5) in auto)
  qed
qed

theorem protected_untouched_witness:
  "nodew (snd (execute_plan sample_env sample_plan sample_world)) [''live'', ''config'', ''.resources'', ''k''] =
     Some (File ''k'' 420)"
  using protected_untouched [OF surjective_pairing sample_ok, of "[''config'', ''.resources'', ''k'']"]
  by (simp add: sample_plan_def sample_world_def node_at_def)

text \<open>
  C12: the orphan cleanup is scoped. Whatever existed before a sync outside the staging directory
  and is gone after it was below the live directory and under the destination of a mapping; a
  file that is gone was not excluded, not protected, and absent from the staging directory.
\<close>

theorem orphans_scoped:
  assumes "execute_plan E plan w = (r, w')" "plan_ok plan" "glob_documented E" "fs_ok (store w)"
    and "\<not> prefix (p_staging_dir plan) q" "nodew w q \<noteq> None" "nodew w' q = None"
  shows "prefix (p_live_dir plan) q \<and>
     is_under_managed_root (filepath_rel (p_live_dir plan) q) (compute_managed_roots (p_mappings plan) []) \<and>
     (\<forall>c m. nodew w q = Some (File c m) \<longrightarrow>
        (\<exists>rs. q = p_live_dir plan @ rs \<and> \<not> blocked E (merge_excludes (p_exclude_patterns plan)) rs \<and>
          node_at (staged_store E plan w) (p_staging_dir plan @ rs) = None))"
  using execute_plan_change(1) [OF assms(1-5)]
proof (cases rule: sync_change.cases)
  case (orphan rs c m)
  then show ?thesis by (auto simp: filepath_rel_below deletable_def dest: absent_node)
qed (use assms(6,7) in auto)

theorem orphans_scoped_witness:
  "node_at (staged_store sample_env sample_plan sample_world) [''live'', ''.sync-staging'', ''config'', ''old''] = None"
proof -
  have n: "nodew sample_world [''live'', ''config'', ''old''] = Some (File ''o'' 420)"
    by (simp add: sample_world_def node_at_def)
  have gone: "nodew (snd (execute_plan sample_env sample_plan sample_world)) [''live'', ''config'', ''old''] = None"
    by code_simp
  from orphans_scoped [OF surjective_pairing sample_ok _ _ gone] n
  show ?thesis by (auto simp: sample_plan_def)
qed

text \<open>The two states between the phases of a successful sync: after the merge and after the orphan cleanup.\<close>

lemma successful_sync:
  fixes E plan w
  defines "st \<equiv> p_staging_dir plan" and "live \<equiv> p_live_dir plan"
    and "X \<equiv> merge_excludes (p_exclude_patterns plan)" and "R \<equiv> compute_managed_roots (p_mappings plan) []"
  assumes run: "execute_plan E plan w = (Inr res, w')" and ok: "plan_ok plan" "glob_documented E" "fs_ok (store w)"
    and live: "\<not> p_dry_run plan"
  obtains w2 w3 where
    "\<And>rs c m. node_at (staged_store E plan w) (st @ rs) = Some (File c m) \<Longrightarrow>
       same_digest E (Some (File c m)) (nodew w2 (live @ rs)) \<and> \<not> prefix st (live @ rs)"
    "\<And>rs. absent (store w2) (st @ rs) \<longleftrightarrow> absent (staged_store E plan w) (st @ rs)"
    "clean_effect E st live R X w2 w3"
    "\<And>rs c m. rs \<noteq> [] \<Longrightarrow> nodew w3 (live @ rs) = Some (File c m) \<Longrightarrow> deletable E X R rs \<Longrightarrow>
       (\<And>a. a \<noteq> [] \<Longrightarrow> strict_prefix a rs \<Longrightarrow> \<not> blocked E X a) \<Longrightarrow> \<not> absent (store w2) (st @ rs)"
    "\<And>q. \<not> prefix st q \<Longrightarrow> nodew w' q = nodew w3 q"
  using run
proof (cases rule: execute_plan_stages)
  case (success w1 r1 w3)
  note P = plan_okD [OF ok(1), folded st_def live_def]
  note b = build_staging_effect [OF success(1) ok(1,3), folded st_def X_def]
  have sc: "staged_content E X st (store w1)" by (rule b(3)) simp
  have dir: "nodew w1 st = Some Dir" using sc by (simp add: staged_content_def)
  have s1: "staged_store E plan w = store w1" using success(1) by (simp add: staged_store_def)
  from success(2) live obtain cnt w2 d where m0: "merge_staging_to_live E st live w1 = (None, (cnt, w2))"
    and c0: "clean_orphans E st live R X w2 = (None, (d, w3))"
    unfolding st_def live_def R_def X_def by (cases rule: apply_staging_live) (auto split: option.splits)
  note m = merge_staging_effect [OF m0 b(1) P(1-3) staged_content_tree [OF ok(2) sc [unfolded X_def]] dir]
  have dir2: "nodew w2 st = Some Dir" using m(3) [of st] dir by simp
  note c = clean_orphans_effect [OF c0 [unfolded X_def] ok(2) m(2) P(1-3) dir2, folded X_def]
  show thesis
  proof (rule that [of w2 w3])
    fix rs c m
    assume "node_at (staged_store E plan w) (st @ rs) = Some (File c m)"
    then have f: "nodew w1 (st @ rs) = Some (File c m)" by (simp add: s1)
    with m(4) [OF refl f] layout_apart [OF P(3) staged_content_names(1) [OF ok(2) sc [unfolded X_def]], of rs "live @ rs"]
    show "same_digest E (Some (File c m)) (nodew w2 (live @ rs)) \<and> \<not> prefix st (live @ rs)" by auto
  next
    show "absent (store w2) (st @ rs) \<longleftrightarrow> absent (staged_store E plan w) (st @ rs)" for rs
      unfolding s1 by (rule absent_cong [OF m(2) b(1) dir2 dir]) (rule m(3))
  next
    show "\<not> prefix st q \<Longrightarrow> nodew w' q = nodew w3 q" for q
      using success(3) by (simp add: remove_all_frame st_def)
  qed (use c(1) c(4) in blast)+
qed simp_all

text \<open>
  C1: after a successful sync the live directory mirrors what was staged: every staged file is in
  the live directory with the same size and digest, and every file that remains under a managed
  root (and neither it nor a directory above it is excluded or protected) is a staged one.
\<close>

theorem live_mirrors_staging:
  assumes run: "execute_plan E plan w = (Inr res, w')" and ok: "plan_ok plan" "glob_documented E" "fs_ok (store w)"
    and "\<not> p_dry_run plan"
  shows "(\<forall>rs c m. node_at (staged_store E plan w) (p_staging_dir plan @ rs) = Some (File c m) \<longrightarrow>
        same_digest E (Some (File c m)) (nodew w' (p_live_dir plan @ rs))) \<and>
     (\<forall>rs c m. rs \<noteq> [] \<longrightarrow> nodew w' (p_live_dir plan @ rs) = Some (File c m) \<longrightarrow>
        \<not> prefix (p_staging_dir plan) (p_live_dir plan @ rs) \<longrightarrow>
        is_under_managed_root (slash_join rs) (compute_managed_roots (p_mappings plan) []) \<longrightarrow>
        (\<forall>a. a \<noteq> [] \<longrightarrow> prefix a rs \<longrightarrow> \<not> blocked E (merge_excludes (p_exclude_patterns plan)) a) \<longrightarrow>
        \<not> absent (staged_store E plan w) (p_staging_dir plan @ rs))"
proof -
  let ?st = "p_staging_dir plan" and ?live = "p_live_dir plan"
  let ?X = "merge_excludes (p_exclude_patterns plan)" and ?R = "compute_managed_roots (p_mappings plan) []"
  obtain w2 w3 where
    staged: "\<And>rs c m. node_at (staged_store E plan w) (?st @ rs) = Some (File c m) \<Longrightarrow>
       same_digest E (Some (File c m)) (nodew w2 (?live @ rs)) \<and> \<not> prefix ?st (?live @ rs)" and
    ab: "\<And>rs. absent (store w2) (?st @ rs) \<longleftrightarrow> absent (staged_store E plan w) (?st @ rs)" and
    clean: "clean_effect E ?st ?live ?R ?X w2 w3" and
    left: "\<And>rs c m. rs \<noteq> [] \<Longrightarrow> nodew w3 (?live @ rs) = Some (File c m) \<Longrightarrow> deletable E ?X ?R rs \<Longrightarrow>
       (\<And>a. a \<noteq> [] \<Longrightarrow> strict_prefix a rs \<Longrightarrow> \<not> blocked E ?X a) \<Longrightarrow> \<not> absent (store w2) (?st @ rs)" and
    fin: "\<And>q. \<not> prefix ?st q \<Longrightarrow> nodew w' q = nodew w3 q"
    using successful_sync [OF assms] by blast
  show ?thesis
  proof (intro conjI allI impI)
    fix rs c m
    assume f: "node_at (staged_store E plan w) (?st @ rs) = Some (File c m)"
    then obtain c' m' where f2: "nodew w2 (?live @ rs) = Some (File c' m')" using staged same_digest_Some by blast
    have "nodew w3 (?live @ rs) = nodew w2 (?live @ rs)"
      using clean
    proof (cases rule: clean_effect_cases [where q = "?live @ rs"])
      case (orphan rs' c'' m'')
      with ab f have False by (auto simp: absent_def)
      then show ?thesis ..
    qed (use f2 in simp_all)
    with staged [OF f] fin show "same_digest E (Some (File c m)) (nodew w' (?live @ rs))" by simp
  next
    fix rs c m
    assume a: "rs \<noteq> []" "nodew w' (?live @ rs) = Some (File c m)" "\<not> prefix ?st (?live @ rs)"
      "is_under_managed_root (slash_join rs) ?R" "\<forall>a. a \<noteq> [] \<longrightarrow> prefix a rs \<longrightarrow> \<not> blocked E ?X a"
    have "\<not> absent (store w2) (?st @ rs)"
      by (rule left) (use a fin in \<open>auto simp: deletable_def strict_prefix_def\<close>)
    then show "\<not> absent (staged_store E plan w) (?st @ rs)" by (simp add: ab)
  qed
qed

theorem live_mirrors_staging_witness:
  "same_digest sample_env (Some (File ''x'' 420))
     (nodew (snd (execute_plan sample_env sample_plan sample_world)) [''live'', ''config'', ''a''])"
proof -
  let ?out = "execute_plan sample_env sample_plan sample_world"
  have "\<exists>r. fst ?out = Inr r"
  proof -
    have "(case fst ?out of Inr _ \<Rightarrow> True | Inl _ \<Rightarrow> False)" by code_simp
    then show ?thesis by (auto split: sum.splits)
  qed
  then obtain r where r: "?out = (Inr r, snd ?out)" by (metis prod.collapse)
  have nd: "\<not> p_dry_run sample_plan" by (simp add: sample_plan_def)
  have st: "node_at (staged_store sample_env sample_plan sample_world) (p_staging_dir sample_plan @ [''config'', ''a'']) =
      Some (File ''x'' 420)" by code_simp
  from live_mirrors_staging [OF r sample_ok nd] st show ?thesis by (auto simp: sample_plan_def)
qed

end
