(* ===== verification/AgentConfig.thy ===== *)
theory AgentConfig
  imports SyncPlan
begin

section \<open>internal/agent/config.go, pkg/types: the agent's configuration\<close>

text \<open>
  \<open>LoadConfig\<close> over an environment (a function from variable names to values, empty when unset),
  the accessors of \<open>Config\<close>, and the records the agent exchanges with the controller through
  ConfigMaps.
\<close>

record agent_config =
  c_pod_name :: string
  c_pod_namespace :: string
  c_gateway_name :: string
  c_cr_name :: string
  c_cr_namespace :: string
  c_repo_path :: string
  c_data_path :: string
  c_gateway_port :: string
  c_gateway_tls :: bool
  c_api_key_file :: string
  c_sync_period :: int
  c_profile_name :: string

definition or_default :: "string \<Rightarrow> string \<Rightarrow> string" where
  "or_default s d = (if s = [] then d else s)"

definition read_env :: "(string \<Rightarrow> string) \<Rightarrow> agent_config" where
  "read_env getenv = \<lparr>c_pod_name = getenv ''POD_NAME'', c_pod_namespace = getenv ''POD_NAMESPACE'',
     c_gateway_name = getenv ''GATEWAY_NAME'', c_cr_name = getenv ''CR_NAME'',
     c_cr_namespace = getenv ''CR_NAMESPACE'', c_repo_path = getenv ''REPO_PATH'',
     c_data_path = getenv ''DATA_PATH'', c_gateway_port = getenv ''GATEWAY_PORT'',
     c_gateway_tls = False, c_api_key_file = getenv ''API_KEY_FILE'', c_sync_period = 0,
     c_profile_name = getenv ''PROFILE''\<rparr>"

definition config_defaults :: "agent_config \<Rightarrow> agent_config" where
  "config_defaults cfg = cfg\<lparr>
     c_repo_path := or_default (c_repo_path cfg) ''/repo'',
     c_data_path := or_default (c_data_path cfg) ''/ignition-data'',
     c_gateway_port := or_default (c_gateway_port cfg) ''8088'',
     c_cr_namespace := or_default (c_cr_namespace cfg) (c_pod_namespace cfg),
     c_gateway_name := or_default (c_gateway_name cfg) (c_pod_name cfg)\<rparr>"

definition tls_of_env :: "string \<Rightarrow> bool" where
  "tls_of_env s = (case parse_bool s of Some b \<Rightarrow> b | None \<Rightarrow> False)"

definition sync_period_of_env :: "string \<Rightarrow> int" where
  "sync_period_of_env sp =
     (if sp \<noteq> [] then (case atoi sp of Some v \<Rightarrow> if v > 0 then v else 30 | None \<Rightarrow> 30) else 30)"

definition load_config :: "(string \<Rightarrow> string) \<Rightarrow> agent_config res" where
  "load_config getenv =
     (let cfg = (config_defaults (read_env getenv))\<lparr>
            c_gateway_tls := tls_of_env (getenv ''GATEWAY_TLS''),
            c_sync_period := sync_period_of_env (getenv ''SYNC_PERIOD'')\<rparr>
      in if c_cr_name cfg = [] then Inl (Errorf ''CR_NAME env var is required'')
         else if c_pod_namespace cfg = [] then Inl (Errorf ''POD_NAMESPACE env var is required'')
         else Inr cfg)"

text \<open>The paths of the configuration are absolute; what is joined below them starts from their components.\<close>

definition abs_path :: "string \<Rightarrow> apath" where
  "abs_path s = join_abs [] s"

definition api_key :: "agent_config \<Rightarrow> fs \<Rightarrow> string" where
  "api_key c m =
     (if c_api_key_file c = [] then []
      else (case read_file m (abs_path (c_api_key_file c)) of
          Inl _ \<Rightarrow> []
        | Inr data \<Rightarrow> trim_space data))"

definition gateway_scheme :: "agent_config \<Rightarrow> string" where
  "gateway_scheme c = (if c_gateway_tls c then ''https'' else ''http'')"

definition gateway_host :: "agent_config \<Rightarrow> string" where
  "gateway_host c = ''localhost:'' @ c_gateway_port c"

subsection \<open>Records shared through ConfigMaps\<close>

record metadata =
  md_commit :: string
  md_ref :: string
  md_git_url :: string
  md_paused :: string
  md_profiles :: string
  md_auth_type :: string

record resolved_patch =
  rp_file :: string
  rp_set :: "(string, string) gomap"

record profile_mapping =
  pm_source :: string
  pm_destination :: string
  pm_type :: string
  pm_required :: bool
  pm_template :: bool
  pm_patches :: "resolved_patch list"

record resolved_profile =
  rp_mappings :: "profile_mapping list"
  rp_exclude_patterns :: "string list"
  rp_vars :: "(string, string) gomap"
  rp_sync_period :: int
  rp_dry_run :: bool
  rp_designer_policy :: string
  rp_paused :: bool

record gateway_status =
  gs_sync_status :: string
  gs_synced_commit :: string
  gs_synced_ref :: string
  gs_last_sync_time :: string
  gs_last_sync_duration :: string
  gs_agent_version :: string
  gs_last_scan_result :: string
  gs_files_changed :: int
  gs_projects_synced :: "string list"
  gs_error_message :: string
  gs_profile_name :: string
  gs_dry_run :: bool
  gs_diff_added :: int
  gs_diff_modified :: int
  gs_diff_deleted :: int
  gs_designer_blocked :: bool

definition sync_status_pending :: string where "sync_status_pending = ''Pending''"
definition sync_status_synced :: string where "sync_status_synced = ''Synced''"
definition sync_status_error :: string where "sync_status_error = ''Error''"

definition empty_status :: gateway_status where
  "empty_status = \<lparr>gs_sync_status = [], gs_synced_commit = [], gs_synced_ref = [], gs_last_sync_time = [],
     gs_last_sync_duration = [], gs_agent_version = [], gs_last_scan_result = [], gs_files_changed = 0,
     gs_projects_synced = [], gs_error_message = [], gs_profile_name = [], gs_dry_run = False,
     gs_diff_added = 0, gs_diff_modified = 0, gs_diff_deleted = 0, gs_designer_blocked = False\<rparr>"

subsection \<open>What a loaded configuration guarantees\<close>

definition config_ok :: "agent_config \<Rightarrow> bool" where
  "config_ok c \<longleftrightarrow> c_cr_name c \<noteq> [] \<and> c_pod_namespace c \<noteq> [] \<and> c_cr_namespace c \<noteq> [] \<and>
     c_repo_path c \<noteq> [] \<and> c_data_path c \<noteq> [] \<and> c_gateway_port c \<noteq> [] \<and> c_sync_period c > 0"

definition label_cr_name :: string where
  "label_cr_name = ''stoker.io/cr-name''"

lemma sync_period_positive: "sync_period_of_env sp > 0"
  by (simp add: sync_period_of_env_def split: option.splits)

lemma or_default_simps [simp]: "or_default s d = [] \<longleftrightarrow> s = [] \<and> d = []"
  by (simp add: or_default_def)

lemma load_config_ok: "load_config getenv = Inr c \<Longrightarrow> config_ok c"
  by (auto simp: load_config_def config_ok_def config_defaults_def read_env_def Let_def
      sync_period_positive split: if_splits)

lemma load_config_succeeds_iff:
  "(\<exists>c. load_config getenv = Inr c) \<longleftrightarrow> getenv ''CR_NAME'' \<noteq> [] \<and> getenv ''POD_NAMESPACE'' \<noteq> []"
  by (simp add: load_config_def config_defaults_def read_env_def Let_def)

end
