(* ===== verification/AgentProfile.thy ===== *)
theory AgentProfile
  imports AgentConfig SyncCorrect
begin

section \<open>internal/agent/profile.go: from a resolved profile to a sync plan\<close>

text \<open>
  Template context, path validation, and \<open>buildSyncPlan\<close>. The parser and the interpreter of
  \<open>text/template\<close>, \<open>encoding/json\<close> and \<open>sjson\<close> are code outside the repository: fields of
  \<open>content_env\<close>. The absolute paths \<open>repoPath\<close> and \<open>liveDir\<close> are component lists. The
  iteration over a patch's \<open>Set\<close> map is the order of the association list.
\<close>

record template_context =
  t_gateway_name :: string
  t_pod_name :: string
  t_pod_ordinal :: int
  t_namespace :: string
  t_ref :: string
  t_commit :: string
  t_cr_name :: string
  t_labels :: "(string, string) gomap"
  t_vars :: "(string, string) gomap"

record 'j content_env =
  tmpl_parse :: "string \<Rightarrow> goerror option"
  tmpl_execute :: "string \<Rightarrow> template_context \<Rightarrow> string res"
  json_valid :: "string \<Rightarrow> bool"
  json_decode :: "string \<Rightarrow> 'j option"
  json_string :: "string \<Rightarrow> 'j"
  sjson_set :: "string \<Rightarrow> string \<Rightarrow> 'j \<Rightarrow> string res"

definition pod_index_label :: string where
  "pod_index_label = ''apps.kubernetes.io/pod-index''"

definition pod_name_ordinal :: "string \<Rightarrow> int" where
  "pod_name_ordinal podName =
     (case atoi (last (split_on CHR ''-'' podName)) of Some n \<Rightarrow> n | None \<Rightarrow> 0)"

definition pod_ordinal :: "string \<Rightarrow> (string, string) gomap \<Rightarrow> int" where
  "pod_ordinal podName labels =
     (case mget labels pod_index_label of
        Some idxStr \<Rightarrow> (case atoi idxStr of Some n \<Rightarrow> n | None \<Rightarrow> pod_name_ordinal podName)
      | None \<Rightarrow> pod_name_ordinal podName)"

definition build_template_context :: "agent_config \<Rightarrow> metadata \<Rightarrow> (string, string) gomap \<Rightarrow> (string, string) gomap \<Rightarrow> template_context" where
  "build_template_context cfg meta profileVars labels =
     (let vars = mcopy [] profileVars; podLabels = mcopy [] labels in
      \<lparr>t_gateway_name = c_gateway_name cfg, t_pod_name = c_pod_name cfg,
       t_pod_ordinal = pod_ordinal (c_pod_name cfg) labels, t_namespace = c_cr_namespace cfg,
       t_ref = md_ref meta, t_commit = md_commit meta, t_cr_name = c_cr_name cfg,
       t_labels = podLabels, t_vars = vars\<rparr>)"

definition template_syntax :: string where
  "template_syntax = ''{{''"

definition resolve_template :: "'j content_env \<Rightarrow> string \<Rightarrow> template_context \<Rightarrow> string res" where
  "resolve_template T tmpl ctx =
     (if \<not> contains_str tmpl template_syntax then Inr tmpl
      else (case tmpl_parse T tmpl of
          Some err \<Rightarrow> Inl (Wrapf (''parsing template '' @ quote tmpl) err)
        | None \<Rightarrow> (case tmpl_execute T tmpl ctx of
              Inl err \<Rightarrow> Inl (Wrapf (''executing template '' @ quote tmpl) err)
            | Inr s \<Rightarrow> Inr s)))"

definition validate_resolved_path :: "string \<Rightarrow> string \<Rightarrow> goerror option" where
  "validate_resolved_path path label =
     (if is_abs path then Some (Errorf (label @ '': absolute path not allowed: '' @ path))
      else (let cleaned = filepath_clean path in
        if cleaned = ''..'' \<or> has_prefix cleaned ''../'' \<or> contains_str cleaned ''/../''
        then Some (Errorf (label @ '': path traversal not allowed: '' @ path))
        else None))"

definition infer_mapping_type :: "fs \<Rightarrow> apath \<Rightarrow> string \<Rightarrow> string res" where
  "infer_mapping_type m absSrc hintType =
     (case stat m absSrc of
        Inl _ \<Rightarrow> Inr ''dir''
      | Inr info \<Rightarrow>
          (let actual = (if kind_of info = KDir then ''dir'' else mapping_type_file) in
           if hintType \<noteq> [] \<and> hintType \<noteq> actual
           then Inl (Errorf (''type mismatch: spec says '' @ quote hintType @ '' but '' @ abs_string absSrc @
                  '' is a '' @ actual))
           else Inr actual))"

subsection \<open>Editing staged files\<close>

definition build_apply_template_func :: "'j content_env \<Rightarrow> template_context \<Rightarrow> file_edit" where
  "build_apply_template_func T ctx stagedPath w =
     (case read_file (store w) stagedPath of
        Inl err \<Rightarrow> (Some (Wrapf ''reading file for templating'' err), w)
      | Inr content \<Rightarrow>
          if CHR 0x00 \<in> set content
          then (Some (Errorf (''template=true on binary file is not supported: '' @ abs_string stagedPath)), w)
          else if \<not> contains_str content template_syntax then (None, w)
          else (case resolve_template T content ctx of
              Inl err \<Rightarrow> (Some (Wrapf (''resolving template in '' @ abs_string stagedPath) err), w)
            | Inr resolved \<Rightarrow>
                (case write_file stagedPath resolved 420 w of
                   (Some err, w1) \<Rightarrow> (Some (Wrapf (''writing templated file '' @ abs_string stagedPath) err), w1)
                 | (None, w1) \<Rightarrow> (None, w1))))"

definition apply_json_patch :: "'j content_env \<Rightarrow> string \<Rightarrow> string \<Rightarrow> string \<Rightarrow> string res" where
  "apply_json_patch T content path rawValue =
     (if \<not> json_valid T content then Inl (Errorf ''file is not valid JSON'')
      else (let typedValue = (case json_decode T rawValue of Some v \<Rightarrow> v | None \<Rightarrow> json_string T rawValue) in
        case sjson_set T content path typedValue of
          Inl err \<Rightarrow> Inl (Wrapf (''sjson.Set '' @ quote path) err)
        | Inr result \<Rightarrow> Inr result))"

fun patch_values :: "'j content_env \<Rightarrow> template_context \<Rightarrow> string \<Rightarrow> (string, string) gomap \<Rightarrow> string \<Rightarrow> string res" where
  "patch_values T ctx rel [] result = Inr result"
| "patch_values T ctx rel ((sjsonPath, rawVal) # ps) result =
     (case resolve_template T rawVal ctx of
        Inl err \<Rightarrow> Inl (Wrapf (''resolving patch value for path '' @ quote sjsonPath) err)
      | Inr resolved \<Rightarrow>
          (case apply_json_patch T result sjsonPath resolved of
             Inl err \<Rightarrow> Inl (Wrapf (''applying patch to '' @ rel @ '' at '' @ quote sjsonPath) err)
           | Inr result' \<Rightarrow> patch_values T ctx rel ps result'))"

fun patch_loop :: "sysenv \<Rightarrow> 'j content_env \<Rightarrow> template_context \<Rightarrow> string \<Rightarrow> string \<Rightarrow> resolved_patch list \<Rightarrow> file_edit" where
  "patch_loop E T ctx dest rel [] stagedPath w = (None, w)"
| "patch_loop E T ctx dest rel (p # ps) stagedPath w =
     (let pattern = (if rp_file p = [] then filepath_base dest else rp_file p) in
      case glob_match E pattern rel of
        None \<Rightarrow> (Some (Wrapf (''invalid patch file pattern '' @ quote pattern)
                   (Errorf ''syntax error in pattern'')), w)
      | Some False \<Rightarrow> patch_loop E T ctx dest rel ps stagedPath w
      | Some True \<Rightarrow>
          (case read_file (store w) stagedPath of
             Inl err \<Rightarrow> (Some (Wrapf ''reading file for patch'' err), w)
           | Inr raw \<Rightarrow>
               (case patch_values T ctx rel (rp_set p) raw of
                  Inl err \<Rightarrow> (Some err, w)
                | Inr result \<Rightarrow>
                    (case write_file stagedPath result 420 w of
                       (Some err, w1) \<Rightarrow> (Some (Wrapf (''writing patched file '' @ rel) err), w1)
                     | (None, w1) \<Rightarrow> patch_loop E T ctx dest rel ps stagedPath w1))))"

definition build_apply_patches_func :: "sysenv \<Rightarrow> 'j content_env \<Rightarrow> resolved_patch list \<Rightarrow> template_context \<Rightarrow> apath \<Rightarrow> string \<Rightarrow> bool \<Rightarrow> file_edit option" where
  "build_apply_patches_func E T patches ctx stagingDir mappingDest isFileMapping =
     (if patches = [] then None
      else (let mappingRoot = (if isFileMapping then join_abs stagingDir (filepath_dir mappingDest)
                               else join_abs stagingDir mappingDest)
        in Some (\<lambda>stagedPath w.
             patch_loop E T ctx mappingDest (filepath_rel mappingRoot stagedPath) patches stagedPath w)))"

subsection \<open>The plan\<close>

definition resolve_mapping :: "sysenv \<Rightarrow> 'j content_env \<Rightarrow> fs \<Rightarrow> template_context \<Rightarrow> apath \<Rightarrow> apath \<Rightarrow> nat \<Rightarrow> profile_mapping \<Rightarrow> resolved_mapping res" where
  "resolve_mapping E T fsys ctx repoPath stagingDir i m =
     (let label = ''mapping['' @ itoa (int i) @ '']'' in
      case resolve_template T (pm_source m) ctx of
        Inl err \<Rightarrow> Inl (Wrapf (label @ ''.source'') err)
      | Inr src \<Rightarrow>
      (case resolve_template T (pm_destination m) ctx of
        Inl err \<Rightarrow> Inl (Wrapf (label @ ''.destination'') err)
      | Inr dst \<Rightarrow>
      (case validate_resolved_path src (label @ ''.source'') of
        Some err \<Rightarrow> Inl err
      | None \<Rightarrow>
      (case validate_resolved_path dst (label @ ''.destination'') of
        Some err \<Rightarrow> Inl err
      | None \<Rightarrow>
      (let absSrc = join_abs repoPath src in
       if pm_required m \<and> (case stat fsys absSrc of Inl e \<Rightarrow> is_not_exist e | Inr _ \<Rightarrow> False)
       then Inl (Errorf (label @ '': required source does not exist: '' @ src))
       else (case infer_mapping_type fsys absSrc (pm_type m) of
          Inl err \<Rightarrow> Inl (Wrapf label err)
        | Inr typ \<Rightarrow> Inr \<lparr>m_source = absSrc, m_destination = dst, m_type = typ, m_template = pm_template m,
              m_apply_patches = build_apply_patches_func E T (pm_patches m) ctx stagingDir dst
                (typ = mapping_type_file)\<rparr>))))))"

fun resolve_mappings :: "sysenv \<Rightarrow> 'j content_env \<Rightarrow> fs \<Rightarrow> template_context \<Rightarrow> apath \<Rightarrow> apath \<Rightarrow> nat \<Rightarrow> profile_mapping list \<Rightarrow> resolved_mapping list res" where
  "resolve_mappings E T fsys ctx repoPath stagingDir i [] = Inr []"
| "resolve_mappings E T fsys ctx repoPath stagingDir i (m # ms) =
     (case resolve_mapping E T fsys ctx repoPath stagingDir i m of
        Inl err \<Rightarrow> Inl err
      | Inr r \<Rightarrow> (case resolve_mappings E T fsys ctx repoPath stagingDir (Suc i) ms of
            Inl err \<Rightarrow> Inl err
          | Inr rs \<Rightarrow> Inr (r # rs)))"

definition build_sync_plan :: "sysenv \<Rightarrow> 'j content_env \<Rightarrow> fs \<Rightarrow> resolved_profile \<Rightarrow> template_context \<Rightarrow> apath \<Rightarrow> apath \<Rightarrow> sync_plan res" where
  "build_sync_plan E T fsys profile ctx repoPath liveDir =
     (let stagingDir = join_abs liveDir ''.sync-staging'' in
      case resolve_mappings E T fsys ctx repoPath stagingDir 0 (rp_mappings profile) of
        Inl err \<Rightarrow> Inl err
      | Inr ms \<Rightarrow> Inr \<lparr>p_mappings = ms, p_exclude_patterns = rp_exclude_patterns profile,
            p_staging_dir = stagingDir, p_live_dir = liveDir, p_dry_run = rp_dry_run profile,
            p_apply_template = Some (build_apply_template_func T ctx)\<rparr>)"

subsection \<open>Validated paths stay inside\<close>

lemma slash_join_dotdot:
  assumes "list_all name_ok cs"
  shows "slash_join cs \<noteq> ''..''" "\<not> has_prefix (slash_join cs) ''../''" "\<not> contains_str (slash_join cs) ''/../''"
proof -
  have no: "slash_split (slash_join cs) = cs \<or> cs = []" using slash_split_join assms by blast
  show "slash_join cs \<noteq> ''..''" using no assms by (auto simp: name_ok_def)
  show "\<not> has_prefix (slash_join cs) ''../''"
  proof
    assume "has_prefix (slash_join cs) ''../''"
    then obtain r where r: "slash_join cs = ''..'' @ ''/'' @ r" by (auto simp: has_prefix_iff)
    then have "cs \<noteq> []" by auto
    with no r slash_split_app [of "''..''" r] have "cs = ''..'' # slash_split r" by (simp add: split_on_no_sep)
    with assms show False by simp
  qed
  show "\<not> contains_str (slash_join cs) ''/../''"
  proof
    assume "contains_str (slash_join cs) ''/../''"
    then obtain a b where ab: "slash_join cs = a @ ''/'' @ ''..'' @ ''/'' @ b" by (auto simp: contains_str_iff)
    then have "cs \<noteq> []" by auto
    with no ab slash_split_app [of a "''..'' @ ''/'' @ b"] slash_split_app [of "''..''" b]
    have "cs = slash_split a @ [''..''] @ slash_split b" by (simp add: split_on_no_sep)
    with assms show False by simp
  qed
qed

lemma validate_resolved_path_iff: "validate_resolved_path path label = None \<longleftrightarrow> dest_ok path"
proof (cases "is_abs path")
  case False
  show ?thesis
  proof (cases "list_all name_ok (clean_rel path)")
    case True
    have "filepath_clean path = ''.'' \<or> filepath_clean path = slash_join (clean_rel path)"
      using False by (simp add: filepath_clean_def)
    moreover have "\<not> has_prefix ''.'' ''../''" "\<not> contains_str ''.'' ''/../''"
      by (auto simp: has_prefix_iff contains_str_iff Cons_eq_append_conv)
    ultimately show ?thesis
      using False True slash_join_dotdot [OF True] by (auto simp: validate_resolved_path_def dest_ok_def Let_def)
  next
    case bad: False
    with clean_rel_names [of path] obtain r where r: "clean_rel path = ''..'' # r"
      by (cases "clean_rel path") auto
    then have "filepath_clean path = slash_join (''..'' # r)" using False by (simp add: filepath_clean_def)
    then have "filepath_clean path = ''..'' \<or> has_prefix (filepath_clean path) ''../''"
      by (cases r) (auto simp: has_prefix_iff)
    with bad show ?thesis by (auto simp: validate_resolved_path_def dest_ok_def Let_def)
  qed
qed (simp add: validate_resolved_path_def dest_ok_def)

subsection \<open>The edits rewrite only the staged file\<close>

lemma write_file_File:
  assumes "nodew w p = Some (File c m)"
  shows "write_file p d perm w = (None, sys (SetNode p (File d m)) (sys (SetNode p (File [] m)) w))"
  using assms follow_plain [OF max_links_pos assms, of "''open''"] by (simp add: write_file_def)

lemma rewrite_effect:
  assumes "nodew w p = Some (File c m)" "write_file p d perm w = (e, w')"
  shows "e = None" "nodew w' p = Some (File d m)" "\<And>q. q \<noteq> p \<Longrightarrow> nodew w' q = nodew w q"
    "mwf (store w) \<Longrightarrow> mwf (store w')"
proof -
  have "p \<noteq> []" using assms(1) by auto
  with assms(2) write_file_File [OF assms(1)]
  show "e = None" "nodew w' p = Some (File d m)" "\<And>q. q \<noteq> p \<Longrightarrow> nodew w' q = nodew w q"
    "mwf (store w) \<Longrightarrow> mwf (store w')"
    by (auto simp: node_at_mput gm.wf_put)
qed

lemma edit_okI:
  assumes "\<And>p w c m e w'. f p w = (e, w') \<Longrightarrow> nodew w p = Some (File c m) \<Longrightarrow>
     (\<exists>c m. nodew w' p = Some (File c m)) \<and> (\<forall>q. q \<noteq> p \<longrightarrow> nodew w' q = nodew w q) \<and>
     (mwf (store w) \<longrightarrow> mwf (store w'))"
  shows "edit_ok f"
  using assms unfolding edit_ok_def by blast

lemma build_apply_template_ok: "edit_ok (build_apply_template_func T ctx)"
proof (rule edit_okI)
  fix p w c m e w'
  assume run: "build_apply_template_func T ctx p w = (e, w')" and f: "nodew w p = Some (File c m)"
  have "w' = w \<or> (\<exists>d e2. write_file p d 420 w = (e2, w'))"
    using run read_file_File [OF f]
    by (auto simp: build_apply_template_func_def split: if_splits sum.splits option.splits prod.splits)
  then show "(\<exists>c m. nodew w' p = Some (File c m)) \<and> (\<forall>q. q \<noteq> p \<longrightarrow> nodew w' q = nodew w q) \<and>
     (mwf (store w) \<longrightarrow> mwf (store w'))"
    using f rewrite_effect [OF f] by (elim disjE exE) blast+
qed

lemma patch_loop_effect:
  "patch_loop E T ctx dest rel ps p w = (e, w') \<Longrightarrow> nodew w p = Some (File c m) \<Longrightarrow>
   (\<exists>c m. nodew w' p = Some (File c m)) \<and> (\<forall>q. q \<noteq> p \<longrightarrow> nodew w' q = nodew w q) \<and>
     (mwf (store w) \<longrightarrow> mwf (store w'))"
proof (induction ps arbitrary: w c m)
  case (Cons x ps)
  note f = Cons.prems(2)
  have "w' = w \<or> patch_loop E T ctx dest rel ps p w = (e, w') \<or>
      (\<exists>d w1. write_file p d 420 w = (None, w1) \<and> patch_loop E T ctx dest rel ps p w1 = (e, w'))"
    using Cons.prems(1) read_file_File [OF f] write_file_File [OF f]
    by (auto simp: Let_def split: option.splits bool.splits sum.splits prod.splits)
  then show ?case
  proof (elim disjE exE conjE)
    fix d w1 assume wr: "write_file p d 420 w = (None, w1)" and r: "patch_loop E T ctx dest rel ps p w1 = (e, w')"
    note re = rewrite_effect [OF f wr]
    from Cons.IH [OF r re(2)] re(3,4) show ?thesis by simp
  qed (use f Cons.IH in blast)+
qed auto

lemma build_apply_patches_ok:
  "build_apply_patches_func E T patches ctx staging dest isFile = Some f \<Longrightarrow> edit_ok f"
  by (rule edit_okI) (auto simp: build_apply_patches_func_def Let_def split: if_splits dest: patch_loop_effect)

subsection \<open>A built plan is well formed\<close>

text \<open>A file mapping's resolved destination is written in clean form.\<close>

definition clean_dests :: "sync_plan \<Rightarrow> bool" where
  "clean_dests plan \<longleftrightarrow> (\<forall>m \<in> set (p_mappings plan). m_type m = mapping_type_file \<longrightarrow>
     m_destination m = slash_join (clean_rel (m_destination m)) \<and> clean_rel (m_destination m) \<noteq> [])"

lemma resolve_mapping_ok:
  assumes "resolve_mapping E T fsys ctx repo staging i m = Inr r"
  obtains src where "m_source r = join_abs repo src" "dest_ok src" "dest_ok (m_destination r)"
    "m_type r = ''dir'' \<or> m_type r = mapping_type_file" "\<And>f. m_apply_patches r = Some f \<Longrightarrow> edit_ok f"
proof -
  obtain src dst ty where s: "validate_resolved_path src (''mapping['' @ itoa (int i) @ '']'' @ ''.source'') = None"
    "validate_resolved_path dst (''mapping['' @ itoa (int i) @ '']'' @ ''.destination'') = None"
    "infer_mapping_type fsys (join_abs repo src) (pm_type m) = Inr ty"
    "r = \<lparr>m_source = join_abs repo src, m_destination = dst, m_type = ty, m_template = pm_template m,
       m_apply_patches = build_apply_patches_func E T (pm_patches m) ctx staging dst (ty = mapping_type_file)\<rparr>"
    using assms by (auto simp: resolve_mapping_def Let_def split: sum.splits option.splits if_splits)
  have "ty = ''dir'' \<or> ty = mapping_type_file"
    using s(3) by (auto simp: infer_mapping_type_def Let_def split: sum.splits if_splits)
  with s that [of src] show ?thesis
    by (auto simp: validate_resolved_path_iff intro: build_apply_patches_ok)
qed

lemma resolve_mappings_all:
  "resolve_mappings E T fsys ctx repo staging i ms = Inr rs \<Longrightarrow> r \<in> set rs \<Longrightarrow>
   \<exists>i m. resolve_mapping E T fsys ctx repo staging i m = Inr r"
proof (induction ms arbitrary: i rs)
  case (Cons m ms)
  then show ?case by (auto split: sum.splits) blast+
qed auto

lemma parallel_appendI: "a \<parallel> b \<Longrightarrow> (a @ r) \<parallel> (b @ s)"
  by (meson parallel_append)

lemma join_staging: "list_all name_ok live \<Longrightarrow> join_abs live ''.sync-staging'' = live @ [staging_name]"
  using join_abs_join [of live "[''.sync-staging'']"] by (simp add: name_ok_def staging_name_def)

lemma build_sync_plan_safe:
  assumes "build_sync_plan E T fsys profile ctx repo live = Inr plan"
    and "list_all name_ok repo" "list_all name_ok live" "repo \<parallel> live"
  shows "p_live_dir plan = live" "p_staging_dir plan = live @ [staging_name]" "p_dry_run plan = rp_dry_run profile"
    "\<forall>m \<in> set (p_mappings plan). mapping_safe (p_staging_dir plan) (p_apply_template plan) m"
proof -
  obtain ms where ms: "resolve_mappings E T fsys ctx repo (live @ [staging_name]) 0 (rp_mappings profile) = Inr ms"
    and plan: "plan = \<lparr>p_mappings = ms, p_exclude_patterns = rp_exclude_patterns profile,
            p_staging_dir = live @ [staging_name], p_live_dir = live, p_dry_run = rp_dry_run profile,
            p_apply_template = Some (build_apply_template_func T ctx)\<rparr>"
    using assms(1,3) by (auto simp: build_sync_plan_def join_staging Let_def split: sum.splits)
  show "p_live_dir plan = live" "p_staging_dir plan = live @ [staging_name]" "p_dry_run plan = rp_dry_run profile"
    by (simp_all add: plan)
  have "mapping_safe (live @ [staging_name]) (Some (build_apply_template_func T ctx)) r" if r: "r \<in> set ms" for r
  proof -
    obtain i m where "resolve_mapping E T fsys ctx repo (live @ [staging_name]) i m = Inr r"
      using resolve_mappings_all [OF ms r] by blast
    then obtain src where src: "m_source r = join_abs repo src" "dest_ok src" "dest_ok (m_destination r)"
      "\<And>f. m_apply_patches r = Some f \<Longrightarrow> edit_ok f" by (rule resolve_mapping_ok) blast
    have "m_source r = repo @ clean_rel src" using src(1,2) assms(2) by (simp add: join_abs_below dest_ok_def)
    then have "m_source r \<parallel> live @ [staging_name]" using parallel_appendI [OF assms(4)] by simp
    with src show ?thesis by (auto simp: mapping_safe_def edits_ok_def build_apply_template_ok)
  qed
  then show "\<forall>m \<in> set (p_mappings plan). mapping_safe (p_staging_dir plan) (p_apply_template plan) m" by (simp add: plan)
qed

lemma build_sync_plan_ok:
  assumes "build_sync_plan E T fsys profile ctx repo live = Inr plan"
    and "list_all name_ok repo" "list_all name_ok live" "repo \<parallel> live" "clean_dests plan"
  shows "plan_ok plan"
proof -
  have "list_all name_ok (live @ [staging_name])" using assms(3) by (simp add: staging_name_def name_ok_def)
  with build_sync_plan_safe [OF assms(1-4)] assms(3,5) show ?thesis
    by (simp add: plan_ok_def layout_def mapping_ok_def mapping_safe_def clean_dests_def)
qed

end
