(* ===== verification/AgentProps.thy ===== *)
theory AgentProps
  imports AgentProfile
begin

section \<open>Properties of the agent's configuration and of its plans\<close>

text \<open>
  What \<open>LoadConfig\<close>, \<open>podOrdinal\<close> and \<open>validateResolvedPath\<close> return, stated without their
  branches.
\<close>

text \<open>
  \<open>LoadConfig\<close> fails exactly when the CR's name or the pod's namespace is not set. A
  configuration it returns is complete: every field the agent relies on has a value, the sync
  period is positive whatever the variable holds, and it is the variable's value when that is a
  positive number.
\<close>

theorem load_config_spec:
  "(case load_config getenv of
      Inl e \<Rightarrow> getenv ''CR_NAME'' = [] \<or> getenv ''POD_NAMESPACE'' = []
    | Inr c \<Rightarrow> config_ok c \<and> c_cr_name c = getenv ''CR_NAME'' \<and>
        c_cr_namespace c = or_default (getenv ''CR_NAMESPACE'') (getenv ''POD_NAMESPACE'') \<and>
        c_sync_period c = (case atoi (getenv ''SYNC_PERIOD'') of Some v \<Rightarrow> if v > 0 then v else 30 | None \<Rightarrow> 30))"
proof (cases "load_config getenv")
  case (Inl e)
  with load_config_succeeds_iff [of getenv] show ?thesis by auto
next
  case (Inr c)
  have "c_cr_name c = getenv ''CR_NAME''"
    "c_cr_namespace c = or_default (getenv ''CR_NAMESPACE'') (getenv ''POD_NAMESPACE'')"
    "c_sync_period c = sync_period_of_env (getenv ''SYNC_PERIOD'')"
    using Inr by (auto simp: load_config_def config_defaults_def read_env_def Let_def split: if_splits)
  moreover have "sync_period_of_env s = (case atoi s of Some v \<Rightarrow> if v > 0 then v else 30 | None \<Rightarrow> 30)" for s
    by (simp add: sync_period_of_env_def atoi_def)
  ultimately show ?thesis using load_config_ok [OF Inr] by (simp add: Inr)
qed

text \<open>Joined to any directory the path is that directory or below it.\<close>

definition stays_below :: "string \<Rightarrow> bool" where
  "stays_below path \<longleftrightarrow> (\<forall>root. list_all name_ok root \<longrightarrow> prefix root (join_abs root path))"

text \<open>
  \<open>validateResolvedPath\<close> accepts a path exactly when it is relative and no \<open>..\<close> is left
  after cleaning, and these are the paths that stay below whatever directory they are joined to.
\<close>

theorem validate_resolved_path_spec:
  "(validate_resolved_path path label = None \<longleftrightarrow> \<not> is_abs path \<and> ''..'' \<notin> set (clean_rel path)) \<and>
   (validate_resolved_path path label = None \<longleftrightarrow> \<not> is_abs path \<and> stays_below path)"
proof -
  have names: "list_all name_ok (clean_rel path) \<longleftrightarrow> ''..'' \<notin> set (clean_rel path)"
  proof
    show "list_all name_ok (clean_rel path) \<Longrightarrow> ''..'' \<notin> set (clean_rel path)"
      by (auto simp: list_all_iff)
    show "''..'' \<notin> set (clean_rel path) \<Longrightarrow> list_all name_ok (clean_rel path)"
      by (rule clean_rel_names) (cases "clean_rel path"; auto)
  qed
  have "list_all name_ok (clean_rel path)"
    if "stays_below path"
  proof (rule ccontr)
    assume bad: "\<not> ?thesis"
    obtain ns k where eq: "clean_rel path = replicate k ''..'' @ ns" and ns: "list_all name_ok ns"
      using clean_rel_form [of path] by (auto simp: clean_form_def list_all_rev)
        (metis rev_append rev_replicate rev_rev_ident list_all_rev)
    with bad have k: "k > 0" by (cases k) auto
    define z :: string where "z = replicate (Suc (Max (insert 0 (length ` set ns)))) (CHR ''z'')"
    have zns: "z \<notin> set ns"
    proof
      assume "z \<in> set ns"
      then have "length z \<le> Max (insert 0 (length ` set ns))" by (intro Max_ge) auto
      then show False by (simp add: z_def)
    qed
    have z: "name_ok z" by (cases "Max (insert 0 (length ` set ns))") (auto simp: z_def name_ok_def)
    have "clean_acc True (replicate j z) (replicate j ''..'') = []" for j
      using z by (induction j) (auto simp: clean_step_def)
    then have "join_abs (replicate k z) path = ns"
      using z ns eq by (simp add: join_abs_clean list_all_length clean_acc_append clean_acc_names)
    with that z have "prefix (replicate k z) ns" unfolding stays_below_def by (metis in_set_replicate list_all_iff)
    with k zns show False by (cases k) (auto simp: prefix_def)
  qed
  with names show ?thesis by (auto simp: validate_resolved_path_iff dest_ok_def join_abs_below stays_below_def)
qed

text \<open>
  \<open>podOrdinal\<close> is the number in the pod's index label when that is one, else the number after
  the last dash of the pod's name, so the pod \<open>name-i\<close> of a StatefulSet has ordinal \<open>i\<close>, with
  and without the label.
\<close>

theorem pod_ordinal_spec:
  assumes "0 \<le> i" "i < 2 ^ 63"
    and "mget labels pod_index_label = None \<or> mget labels pod_index_label = Some (itoa i)"
  shows "pod_ordinal (name @ ''-'' @ itoa i) labels = i"
proof -
  have "CHR ''-'' \<notin> set (itoa i)"
    using nat_digits_digits [of "nat i"] assms(1) by (auto simp: itoa_def list_all_iff is_digit_def)
  then have "split_on CHR ''-'' (name @ ''-'' @ itoa i) = split_on CHR ''-'' name @ [itoa i]"
    using split_on_sep [of "CHR ''-''" name "itoa i"] by (simp add: split_on_no_sep)
  moreover have "atoi (itoa i) = Some i" using assms(1,2) by (intro atoi_itoa) auto
  ultimately show ?thesis using assms(3) by (auto simp: pod_ordinal_def pod_name_ordinal_def)
qed

theorem pod_ordinal_spec_witness: "pod_ordinal ''gw-7'' [] = 7"
proof -
  have "itoa 7 = ''7''" by code_simp
  with pod_ordinal_spec [of 7 "[]" "''gw''"] show ?thesis by simp
qed

end
