(* ===== verification/Effects.thy ===== *)
theory Effects
  imports GoStrings "HOL-Library.State_Monad"
begin

section \<open>Effects: state passing, weakest preconditions, the log of external calls\<close>

text \<open>
  The parts of the program that call other systems (the Kubernetes API, the gateway, git) are
  state monads. Their state holds the other systems as one value \<open>io_env\<close> of an arbitrary type,
  which every external call may change in any way (so other writers act between two calls of the
  program), and the log of what the program sent, the newest entry first. \<open>wp m Q s\<close> says that
  running \<open>m\<close> from \<open>s\<close> ends in a result and a state with \<open>Q\<close>.
\<close>

named_theorems wp_rules \<open>weakest preconditions of the operations of the components\<close>

abbreviation ret :: "'a \<Rightarrow> ('s, 'a) state" where
  "ret \<equiv> State_Monad.return"

definition reads :: "('s \<Rightarrow> 'a) \<Rightarrow> ('s, 'a) state" where
  "reads f = State (\<lambda>s. (f s, s))"

definition modify :: "('s \<Rightarrow> 's) \<Rightarrow> ('s, unit) state" where
  "modify f = State (\<lambda>s. ((), f s))"

definition wp :: "('s, 'a) state \<Rightarrow> ('a \<Rightarrow> 's \<Rightarrow> bool) \<Rightarrow> 's \<Rightarrow> bool" where
  "wp m Q s = (case run_state m s of (r, s') \<Rightarrow> Q r s')"

lemma run_reads [simp]: "run_state (reads f) s = (f s, s)"
  by (simp add: reads_def)

lemma run_modify [simp]: "run_state (modify f) s = ((), f s)"
  by (simp add: modify_def)

lemma wp_ret [wp_rules]: "wp (ret a) Q s = Q a s"
  by (simp add: wp_def)

lemma wp_bind [wp_rules]: "wp (m \<bind> f) Q s = wp m (\<lambda>a. wp (f a) Q) s"
  by (simp add: wp_def split: prod.splits)

lemma wp_reads [wp_rules]: "wp (reads f) Q s = Q (f s) s"
  by (simp add: wp_def)

lemma wp_modify [wp_rules]: "wp (modify f) Q s = Q () (f s)"
  by (simp add: wp_def)

lemma wp_if [wp_rules]: "wp (if c then m else n) Q s = ((c \<longrightarrow> wp m Q s) \<and> (\<not> c \<longrightarrow> wp n Q s))"
  by simp

lemma wp_case_sum [wp_rules]:
  "wp (case x of Inl e \<Rightarrow> f e | Inr v \<Rightarrow> g v) Q s =
   ((\<forall>e. x = Inl e \<longrightarrow> wp (f e) Q s) \<and> (\<forall>v. x = Inr v \<longrightarrow> wp (g v) Q s))"
  by (cases x) auto

lemma wp_case_option [wp_rules]:
  "wp (case x of None \<Rightarrow> f | Some v \<Rightarrow> g v) Q s =
   ((x = None \<longrightarrow> wp f Q s) \<and> (\<forall>v. x = Some v \<longrightarrow> wp (g v) Q s))"
  by (cases x) auto

lemma wp_case_prod [wp_rules]:
  "wp (case x of (a, b) \<Rightarrow> f a b) Q s = wp (f (fst x) (snd x)) Q s"
  by (cases x) auto

lemma wp_let [wp_rules]: "wp (Let x f) Q s = wp (f x) Q s"
  by (simp add: Let_def)

lemma wp_mono: "wp m Q s \<Longrightarrow> (\<And>r s'. Q r s' \<Longrightarrow> Q' r s') \<Longrightarrow> wp m Q' s"
  by (auto simp: wp_def split: prod.splits)

lemma wp_conj: "wp m (\<lambda>r s. Q r s \<and> Q' r s) s = (wp m Q s \<and> wp m Q' s)"
  by (auto simp: wp_def split: prod.splits)

lemma wp_run: "wp m Q s \<Longrightarrow> run_state m s = (r, s') \<Longrightarrow> Q r s'"
  by (simp add: wp_def)

lemma wpI: "(\<And>r s'. run_state m s = (r, s') \<Longrightarrow> Q r s') \<Longrightarrow> wp m Q s"
  by (auto simp: wp_def split: prod.splits)

text \<open>
  What every step of a program keeps: a reflexive and transitive relation between the state
  before and the state after.
\<close>

locale step_order =
  fixes R :: "'s \<Rightarrow> 's \<Rightarrow> bool"
  assumes R_refl: "R s s"
    and R_trans: "R s t \<Longrightarrow> R t u \<Longrightarrow> R s u"
begin

definition keeps :: "('s, 'a) state \<Rightarrow> bool" where
  "keeps m \<longleftrightarrow> (\<forall>s. wp m (\<lambda>_ t. R s t) s)"

lemma keepsI: "(\<And>s r t. run_state m s = (r, t) \<Longrightarrow> R s t) \<Longrightarrow> keeps m"
  by (auto simp: keeps_def intro: wpI)

lemma keepsD: "keeps m \<Longrightarrow> run_state m s = (r, t) \<Longrightarrow> R s t"
  by (auto simp: keeps_def dest: wp_run)

lemma keeps_ret: "keeps (ret a)"
  by (simp add: keeps_def wp_ret R_refl)

lemma keeps_reads: "keeps (reads f)"
  by (simp add: keeps_def wp_reads R_refl)

lemma keeps_modify: "(\<And>s. R s (f s)) \<Longrightarrow> keeps (modify f)"
  by (simp add: keeps_def wp_modify)

lemma keeps_bind: "keeps m \<Longrightarrow> (\<And>a. keeps (f a)) \<Longrightarrow> keeps (m \<bind> f)"
  by (rule keepsI) (auto split: prod.splits dest: keepsD intro: R_trans)

lemma keeps_if: "(c \<Longrightarrow> keeps m) \<Longrightarrow> (\<not> c \<Longrightarrow> keeps n) \<Longrightarrow> keeps (if c then m else n)"
  by simp

lemma keeps_case_sum:
  "(\<And>e. x = Inl e \<Longrightarrow> keeps (f e)) \<Longrightarrow> (\<And>v. x = Inr v \<Longrightarrow> keeps (g v)) \<Longrightarrow>
   keeps (case x of Inl e \<Rightarrow> f e | Inr v \<Rightarrow> g v)"
  by (cases x) auto

lemma keeps_case_option:
  "(x = None \<Longrightarrow> keeps f) \<Longrightarrow> (\<And>v. x = Some v \<Longrightarrow> keeps (g v)) \<Longrightarrow>
   keeps (case x of None \<Rightarrow> f | Some v \<Rightarrow> g v)"
  by (cases x) auto

lemma keeps_case_prod: "(\<And>a b. keeps (f a b)) \<Longrightarrow> keeps (case x of (a, b) \<Rightarrow> f a b)"
  by (cases x) auto

lemma keeps_let: "(\<And>y. keeps (f y)) \<Longrightarrow> keeps (Let x f)"
  by (simp add: Let_def)

lemmas keeps_intros = keeps_ret keeps_reads keeps_bind keeps_if keeps_case_sum keeps_case_option
  keeps_case_prod keeps_let

end

subsection \<open>What the program sends\<close>

record config_map =
  cm_namespace :: string
  cm_name :: string
  cm_labels :: "(string, string) gomap"
  cm_resource_version :: string
  cm_data :: "(string, string) gomap"

text \<open>\<open>git.Result\<close>.\<close>

record git_result =
  gr_commit :: string
  gr_ref :: string

record http_request =
  rq_method :: string
  rq_url :: string
  rq_token :: "string option"

record http_response =
  rs_status :: int
  rs_body :: string

datatype effect =
    Http http_request "int option"          \<comment> \<open>the request, and the status of the answer if one came\<close>
  | Sleep int                               \<comment> \<open>seconds\<close>
  | CmRead string "config_map option"       \<comment> \<open>the name asked for, and the object returned\<close>
  | CmCreate config_map bool                \<comment> \<open>the object sent, and whether the API accepted it\<close>
  | CmUpdate config_map bool
  | Event string string string              \<comment> \<open>type, reason, message\<close>
  | CounterInc string "string list"         \<comment> \<open>metric and label values\<close>
  | GaugeSet string "string list" int
  | Sampled string "string list"            \<comment> \<open>a histogram's sample, without the duration\<close>
  | GitFetch string string apath            \<comment> \<open>url, ref, working tree\<close>
  | MarkedReady                             \<comment> \<open>the probes that gate the gateway pass from here on\<close>

record ('k, 'e) io =
  io_env :: 'k
  io_log :: "'e list"

definition emit :: "'e \<Rightarrow> (('k, 'e, 'z) io_scheme, unit) state" where
  "emit e = modify (\<lambda>s. s\<lparr>io_log := e # io_log s\<rparr>)"

text \<open>A call of another system: its answer, and its state after the call.\<close>

definition call :: "('k \<Rightarrow> 'a \<times> 'k) \<Rightarrow> (('k, 'e, 'z) io_scheme, 'a) state" where
  "call f = State (\<lambda>s. case f (io_env s) of (r, k) \<Rightarrow> (r, s\<lparr>io_env := k\<rparr>))"

lemma run_emit [simp]: "run_state (emit e) s = ((), s\<lparr>io_log := e # io_log s\<rparr>)"
  by (simp add: emit_def)

lemma run_call [simp]: "run_state (call f) s = (fst (f (io_env s)), s\<lparr>io_env := snd (f (io_env s))\<rparr>)"
  by (simp add: call_def split: prod.splits)

lemma wp_emit [wp_rules]: "wp (emit e) Q s = Q () (s\<lparr>io_log := e # io_log s\<rparr>)"
  by (simp add: wp_def)

lemma wp_call [wp_rules]:
  "wp (call f) Q s = Q (fst (f (io_env s))) (s\<lparr>io_env := snd (f (io_env s))\<rparr>)"
  by (simp add: wp_def)

text \<open>The log only grows.\<close>

definition log_grows :: "('k, 'e, 'z) io_scheme \<Rightarrow> ('k, 'e, 'z) io_scheme \<Rightarrow> bool" where
  "log_grows s t \<longleftrightarrow> suffix (io_log s) (io_log t)"

interpretation grow: step_order log_grows
  by unfold_locales (auto simp: log_grows_def suffix_def)

lemma grow_emit: "grow.keeps (emit e)"
  unfolding emit_def by (rule grow.keeps_modify) (simp add: log_grows_def suffix_ConsI)

lemma grow_call: "grow.keeps (call f)"
  by (rule grow.keepsI) (auto simp: log_grows_def)

lemmas grow_intros = grow.keeps_intros grow_emit grow_call

text \<open>What was sent between two states, the newest first.\<close>

definition sent :: "('k, 'e, 'z) io_scheme \<Rightarrow> ('k, 'e, 'z) io_scheme \<Rightarrow> 'e list" where
  "sent s t = take (length (io_log t) - length (io_log s)) (io_log t)"

lemma sent_log: "log_grows s t \<Longrightarrow> io_log t = sent s t @ io_log s"
  by (auto simp: log_grows_def suffix_def sent_def)

lemma sent_app [simp]: "io_log t = es @ io_log s \<Longrightarrow> sent s t = es"
  by (simp add: sent_def)

end
