(* ===== verification/AgentStatus.thy ===== *)
theory AgentStatus
  imports AgentConfig Effects
begin

section \<open>internal/agent/configmap.go: the ConfigMaps shared with the controller\<close>

text \<open>
  Reading the metadata ConfigMap, parsing its profiles, and the status write with its retries.
  The Kubernetes client is the record \<open>cm_api\<close>, the JSON package \<open>json_env\<close>: both are code
  outside the repository. \<open>json.Marshal\<close> of the status cannot fail (its fields are strings,
  numbers, booleans and a list of strings), and a \<open>null\<close> profile, which the controller never
  writes, is not in the range of the profile decoder.
\<close>

record 'k cm_api =
  k_get_cm :: "string \<Rightarrow> string \<Rightarrow> 'k \<Rightarrow> config_map res \<times> 'k"
  k_create_cm :: "config_map \<Rightarrow> 'k \<Rightarrow> goerror option \<times> 'k"
  k_update_cm :: "config_map \<Rightarrow> 'k \<Rightarrow> goerror option \<times> 'k"

record json_env =
  json_profiles :: "string \<Rightarrow> (string, resolved_profile) gomap res"
  json_status :: "gateway_status \<Rightarrow> string"

definition metadata_config_map_name :: "string \<Rightarrow> string" where
  "metadata_config_map_name crName = ''stoker-metadata-'' @ crName"

definition status_config_map_name :: "string \<Rightarrow> string" where
  "status_config_map_name crName = ''stoker-status-'' @ crName"

definition option_of_res :: "'a res \<Rightarrow> 'a option" where
  "option_of_res r = (case r of Inl _ \<Rightarrow> None | Inr x \<Rightarrow> Some x)"

definition get_cm :: "'k cm_api \<Rightarrow> string \<Rightarrow> string \<Rightarrow> (('k, effect, 'z) io_scheme, config_map res) state" where
  "get_cm K namespace name = do {
     r \<leftarrow> call (k_get_cm K namespace name);
     emit (CmRead name (option_of_res r));
     ret r }"

definition create_cm :: "'k cm_api \<Rightarrow> config_map \<Rightarrow> (('k, effect, 'z) io_scheme, goerror option) state" where
  "create_cm K cm = do { e \<leftarrow> call (k_create_cm K cm); emit (CmCreate cm (e = None)); ret e }"

definition update_cm :: "'k cm_api \<Rightarrow> config_map \<Rightarrow> (('k, effect, 'z) io_scheme, goerror option) state" where
  "update_cm K cm = do { e \<leftarrow> call (k_update_cm K cm); emit (CmUpdate cm (e = None)); ret e }"

definition metadata_of :: "config_map \<Rightarrow> metadata" where
  "metadata_of cm = \<lparr>md_commit = mstr (cm_data cm) ''commit'', md_ref = mstr (cm_data cm) ''ref'',
     md_git_url = mstr (cm_data cm) ''gitURL'', md_paused = mstr (cm_data cm) ''paused'',
     md_profiles = mstr (cm_data cm) ''profiles'', md_auth_type = mstr (cm_data cm) ''authType''\<rparr>"

definition read_metadata_config_map :: "'k cm_api \<Rightarrow> string \<Rightarrow> string \<Rightarrow> (('k, effect, 'z) io_scheme, metadata res) state" where
  "read_metadata_config_map K namespace crName = do {
     r \<leftarrow> get_cm K namespace (metadata_config_map_name crName);
     (case r of
        Inl err \<Rightarrow> ret (Inl (Wrapf (''reading metadata ConfigMap '' @ metadata_config_map_name crName) err))
      | Inr cm \<Rightarrow> ret (Inr (metadata_of cm))) }"

definition parse_resolved_profiles :: "json_env \<Rightarrow> string \<Rightarrow> (string, resolved_profile) gomap res" where
  "parse_resolved_profiles J raw =
     (if raw = [] then Inr []
      else (case json_profiles J raw of
          Inl err \<Rightarrow> Inl (Wrapf ''parsing resolved profiles'' err)
        | Inr profiles \<Rightarrow> Inr profiles))"

subsection \<open>WriteStatusConfigMap\<close>

definition new_status_cm :: "string \<Rightarrow> string \<Rightarrow> string \<Rightarrow> string \<Rightarrow> config_map" where
  "new_status_cm namespace crName gatewayName statusJSON =
     \<lparr>cm_namespace = namespace, cm_name = status_config_map_name crName,
      cm_labels = [(''app.kubernetes.io/managed-by'', ''stoker-agent''), (label_cr_name, crName)],
      cm_resource_version = [], cm_data = [(gatewayName, statusJSON)]\<rparr>"

fun write_status_attempts :: "'k cm_api \<Rightarrow> string \<Rightarrow> string \<Rightarrow> string \<Rightarrow> string \<Rightarrow> nat \<Rightarrow>
    (('k, effect, 'z) io_scheme, goerror option) state" where
  "write_status_attempts K namespace crName gatewayName statusJSON 0 =
     ret (Some (Errorf ''failed to write status after 3 retries''))"
| "write_status_attempts K namespace crName gatewayName statusJSON (Suc n) = do {
     r \<leftarrow> get_cm K namespace (status_config_map_name crName);
     (case r of
        Inl err \<Rightarrow>
          if api_is Forbidden err
          then ret (Some (Wrapf ''writing status ConfigMap (permission denied)'' err))
          else if api_is NotFound err
          then do {
            e \<leftarrow> create_cm K (new_status_cm namespace crName gatewayName statusJSON);
            (case e of
               None \<Rightarrow> ret None
             | Some createErr \<Rightarrow>
                 if api_is AlreadyExists createErr
                 then write_status_attempts K namespace crName gatewayName statusJSON n
                 else ret (Some (Wrapf ''creating status ConfigMap'' createErr)))
          }
          else ret (Some (Wrapf ''getting status ConfigMap'' err))
      | Inr cm \<Rightarrow> do {
          e \<leftarrow> update_cm K (cm\<lparr>cm_data := mput (cm_data cm) gatewayName statusJSON\<rparr>);
          (case e of
             None \<Rightarrow> ret None
           | Some updateErr \<Rightarrow>
               if api_is Conflict updateErr
               then write_status_attempts K namespace crName gatewayName statusJSON n
               else ret (Some (Wrapf ''updating status ConfigMap'' updateErr)))
        })
   }"

definition write_status_config_map :: "'k cm_api \<Rightarrow> json_env \<Rightarrow> string \<Rightarrow> string \<Rightarrow> string \<Rightarrow> gateway_status \<Rightarrow>
    (('k, effect, 'z) io_scheme, goerror option) state" where
  "write_status_config_map K J namespace crName gatewayName status =
     write_status_attempts K namespace crName gatewayName (json_status J status) 3"

subsection \<open>What a status write sends\<close>

text \<open>The writes an effect log contains, and those the API accepted.\<close>

definition cm_write :: "effect \<Rightarrow> bool" where
  "cm_write e = (case e of CmCreate _ _ \<Rightarrow> True | CmUpdate _ _ \<Rightarrow> True | _ \<Rightarrow> False)"

definition accepted :: "effect \<Rightarrow> bool" where
  "accepted e = (case e of CmCreate _ ok \<Rightarrow> ok | CmUpdate _ ok \<Rightarrow> ok | _ \<Rightarrow> False)"

text \<open>
  One attempt's entries, the newest first: a read, then possibly one write that depends on
  nothing but the object read.
\<close>

inductive status_attempt :: "string \<Rightarrow> string \<Rightarrow> string \<Rightarrow> string \<Rightarrow> bool \<Rightarrow> effect list \<Rightarrow> bool"
  for ns cr gw json where
  read_failed: "status_attempt ns cr gw json False [CmRead (status_config_map_name cr) None]"
| created: "status_attempt ns cr gw json ok
    [CmCreate (new_status_cm ns cr gw json) ok, CmRead (status_config_map_name cr) None]"
| updated: "status_attempt ns cr gw json ok
    [CmUpdate (cm\<lparr>cm_data := mput (cm_data cm) gw json\<rparr>) ok, CmRead (status_config_map_name cr) (Some cm)]"

inductive_cases status_attemptE: "status_attempt ns cr gw json ok es"

inductive status_run :: "string \<Rightarrow> string \<Rightarrow> string \<Rightarrow> string \<Rightarrow> nat \<Rightarrow> bool \<Rightarrow> effect list \<Rightarrow> bool"
  for ns cr gw json where
  gave_up: "status_run ns cr gw json 0 False []"
| ends: "status_attempt ns cr gw json ok es \<Longrightarrow> status_run ns cr gw json (Suc n) ok es"
| again: "status_attempt ns cr gw json False es \<Longrightarrow> status_run ns cr gw json n ok fs \<Longrightarrow>
    status_run ns cr gw json (Suc n) ok (fs @ es)"

lemma run_get_cm: "run_state (get_cm K ns n) s =
   (let o1 = k_get_cm K ns n (io_env s)
    in (fst o1, s\<lparr>io_env := snd o1, io_log := CmRead n (option_of_res (fst o1)) # io_log s\<rparr>))"
  by (simp add: get_cm_def Let_def)

lemma run_create_cm: "run_state (create_cm K cm) s =
   (let o1 = k_create_cm K cm (io_env s)
    in (fst o1, s\<lparr>io_env := snd o1, io_log := CmCreate cm (fst o1 = None) # io_log s\<rparr>))"
  by (simp add: create_cm_def Let_def)

lemma run_update_cm: "run_state (update_cm K cm) s =
   (let o1 = k_update_cm K cm (io_env s)
    in (fst o1, s\<lparr>io_env := snd o1, io_log := CmUpdate cm (fst o1 = None) # io_log s\<rparr>))"
  by (simp add: update_cm_def Let_def)

lemmas run_cm = run_get_cm run_create_cm run_update_cm

lemma option_of_res_simps [simp]:
  "option_of_res (Inl e) = None" "option_of_res (Inr x) = Some x"
  by (simp_all add: option_of_res_def)

lemma write_status_attempts_run:
  "run_state (write_status_attempts K ns cr gw json n) s = (r, t) \<Longrightarrow>
   \<exists>es. io_log t = es @ io_log s \<and> status_run ns cr gw json n (r = None) es"
proof (induction n arbitrary: s r t)
  case 0
  then show ?case by (auto intro: gave_up)
next
  case (Suc n)
  obtain rr s1 where g: "run_state (get_cm K ns (status_config_map_name cr)) s = (rr, s1)"
    by (rule prod.exhaust)
  have s1: "io_log s1 = CmRead (status_config_map_name cr) (option_of_res rr) # io_log s"
    using g by (auto simp: run_cm Let_def)
  note step = Suc.prems [simplified write_status_attempts.simps run_state_bind g prod.case]
  show ?case
  proof (cases rr)
    case (Inl err)
    show ?thesis
    proof (cases "api_is Forbidden err \<or> \<not> api_is NotFound err")
      case True
      then have "r \<noteq> None" "t = s1" using step Inl by (auto split: if_splits)
      from this s1 Inl show ?thesis
        using ends [OF read_failed] by (intro exI [of _ "[CmRead (status_config_map_name cr) None]"]) auto
    next
      case False
      define cm where "cm = new_status_cm ns cr gw json"
      obtain e s2 where c: "run_state (create_cm K cm) s1 = (e, s2)" by (rule prod.exhaust)
      define es where "es = [CmCreate cm (e = None), CmRead (status_config_map_name cr) None]"
      have s2: "io_log s2 = es @ io_log s" using c s1 Inl by (auto simp: run_cm Let_def es_def)
      have at: "status_attempt ns cr gw json (e = None) es" unfolding es_def cm_def by (rule created)
      show ?thesis
      proof (cases "\<exists>err2. e = Some err2 \<and> api_is AlreadyExists err2")
        case True
        with step Inl False c have "run_state (write_status_attempts K ns cr gw json n) s2 = (r, t)"
          by (auto simp: cm_def)
        from Suc.IH [OF this] obtain fs where "io_log t = fs @ io_log s2" "status_run ns cr gw json n (r = None) fs"
          by blast
        with s2 at True show ?thesis by (intro exI [of _ "fs @ es"]) (auto intro: again)
      next
        case no: False
        with step Inl False c have "t = s2" "r = None \<longleftrightarrow> e = None"
          by (auto simp: cm_def split: option.splits)
        with s2 at show ?thesis by (intro exI [of _ es]) (auto intro: ends)
      qed
    qed
  next
    case (Inr cm0)
    define cm where "cm = cm0\<lparr>cm_data := mput (cm_data cm0) gw json\<rparr>"
    obtain e s2 where c: "run_state (update_cm K cm) s1 = (e, s2)" by (rule prod.exhaust)
    define es where "es = [CmUpdate cm (e = None), CmRead (status_config_map_name cr) (Some cm0)]"
    have s2: "io_log s2 = es @ io_log s" using c s1 Inr by (auto simp: run_cm Let_def es_def)
    have at: "status_attempt ns cr gw json (e = None) es" unfolding es_def cm_def by (rule updated)
    show ?thesis
    proof (cases "\<exists>err2. e = Some err2 \<and> api_is Conflict err2")
      case True
      with step Inr c have "run_state (write_status_attempts K ns cr gw json n) s2 = (r, t)"
        by (auto simp: cm_def)
      from Suc.IH [OF this] obtain fs where "io_log t = fs @ io_log s2" "status_run ns cr gw json n (r = None) fs"
        by blast
      with s2 at True show ?thesis by (intro exI [of _ "fs @ es"]) (auto intro: again)
    next
      case no: False
      with step Inr c have "t = s2" "r = None \<longleftrightarrow> e = None"
        by (auto simp: cm_def split: option.splits)
      with s2 at show ?thesis by (intro exI [of _ es]) (auto intro: ends)
    qed
  qed
qed

lemma status_attempt_accepted:
  "status_attempt ns cr gw json ok es \<Longrightarrow> filter accepted es = (if ok then [hd es] else [])"
  by (erule status_attemptE) (auto simp: accepted_def)

lemma status_run_length: "status_run ns cr gw json n ok es \<Longrightarrow> length (filter cm_write es) \<le> n"
proof (induction rule: status_run.induct)
  case (ends ok es n)
  then show ?case by (cases rule: status_attemptE) (auto simp: cm_write_def)
next
  case (again es n ok fs)
  from again(1) have "length (filter cm_write es) \<le> 1" by (cases rule: status_attemptE) (auto simp: cm_write_def)
  with again(3) show ?case by simp
qed simp

text \<open>
  The accepted write of a run: none after a failure; after a success exactly one, the newest
  entry, and it follows the read it was computed from.
\<close>

lemma status_run_accepted:
  "status_run ns cr gw json n ok es \<Longrightarrow>
   (if ok then (\<exists>w rd fs. es = w # rd # fs \<and> status_attempt ns cr gw json True [w, rd] \<and>
       filter accepted es = [w])
    else filter accepted es = [])"
proof (induction rule: status_run.induct)
  case (ends ok es n)
  then show ?case by (cases rule: status_attemptE) (auto simp: accepted_def intro: status_attempt.intros)
next
  case (again es n ok fs)
  then show ?case using status_attempt_accepted [OF again(1)] by (auto split: if_splits)
qed simp

end
