(* ===== verification/AgentWatcher.thy ===== *)
theory AgentWatcher
  imports Prelude
begin

section \<open>internal/agent/watcher.go: when a sync is triggered\<close>

text \<open>
  The watcher has two goroutines, the ConfigMap poller and the fallback timer, and is called
  from the agent's main loop. Its state is the two buffered channels of capacity one
  (\<open>syncCh\<close>: whether an event is pending; \<open>resetCh\<close>: the pending period), the configured period,
  the interval the running ticker has (\<open>None\<close> before \<open>Run\<close>) and the resource version the poller
  saw last. Periods are in nanoseconds.
\<close>

record watcher =
  w_sync_ch :: bool
  w_period :: int
  w_reset_ch :: "int option"
  w_ticker :: "int option"
  w_last_version :: string

definition new_watcher :: "int \<Rightarrow> watcher" where
  "new_watcher syncPeriod =
     \<lparr>w_sync_ch = False, w_period = syncPeriod, w_reset_ch = None, w_ticker = None, w_last_version = []\<rparr>"

definition update_period :: "int \<Rightarrow> watcher \<Rightarrow> watcher" where
  "update_period d w =
     (if d = w_period w then w
      else let w1 = w\<lparr>w_period := d\<rparr> in
        (case w_reset_ch w1 of
           None \<Rightarrow> w1\<lparr>w_reset_ch := Some d\<rparr>
         | Some old \<Rightarrow> (let w2 = w1\<lparr>w_reset_ch := None\<rparr> in w2\<lparr>w_reset_ch := Some d\<rparr>)))"

definition trigger :: "watcher \<Rightarrow> watcher" where
  "trigger w = (if w_sync_ch w then w else w\<lparr>w_sync_ch := True\<rparr>)"

text \<open>\<open>Run\<close>: the start, and the two cases of its select that do something.\<close>

definition run_start :: "watcher \<Rightarrow> watcher" where
  "run_start w = w\<lparr>w_ticker := Some (w_period w)\<rparr>"

definition run_reset :: "watcher \<Rightarrow> watcher" where
  "run_reset w = (case w_reset_ch w of
       None \<Rightarrow> w
     | Some newPeriod \<Rightarrow> w\<lparr>w_reset_ch := None, w_ticker := Some newPeriod\<rparr>)"

definition run_tick :: "watcher \<Rightarrow> watcher" where
  "run_tick w = trigger w"

text \<open>One poll; \<open>None\<close> is a failed read, else the resource version read.\<close>

definition poll_config_map :: "string option \<Rightarrow> watcher \<Rightarrow> watcher" where
  "poll_config_map read w =
     (case read of
        None \<Rightarrow> w
      | Some version \<Rightarrow>
          (if version \<noteq> w_last_version w
           then (let w1 = (if w_last_version w \<noteq> [] then trigger w else w)
                 in w1\<lparr>w_last_version := version\<rparr>)
           else w))"

text \<open>The agent's receive from \<open>Events()\<close>: possible when an event is pending.\<close>

definition take_event :: "watcher \<Rightarrow> watcher" where
  "take_event w = w\<lparr>w_sync_ch := False\<rparr>"

subsection \<open>The steps of all goroutines\<close>

inductive watcher_step :: "watcher \<Rightarrow> watcher \<Rightarrow> bool" where
  update: "watcher_step w (update_period d w)"
| start: "w_ticker w = None \<Longrightarrow> watcher_step w (run_start w)"
| reset: "w_ticker w \<noteq> None \<Longrightarrow> watcher_step w (run_reset w)"
| tick: "w_ticker w \<noteq> None \<Longrightarrow> watcher_step w (run_tick w)"
| poll: "w_ticker w \<noteq> None \<Longrightarrow> watcher_step w (poll_config_map v w)"
| consume: "w_sync_ch w \<Longrightarrow> watcher_step w (take_event w)"

inductive_cases watcher_stepE: "watcher_step w w'"

inductive watcher_reach :: "int \<Rightarrow> watcher \<Rightarrow> bool" for p where
  init: "watcher_reach p (new_watcher p)"
| move: "watcher_reach p w \<Longrightarrow> watcher_step w w' \<Longrightarrow> watcher_reach p w'"

text \<open>The running ticker has the configured period, or the change is on its way.\<close>

definition period_pending :: "watcher \<Rightarrow> bool" where
  "period_pending w \<longleftrightarrow>
     (case w_reset_ch w of Some d \<Rightarrow> d = w_period w
      | None \<Rightarrow> (case w_ticker w of None \<Rightarrow> True | Some t \<Rightarrow> t = w_period w))"

lemma trigger_simps [simp]:
  "w_sync_ch (trigger w)" "w_period (trigger w) = w_period w" "w_reset_ch (trigger w) = w_reset_ch w"
  "w_ticker (trigger w) = w_ticker w" "w_last_version (trigger w) = w_last_version w"
  by (simp_all add: trigger_def)

lemma poll_simps [simp]:
  "w_period (poll_config_map v w) = w_period w" "w_reset_ch (poll_config_map v w) = w_reset_ch w"
  "w_ticker (poll_config_map v w) = w_ticker w"
  by (simp_all add: poll_config_map_def Let_def split: option.splits)

lemma update_period_simps [simp]:
  "w_period (update_period d w) = d" "w_ticker (update_period d w) = w_ticker w"
  "w_sync_ch (update_period d w) = w_sync_ch w" "w_last_version (update_period d w) = w_last_version w"
  by (simp_all add: update_period_def Let_def split: option.splits)

lemma watcher_step_pending: "watcher_step w w' \<Longrightarrow> period_pending w \<Longrightarrow> period_pending w'"
  by (erule watcher_stepE)
    (auto simp: update_period_def Let_def period_pending_def run_start_def run_reset_def run_tick_def take_event_def
      split: option.splits)

lemma watcher_reach_pending: "watcher_reach p w \<Longrightarrow> period_pending w"
  by (induction rule: watcher_reach.induct)
    (auto simp: watcher_step_pending, simp add: period_pending_def new_watcher_def)

text \<open>An event stays pending until it is taken.\<close>

lemma watcher_event_kept: "watcher_step w w' \<Longrightarrow> w_sync_ch w \<Longrightarrow> w' = take_event w \<or> w_sync_ch w'"
  by (erule watcher_stepE)
    (auto simp: run_start_def run_reset_def run_tick_def poll_config_map_def Let_def split: option.splits)

lemma poll_change_triggers:
  "w_last_version w \<noteq> [] \<Longrightarrow> v \<noteq> w_last_version w \<Longrightarrow> w_sync_ch (poll_config_map (Some v) w)"
  by (simp add: poll_config_map_def Let_def)

end
