(* ===== verification/AgentHealth.thy ===== *)
theory AgentHealth
  imports Prelude
begin

section \<open>internal/agent/health.go: probe endpoints\<close>

text \<open>
  The two atomic flags of \<open>HealthServer\<close> and the three handlers, each from the flags to the
  status code and the body it writes. Serving HTTP is outside the model.
\<close>

record health_server =
  hv_initial_sync_done :: bool
  hv_shutting_down :: bool

definition new_health_server :: health_server where
  "new_health_server = \<lparr>hv_initial_sync_done = False, hv_shutting_down = False\<rparr>"

definition mark_ready :: "health_server \<Rightarrow> health_server" where
  "mark_ready hs = hs\<lparr>hv_initial_sync_done := True\<rparr>"

definition mark_not_ready :: "health_server \<Rightarrow> health_server" where
  "mark_not_ready hs = hs\<lparr>hv_shutting_down := True\<rparr>"

definition is_shutting_down :: "health_server \<Rightarrow> bool" where
  "is_shutting_down hs = hv_shutting_down hs"

definition status_ok :: int where "status_ok = 200"
definition status_service_unavailable :: int where "status_service_unavailable = 503"

definition handle_healthz :: "health_server \<Rightarrow> int \<times> string" where
  "handle_healthz hs = (status_ok, ''ok'')"

definition handle_readyz :: "health_server \<Rightarrow> int \<times> string" where
  "handle_readyz hs =
     (if hv_shutting_down hs then (status_service_unavailable, ''shutting down'')
      else if hv_initial_sync_done hs then (status_ok, ''ok'')
      else (status_service_unavailable, ''not ready''))"

definition handle_startupz :: "health_server \<Rightarrow> int \<times> string" where
  "handle_startupz hs =
     (if hv_initial_sync_done hs then (status_ok, ''ok'') else (status_service_unavailable, ''starting''))"

text \<open>The flags are only ever set; a sequence of the two operations.\<close>

inductive health_steps :: "health_server \<Rightarrow> health_server \<Rightarrow> bool" where
  stop: "health_steps hs hs"
| ready: "health_steps (mark_ready hs) hs' \<Longrightarrow> health_steps hs hs'"
| not_ready: "health_steps (mark_not_ready hs) hs' \<Longrightarrow> health_steps hs hs'"

lemma health_monotone:
  "health_steps hs hs' \<Longrightarrow>
   (hv_initial_sync_done hs \<longrightarrow> hv_initial_sync_done hs') \<and> (hv_shutting_down hs \<longrightarrow> hv_shutting_down hs')"
  by (induction rule: health_steps.induct) (auto simp: mark_ready_def mark_not_ready_def)

end
