(* ===== verification/Ignition.thy ===== *)
theory Ignition
  imports Effects
begin

section \<open>internal/ignition: the client of the gateway's REST API\<close>

text \<open>
  \<open>postScan\<close> with its retries, \<open>TriggerScan\<close>, the two health checks and the designer session
  query. \<open>net/http\<close>'s transport is outside the repository: building a request and sending it are
  the two fields of \<open>http_api\<close>; so is the JSON decoder of the session list. The API key is read
  from the state at every request, as the code's callback does.
\<close>

record 'k http_api =
  h_new_request :: "string \<Rightarrow> string \<Rightarrow> goerror option"
  h_do :: "http_request \<Rightarrow> 'k \<Rightarrow> http_response res \<times> 'k"

record designer_session =
  ds_id :: string
  ds_user :: string
  ds_project :: string
  ds_address :: string
  ds_timezone :: string
  ds_uptime :: int

record ('k, 's) ignition_client =
  ic_base_url :: string
  ic_api_key :: "('s \<Rightarrow> string) option"
  ic_http :: "'k http_api"
  ic_decode_sessions :: "string \<Rightarrow> designer_session list option res"

definition new_client :: "string \<Rightarrow> string \<Rightarrow> ('s \<Rightarrow> string) option \<Rightarrow> 'k http_api \<Rightarrow>
    (string \<Rightarrow> designer_session list option res) \<Rightarrow> ('k, 's) ignition_client" where
  "new_client scheme host apiKey http dec =
     \<lparr>ic_base_url = scheme @ ''://'' @ host, ic_api_key = apiKey, ic_http = http, ic_decode_sessions = dec\<rparr>"

record scan_result =
  sr_projects_status :: int
  sr_config_status :: int
  sr_error :: string

definition scan_result_string :: "scan_result \<Rightarrow> string" where
  "scan_result_string r =
     (if sr_error r \<noteq> [] then ''error: '' @ sr_error r
      else ''projects='' @ itoa (sr_projects_status r) @ '' config='' @ itoa (sr_config_status r))"

definition set_auth :: "('k, 's) ignition_client \<Rightarrow> 's \<Rightarrow> http_request \<Rightarrow> http_request" where
  "set_auth c s rq =
     (case ic_api_key c of
        None \<Rightarrow> rq
      | Some f \<Rightarrow> (let key = trim_space (f s) in if key \<noteq> [] then rq\<lparr>rq_token := Some key\<rparr> else rq))"

text \<open>\<open>HTTPClient.Do\<close>: the request goes to the log and to the gateway.\<close>

definition http_send :: "('k, ('k, effect, 'z) io_scheme) ignition_client \<Rightarrow> http_request \<Rightarrow>
    (('k, effect, 'z) io_scheme, http_response res) state" where
  "http_send c rq = do {
     r \<leftarrow> call (h_do (ic_http c) rq);
     emit (Http rq (case r of Inl err \<Rightarrow> None | Inr resp \<Rightarrow> Some (rs_status resp)));
     ret r }"

definition authorized :: "('k, ('k, effect, 'z) io_scheme) ignition_client \<Rightarrow> string \<Rightarrow> string \<Rightarrow>
    (('k, effect, 'z) io_scheme, http_request) state" where
  "authorized c meth url = reads (\<lambda>s. set_auth c s \<lparr>rq_method = meth, rq_url = url, rq_token = None\<rparr>)"

definition success_status :: "int \<Rightarrow> bool" where
  "success_status code \<longleftrightarrow> 200 \<le> code \<and> code < 300"

subsection \<open>Scans\<close>

fun post_attempts :: "('k, ('k, effect, 'z) io_scheme) ignition_client \<Rightarrow> string \<Rightarrow> nat \<Rightarrow> nat \<Rightarrow> goerror \<Rightarrow>
    (('k, effect, 'z) io_scheme, int res) state" where
  "post_attempts c url attempt 0 lastErr = ret (Inl (Wrapf ''after 3 retries'' lastErr))"
| "post_attempts c url attempt (Suc left) lastErr = do {
     (if attempt > 0 then emit (Sleep (int attempt * 2)) else ret ());
     (case h_new_request (ic_http c) ''POST'' url of
        Some err \<Rightarrow> ret (Inl (Wrapf ''creating request'' err))
      | None \<Rightarrow> do {
          rq \<leftarrow> authorized c ''POST'' url;
          r \<leftarrow> http_send c rq;
          (case r of
             Inl err \<Rightarrow> post_attempts c url (Suc attempt) left err
           | Inr resp \<Rightarrow>
               if success_status (rs_status resp) then ret (Inr (rs_status resp))
               else post_attempts c url (Suc attempt) left (Errorf (''HTTP '' @ itoa (rs_status resp))))
        })
   }"

definition post_scan :: "('k, ('k, effect, 'z) io_scheme) ignition_client \<Rightarrow> string \<Rightarrow> (('k, effect, 'z) io_scheme, int res) state" where
  "post_scan c path = post_attempts c (ic_base_url c @ path) 0 3 (Errorf [])"

definition scan_projects_path :: string where "scan_projects_path = ''/data/api/v1/scan/projects''"
definition scan_config_path :: string where "scan_config_path = ''/data/api/v1/scan/config''"

definition trigger_scan :: "('k, ('k, effect, 'z) io_scheme) ignition_client \<Rightarrow> (('k, effect, 'z) io_scheme, scan_result) state" where
  "trigger_scan c = do {
     r1 \<leftarrow> post_scan c scan_projects_path;
     (case r1 of
        Inl err \<Rightarrow> ret \<lparr>sr_projects_status = 0, sr_config_status = 0, sr_error = ''scan/projects: '' @ err_text err\<rparr>
      | Inr st1 \<Rightarrow> do {
          r2 \<leftarrow> post_scan c scan_config_path;
          (case r2 of
             Inl err \<Rightarrow> ret \<lparr>sr_projects_status = st1, sr_config_status = 0, sr_error = ''scan/config: '' @ err_text err\<rparr>
           | Inr st2 \<Rightarrow> ret \<lparr>sr_projects_status = st1, sr_config_status = st2, sr_error = []\<rparr>)
        })
   }"

subsection \<open>Health checks and designer sessions\<close>

definition health_check :: "('k, ('k, effect, 'z) io_scheme) ignition_client \<Rightarrow> (('k, effect, 'z) io_scheme, goerror option) state" where
  "health_check c = (let url = ic_base_url c @ ''/data/api/v1/gateway-info'' in
     case h_new_request (ic_http c) ''GET'' url of
       Some err \<Rightarrow> ret (Some (Wrapf ''creating request'' err))
     | None \<Rightarrow> do {
         rq \<leftarrow> authorized c ''GET'' url;
         r \<leftarrow> http_send c rq;
         (case r of
            Inl err \<Rightarrow> ret (Some (Wrapf ''gateway health check'' err))
          | Inr resp \<Rightarrow> ret (if success_status (rs_status resp) then None
                            else Some (Errorf (''gateway returned HTTP '' @ itoa (rs_status resp)))))
       })"

definition port_check :: "('k, ('k, effect, 'z) io_scheme) ignition_client \<Rightarrow> (('k, effect, 'z) io_scheme, goerror option) state" where
  "port_check c = (let url = ic_base_url c @ ''/system/gwinfo'' in
     case h_new_request (ic_http c) ''GET'' url of
       Some err \<Rightarrow> ret (Some (Wrapf ''gateway port check'' err))
     | None \<Rightarrow> do {
         r \<leftarrow> http_send c \<lparr>rq_method = ''GET'', rq_url = url, rq_token = None\<rparr>;
         (case r of
            Inl err \<Rightarrow> ret (Some (Wrapf ''gateway port check'' err))
          | Inr resp \<Rightarrow> ret (if rs_status resp = 503
                            then Some (Errorf ''gateway returned HTTP 503 (still starting)'') else None))
       })"

definition get_designer_sessions :: "('k, ('k, effect, 'z) io_scheme) ignition_client \<Rightarrow>
    (('k, effect, 'z) io_scheme, designer_session list res) state" where
  "get_designer_sessions c = (let url = ic_base_url c @ ''/data/api/v1/designers'' in
     case h_new_request (ic_http c) ''GET'' url of
       Some err \<Rightarrow> ret (Inl (Wrapf ''creating designer sessions request'' err))
     | None \<Rightarrow> do {
         rq \<leftarrow> authorized c ''GET'' url;
         r \<leftarrow> http_send c rq;
         (case r of
            Inl err \<Rightarrow> ret (Inl (Wrapf ''fetching designer sessions'' err))
          | Inr resp \<Rightarrow>
              ret (if rs_status resp \<noteq> 200
                   then Inl (Errorf (''designer sessions API returned HTTP '' @ itoa (rs_status resp)))
                   else (case ic_decode_sessions c (rs_body resp) of
                       Inl err \<Rightarrow> Inl (Wrapf ''decoding designer sessions response'' err)
                     | Inr None \<Rightarrow> Inr []
                     | Inr (Some items) \<Rightarrow> Inr items)))
       })"

subsection \<open>The requests of a scan\<close>

definition post_to :: "string \<Rightarrow> effect \<Rightarrow> bool" where
  "post_to url e = (case e of Http rq answer \<Rightarrow> rq_method rq = ''POST'' \<and> rq_url rq = url | _ \<Rightarrow> False)"

definition posts :: "string \<Rightarrow> effect list \<Rightarrow> nat" where
  "posts url es = length (filter (post_to url) es)"

lemma posts_simps [simp]:
  "posts url [] = 0"
  "posts url (Http rq answer # es) = (if rq_method rq = ''POST'' \<and> rq_url rq = url then Suc (posts url es) else posts url es)"
  "posts url (Sleep n # es) = posts url es"
  "posts url (es @ fs) = posts url es + posts url fs"
  by (auto simp: posts_def post_to_def)

text \<open>The newest entry is a request that was answered with a status of success.\<close>

definition ends_accepted :: "effect list \<Rightarrow> bool" where
  "ends_accepted es = (case es of
      Http rq answer # earlier \<Rightarrow> (case answer of None \<Rightarrow> False | Some code \<Rightarrow> success_status code)
    | _ \<Rightarrow> False)"

lemma ends_accepted_simps [simp]:
  "\<not> ends_accepted []"
  "ends_accepted (Http rq answer # es) = (case answer of None \<Rightarrow> False | Some code \<Rightarrow> success_status code)"
  "\<not> ends_accepted (Sleep n # es)"
  by (simp_all add: ends_accepted_def)

lemma ends_accepted_append: "ends_accepted es \<Longrightarrow> ends_accepted (es @ fs)"
  by (cases es) (simp_all add: ends_accepted_def split: effect.splits)

lemma set_auth_fields [simp]:
  "rq_method (set_auth c s rq) = rq_method rq" "rq_url (set_auth c s rq) = rq_url rq"
  by (simp_all add: set_auth_def Let_def split: option.splits)

definition scan_entry :: "string \<Rightarrow> effect \<Rightarrow> bool" where
  "scan_entry url e \<longleftrightarrow> post_to url e \<or> (\<exists>n. e = Sleep n)"

lemma run_authorized: "run_state (authorized c m url) s =
    (set_auth c s \<lparr>rq_method = m, rq_url = url, rq_token = None\<rparr>, s)"
  by (simp add: authorized_def)

lemma run_http_send: "run_state (http_send c rq) s =
   (let o1 = h_do (ic_http c) rq (io_env s)
    in (fst o1, s\<lparr>io_env := snd o1, io_log := Http rq (case fst o1 of Inl err \<Rightarrow> None | Inr resp \<Rightarrow> Some (rs_status resp)) # io_log s\<rparr>))"
  by (simp add: http_send_def Let_def)

text \<open>
  What the attempts leave in the log: posts to the one address and pauses, at most \<open>left\<close> posts;
  a success is the status of the answer to the last.
\<close>

lemma post_attempts_effect:
  "run_state (post_attempts c url a n e) s = (r, t) \<Longrightarrow>
   \<exists>es. io_log t = es @ io_log s \<and> list_all (scan_entry url) es \<and> posts url es \<le> n \<and>
     (\<forall>code. r = Inr code \<longrightarrow> success_status code \<and> posts url es \<ge> 1 \<and> ends_accepted es) \<and>
     (\<forall>err. r = Inl err \<longrightarrow> h_new_request (ic_http c) ''POST'' url = None \<longrightarrow> posts url es = n)"
proof (induction n arbitrary: a e s r t)
  case 0
  then show ?case by auto
next
  case (Suc n)
  define s0 where "s0 = (if a > 0 then s\<lparr>io_log := Sleep (int a * 2) # io_log s\<rparr> else s)"
  obtain ps where ps: "io_log s0 = ps @ io_log s" "list_all (scan_entry url) ps" "posts url ps = 0"
    by (cases "a > 0") (auto simp: s0_def scan_entry_def)
  have run: "run_state (post_attempts c url a (Suc n) e) s =
      run_state (case h_new_request (ic_http c) ''POST'' url of
        Some err \<Rightarrow> ret (Inl (Wrapf ''creating request'' err))
      | None \<Rightarrow> authorized c ''POST'' url \<bind> (\<lambda>rq. http_send c rq \<bind> (\<lambda>r. case r of
             Inl err \<Rightarrow> post_attempts c url (Suc a) n err
           | Inr resp \<Rightarrow>
               if success_status (rs_status resp) then ret (Inr (rs_status resp))
               else post_attempts c url (Suc a) n (Errorf (''HTTP '' @ itoa (rs_status resp)))))) s0"
    by (simp add: s0_def split: prod.splits)
  show ?case
  proof (cases "h_new_request (ic_http c) ''POST'' url")
    case (Some err)
    with Suc.prems run ps show ?thesis by (intro exI [of _ ps]) (auto simp: run_authorized)
  next
    case None
    define rq where "rq = set_auth c s0 \<lparr>rq_method = ''POST'', rq_url = url, rq_token = None\<rparr>"
    define ans where "ans = (case fst (h_do (ic_http c) rq (io_env s0)) of Inl err \<Rightarrow> None | Inr resp \<Rightarrow> Some (rs_status resp))"
    define s1 where "s1 = s0\<lparr>io_env := snd (h_do (ic_http c) rq (io_env s0)), io_log := Http rq ans # io_log s0\<rparr>"
    have rq: "rq_method rq = ''POST''" "rq_url rq = url" by (simp_all add: rq_def)
    have s1: "io_log s1 = (Http rq ans # ps) @ io_log s" by (simp add: s1_def ps(1))
    have ent: "list_all (scan_entry url) (Http rq ans # ps)" "posts url (Http rq ans # ps) = 1"
      using ps rq by (auto simp: scan_entry_def post_to_def)
    have "(\<exists>code. r = Inr code \<and> success_status code \<and> ans = Some code \<and> t = s1) \<or>
        (\<exists>e'. run_state (post_attempts c url (Suc a) n e') s1 = (r, t))"
      using Suc.prems [unfolded run] None
      by (cases "fst (h_do (ic_http c) rq (io_env s0))")
        (auto simp: run_authorized run_http_send Let_def s1_def rq_def ans_def split: if_splits)
    then show ?thesis
    proof (elim disjE exE conjE)
      fix code assume "r = Inr code" "success_status code" "ans = Some code" "t = s1"
      with s1 ent show ?thesis by (intro exI [of _ "Http rq ans # ps"]) simp
    next
      fix e' assume "run_state (post_attempts c url (Suc a) n e') s1 = (r, t)"
      from Suc.IH [OF this] obtain es where es: "io_log t = es @ io_log s1" "list_all (scan_entry url) es"
        "posts url es \<le> n" "\<forall>code. r = Inr code \<longrightarrow> success_status code \<and> posts url es \<ge> 1 \<and> ends_accepted es"
        "\<forall>err. r = Inl err \<longrightarrow> h_new_request (ic_http c) ''POST'' url = None \<longrightarrow> posts url es = n" by blast
      have "io_log t = (es @ Http rq ans # ps) @ io_log s" using es(1) s1 by simp
      moreover have "list_all (scan_entry url) (es @ Http rq ans # ps)" using es(2) ent(1) by simp
      moreover have "posts url (es @ Http rq ans # ps) = Suc (posts url es)" using ent(2) rq ps(3) by simp
      ultimately show ?thesis using es(3-5) None ends_accepted_append [of es]
        by (intro exI [of _ "es @ Http rq ans # ps"]) auto
    qed
  qed
qed

lemma post_scan_effect:
  assumes "run_state (post_scan c path) s = (r, t)"
  obtains es where "io_log t = es @ io_log s" "list_all (scan_entry (ic_base_url c @ path)) es"
    "posts (ic_base_url c @ path) es \<le> 3"
    "\<And>code. r = Inr code \<Longrightarrow> success_status code \<and> posts (ic_base_url c @ path) es \<ge> 1 \<and> ends_accepted es"
  using post_attempts_effect [OF assms [unfolded post_scan_def]] by blast

lemma scan_paths_differ: "ic_base_url c @ scan_projects_path \<noteq> ic_base_url c @ scan_config_path"
  by (simp add: scan_projects_path_def scan_config_path_def)

lemma posts_other:
  "list_all (scan_entry url) es \<Longrightarrow> url' \<noteq> url \<Longrightarrow> posts url' es = 0"
  by (induction es) (auto simp: posts_def scan_entry_def post_to_def split: effect.splits)

text \<open>The outcomes of \<open>TriggerScan\<close>, with what was sent.\<close>

lemma trigger_scan_cases:
  assumes "run_state (trigger_scan c) s = (r, t)"
  obtains (projects) err es where "sr_error r = ''scan/projects: '' @ err_text err" "io_log t = es @ io_log s"
      "list_all (scan_entry (ic_base_url c @ scan_projects_path)) es"
      "posts (ic_base_url c @ scan_projects_path) es \<le> 3"
  | (config) err es fs where "sr_error r = ''scan/config: '' @ err_text err" "io_log t = fs @ es @ io_log s"
      "list_all (scan_entry (ic_base_url c @ scan_projects_path)) es"
      "list_all (scan_entry (ic_base_url c @ scan_config_path)) fs"
      "1 \<le> posts (ic_base_url c @ scan_projects_path) es"
      "posts (ic_base_url c @ scan_projects_path) es \<le> 3" "posts (ic_base_url c @ scan_config_path) fs \<le> 3"
  | (both) es fs where "sr_error r = []" "io_log t = fs @ es @ io_log s"
      "success_status (sr_projects_status r)" "success_status (sr_config_status r)"
      "list_all (scan_entry (ic_base_url c @ scan_projects_path)) es"
      "list_all (scan_entry (ic_base_url c @ scan_config_path)) fs"
      "1 \<le> posts (ic_base_url c @ scan_projects_path) es" "1 \<le> posts (ic_base_url c @ scan_config_path) fs"
      "posts (ic_base_url c @ scan_projects_path) es \<le> 3" "posts (ic_base_url c @ scan_config_path) fs \<le> 3"
      "ends_accepted es" "ends_accepted fs"
proof -
  obtain r1 s1 where p: "run_state (post_scan c scan_projects_path) s = (r1, s1)" by (rule prod.exhaust)
  obtain es where es: "io_log s1 = es @ io_log s"
    "list_all (scan_entry (ic_base_url c @ scan_projects_path)) es"
    "posts (ic_base_url c @ scan_projects_path) es \<le> 3"
    "\<And>code. r1 = Inr code \<Longrightarrow> success_status code \<and> posts (ic_base_url c @ scan_projects_path) es \<ge> 1 \<and> ends_accepted es"
    by (rule post_scan_effect [OF p]) blast
  show thesis
  proof (cases r1)
    case (Inl err)
    with assms p have "sr_error r = ''scan/projects: '' @ err_text err" "t = s1"
      by (auto simp: trigger_scan_def)
    with es projects show ?thesis by blast
  next
    case (Inr st1)
    note st1 = es(4) [OF Inr]
    obtain r2 s2 where q: "run_state (post_scan c scan_config_path) s1 = (r2, s2)" by (rule prod.exhaust)
    obtain fs where fs: "io_log s2 = fs @ io_log s1"
      "list_all (scan_entry (ic_base_url c @ scan_config_path)) fs"
      "posts (ic_base_url c @ scan_config_path) fs \<le> 3"
      "\<And>code. r2 = Inr code \<Longrightarrow> success_status code \<and> posts (ic_base_url c @ scan_config_path) fs \<ge> 1 \<and> ends_accepted fs"
      by (rule post_scan_effect [OF q]) blast
    show ?thesis
    proof (cases r2)
      case (Inl err)
      with assms p q Inr have "sr_error r = ''scan/config: '' @ err_text err" "t = s2"
        by (auto simp: trigger_scan_def)
      with es fs st1 config show ?thesis by simp
    next
      case r2: (Inr st2)
      with assms p q Inr have "r = \<lparr>sr_projects_status = st1, sr_config_status = st2, sr_error = []\<rparr>" "t = s2"
        by (auto simp: trigger_scan_def)
      with es fs st1 fs(4) [OF r2] both show ?thesis by simp
    qed
  qed
qed

text \<open>\<open>String\<close> contains the word error exactly when the scan failed; the agent relies on it.\<close>

lemma itoa_chars: "ch \<in> set (itoa i) \<Longrightarrow> is_digit ch \<or> ch = CHR ''-''"
  using nat_digits_digits [of "nat i"] nat_digits_digits [of "nat (- i)"]
  by (auto simp: itoa_def list_all_iff split: if_splits)

lemma itoa_no_r: "CHR ''r'' \<notin> set (itoa i)"
  using itoa_chars [of "CHR ''r''" i] by (auto simp: is_digit_def)

lemma sublist_app_mid:
  assumes "sublist [x, y] (a @ b)" "x \<notin> set b" "y \<notin> set b"
  shows "sublist [x, y] a"
proof -
  obtain u v where uv: "a @ b = u @ [x, y] @ v" using assms(1) by (auto simp: sublist_def)
  then obtain us where "a = u @ us \<and> us @ b = x # y # v \<or> u = a @ us \<and> b = us @ x # y # v"
    by (auto simp: append_eq_append_conv2)
  then show ?thesis
  proof
    assume "a = u @ us \<and> us @ b = x # y # v"
    with assms(2,3) have "\<exists>w. us = x # y # w" by (cases us; cases "tl us") auto
    with \<open>a = u @ us \<and> us @ b = x # y # v\<close> show ?thesis by (auto simp: sublist_def)
  qed (use assms(2) in auto)
qed

lemma scan_string_error: "contains_str (scan_result_string r) ''error'' \<longleftrightarrow> sr_error r \<noteq> []"
proof (cases "sr_error r = []")
  case True
  have "\<not> sublist [CHR ''r'', CHR ''r''] (''projects='' @ itoa a @ '' config='' @ itoa b)" for a b
  proof
    assume "sublist [CHR ''r'', CHR ''r''] (''projects='' @ itoa a @ '' config='' @ itoa b)"
    moreover have "CHR ''r'' \<notin> set (itoa a @ '' config='' @ itoa b)" using itoa_no_r by auto
    ultimately have "sublist [CHR ''r'', CHR ''r''] ''projects=''" by (blast intro: sublist_app_mid)
    then show False by (simp add: sublist_code)
  qed
  moreover have "sublist [CHR ''r'', CHR ''r''] ''error''" by (simp add: sublist_code)
  ultimately have "\<not> sublist ''error'' (''projects='' @ itoa a @ '' config='' @ itoa b)" for a b
    using sublist_order.order_trans by blast
  with True show ?thesis unfolding contains_str_def scan_result_string_def by simp
next
  case False
  have "scan_result_string r = [] @ ''error'' @ '': '' @ sr_error r"
    using False by (simp add: scan_result_string_def)
  with False show ?thesis unfolding contains_str_iff by blast
qed

end
