(* ===== verification/AgentSync.thy ===== *)
theory AgentSync
  imports AgentProfile AgentStatus AgentWatcher AgentHealth Ignition "HOL-Library.Word"
begin

section \<open>internal/agent/agent.go: one sync cycle\<close>

text \<open>
  The agent's state is the record \<open>agent_state\<close>: the log and the other systems of \<open>io\<close>, the
  file system, and the mutable fields of \<open>Agent\<close> with its health server and its watcher. What
  the agent calls outside the repository (the Kubernetes API, the transport of HTTP, the clock, the
  other goroutine's select) and the \<open>git.Client\<close> interface are fields of \<open>agent_env\<close>. Times are
  nanoseconds since the zero \<open>time.Time\<close>. The samples of counters, gauges and histograms are
  entries of the log, those of histograms without the duration they observe.
\<close>

datatype wait_event = Cancelled | TimedOut | Tick

record ('k, 'j) agent_env =
  ae_cfg :: agent_config
  ae_sys :: sysenv
  ae_content :: "'j content_env"
  ae_json :: json_env
  ae_cm :: "'k cm_api"
  ae_http :: "'k http_api"
  ae_decode_sessions :: "string \<Rightarrow> designer_session list option res"
  ae_pod_labels :: "string \<Rightarrow> string \<Rightarrow> 'k \<Rightarrow> (string, string) gomap res \<times> 'k"
  ae_get_cr :: "string \<Rightarrow> string \<Rightarrow> 'k \<Rightarrow> goerror option \<times> 'k"
  ae_git :: "string \<Rightarrow> string \<Rightarrow> apath \<Rightarrow> 'k \<times> world \<Rightarrow> git_result res \<times> ('k \<times> world)"
  ae_now :: "'k \<Rightarrow> int \<times> 'k"
  ae_format_time :: "int \<Rightarrow> string"
  ae_duration :: "'k \<Rightarrow> string \<times> 'k"
  ae_select :: "'k \<Rightarrow> wait_event \<times> 'k"
  ae_engine_excludes :: "string list"
  ae_recorder :: bool
  ae_version :: string

record 'k agent_state = "('k, effect) io" +
  ag_world :: world
  ag_cr_ref :: bool
  ag_last_commit :: string
  ag_last_profiles :: string
  ag_initial_done :: bool
  ag_errors :: int
  ag_backoff_until :: int
  ag_in_progress :: bool
  ag_shutdown_ch :: bool
  ag_health :: health_server
  ag_watcher :: watcher

text \<open>\<open>New\<close>: the patterns every plan gets, and the state before \<open>Run\<close>.\<close>

definition engine_excludes :: "string list" where
  "engine_excludes = [''**/.git/**'', ''**/.git'', ''**/.gitkeep'', ''**/.resources/**'', ''**/.resources'']"

definition seconds :: "int \<Rightarrow> int" where
  "seconds n = n * 1000000000"

definition new_agent :: "agent_config \<Rightarrow> 'k \<Rightarrow> world \<Rightarrow> 'k agent_state" where
  "new_agent cfg k w = \<lparr>io_env = k, io_log = [], ag_world = w, ag_cr_ref = False, ag_last_commit = [],
     ag_last_profiles = [], ag_initial_done = False, ag_errors = 0, ag_backoff_until = 0,
     ag_in_progress = False, ag_shutdown_ch = False, ag_health = new_health_server,
     ag_watcher = new_watcher (seconds (c_sync_period cfg))\<rparr>"

definition agent_client :: "('k, 'j) agent_env \<Rightarrow> ('k, 'k agent_state) ignition_client" where
  "agent_client E = new_client (gateway_scheme (ae_cfg E)) (gateway_host (ae_cfg E))
     (Some (\<lambda>s. api_key (ae_cfg E) (store (ag_world s)))) (ae_http E) (ae_decode_sessions E)"

definition default_profile_name :: string where
  "default_profile_name = ''default''"

subsection \<open>Events and status\<close>

definition event :: "('k, 'j) agent_env \<Rightarrow> string \<Rightarrow> string \<Rightarrow> string \<Rightarrow> ('k agent_state, unit) state" where
  "event E etype reason msg = do {
     hasRef \<leftarrow> reads ag_cr_ref;
     (if \<not> ae_recorder E \<or> \<not> hasRef then ret () else emit (Event etype reason msg)) }"

definition write_status :: "('k, 'j) agent_env \<Rightarrow> gateway_status \<Rightarrow> ('k agent_state, goerror option) state" where
  "write_status E st = write_status_config_map (ae_cm E) (ae_json E) (c_cr_namespace (ae_cfg E))
     (c_cr_name (ae_cfg E)) (c_gateway_name (ae_cfg E)) st"

definition error_status :: "string \<Rightarrow> string \<Rightarrow> string \<Rightarrow> string \<Rightarrow> string \<Rightarrow> gateway_status" where
  "error_status commit ref now version errMsg = empty_status\<lparr>
     gs_sync_status := sync_status_error, gs_synced_commit := commit, gs_synced_ref := ref,
     gs_last_sync_time := now, gs_agent_version := version, gs_error_message := errMsg\<rparr>"

definition report_error :: "('k, 'j) agent_env \<Rightarrow> string \<Rightarrow> string \<Rightarrow> string \<Rightarrow> ('k agent_state, unit) state" where
  "report_error E commit ref errMsg = do {
     event E ''Warning'' ''SyncFailed'' errMsg;
     now \<leftarrow> call (ae_now E);
     _ \<leftarrow> write_status E (error_status commit ref (ae_format_time E now) (ae_version E) errMsg);
     ret () }"

definition blocked_status :: "string \<Rightarrow> string \<Rightarrow> bool \<Rightarrow> string \<Rightarrow> gateway_status" where
  "blocked_status version now isBlocked lastCommit = empty_status\<lparr>
     gs_sync_status := sync_status_pending, gs_agent_version := version, gs_last_sync_time := now,
     gs_designer_blocked := isBlocked, gs_synced_commit := lastCommit\<rparr>"

definition set_designer_blocked :: "('k, 'j) agent_env \<Rightarrow> bool \<Rightarrow> ('k agent_state, unit) state" where
  "set_designer_blocked E isBlocked = do {
     now \<leftarrow> call (ae_now E);
     lastCommit \<leftarrow> reads ag_last_commit;
     _ \<leftarrow> write_status E (blocked_status (ae_version E) (ae_format_time E now) isBlocked lastCommit);
     ret () }"

subsection \<open>Profiles\<close>

definition lookup_profile :: "('k, 'j) agent_env \<Rightarrow> metadata \<Rightarrow> (resolved_profile \<times> string) res" where
  "lookup_profile E meta =
     (case parse_resolved_profiles (ae_json E) (md_profiles meta) of
        Inl err \<Rightarrow> Inl (Wrapf ''parsing profiles'' err)
      | Inr profiles \<Rightarrow>
          (let profileName = (if c_profile_name (ae_cfg E) = [] then default_profile_name
                              else c_profile_name (ae_cfg E)) in
           case mget profiles profileName of
             None \<Rightarrow> Inl (Errorf (''profile '' @ quote profileName @ '' not found in metadata ConfigMap''))
           | Some profile \<Rightarrow> Inr (profile, profileName)))"

definition apply_sync_period :: "resolved_profile \<Rightarrow> ('k agent_state, unit) state" where
  "apply_sync_period profile =
     (if rp_sync_period profile > 0
      then modify (\<lambda>s. s\<lparr>ag_watcher := update_period (seconds (rp_sync_period profile)) (ag_watcher s)\<rparr>)
      else ret ())"

definition apply_sync_period_from_meta :: "('k, 'j) agent_env \<Rightarrow> metadata \<Rightarrow> ('k agent_state, unit) state" where
  "apply_sync_period_from_meta E meta =
     (case lookup_profile E meta of
        Inl err \<Rightarrow> ret ()
      | Inr (profile, name) \<Rightarrow> apply_sync_period profile)"

definition read_metadata :: "('k, 'j) agent_env \<Rightarrow> ('k agent_state, metadata res) state" where
  "read_metadata E = read_metadata_config_map (ae_cm E) (c_cr_namespace (ae_cfg E)) (c_cr_name (ae_cfg E))"

subsection \<open>syncWithProfile\<close>

definition empty_sync_result :: sync_result where
  "empty_sync_result = \<lparr>r_files_added = 0, r_files_modified = 0, r_files_deleted = 0,
     r_projects_synced = [], r_dry_run_diff = None\<rparr>"

definition run_plan :: "('k, 'j) agent_env \<Rightarrow> sync_plan \<Rightarrow> ('k agent_state, sync_result res) state" where
  "run_plan E plan = State (\<lambda>s. case execute_plan (ae_sys E) plan (ag_world s) of
      (r, w) \<Rightarrow> (r, s\<lparr>ag_world := w\<rparr>))"

definition agent_plan :: "('k, 'j) agent_env \<Rightarrow> metadata \<Rightarrow> resolved_profile \<Rightarrow> (string, string) gomap \<Rightarrow> fs \<Rightarrow> sync_plan res" where
  "agent_plan E meta profile labels fsys =
     (let tmplCtx = build_template_context (ae_cfg E) meta (rp_vars profile) labels in
      case build_sync_plan (ae_sys E) (ae_content E) fsys profile tmplCtx
          (abs_path (c_repo_path (ae_cfg E))) (abs_path (c_data_path (ae_cfg E))) of
        Inl err \<Rightarrow> Inl (Wrapf ''building sync plan'' err)
      | Inr plan \<Rightarrow> Inr (plan\<lparr>p_exclude_patterns := p_exclude_patterns plan @ ae_engine_excludes E\<rparr>))"

text \<open>The result, the profile's name and its dry-run flag, which are set in the error case too.\<close>

definition sync_with_profile :: "('k, 'j) agent_env \<Rightarrow> ('k agent_state, sync_result res \<times> string \<times> bool) state" where
  "sync_with_profile E = do {
     m \<leftarrow> read_metadata E;
     (case m of
        Inl err \<Rightarrow> ret (Inl (Wrapf ''reading metadata'' err), [], False)
      | Inr meta \<Rightarrow>
        (case lookup_profile E meta of
           Inl err \<Rightarrow> ret (Inl err, [], False)
         | Inr (profile, profileName) \<Rightarrow>
           (if rp_paused profile then ret (Inr empty_sync_result, profileName, rp_dry_run profile)
            else do {
              l \<leftarrow> call (ae_pod_labels E (c_pod_namespace (ae_cfg E)) (c_pod_name (ae_cfg E)));
              (case l of
                 Inl err \<Rightarrow> ret (Inl (Wrapf ''reading pod labels'' err), profileName, rp_dry_run profile)
               | Inr labels \<Rightarrow> do {
                   fsys \<leftarrow> reads (\<lambda>s. store (ag_world s));
                   (case agent_plan E meta profile labels fsys of
                      Inl err \<Rightarrow> ret (Inl err, profileName, rp_dry_run profile)
                    | Inr plan \<Rightarrow> do {
                        r \<leftarrow> run_plan E plan;
                        ret ((case r of Inl err \<Rightarrow> Inl (Wrapf ''executing plan'' err) | Inr res \<Rightarrow> Inr res),
                             profileName, rp_dry_run profile)
                      })
                 })
            }))) }"

end
