(* ===== verification/AgentLoop.thy ===== *)
theory AgentLoop
  imports AgentSync
begin

section \<open>internal/agent/agent.go: sync cycles, triggers, the main loop\<close>

text \<open>
  \<open>syncOnce\<close>, the designer session check, \<open>handleSyncTrigger\<close> and the start of \<open>Run\<close>. A
  trigger is two parts, because \<open>syncMu\<close> is taken in the middle: \<open>trigger_read\<close> before the lock
  and \<open>trigger_locked\<close> under it.
\<close>

subsection \<open>syncOnce\<close>

text \<open>\<open>int32(n)\<close> of an \<open>int\<close>.\<close>

definition to_int32 :: "int \<Rightarrow> int" where
  "to_int32 n = sint (word_of_int n :: 32 word)"

definition files_changed :: "sync_result \<Rightarrow> int" where
  "files_changed res = to_int32 (int (r_files_added res) + int (r_files_modified res) + int (r_files_deleted res))"

definition file_gauges :: "string \<Rightarrow> sync_result \<Rightarrow> ('k agent_state, unit) state" where
  "file_gauges profileName res = do {
     emit (GaugeSet ''FilesChanged'' [profileName] (files_changed res));
     emit (GaugeSet ''FilesAdded'' [profileName] (int (r_files_added res)));
     emit (GaugeSet ''FilesModified'' [profileName] (int (r_files_modified res)));
     emit (GaugeSet ''FilesDeleted'' [profileName] (int (r_files_deleted res))) }"

definition scan_step :: "('k, 'j) agent_env \<Rightarrow> bool \<Rightarrow> bool \<Rightarrow> ('k agent_state, string) state" where
  "scan_step E isDryRun isInitial =
     (if isDryRun then ret []
      else if \<not> isInitial then do {
        scanResult \<leftarrow> trigger_scan (agent_client E);
        emit (Sampled ''ScanDuration'' []);
        (if sr_error scanResult \<noteq> [] then emit (CounterInc ''ScanTotal'' [''error''])
         else emit (CounterInc ''ScanTotal'' [''success'']));
        ret (scan_result_string scanResult)
      } else do {
        e \<leftarrow> health_check (agent_client E);
        ret (case e of Some err \<Rightarrow> ''health check failed: '' @ err_text err | None \<Rightarrow> [])
      })"

text \<open>The reported status and error message.\<close>

definition sync_outcome :: "bool \<Rightarrow> bool \<Rightarrow> string \<Rightarrow> string \<times> string" where
  "sync_outcome isDryRun isInitial scanResultStr =
     (if isDryRun then (sync_status_synced, [])
      else if isInitial then (sync_status_pending, [])
      else if scanResultStr = [] \<or> contains_str scanResultStr ''error''
      then (sync_status_error, if scanResultStr = [] then ''scan not performed'' else scanResultStr)
      else (sync_status_synced, []))"

definition sync_report :: "string \<Rightarrow> string \<Rightarrow> string \<Rightarrow> string \<Rightarrow> string \<Rightarrow> string \<Rightarrow> sync_result \<Rightarrow> string \<Rightarrow> bool \<Rightarrow> string \<times> string \<Rightarrow> gateway_status" where
  "sync_report commit ref now duration version scanResultStr res profileName isDryRun outcome =
     \<lparr>gs_sync_status = fst outcome, gs_synced_commit = commit, gs_synced_ref = ref,
      gs_last_sync_time = now, gs_last_sync_duration = duration, gs_agent_version = version,
      gs_last_scan_result = scanResultStr, gs_files_changed = files_changed res,
      gs_projects_synced = r_projects_synced res, gs_error_message = snd outcome,
      gs_profile_name = profileName, gs_dry_run = isDryRun,
      gs_diff_added = (case r_dry_run_diff res of Some d \<Rightarrow> if isDryRun then to_int32 (int (length (d_added d))) else 0 | None \<Rightarrow> 0),
      gs_diff_modified = (case r_dry_run_diff res of Some d \<Rightarrow> if isDryRun then to_int32 (int (length (d_modified d))) else 0 | None \<Rightarrow> 0),
      gs_diff_deleted = (case r_dry_run_diff res of Some d \<Rightarrow> if isDryRun then to_int32 (int (length (d_deleted d))) else 0 | None \<Rightarrow> 0),
      gs_designer_blocked = False\<rparr>"

text \<open>\<open>Time.Unix\<close> of an instant in nanoseconds since the zero \<open>time.Time\<close>: seconds since 1970.\<close>

definition unix_time :: "int \<Rightarrow> int" where
  "unix_time t = t div seconds 1 - 62135596800"

definition record_synced :: "string \<Rightarrow> string \<Rightarrow> ('k agent_state, unit) state" where
  "record_synced commit profiles = modify (\<lambda>s. s\<lparr>ag_last_commit := commit, ag_last_profiles := profiles\<rparr>)"

definition sync_failed :: "('k, 'j) agent_env \<Rightarrow> string \<Rightarrow> string \<Rightarrow> string \<Rightarrow> goerror \<Rightarrow> ('k agent_state, goerror option) state" where
  "sync_failed E commit ref profileName err = do {
     emit (CounterInc ''SyncTotal'' [profileName, ''error'']);
     emit (GaugeSet ''LastSyncSuccess'' [] 0);
     report_error E commit ref (''sync engine: '' @ err_text err);
     event E ''Warning'' ''SyncFailed'' (''Sync failed: '' @ err_text err);
     ret (Some (Wrapf ''sync engine'' err)) }"

definition sync_report_step :: "('k, 'j) agent_env \<Rightarrow> string \<Rightarrow> string \<Rightarrow> bool \<Rightarrow> string \<Rightarrow> sync_result \<Rightarrow> string \<Rightarrow> bool \<Rightarrow> ('k agent_state, goerror option) state" where
  "sync_report_step E commit ref isInitial profiles res profileName isDryRun = do {
     scanResultStr \<leftarrow> scan_step E isDryRun isInitial;
     (let outcome = sync_outcome isDryRun isInitial scanResultStr in do {
        now \<leftarrow> call (ae_now E);
        dur \<leftarrow> call (ae_duration E);
        _ \<leftarrow> write_status E (sync_report commit ref (ae_format_time E now) dur (ae_version E)
               scanResultStr res profileName isDryRun outcome);
        (if fst outcome = sync_status_error then do {
           emit (CounterInc ''SyncTotal'' [profileName, ''error'']);
           emit (GaugeSet ''LastSyncSuccess'' [] 0);
           event E ''Warning'' ''SyncFailed'' (''Sync on '' @ c_gateway_name (ae_cfg E) @
             '' copied files but scan failed: '' @ snd outcome);
           ret (Some (Errorf (''scan after sync: '' @ snd outcome)))
         } else do {
           emit (CounterInc ''SyncTotal'' [profileName, ''success'']);
           stamp \<leftarrow> call (ae_now E);
           emit (GaugeSet ''LastSyncTimestamp'' [] (unix_time stamp));
           emit (GaugeSet ''LastSyncSuccess'' [] 1);
           event E ''Normal'' ''SyncCompleted'' (''Sync completed on '' @ c_gateway_name (ae_cfg E) @
             '': commit '' @ take 12 commit @ '', '' @ itoa (files_changed res) @ '' file(s) changed'');
           record_synced commit profiles;
           ret None
         })
     }) }"

definition sync_once :: "('k, 'j) agent_env \<Rightarrow> string \<Rightarrow> string \<Rightarrow> bool \<Rightarrow> string \<Rightarrow> ('k agent_state, goerror option) state" where
  "sync_once E commit ref isInitial profiles = do {
     p \<leftarrow> sync_with_profile E;
     (case p of (r, profileName, isDryRun) \<Rightarrow> do {
        emit (Sampled ''SyncDuration'' [profileName]);
        (case r of
           Inl err \<Rightarrow> sync_failed E commit ref profileName err
         | Inr res \<Rightarrow> do {
             file_gauges profileName res;
             down \<leftarrow> reads (\<lambda>s. is_shutting_down (ag_health s));
             (if down then do { record_synced commit profiles; ret None }
              else sync_report_step E commit ref isInitial profiles res profileName isDryRun)
           }) }) }"

subsection \<open>Designer sessions\<close>

definition format_designer_sessions :: "designer_session list \<Rightarrow> string" where
  "format_designer_sessions sessions =
     join_with '', '' (map (\<lambda>s. ds_user s @ '' on '' @ ds_project s) sessions)"

text \<open>
  The wait of policy wait: a select between the context, the 5-minute timer and the 10-second
  ticker, so at most 30 ticks are seen; \<open>n\<close> counts the ones left, and with none left the select
  can only end by the context or the timer.
\<close>

fun designer_wait :: "('k, 'j) agent_env \<Rightarrow> string \<Rightarrow> string \<Rightarrow> string \<Rightarrow> nat \<Rightarrow> ('k agent_state, bool) state" where
  "designer_wait E commit ref sessionInfo n = do {
     ev \<leftarrow> call (ae_select E);
     (case (ev, n) of
        (Cancelled, _) \<Rightarrow> ret True
      | (Tick, Suc n') \<Rightarrow> do {
          r \<leftarrow> get_designer_sessions (agent_client E);
          (case r of
             Inl err \<Rightarrow> ret False
           | Inr sessions \<Rightarrow> if sessions = [] then ret False else designer_wait E commit ref sessionInfo n')
        }
      | _ \<Rightarrow> do {
          event E ''Warning'' ''DesignerSessionsBlocked''
            (''Designer sessions blocked sync (5m timeout): '' @ sessionInfo);
          report_error E commit ref (''designer sessions still active after 5m timeout: '' @ sessionInfo);
          ret True
        }) }"

declare designer_wait.simps [simp del]

definition designer_wait_ticks :: nat where
  "designer_wait_ticks = 30"

definition check_designer_sessions :: "('k, 'j) agent_env \<Rightarrow> string \<Rightarrow> string \<Rightarrow> string \<Rightarrow> ('k agent_state, bool) state" where
  "check_designer_sessions E policy0 commit ref = (let policy = (if policy0 = [] then ''proceed'' else policy0) in do {
     r \<leftarrow> get_designer_sessions (agent_client E);
     (case r of
        Inl err \<Rightarrow> do { emit (GaugeSet ''DesignerSessionsActive'' [] 0); ret False }
      | Inr sessions \<Rightarrow> do {
          emit (GaugeSet ''DesignerSessionsActive'' [] (int (length sessions)));
          (if sessions = [] then ret False
           else (let sessionInfo = format_designer_sessions sessions in
             if policy = ''proceed'' then ret False
             else if policy = ''fail'' then do {
               event E ''Warning'' ''DesignerSessionsBlocked'' (''Designer sessions blocked sync: '' @ sessionInfo);
               report_error E commit ref (''designer sessions active (policy=fail): '' @ sessionInfo);
               ret True
             } else if policy = ''wait'' then do {
               set_designer_blocked E True;
               b \<leftarrow> designer_wait E commit ref sessionInfo designer_wait_ticks;
               set_designer_blocked E False;
               ret b
             } else ret False))
        }) })"

subsection \<open>handleSyncTrigger\<close>

text \<open>\<open>min(30*time.Second<<(n-1), 5*time.Minute)\<close>, in \<open>int64\<close> nanoseconds.\<close>

definition backoff_delay :: "int \<Rightarrow> int" where
  "backoff_delay n = min (sint (push_bit (nat (n - 1)) (word_of_int (seconds 30) :: 64 word))) (seconds 300)"

definition back_off :: "('k, 'j) agent_env \<Rightarrow> ('k agent_state, unit) state" where
  "back_off E = do {
     modify (\<lambda>s. s\<lparr>ag_errors := ag_errors s + 1\<rparr>);
     n \<leftarrow> reads ag_errors;
     now \<leftarrow> call (ae_now E);
     modify (\<lambda>s. s\<lparr>ag_backoff_until := now + backoff_delay n\<rparr>) }"

definition fetch_repo :: "('k, 'j) agent_env \<Rightarrow> string \<Rightarrow> string \<Rightarrow> ('k agent_state, git_result res) state" where
  "fetch_repo E gitURL ref = do {
     emit (GitFetch gitURL ref (abs_path (c_repo_path (ae_cfg E))));
     State (\<lambda>s. case ae_git E gitURL ref (abs_path (c_repo_path (ae_cfg E))) (io_env s, ag_world s) of
        (r, (k, w)) \<Rightarrow> (r, s\<lparr>io_env := k, ag_world := w\<rparr>)) }"

text \<open>Before the lock: \<open>None\<close> when the trigger is dropped.\<close>

definition trigger_read :: "('k, 'j) agent_env \<Rightarrow> ('k agent_state, metadata option) state" where
  "trigger_read E = do {
     now \<leftarrow> call (ae_now E);
     till \<leftarrow> reads ag_backoff_until;
     (if now < till then do { emit (CounterInc ''SyncSkippedTotal'' [''backoff'']); ret None }
      else do {
        m \<leftarrow> read_metadata E;
        (case m of
           Inl err \<Rightarrow> ret None
         | Inr meta \<Rightarrow>
             if md_paused meta = ''true'' then do { emit (CounterInc ''SyncSkippedTotal'' [''paused'']); ret None }
             else ret (Some meta))
      }) }"

text \<open>After a fetch: the session check, the sync, and the bookkeeping of failures.\<close>

definition sync_or_back_off :: "('k, 'j) agent_env \<Rightarrow> metadata \<Rightarrow> git_result \<Rightarrow> ('k agent_state, unit) state" where
  "sync_or_back_off E meta result = do {
     e \<leftarrow> sync_once E (gr_commit result) (gr_ref result) False (md_profiles meta);
     (case e of
        Some err \<Rightarrow> back_off E
      | None \<Rightarrow> modify (\<lambda>s. s\<lparr>ag_errors := 0, ag_backoff_until := 0\<rparr>)) }"

definition trigger_sync :: "('k, 'j) agent_env \<Rightarrow> metadata \<Rightarrow> git_result \<Rightarrow> ('k agent_state, unit) state" where
  "trigger_sync E meta result =
     (case lookup_profile E meta of
        Inl err \<Rightarrow> do {
          emit (CounterInc ''SyncSkippedTotal'' [''profile_error'']);
          report_error E (gr_commit result) (gr_ref result) (''looking up profile: '' @ err_text err) }
      | Inr (profile, profileName) \<Rightarrow> do {
          apply_sync_period profile;
          (if \<not> rp_paused profile \<and> \<not> rp_dry_run profile then do {
             isBlocked \<leftarrow> check_designer_sessions E (rp_designer_policy profile) (gr_commit result) (gr_ref result);
             (if isBlocked then do {
                emit (GaugeSet ''DesignerBlocked'' [] 1);
                emit (CounterInc ''SyncSkippedTotal'' [''designer_blocked'']);
                event E ''Warning'' ''SyncSkipped''
                  (''Sync skipped: designer sessions blocked sync (policy='' @ rp_designer_policy profile @ '')'')
              } else do {
                emit (GaugeSet ''DesignerBlocked'' [] 0);
                sync_or_back_off E meta result })
           } else sync_or_back_off E meta result) })"

definition trigger_locked :: "('k, 'j) agent_env \<Rightarrow> string \<Rightarrow> metadata \<Rightarrow> ('k agent_state, unit) state" where
  "trigger_locked E gitURL meta = do {
     lastCommit \<leftarrow> reads ag_last_commit;
     lastProfiles \<leftarrow> reads ag_last_profiles;
     (if md_commit meta = lastCommit \<and> md_profiles meta = lastProfiles
      then emit (CounterInc ''SyncSkippedTotal'' [''commit_unchanged''])
      else do {
        modify (\<lambda>s. s\<lparr>ag_in_progress := True\<rparr>);
        r \<leftarrow> fetch_repo E gitURL (md_ref meta);
        emit (Sampled ''GitFetchDuration'' [''fetch'']);
        (case r of
           Inl err \<Rightarrow> do {
             emit (CounterInc ''GitFetchTotal'' [''fetch'', ''error'']);
             back_off E;
             report_error E (md_commit meta) (md_ref meta) (''git fetch: '' @ err_text err) }
         | Inr result \<Rightarrow> do {
             emit (CounterInc ''GitFetchTotal'' [''fetch'', ''success'']);
             trigger_sync E meta result });
        modify (\<lambda>s. s\<lparr>ag_in_progress := False, ag_shutdown_ch := True\<rparr>)
      }) }"

definition handle_sync_trigger :: "('k, 'j) agent_env \<Rightarrow> string \<Rightarrow> ('k agent_state, unit) state" where
  "handle_sync_trigger E gitURL = do {
     m \<leftarrow> trigger_read E;
     (case m of None \<Rightarrow> ret () | Some meta \<Rightarrow> trigger_locked E gitURL meta) }"

end
