(* ===== verification/AgentRun.thy ===== *)
theory AgentRun
  imports AgentLoop
begin

section \<open>internal/agent/agent.go: Run\<close>

text \<open>
  The start of the agent up to the readiness mark, and then the steps of its goroutines: the main
  loop, the post-commission sync and the watcher. The two polling loops take a bound on the number
  of polls; \<open>None\<close> as result means that they are still polling.
\<close>

definition fetch_cr_ref :: "('k, 'j) agent_env \<Rightarrow> ('k agent_state, unit) state" where
  "fetch_cr_ref E = do {
     e \<leftarrow> call (ae_get_cr E (c_cr_namespace (ae_cfg E)) (c_cr_name (ae_cfg E)));
     (case e of Some err \<Rightarrow> ret () | None \<Rightarrow> modify (\<lambda>s. s\<lparr>ag_cr_ref := True\<rparr>)) }"

fun wait_for_metadata :: "('k, 'j) agent_env \<Rightarrow> nat \<Rightarrow> ('k agent_state, metadata res option) state" where
  "wait_for_metadata E 0 = ret None"
| "wait_for_metadata E (Suc n) = do {
     m \<leftarrow> read_metadata E;
     (if (case m of Inl err \<Rightarrow> False | Inr meta \<Rightarrow> md_commit meta \<noteq> []) then ret (Some m)
      else do {
        ev \<leftarrow> call (ae_select E);
        (if ev = Cancelled then ret (Some (Inl (Errorf ''context canceled'')))
         else wait_for_metadata E n) }) }"

text \<open>\<open>Run\<close> up to the start of the background goroutines: the git URL and the cloned commit.\<close>

definition initial_sync :: "('k, 'j) agent_env \<Rightarrow> metadata \<Rightarrow> git_result \<Rightarrow> ('k agent_state, unit) state" where
  "initial_sync E meta result = do {
     _ \<leftarrow> sync_once E (gr_commit result) (gr_ref result) True (md_profiles meta);
     modify (\<lambda>s. s\<lparr>ag_initial_done := True\<rparr>);
     modify (\<lambda>s. s\<lparr>ag_health := mark_ready (ag_health s)\<rparr>);
     emit MarkedReady }"

definition run_startup :: "('k, 'j) agent_env \<Rightarrow> nat \<Rightarrow> ('k agent_state, (string \<times> git_result) res option) state" where
  "run_startup E polls = do {
     m \<leftarrow> wait_for_metadata E polls;
     (case m of
        None \<Rightarrow> ret None
      | Some mr \<Rightarrow>
        (case mr of
           Inl err \<Rightarrow> ret (Some (Inl (Wrapf ''waiting for metadata'' err)))
         | Inr meta \<Rightarrow> do {
             apply_sync_period_from_meta E meta;
             fetch_cr_ref E;
             (if md_git_url meta = [] then ret (Some (Inl (Errorf ''gitURL not found in metadata ConfigMap'')))
              else do {
                r \<leftarrow> fetch_repo E (md_git_url meta) (md_ref meta);
                emit (Sampled ''GitFetchDuration'' [''clone'']);
                (case r of
                   Inl err \<Rightarrow> do {
                     emit (CounterInc ''GitFetchTotal'' [''clone'', ''error'']);
                     event E ''Warning'' ''CloneFailed'' (''Initial clone failed: '' @ err_text err);
                     ret (Some (Inl (Wrapf ''initial clone'' err))) }
                 | Inr result \<Rightarrow> do {
                     emit (CounterInc ''GitFetchTotal'' [''clone'', ''success'']);
                     initial_sync E meta result;
                     ret (Some (Inr (md_git_url meta, result))) })
              })
           })) }"

text \<open>One iteration of \<open>postCommissionSync\<close>: whether the goroutine goes on.\<close>

definition post_commission_poll :: "('k, 'j) agent_env \<Rightarrow> git_result \<Rightarrow> ('k agent_state, bool) state" where
  "post_commission_poll E result = do {
     ev \<leftarrow> call (ae_select E);
     (if ev = Cancelled then ret False
      else do {
        e \<leftarrow> port_check (agent_client E);
        (case e of
           Some err \<Rightarrow> ret True
         | None \<Rightarrow> do {
             emit (Sampled ''GatewayStartupDuration'' []);
             profiles \<leftarrow> reads ag_last_profiles;
             _ \<leftarrow> sync_once E (gr_commit result) (gr_ref result) False profiles;
             ret False }) }) }"

text \<open>The \<open>ctx.Done()\<close> case of the main loop: whether it waits for a sync in flight.\<close>

definition shutdown :: "('k agent_state, bool) state" where
  "shutdown = do {
     modify (\<lambda>s. s\<lparr>ag_health := mark_not_ready (ag_health s)\<rparr>);
     busy \<leftarrow> reads ag_in_progress;
     ret busy }"

subsection \<open>The goroutines\<close>

text \<open>
  Where the main goroutine is: in its select, before the lock of a trigger with the metadata it
  read, or returned. A step under \<open>syncMu\<close> is atomic: the two goroutines that take it exclude
  each other.
\<close>

datatype main_pc = Idle | Locking metadata | Stopped bool

record 'k running =
  rn_agent :: "'k agent_state"
  rn_pc :: main_pc
  rn_post :: bool

inductive agent_step :: "('k, 'j) agent_env \<Rightarrow> string \<Rightarrow> git_result \<Rightarrow> 'k running \<Rightarrow> 'k running \<Rightarrow> bool"
  for E gitURL result where
  trigger_drop: "rn_pc c = Idle \<Longrightarrow> w_sync_ch (ag_watcher (rn_agent c)) \<Longrightarrow>
    run_state (trigger_read E) ((rn_agent c)\<lparr>ag_watcher := take_event (ag_watcher (rn_agent c))\<rparr>) = (None, s) \<Longrightarrow>
    agent_step E gitURL result c (c\<lparr>rn_agent := s\<rparr>)"
| trigger_take: "rn_pc c = Idle \<Longrightarrow> w_sync_ch (ag_watcher (rn_agent c)) \<Longrightarrow>
    run_state (trigger_read E) ((rn_agent c)\<lparr>ag_watcher := take_event (ag_watcher (rn_agent c))\<rparr>) = (Some meta, s) \<Longrightarrow>
    agent_step E gitURL result c (c\<lparr>rn_agent := s, rn_pc := Locking meta\<rparr>)"
| trigger_run: "rn_pc c = Locking meta \<Longrightarrow> run_state (trigger_locked E gitURL meta) (rn_agent c) = (u, s) \<Longrightarrow>
    agent_step E gitURL result c (c\<lparr>rn_agent := s, rn_pc := Idle\<rparr>)"
| post_step: "rn_post c \<Longrightarrow> run_state (post_commission_poll E result) (rn_agent c) = (goOn, s) \<Longrightarrow>
    agent_step E gitURL result c (c\<lparr>rn_agent := s, rn_post := goOn\<rparr>)"
| watcher_goes: "watcher_step (ag_watcher (rn_agent c)) w \<Longrightarrow>
    agent_step E gitURL result c (c\<lparr>rn_agent := (rn_agent c)\<lparr>ag_watcher := w\<rparr>\<rparr>)"
| others_go: "agent_step E gitURL result c (c\<lparr>rn_agent := (rn_agent c)\<lparr>io_env := k\<rparr>\<rparr>)"
| stop: "rn_pc c = Idle \<Longrightarrow> run_state shutdown (rn_agent c) = (busy, s) \<Longrightarrow>
    agent_step E gitURL result c (c\<lparr>rn_agent := s, rn_pc := Stopped busy\<rparr>)"

inductive_cases agent_stepE: "agent_step E gitURL result c c'"

inductive agent_reach :: "('k, 'j) agent_env \<Rightarrow> 'k \<Rightarrow> world \<Rightarrow> nat \<Rightarrow> string \<Rightarrow> git_result \<Rightarrow> 'k running \<Rightarrow> bool"
  for E k w polls gitURL result where
  started: "run_state (run_startup E polls) (new_agent (ae_cfg E) k w) = (Some (Inr (gitURL, result)), s) \<Longrightarrow>
    agent_reach E k w polls gitURL result \<lparr>rn_agent = s, rn_pc = Idle, rn_post = True\<rparr>"
| moved: "agent_reach E k w polls gitURL result c \<Longrightarrow> agent_step E gitURL result c c' \<Longrightarrow>
    agent_reach E k w polls gitURL result c'"

subsection \<open>Parts of the state an operation leaves alone\<close>

text \<open>
  \<open>keep_field f\<close>: the field is the same after; what a fixed set of fields keeps is proved once for
  the operations that only send.
\<close>

definition ag_core :: "'k agent_state \<Rightarrow> world \<times> bool \<times> string \<times> string \<times> bool \<times> int \<times> int \<times> bool \<times> bool \<times> health_server \<times> watcher" where
  "ag_core s = (ag_world s, ag_cr_ref s, ag_last_commit s, ag_last_profiles s, ag_initial_done s, ag_errors s,
     ag_backoff_until s, ag_in_progress s, ag_shutdown_ch s, ag_health s, ag_watcher s)"

definition same_core :: "'k agent_state \<Rightarrow> 'k agent_state \<Rightarrow> bool" where
  "same_core s t \<longleftrightarrow> ag_core s = ag_core t \<and> log_grows s t"

interpretation core: step_order same_core
  by unfold_locales (auto simp: same_core_def grow.R_refl intro: grow.R_trans)

lemma core_emit: "core.keeps (emit e)"
  unfolding emit_def by (rule core.keeps_modify) (simp add: same_core_def ag_core_def log_grows_def suffix_ConsI)

lemma core_call: "core.keeps (call f)"
  by (rule core.keepsI) (auto simp: same_core_def ag_core_def log_grows_def)

lemmas core_intros = core.keeps_intros core_emit core_call

lemma core_get_cm: "core.keeps (get_cm K ns n)"
  unfolding get_cm_def by (intro core_intros)

lemma core_create_cm: "core.keeps (create_cm K cm)"
  unfolding create_cm_def by (intro core_intros)

lemma core_update_cm: "core.keeps (update_cm K cm)"
  unfolding update_cm_def by (intro core_intros)

lemma core_write_status_attempts: "core.keeps (write_status_attempts K ns cr gw json n)"
proof (induction n)
  case (Suc n)
  show ?case
    unfolding write_status_attempts.simps
    by (intro core_intros core_get_cm core_create_cm core_update_cm Suc)
qed (simp add: core.keeps_ret)

lemma core_write_status: "core.keeps (write_status E st)"
  by (simp add: write_status_def write_status_config_map_def core_write_status_attempts)

lemma core_event: "core.keeps (event E t r m)"
  unfolding event_def by (intro core_intros)

lemma core_report_error: "core.keeps (report_error E c r m)"
  unfolding report_error_def by (intro core_intros core_event core_write_status)

lemma core_set_designer_blocked: "core.keeps (set_designer_blocked E b)"
  unfolding set_designer_blocked_def by (intro core_intros core_write_status)

lemma core_http_send: "core.keeps (http_send c rq)"
  unfolding http_send_def by (intro core_intros)

lemma core_authorized: "core.keeps (authorized c m u)"
  unfolding authorized_def by (intro core_intros)

lemma core_post_attempts: "core.keeps (post_attempts c url a n e)"
proof (induction n arbitrary: a e)
  case (Suc n)
  show ?case
    unfolding post_attempts.simps by (intro core_intros core_http_send core_authorized Suc)
qed (simp add: core.keeps_ret)

lemma core_trigger_scan: "core.keeps (trigger_scan c)"
  unfolding trigger_scan_def post_scan_def by (intro core_intros core_post_attempts)

lemma core_health_check: "core.keeps (health_check c)"
  unfolding health_check_def by (intro core_intros core_http_send core_authorized)

lemma core_port_check: "core.keeps (port_check c)"
  unfolding port_check_def by (intro core_intros core_http_send)

lemma core_get_designer_sessions: "core.keeps (get_designer_sessions c)"
  unfolding get_designer_sessions_def by (intro core_intros core_http_send core_authorized)

lemma core_read_metadata: "core.keeps (read_metadata E)"
  unfolding read_metadata_def read_metadata_config_map_def by (intro core_intros core_get_cm)

lemma core_scan_step: "core.keeps (scan_step E d i)"
  unfolding scan_step_def by (intro core_intros core_trigger_scan core_health_check)

lemma core_file_gauges: "core.keeps (file_gauges p r)"
  unfolding file_gauges_def by (intro core_intros)

lemma core_sync_failed: "core.keeps (sync_failed E c r p e)"
  unfolding sync_failed_def by (intro core_intros core_report_error core_event)

lemma core_designer_wait: "core.keeps (designer_wait E c r i n)"
proof (induction n)
  case 0
  show ?case unfolding designer_wait.simps [of E c r i 0]
    by (rule core.keeps_bind [OF core_call])
      (auto split: wait_event.splits intro!: core_intros core_event core_report_error)
next
  case (Suc n)
  show ?case unfolding designer_wait.simps [of E c r i "Suc n"]
    by (rule core.keeps_bind [OF core_call])
      (auto split: wait_event.splits intro!: core_intros core_event core_report_error core_get_designer_sessions Suc)
qed

lemma core_check_designer_sessions: "core.keeps (check_designer_sessions E p c r)"
  unfolding check_designer_sessions_def
  by (intro core_intros core_event core_report_error core_get_designer_sessions core_set_designer_blocked core_designer_wait)

lemma core_trigger_read: "core.keeps (trigger_read E)"
  unfolding trigger_read_def by (intro core_intros core_read_metadata)

lemmas core_ops = core_event core_report_error core_set_designer_blocked core_read_metadata core_scan_step
  core_file_gauges core_sync_failed core_check_designer_sessions core_trigger_read core_port_check core_write_status

end
