(* ===== verification/AgentLemmas.thy ===== *)
theory AgentLemmas
  imports AgentRun
begin

section \<open>What the agent's operations change\<close>

text \<open>
  For each operation of the agent the part of the state it can change, and the case analysis of
  \<open>syncOnce\<close> the properties rest on.
\<close>

subsection \<open>Outside the file system\<close>

definition ag_ctl :: "'k agent_state \<Rightarrow> bool \<times> string \<times> string \<times> bool \<times> int \<times> int \<times> bool \<times> bool \<times> health_server \<times> watcher" where
  "ag_ctl s = (ag_cr_ref s, ag_last_commit s, ag_last_profiles s, ag_initial_done s, ag_errors s,
     ag_backoff_until s, ag_in_progress s, ag_shutdown_ch s, ag_health s, ag_watcher s)"

definition same_ctl :: "'k agent_state \<Rightarrow> 'k agent_state \<Rightarrow> bool" where
  "same_ctl s t \<longleftrightarrow> ag_ctl s = ag_ctl t \<and> log_grows s t"

interpretation ctl: step_order same_ctl
  by unfold_locales (auto simp: same_ctl_def grow.R_refl intro: grow.R_trans)

lemma same_core_ctl: "same_core s t \<Longrightarrow> same_ctl s t"
  by (simp add: same_core_def same_ctl_def ag_core_def ag_ctl_def)

lemma ctl_of_core: "core.keeps m \<Longrightarrow> ctl.keeps m"
  by (rule ctl.keepsI) (auto dest: core.keepsD intro: same_core_ctl)

lemma same_coreD:
  assumes "same_core s t"
  shows "ag_world t = ag_world s" "ag_last_commit t = ag_last_commit s" "ag_last_profiles t = ag_last_profiles s"
    "ag_errors t = ag_errors s" "ag_backoff_until t = ag_backoff_until s" "ag_in_progress t = ag_in_progress s"
    "ag_health t = ag_health s" "ag_watcher t = ag_watcher s" "ag_initial_done t = ag_initial_done s"
    "ag_shutdown_ch t = ag_shutdown_ch s" "log_grows s t"
  using assms by (auto simp: same_core_def ag_core_def)

lemma same_ctlD:
  assumes "same_ctl s t"
  shows "ag_last_commit t = ag_last_commit s" "ag_last_profiles t = ag_last_profiles s"
    "ag_errors t = ag_errors s" "ag_backoff_until t = ag_backoff_until s" "ag_in_progress t = ag_in_progress s"
    "ag_health t = ag_health s" "ag_watcher t = ag_watcher s" "ag_initial_done t = ag_initial_done s"
    "ag_shutdown_ch t = ag_shutdown_ch s" "log_grows s t"
  using assms by (auto simp: same_ctl_def ag_ctl_def)

lemma ctl_run_plan: "ctl.keeps (run_plan E plan)"
  by (rule ctl.keepsI) (auto simp: run_plan_def same_ctl_def ag_ctl_def log_grows_def split: prod.splits)

lemma ctl_sync_with_profile: "ctl.keeps (sync_with_profile E)"
  unfolding sync_with_profile_def
  by (intro ctl.keeps_intros ctl_run_plan ctl_of_core [OF core_read_metadata] ctl_of_core [OF core_call])

lemma ctl_fetch_repo: "ctl.keeps (fetch_repo E u r)"
  unfolding fetch_repo_def
  by (intro ctl.keeps_bind ctl_of_core [OF core_emit] ctl.keepsI)
    (auto simp: same_ctl_def ag_ctl_def log_grows_def split: prod.splits)

lemmas ctl_ops = core_ops [THEN ctl_of_core]

lemma same_core_trans: "same_core s t \<Longrightarrow> same_core t u \<Longrightarrow> same_core s u"
  by (rule core.R_trans)

subsection \<open>The file system\<close>

text \<open>\<open>sync_with_profile\<close> changes files only by running a plan the agent built.\<close>

lemma read_metadata_world: "run_state (read_metadata E) s = (r, t) \<Longrightarrow> ag_world t = ag_world s"
  using core.keepsD [OF core_read_metadata] by (blast dest: same_coreD(1))

lemma sync_with_profile_world:
  assumes "run_state (sync_with_profile E) s = ((r, name, dry), t)"
  obtains (same) "ag_world t = ag_world s"
  | (ran) meta profile labels plan res where
      "lookup_profile E meta = Inr (profile, name)" "dry = rp_dry_run profile" "\<not> rp_paused profile"
      "agent_plan E meta profile labels (store (ag_world s)) = Inr plan"
      "execute_plan (ae_sys E) plan (ag_world s) = (res, ag_world t)"
      "r = (case res of Inl err \<Rightarrow> Inl (Wrapf ''executing plan'' err) | Inr x \<Rightarrow> Inr x)"
proof -
  obtain m s1 where m: "run_state (read_metadata E) s = (m, s1)" by (rule prod.exhaust)
  note w1 = read_metadata_world [OF m]
  show thesis
  proof (cases m)
    case (Inl err)
    with assms m w1 show ?thesis by (intro same) (auto simp: sync_with_profile_def)
  next
    case (Inr meta)
    show ?thesis
    proof (cases "lookup_profile E meta")
      case (Inl err)
      with assms m w1 Inr show ?thesis by (intro same) (auto simp: sync_with_profile_def)
    next
      case l: (Inr x)
      obtain profile pn where x: "x = (profile, pn)" by (rule prod.exhaust)
      note run = assms [simplified sync_with_profile_def run_state_bind m prod.case Inr sum.case l x]
      show ?thesis
      proof (cases "rp_paused profile")
        case True
        with run w1 show ?thesis by (intro same) auto
      next
        case False
        define o1 where "o1 = ae_pod_labels E (c_pod_namespace (ae_cfg E)) (c_pod_name (ae_cfg E)) (io_env s1)"
        show ?thesis
        proof (cases "fst o1")
          case (Inl err)
          with run w1 False show ?thesis by (intro same) (auto simp: o1_def)
        next
          case lab: (Inr labels)
          show ?thesis
          proof (cases "agent_plan E meta profile labels (store (ag_world s))")
            case (Inl err)
            with run w1 False lab show ?thesis by (intro same) (auto simp: o1_def)
          next
            case p: (Inr plan)
            obtain res w2 where ex: "execute_plan (ae_sys E) plan (ag_world s) = (res, w2)" by (rule prod.exhaust)
            from run w1 False lab p ex
            have "pn = name" "dry = rp_dry_run profile" "ag_world t = w2"
              "r = (case res of Inl err \<Rightarrow> Inl (Wrapf ''executing plan'' err) | Inr x \<Rightarrow> Inr x)"
              by (auto simp: o1_def run_plan_def)
            with l x False p ex ran show ?thesis by metis
          qed
        qed
      qed
    qed
  qed
qed

subsection \<open>syncOnce by cases\<close>

lemma run_record_synced:
  "run_state (record_synced c p) s = ((), s\<lparr>ag_last_commit := c, ag_last_profiles := p\<rparr>)"
  by (simp add: record_synced_def)

lemma emit_first:
  assumes "core.keeps m"
  shows "e \<in> set (io_log (snd (run_state (emit e \<bind> (\<lambda>_. m)) s)))"
proof -
  obtain r t where "run_state m (s\<lparr>io_log := e # io_log s\<rparr>) = (r, t)" by (rule prod.exhaust)
  with core.keepsD [OF assms this] show ?thesis by (auto simp: same_core_def log_grows_def suffix_def)
qed

definition sync_counted :: "string \<Rightarrow> 'k agent_state \<Rightarrow> bool" where
  "sync_counted name t \<longleftrightarrow> (\<exists>y. CounterInc ''SyncTotal'' [name, y] \<in> set (io_log t))"

lemma sync_failed_counted:
  assumes "run_state (sync_failed E commit ref name err) s = (r, t)"
  shows "sync_counted name t"
proof -
  have k: "core.keeps (emit (GaugeSet ''LastSyncSuccess'' [] 0) \<bind> (\<lambda>_.
      report_error E commit ref (''sync engine: '' @ err_text err) \<bind> (\<lambda>_.
      event E ''Warning'' ''SyncFailed'' (''Sync failed: '' @ err_text err) \<bind> (\<lambda>_. ret (Some (Wrapf ''sync engine'' err))))))"
    by (intro core_intros core_event core_report_error)
  from emit_first [OF k, of "CounterInc ''SyncTotal'' [name, ''error'']" s] assms
  show ?thesis unfolding sync_counted_def sync_failed_def by (intro exI [of _ "''error''"]) simp
qed

text \<open>What the last part of a cycle does with the scan's text \<open>x\<close>.\<close>

lemma sync_report_step_cases:
  assumes "run_state (sync_report_step E commit ref ini profiles res name dry) s = (r, t)"
  obtains x s1 where "run_state (scan_step E dry ini) s = (x, s1)"
    "fst (sync_outcome dry ini x) = sync_status_error" "r \<noteq> None" "same_core s1 t" "sync_counted name t"
  | x s1 s2 where "run_state (scan_step E dry ini) s = (x, s1)"
    "fst (sync_outcome dry ini x) \<noteq> sync_status_error" "r = None" "same_core s1 s2"
    "t = s2\<lparr>ag_last_commit := commit, ag_last_profiles := profiles\<rparr>" "sync_counted name t"
proof -
  obtain x s1 where x: "run_state (scan_step E dry ini) s = (x, s1)" by (rule prod.exhaust)
  define outcome where "outcome = sync_outcome dry ini x"
  define report where "report = (do {
        now \<leftarrow> call (ae_now E);
        dur \<leftarrow> call (ae_duration E);
        write_status E (sync_report commit ref (ae_format_time E now) dur (ae_version E) x res name dry outcome) })"
  have kr: "core.keeps report" unfolding report_def by (intro core_intros core_write_status)
  obtain u s2 where u: "run_state report s1 = (u, s2)" by (rule prod.exhaust)
  note c12 = core.keepsD [OF kr u]
  define no where "no = (do {
     emit (GaugeSet ''LastSyncSuccess'' [] 0);
     event E ''Warning'' ''SyncFailed'' (''Sync on '' @ c_gateway_name (ae_cfg E) @
       '' copied files but scan failed: '' @ snd outcome) })"
  define yes where "yes = (do {
     stamp \<leftarrow> call (ae_now E);
     emit (GaugeSet ''LastSyncTimestamp'' [] (unix_time stamp));
     emit (GaugeSet ''LastSyncSuccess'' [] 1);
     event E ''Normal'' ''SyncCompleted'' (''Sync completed on '' @ c_gateway_name (ae_cfg E) @
       '': commit '' @ take 12 commit @ '', '' @ itoa (files_changed res) @ '' file(s) changed'') })"
  have kn0: "core.keeps no" and ky0: "core.keeps yes"
    unfolding no_def yes_def by (intro core_intros core_event)+
  let ?no = "emit (CounterInc ''SyncTotal'' [name, ''error'']) \<bind> (\<lambda>_. no)"
  let ?yes = "emit (CounterInc ''SyncTotal'' [name, ''success'']) \<bind> (\<lambda>_. yes)"
  have kn: "core.keeps ?no" and ky: "core.keeps ?yes"
    by (intro core_intros kn0 ky0)+
  have run: "run_state (sync_report_step E commit ref ini profiles res name dry) s =
     (if fst outcome = sync_status_error
      then (Some (Errorf (''scan after sync: '' @ snd outcome)), snd (run_state ?no s2))
      else (None, (snd (run_state ?yes s2))\<lparr>ag_last_commit := commit, ag_last_profiles := profiles\<rparr>))"
    using u by (simp add: sync_report_step_def x outcome_def [symmetric] report_def no_def yes_def
        run_record_synced Let_def split: prod.splits)
  have n2: "same_core s2 (snd (run_state ?no s2))" and y2: "same_core s2 (snd (run_state ?yes s2))"
    using core.keepsD [OF kn] core.keepsD [OF ky] by (metis surjective_pairing)+
  show thesis
  proof (cases "fst outcome = sync_status_error")
    case True
    with assms run have "r \<noteq> None" "t = snd (run_state ?no s2)" by auto
    moreover have "sync_counted name (snd (run_state ?no s2))"
      using emit_first [OF kn0] unfolding sync_counted_def by blast
    ultimately show ?thesis using that(1) [OF x] True outcome_def same_core_trans [OF c12 n2] by simp
  next
    case False
    with assms run have "r = None" "t = (snd (run_state ?yes s2))\<lparr>ag_last_commit := commit, ag_last_profiles := profiles\<rparr>"
      by auto
    moreover have "sync_counted name (snd (run_state ?yes s2))"
      using emit_first [OF ky0] unfolding sync_counted_def by blast
    ultimately show ?thesis using that(2) [OF x] False outcome_def same_core_trans [OF c12 y2]
      by (simp add: sync_counted_def)
  qed
qed

lemma sync_once_cases:
  assumes "run_state (sync_once E commit ref ini profiles) s = (r, t)"
  obtains (failed) err name dry s1 where "run_state (sync_with_profile E) s = ((Inl err, name, dry), s1)"
      "r = Some (Wrapf ''sync engine'' err)" "same_core s1 t" "sync_counted name t"
  | (down) res name dry s1 s2 where "run_state (sync_with_profile E) s = ((Inr res, name, dry), s1)"
      "is_shutting_down (ag_health s)" "r = None" "same_core s1 s2"
      "t = s2\<lparr>ag_last_commit := commit, ag_last_profiles := profiles\<rparr>"
  | (reported) res name dry s1 s2 where "run_state (sync_with_profile E) s = ((Inr res, name, dry), s1)"
      "\<not> is_shutting_down (ag_health s)" "same_core s1 s2"
      "run_state (sync_report_step E commit ref ini profiles res name dry) s2 = (r, t)"
proof -
  obtain pr name dry s1 where p: "run_state (sync_with_profile E) s = ((pr, name, dry), s1)"
    by (metis prod_cases3 surj_pair)
  have h: "ag_health s1 = ag_health s" using ctl.keepsD [OF ctl_sync_with_profile p] by (rule same_ctlD)
  define s1' where "s1' = s1\<lparr>io_log := Sampled ''SyncDuration'' [name] # io_log s1\<rparr>"
  have c1: "same_core s1 s1'"
    by (rule core.keepsD [OF core_emit [of "Sampled ''SyncDuration'' [name]"]]) (simp add: s1'_def)
  show thesis
  proof (cases pr)
    case (Inl err)
    obtain r' t' where sf: "run_state (sync_failed E commit ref name err) s1' = (r', t')" by (rule prod.exhaust)
    have "r' = Some (Wrapf ''sync engine'' err)" using sf by (auto simp: sync_failed_def split: prod.splits)
    with assms p Inl sf failed same_core_trans [OF c1 core.keepsD [OF core_sync_failed sf]] sync_failed_counted [OF sf]
    show ?thesis by (simp add: sync_once_def flip: s1'_def)
  next
    case (Inr res)
    obtain u s2 where g: "run_state (file_gauges name res) s1' = (u, s2)" by (rule prod.exhaust)
    note c = same_core_trans [OF c1 core.keepsD [OF core_file_gauges g]]
    have h2: "ag_health s2 = ag_health s" using same_coreD(7) [OF c] h by simp
    from assms p Inr g h2 down [OF p [unfolded Inr] _ _ c] reported [OF p [unfolded Inr] _ c] show ?thesis
      by (cases "is_shutting_down (ag_health s)") (auto simp: sync_once_def run_record_synced simp flip: s1'_def)
  qed
qed

lemma scan_step_core: "run_state (scan_step E dry ini) s = (x, t) \<Longrightarrow> same_core s t"
  using core.keepsD [OF core_scan_step] .

text \<open>The two outcomes of a cycle and what they record.\<close>

lemma sync_once_record:
  assumes "run_state (sync_once E commit ref ini profiles) s = (r, t)"
  shows "r = None \<Longrightarrow> ag_last_commit t = commit \<and> ag_last_profiles t = profiles"
    "r \<noteq> None \<Longrightarrow> ag_last_commit t = ag_last_commit s \<and> ag_last_profiles t = ag_last_profiles s"
    "ag_errors t = ag_errors s" "ag_backoff_until t = ag_backoff_until s" "ag_in_progress t = ag_in_progress s"
    "ag_health t = ag_health s" "ag_watcher t = ag_watcher s" "ag_initial_done t = ag_initial_done s"
    "ag_world t = ag_world (snd (run_state (sync_with_profile E) s))"
    "log_grows s t"
proof -
  let ?G = "(r = None \<longrightarrow> ag_last_commit t = commit \<and> ag_last_profiles t = profiles) \<and>
    (r \<noteq> None \<longrightarrow> ag_last_commit t = ag_last_commit s \<and> ag_last_profiles t = ag_last_profiles s) \<and>
    ag_errors t = ag_errors s \<and> ag_backoff_until t = ag_backoff_until s \<and> ag_in_progress t = ag_in_progress s \<and>
    ag_health t = ag_health s \<and> ag_watcher t = ag_watcher s \<and> ag_initial_done t = ag_initial_done s \<and>
    ag_world t = ag_world (snd (run_state (sync_with_profile E) s)) \<and> log_grows s t"
  have ?G
    using assms
  proof (cases rule: sync_once_cases)
    case (failed err name dry s1)
    with same_ctlD [OF ctl.keepsD [OF ctl_sync_with_profile failed(1)]] same_coreD [OF failed(3)] grow.R_trans [of s s1 t]
    show ?thesis by simp
  next
    case (down res name dry s1 s2)
    with same_ctlD [OF ctl.keepsD [OF ctl_sync_with_profile down(1)]] same_coreD [OF down(4)] grow.R_trans [of s s1 s2]
    show ?thesis by (simp add: log_grows_def)
  next
    case (reported res name dry s1 s2)
    note a = same_ctlD [OF ctl.keepsD [OF ctl_sync_with_profile reported(1)]]
    show ?thesis
      using reported(4)
    proof (cases rule: sync_report_step_cases)
      case (1 x s3)
      note c = same_core_trans [OF same_core_trans [OF reported(3) scan_step_core [OF 1(1)]] 1(4)]
      from a same_coreD [OF c] 1 reported(1) grow.R_trans [of s s1 t] show ?thesis by auto
    next
      case (2 x s3 s4)
      note c = same_core_trans [OF same_core_trans [OF reported(3) scan_step_core [OF 2(1)]] 2(4)]
      from a same_coreD [OF c] 2 reported(1) grow.R_trans [of s s1 s4] show ?thesis by (simp add: log_grows_def)
    qed
  qed
  then show "r = None \<Longrightarrow> ag_last_commit t = commit \<and> ag_last_profiles t = profiles"
    "r \<noteq> None \<Longrightarrow> ag_last_commit t = ag_last_commit s \<and> ag_last_profiles t = ag_last_profiles s"
    "ag_errors t = ag_errors s" "ag_backoff_until t = ag_backoff_until s" "ag_in_progress t = ag_in_progress s"
    "ag_health t = ag_health s" "ag_watcher t = ag_watcher s" "ag_initial_done t = ag_initial_done s"
    "ag_world t = ag_world (snd (run_state (sync_with_profile E) s))"
    "log_grows s t"
    by simp_all
qed

lemma sync_once_counted:
  assumes "run_state (sync_once E commit ref ini profiles) s = (r, t)" "\<not> is_shutting_down (ag_health s)"
  shows "\<exists>name. sync_counted name t"
  using assms(1)
proof (cases rule: sync_once_cases)
  case (reported res name dry s1 s2)
  from reported(4) show ?thesis by (cases rule: sync_report_step_cases) blast+
qed (use assms(2) in blast)+

subsection \<open>Triggers\<close>

definition recorded :: "metadata \<Rightarrow> string \<Rightarrow> 'k agent_state \<Rightarrow> bool" where
  "recorded meta commit t \<longleftrightarrow> ag_last_commit t = commit \<and> ag_last_profiles t = md_profiles meta \<and>
     ag_errors t = 0 \<and> ag_backoff_until t = 0"

definition last_kept :: "'k agent_state \<Rightarrow> 'k agent_state \<Rightarrow> bool" where
  "last_kept s t \<longleftrightarrow> ag_last_commit t = ag_last_commit s \<and> ag_last_profiles t = ag_last_profiles s"

text \<open>One more failure, and the backoff ends its delay after the time the clock showed.\<close>

definition backed_off :: "('k, 'j) agent_env \<Rightarrow> 'k agent_state \<Rightarrow> 'k agent_state \<Rightarrow> bool" where
  "backed_off E s t \<longleftrightarrow> last_kept s t \<and> ag_errors t = ag_errors s + 1 \<and>
     (\<exists>k. ag_backoff_until t = fst (ae_now E k) + backoff_delay (ag_errors t))"

definition not_counted :: "'k agent_state \<Rightarrow> 'k agent_state \<Rightarrow> bool" where
  "not_counted s t \<longleftrightarrow> last_kept s t \<and> ag_errors t = ag_errors s \<and> ag_backoff_until t = ag_backoff_until s"

lemma back_off_run:
  assumes "run_state (back_off E) s = (u, t)"
  shows "ag_errors t = ag_errors s + 1" "\<exists>k. ag_backoff_until t = fst (ae_now E k) + backoff_delay (ag_errors t)"
    "last_kept s t" "ag_in_progress t = ag_in_progress s" "ag_health t = ag_health s" "ag_world t = ag_world s"
  using assms by (auto simp: back_off_def last_kept_def)

lemma backed_off_core: "not_counted s t \<Longrightarrow> backed_off E t u \<Longrightarrow> backed_off E s u"
  by (auto simp: not_counted_def backed_off_def last_kept_def)

lemma not_counted_trans: "not_counted s t \<Longrightarrow> not_counted t u \<Longrightarrow> not_counted s u"
  by (simp add: not_counted_def last_kept_def)

text \<open>A sync whose outcome was \<open>e\<close> is recorded, or counted as a failure.\<close>

definition outcome_kept :: "('k, 'j) agent_env \<Rightarrow> metadata \<Rightarrow> git_result \<Rightarrow> goerror option \<Rightarrow> 'k agent_state \<Rightarrow> 'k agent_state \<Rightarrow> bool" where
  "outcome_kept E meta result e s t = (case e of None \<Rightarrow> recorded meta (gr_commit result) t | Some err \<Rightarrow> backed_off E s t)"

lemma outcome_kept_from: "not_counted s t \<Longrightarrow> outcome_kept E meta result e t u \<Longrightarrow> outcome_kept E meta result e s u"
  by (auto simp: outcome_kept_def intro: backed_off_core split: option.splits)

lemma sync_or_back_off_cases:
  assumes "run_state (sync_or_back_off E meta result) s = (u, t)"
  shows "outcome_kept E meta result (fst (run_state (sync_once E (gr_commit result) (gr_ref result) False (md_profiles meta)) s)) s t"
    "ag_in_progress t = ag_in_progress s" "ag_health t = ag_health s"
proof -
  obtain r s1 where so: "run_state (sync_once E (gr_commit result) (gr_ref result) False (md_profiles meta)) s = (r, s1)"
    by (rule prod.exhaust)
  note rec = sync_once_record [OF so]
  have "outcome_kept E meta result r s t \<and> ag_in_progress t = ag_in_progress s \<and> ag_health t = ag_health s"
  proof (cases r)
    case None
    with assms so rec show ?thesis by (auto simp: sync_or_back_off_def recorded_def outcome_kept_def)
  next
    case (Some err)
    with assms so have "run_state (back_off E) s1 = (u, t)" by (simp add: sync_or_back_off_def)
    from back_off_run [OF this] rec Some show ?thesis by (simp add: backed_off_def last_kept_def outcome_kept_def)
  qed
  then show "outcome_kept E meta result (fst (run_state (sync_once E (gr_commit result) (gr_ref result) False (md_profiles meta)) s)) s t"
    "ag_in_progress t = ag_in_progress s" "ag_health t = ag_health s" by (simp_all add: so)
qed

lemma same_core_not_counted: "same_core s t \<Longrightarrow> not_counted s t"
  by (auto simp: not_counted_def last_kept_def dest: same_coreD)

lemma run_apply_sync_period:
  assumes "run_state (apply_sync_period profile) s = (u, t)"
  shows "not_counted s t" "ag_in_progress t = ag_in_progress s" "ag_health t = ag_health s"
    "ag_world t = ag_world s" "io_log t = io_log s"
    "ag_watcher t = (if rp_sync_period profile > 0 then update_period (seconds (rp_sync_period profile)) (ag_watcher s)
       else ag_watcher s)"
  using assms by (auto simp: apply_sync_period_def not_counted_def last_kept_def split: if_splits)

text \<open>
  The session check of a trigger after a fetch that left the state \<open>s\<close>: whether it blocks the sync,
  and the state the sync starts from. There is no check for a profile that is paused or a dry run.
\<close>

definition session_check :: "('k, 'j) agent_env \<Rightarrow> resolved_profile \<Rightarrow> git_result \<Rightarrow> 'k agent_state \<Rightarrow> bool \<times> 'k agent_state" where
  "session_check E profile result s = (let u = snd (run_state (apply_sync_period profile) s) in
     if rp_paused profile \<or> rp_dry_run profile then (False, u)
     else (case run_state (check_designer_sessions E (rp_designer_policy profile) (gr_commit result) (gr_ref result)) u of
         (held, v) \<Rightarrow> (held, v\<lparr>io_log := GaugeSet ''DesignerBlocked'' [] (if held then 1 else 0) # io_log v\<rparr>)))"

definition trigger_end :: "('k, 'j) agent_env \<Rightarrow> metadata \<Rightarrow> git_result \<Rightarrow> 'k agent_state \<Rightarrow> 'k agent_state \<Rightarrow> bool" where
  "trigger_end E meta result s t \<longleftrightarrow>
     (case lookup_profile E meta of
        Inl err \<Rightarrow> not_counted s t
      | Inr (profile, name) \<Rightarrow> (case session_check E profile result s of
          (held, v) \<Rightarrow>
            if held then not_counted s t
            else outcome_kept E meta result
              (fst (run_state (sync_once E (gr_commit result) (gr_ref result) False (md_profiles meta)) v)) s t))"

lemma session_check_keeps:
  assumes "session_check E profile result s = (held, v)"
  shows "not_counted s v" "ag_in_progress v = ag_in_progress s" "ag_health v = ag_health s"
proof -
  obtain x u where ap: "run_state (apply_sync_period profile) s = (x, u)" by (rule prod.exhaust)
  note a = run_apply_sync_period(1-3) [OF ap]
  have "not_counted u v \<and> ag_in_progress v = ag_in_progress u \<and> ag_health v = ag_health u"
  proof (cases "rp_paused profile \<or> rp_dry_run profile")
    case True
    with assms ap show ?thesis by (auto simp: session_check_def not_counted_def last_kept_def)
  next
    case False
    obtain b w where ck: "run_state (check_designer_sessions E (rp_designer_policy profile) (gr_commit result)
        (gr_ref result)) u = (b, w)" by (rule prod.exhaust)
    from assms ap ck False have v: "v = w\<lparr>io_log := GaugeSet ''DesignerBlocked'' [] (if held then 1 else 0) # io_log w\<rparr>"
      by (auto simp: session_check_def)
    from same_coreD [OF core.keepsD [OF core_check_designer_sessions ck]] show ?thesis
      by (simp add: v not_counted_def last_kept_def)
  qed
  with a not_counted_trans [OF a(1)] show "not_counted s v" "ag_in_progress v = ag_in_progress s" "ag_health v = ag_health s"
    by simp_all
qed

lemma trigger_sync_end:
  assumes "run_state (trigger_sync E meta result) s = (u, t)"
  shows "trigger_end E meta result s t" "ag_in_progress t = ag_in_progress s" "ag_health t = ag_health s"
proof -
  have "trigger_end E meta result s t \<and> ag_in_progress t = ag_in_progress s \<and> ag_health t = ag_health s"
  proof (cases "lookup_profile E meta")
    case (Inl err)
    let ?m = "emit (CounterInc ''SyncSkippedTotal'' [''profile_error'']) \<bind> (\<lambda>_.
        report_error E (gr_commit result) (gr_ref result) (''looking up profile: '' @ err_text err))"
    have "core.keeps ?m" by (intro core_intros core_report_error)
    with assms Inl core.keepsD [of ?m s u t] have c: "same_core s t" by (simp add: trigger_sync_def)
    from same_core_not_counted [OF c] same_coreD [OF c] Inl show ?thesis by (simp add: trigger_end_def)
  next
    case (Inr x)
    obtain profile name where x: "x = (profile, name)" by (rule prod.exhaust)
    obtain held v where sc: "session_check E profile result s = (held, v)" by (rule prod.exhaust)
    note k = session_check_keeps [OF sc]
    note runs = assms [unfolded trigger_sync_def Inr x, simplified]
    show ?thesis
    proof (cases held)
      case True
      let ?m = "emit (CounterInc ''SyncSkippedTotal'' [''designer_blocked'']) \<bind> (\<lambda>_.
        event E ''Warning'' ''SyncSkipped''
          (''Sync skipped: designer sessions blocked sync (policy='' @ rp_designer_policy profile @ '')''))"
      have km: "core.keeps ?m" by (intro core_intros core_event)
      have "run_state ?m v = (u, t)"
        using runs sc True by (auto simp: session_check_def Let_def split: prod.splits if_splits)
      note c = core.keepsD [OF km this]
      from not_counted_trans [OF k(1) same_core_not_counted [OF c]] same_coreD [OF c] k Inr x sc True show ?thesis
        by (simp add: trigger_end_def)
    next
      case False
      have "run_state (sync_or_back_off E meta result) v = (u, t)"
        using runs sc False by (auto simp: session_check_def Let_def split: prod.splits if_splits)
      note o1 = sync_or_back_off_cases [OF this]
      from outcome_kept_from [OF k(1) o1(1)] o1 k Inr x sc False show ?thesis by (simp add: trigger_end_def)
    qed
  qed
  then show "trigger_end E meta result s t" "ag_in_progress t = ag_in_progress s" "ag_health t = ag_health s" by simp_all
qed

lemma ctl_not_counted: "same_ctl s t \<Longrightarrow> not_counted s t"
  by (auto simp: not_counted_def last_kept_def dest: same_ctlD)

text \<open>The part under the lock: nothing to do, or a fetch whose failure backs off, or a sync.\<close>

definition after_fetch :: "('k, 'j) agent_env \<Rightarrow> string \<Rightarrow> metadata \<Rightarrow> 'k agent_state \<Rightarrow> git_result res \<times> 'k agent_state" where
  "after_fetch E gitURL meta s =
     (case run_state (fetch_repo E gitURL (md_ref meta)) (s\<lparr>ag_in_progress := True\<rparr>) of
        (r, s1) \<Rightarrow> (r, s1\<lparr>io_log := CounterInc ''GitFetchTotal'' [''fetch'', (case r of Inl err \<Rightarrow> ''error'' | Inr g \<Rightarrow> ''success'')] #
          Sampled ''GitFetchDuration'' [''fetch''] # io_log s1\<rparr>))"

lemma after_fetch_keeps:
  assumes "after_fetch E gitURL meta s = (r, s1)"
  shows "not_counted s s1" "ag_health s1 = ag_health s" "ag_in_progress s1"
proof -
  obtain r' s0 where f: "run_state (fetch_repo E gitURL (md_ref meta)) (s\<lparr>ag_in_progress := True\<rparr>) = (r', s0)" by (rule prod.exhaust)
  note c = same_ctlD [OF ctl.keepsD [OF ctl_fetch_repo f]]
  from assms f c show "not_counted s s1" "ag_health s1 = ag_health s" "ag_in_progress s1"
    by (auto simp: after_fetch_def not_counted_def last_kept_def)
qed

lemma trigger_locked_cases:
  assumes "run_state (trigger_locked E gitURL meta) s = (u, t)"
  obtains (unchanged) "md_commit meta = ag_last_commit s" "md_profiles meta = ag_last_profiles s"
      "t = s\<lparr>io_log := CounterInc ''SyncSkippedTotal'' [''commit_unchanged''] # io_log s\<rparr>"
  | (fetch_failed) err s1 where "md_commit meta \<noteq> ag_last_commit s \<or> md_profiles meta \<noteq> ag_last_profiles s"
      "after_fetch E gitURL meta s = (Inl err, s1)"
      "backed_off E s t" "ag_in_progress t = False" "ag_shutdown_ch t" "ag_health t = ag_health s"
      "ag_world t = ag_world s1"
  | (synced) result s1 where "md_commit meta \<noteq> ag_last_commit s \<or> md_profiles meta \<noteq> ag_last_profiles s"
      "after_fetch E gitURL meta s = (Inr result, s1)" "trigger_end E meta result s1 t"
      "ag_in_progress t = False" "ag_shutdown_ch t" "ag_health t = ag_health s"
proof (cases "md_commit meta = ag_last_commit s \<and> md_profiles meta = ag_last_profiles s")
  case True
  with assms unchanged show thesis by (simp add: trigger_locked_def)
next
  case False
  obtain r s1 where f: "after_fetch E gitURL meta s = (r, s1)" by (rule prod.exhaust)
  note k = after_fetch_keeps [OF f]
  show thesis
  proof (cases r)
    case (Inl err)
    obtain v s3 where b: "run_state (back_off E) s1 = (v, s3)" by (rule prod.exhaust)
    obtain v2 s4 where rep: "run_state (report_error E (md_commit meta) (md_ref meta) (''git fetch: '' @ err_text err)) s3 = (v2, s4)"
      by (rule prod.exhaust)
    from assms False Inl f b rep have t: "t = s4\<lparr>ag_in_progress := False, ag_shutdown_ch := True\<rparr>"
      by (auto simp: trigger_locked_def after_fetch_def split: prod.splits)
    note d = same_coreD [OF core.keepsD [OF core_report_error rep]] and e = back_off_run [OF b]
    have "backed_off E s t" using d e k(1) by (auto simp: t backed_off_def last_kept_def not_counted_def)
    with fetch_failed [OF _ f [unfolded Inl]] False d e k show ?thesis by (simp add: t)
  next
    case (Inr result)
    obtain v s3 where tr: "run_state (trigger_sync E meta result) s1 = (v, s3)" by (rule prod.exhaust)
    from assms False Inr f tr have t: "t = s3\<lparr>ag_in_progress := False, ag_shutdown_ch := True\<rparr>"
      by (auto simp: trigger_locked_def after_fetch_def split: prod.splits)
    note e = trigger_sync_end [OF tr]
    have "trigger_end E meta result s1 t"
      using e(1) by (auto simp: t trigger_end_def outcome_kept_def recorded_def backed_off_def not_counted_def last_kept_def
          split: sum.splits prod.splits option.splits if_splits)
    with synced [OF _ f [unfolded Inr]] e k False show ?thesis by (simp add: t)
  qed
qed

subsection \<open>The start and the reachable states\<close>

definition same_flags :: "'k agent_state \<Rightarrow> 'k agent_state \<Rightarrow> bool" where
  "same_flags s t \<longleftrightarrow> ag_in_progress t = ag_in_progress s \<and> ag_health t = ag_health s \<and>
     ag_initial_done t = ag_initial_done s"

interpretation flags: step_order same_flags
  by unfold_locales (auto simp: same_flags_def)

lemma same_ctl_flags: "same_ctl s t \<Longrightarrow> same_flags s t"
  by (auto simp: same_flags_def dest: same_ctlD)

lemma flags_of_ctl: "ctl.keeps m \<Longrightarrow> flags.keeps m"
  by (rule flags.keepsI) (auto dest: ctl.keepsD intro: same_ctl_flags)

lemmas flags_of_core = ctl_of_core [THEN flags_of_ctl]

lemma flags_sync_once: "flags.keeps (sync_once E c r i p)"
  by (rule flags.keepsI) (auto simp: same_flags_def dest: sync_once_record)

lemma flags_apply_from_meta: "flags.keeps (apply_sync_period_from_meta E meta)"
  unfolding apply_sync_period_from_meta_def apply_sync_period_def
  by (intro flags.keeps_intros flags.keeps_modify) (simp add: same_flags_def)

lemma flags_fetch_cr_ref: "flags.keeps (fetch_cr_ref E)"
  unfolding fetch_cr_ref_def
  by (intro flags.keeps_intros flags.keeps_modify flags_of_core [OF core_call]) (simp add: same_flags_def)

lemma core_wait_for_metadata: "core.keeps (wait_for_metadata E n)"
proof (induction n)
  case (Suc n)
  show ?case unfolding wait_for_metadata.simps by (intro core_intros core_read_metadata Suc)
qed (simp add: core.keeps_ret)

lemma initial_sync_effect:
  assumes "run_state (initial_sync E meta result) s = (u, t)"
  shows "ag_in_progress t = ag_in_progress s" "ag_initial_done t" "ag_health t = mark_ready (ag_health s)"
    "\<not> is_shutting_down (ag_health s) \<Longrightarrow> \<exists>name. sync_counted name t"
proof -
  obtain r s1 where so: "run_state (sync_once E (gr_commit result) (gr_ref result) True (md_profiles meta)) s = (r, s1)"
    by (rule prod.exhaust)
  then have t: "t = s1\<lparr>ag_initial_done := True, ag_health := mark_ready (ag_health s1), io_log := MarkedReady # io_log s1\<rparr>"
    using assms by (auto simp: initial_sync_def)
  note rec = sync_once_record [OF so]
  show "ag_in_progress t = ag_in_progress s" "ag_initial_done t" "ag_health t = mark_ready (ag_health s)"
    using rec by (simp_all add: t)
  show "\<not> is_shutting_down (ag_health s) \<Longrightarrow> \<exists>name. sync_counted name t"
    using sync_once_counted [OF so] by (simp add: t sync_counted_def)
qed

text \<open>The start ends ready, or with an error or still polling and not ready.\<close>

lemma run_startup_effect:
  assumes "run_state (run_startup E n) s = (r, t)"
  shows "(\<exists>x. r = Some (Inr x)) \<and> ag_in_progress t = ag_in_progress s \<and> ag_initial_done t \<and>
      ag_health t = mark_ready (ag_health s) \<and>
      (\<not> is_shutting_down (ag_health s) \<longrightarrow> (\<exists>name. sync_counted name t)) \<or>
    (\<nexists>x. r = Some (Inr x)) \<and> same_flags s t"
proof -
  obtain m s1 where w: "run_state (wait_for_metadata E n) s = (m, s1)" by (rule prod.exhaust)
  have f1: "same_flags s s1" using flags.keepsD [OF flags_of_core [OF core_wait_for_metadata] w] .
  note run = assms [simplified run_startup_def run_state_bind w prod.case]
  show ?thesis
  proof (cases "\<exists>meta. m = Some (Inr meta)")
    case False
    then consider "m = None" | err where "m = Some (Inl err)" by (metis option.exhaust sum.exhaust)
    then have "(\<nexists>x. r = Some (Inr x)) \<and> t = s1" using run by cases auto
    with f1 show ?thesis by simp
  next
    case True
    then obtain meta where m: "m = Some (Inr meta)" ..
    obtain a s2 where s2: "run_state (apply_sync_period_from_meta E meta) s1 = (a, s2)" by (rule prod.exhaust)
    obtain b s3 where s3: "run_state (fetch_cr_ref E) s2 = (b, s3)" by (rule prod.exhaust)
    have f3: "same_flags s s3"
      using flags.R_trans [OF f1 flags.R_trans [OF flags.keepsD [OF flags_apply_from_meta s2]
            flags.keepsD [OF flags_fetch_cr_ref s3]]] .
    show ?thesis
    proof (cases "md_git_url meta = []")
      case True
      with run m s2 s3 f3 show ?thesis by auto
    next
      case False
      obtain g s4 where s4: "run_state (fetch_repo E (md_git_url meta) (md_ref meta)) s3 = (g, s4)" by (rule prod.exhaust)
      have f4: "same_flags s s4"
        using flags.R_trans [OF f3 flags.keepsD [OF flags_of_ctl [OF ctl_fetch_repo] s4]] .
      show ?thesis
      proof (cases g)
        case (Inl err)
        let ?m = "emit (Sampled ''GitFetchDuration'' [''clone'']) \<bind> (\<lambda>_. emit (CounterInc ''GitFetchTotal'' [''clone'', ''error'']) \<bind> (\<lambda>_.
          event E ''Warning'' ''CloneFailed'' (''Initial clone failed: '' @ err_text err)))"
        obtain c s5 where s5: "run_state ?m s4 = (c, s5)" by (rule prod.exhaust)
        have "core.keeps ?m" by (intro core_intros core_event)
        with s5 f4 have "same_flags s s5" by (blast intro: flags.R_trans dest: flags.keepsD [OF flags_of_core])
        moreover have "t = s5 \<and> (\<nexists>x. r = Some (Inr x))" using run m s2 s3 s4 s5 False Inl by (auto split: prod.splits)
        ultimately show ?thesis by simp
      next
        case (Inr result)
        define s5 where "s5 = s4\<lparr>io_log := CounterInc ''GitFetchTotal'' [''clone'', ''success''] #
          Sampled ''GitFetchDuration'' [''clone''] # io_log s4\<rparr>"
        obtain c s6 where s6: "run_state (initial_sync E meta result) s5 = (c, s6)" by (rule prod.exhaust)
        have "t = s6" "\<exists>x. r = Some (Inr x)" using run m s2 s3 s4 s6 False Inr by (auto simp: s5_def)
        moreover have "same_flags s s5" using f4 by (simp add: same_flags_def s5_def)
        ultimately show ?thesis using initial_sync_effect [OF s6] by (simp add: same_flags_def)
      qed
    qed
  qed
qed

text \<open>Outside \<open>trigger_run\<close> no sync is marked in progress.\<close>

definition not_busy :: "'k running \<Rightarrow> bool" where
  "not_busy c \<longleftrightarrow> \<not> ag_in_progress (rn_agent c) \<and> rn_pc c \<noteq> Stopped True \<and>
     hv_initial_sync_done (ag_health (rn_agent c)) \<and>
     ((\<exists>b. rn_pc c = Stopped b) \<longleftrightarrow> hv_shutting_down (ag_health (rn_agent c)))"

lemma flags_post_commission: "flags.keeps (post_commission_poll E result)"
  unfolding post_commission_poll_def
  by (intro flags.keeps_intros flags_of_core [OF core_call] flags_of_core [OF core_port_check] flags_of_core [OF core_emit] flags_sync_once)

lemma trigger_locked_flags:
  assumes "run_state (trigger_locked E gitURL meta) s = (u, t)" "\<not> ag_in_progress s"
  shows "\<not> ag_in_progress t" "ag_health t = ag_health s"
  using assms(1) by (cases rule: trigger_locked_cases; use assms(2) in auto)+

lemma agent_step_not_busy:
  assumes "agent_step E gitURL result c c'" "not_busy c"
  shows "not_busy c'"
  using assms(1)
proof (cases rule: agent_step.cases)
  case (trigger_drop s)
  with assms(2) same_coreD [OF core.keepsD [OF core_trigger_read trigger_drop(4)]]
  show ?thesis by (simp add: not_busy_def)
next
  case (trigger_take meta s)
  with assms(2) same_coreD [OF core.keepsD [OF core_trigger_read trigger_take(4)]]
  show ?thesis by (simp add: not_busy_def)
next
  case (trigger_run meta u s)
  with assms(2) trigger_locked_flags [OF trigger_run(3)] show ?thesis by (simp add: not_busy_def)
next
  case (post_step goOn s)
  from flags.keepsD [OF flags_post_commission post_step(3)] assms(2) post_step
  show ?thesis by (simp add: not_busy_def same_flags_def)
next
  case (stop busy s)
  with assms(2) show ?thesis by (auto simp: not_busy_def shutdown_def mark_not_ready_def)
qed (use assms(2) in \<open>simp_all add: not_busy_def\<close>)

lemma agent_reach_not_busy: "agent_reach E k w polls gitURL result c \<Longrightarrow> not_busy c"
proof (induction rule: agent_reach.induct)
  case (started s)
  from run_startup_effect [OF started] show ?case
    by (auto simp: not_busy_def new_agent_def new_health_server_def mark_ready_def)
qed (rule agent_step_not_busy)

end
