(* ===== verification/EffectLaws.thy ===== *)
theory EffectLaws
  imports Effects
begin

section \<open>Steps that keep a relation and yield a value\<close>

text \<open>
  \<open>yields V m\<close>: every run of \<open>m\<close> keeps the relation of the locale, and its result satisfies \<open>V\<close>.
  The instance \<open>only\<close> says that everything a program sends satisfies a predicate.
\<close>

lemma wp_True [simp]: "wp m (\<lambda>_ _. True) = (\<lambda>_. True)"
  by (rule ext) (simp add: wp_def split: prod.splits)

context step_order begin

definition yields :: "('a \<Rightarrow> bool) \<Rightarrow> ('s, 'a) state \<Rightarrow> bool" where
  "yields V m \<longleftrightarrow> (\<forall>s. wp m (\<lambda>r t. R s t \<and> V r) s)"

lemma yieldsI: "(\<And>s r t. run_state m s = (r, t) \<Longrightarrow> R s t \<and> V r) \<Longrightarrow> yields V m"
  by (auto simp: yields_def intro: wpI)

lemma yieldsD: "yields V m \<Longrightarrow> run_state m s = (r, t) \<Longrightarrow> R s t \<and> V r"
  unfolding yields_def using wp_run [of m "\<lambda>r t. R s t \<and> V r" s r t] by simp

lemma yields_wp: "yields V m \<Longrightarrow> wp m (\<lambda>r t. R s t \<and> V r) s"
  by (simp add: yields_def)

lemma yields_keeps: "yields V m \<Longrightarrow> keeps m"
  by (rule keepsI) (auto dest: yieldsD)

lemma keeps_yields: "keeps m \<Longrightarrow> yields (\<lambda>_. True) m"
  by (rule yieldsI) (auto dest: keepsD)

lemma yields_mono: "yields V m \<Longrightarrow> (\<And>a. V a \<Longrightarrow> W a) \<Longrightarrow> yields W m"
  by (rule yieldsI) (auto dest: yieldsD)

lemma yields_ret: "V a \<Longrightarrow> yields V (ret a)"
  by (simp add: yields_def wp_ret R_refl)

lemma yields_bind:
  assumes "yields V m" "\<And>a. V a \<Longrightarrow> yields W (f a)"
  shows "yields W (m \<bind> f)"
proof (rule yieldsI)
  fix s r t
  assume "run_state (m \<bind> f) s = (r, t)"
  then obtain a u where m: "run_state m s = (a, u)" and f: "run_state (f a) u = (r, t)"
    by (auto split: prod.splits)
  from yieldsD [OF assms(1) m] have u: "R s u" "V a" by auto
  from yieldsD [OF assms(2) [OF u(2)] f] have "R u t" "W r" by auto
  with R_trans [OF u(1)] show "R s t \<and> W r" by simp
qed

lemma yields_then: "keeps m \<Longrightarrow> (\<And>a. yields W (f a)) \<Longrightarrow> yields W (m \<bind> f)"
  by (rule yields_bind [OF keeps_yields])

lemma keeps_bind_yields: "yields V m \<Longrightarrow> (\<And>a. V a \<Longrightarrow> keeps (f a)) \<Longrightarrow> keeps (m \<bind> f)"
  by (rule yields_keeps [OF yields_bind [of V m "\<lambda>_. True" f]]) (auto intro: keeps_yields)

lemma yields_if: "(c \<Longrightarrow> yields V m) \<Longrightarrow> (\<not> c \<Longrightarrow> yields V n) \<Longrightarrow> yields V (if c then m else n)"
  by simp

lemma yields_case_sum:
  "(\<And>e. x = Inl e \<Longrightarrow> yields V (f e)) \<Longrightarrow> (\<And>v. x = Inr v \<Longrightarrow> yields V (g v)) \<Longrightarrow>
   yields V (case x of Inl e \<Rightarrow> f e | Inr v \<Rightarrow> g v)"
  by (cases x) auto

lemma yields_case_option:
  "(x = None \<Longrightarrow> yields V f) \<Longrightarrow> (\<And>v. x = Some v \<Longrightarrow> yields V (g v)) \<Longrightarrow>
   yields V (case x of None \<Rightarrow> f | Some v \<Rightarrow> g v)"
  by (cases x) auto

lemma yields_let: "(\<And>y. y = x \<Longrightarrow> yields V (f y)) \<Longrightarrow> yields V (Let x f)"
  by (simp add: Let_def)

lemmas yields_intros = yields_if yields_case_sum yields_case_option

end

subsection \<open>What a program may send\<close>

definition only_sent :: "('e \<Rightarrow> bool) \<Rightarrow> ('k, 'e, 'z) io_scheme \<Rightarrow> ('k, 'e, 'z) io_scheme \<Rightarrow> bool" where
  "only_sent P s t \<longleftrightarrow> (\<exists>es. io_log t = es @ io_log s \<and> list_all P es)"

interpretation only: step_order "only_sent P" for P
  by unfold_locales (auto simp: only_sent_def)

lemma only_emit: "P e \<Longrightarrow> only.keeps P (emit e)"
  unfolding emit_def by (rule only.keeps_modify) (simp add: only_sent_def)

lemma only_call: "only.keeps P (call f)"
  by (rule only.keepsI) (auto simp: only_sent_def)

lemma yields_call: "(\<And>k. V (fst (f k))) \<Longrightarrow> only.yields P V (call f)"
  by (rule only.yieldsI) (auto simp: only_sent_def)

lemma only_sent_weaken: "only_sent P s t \<Longrightarrow> (\<And>e. P e \<Longrightarrow> Q e) \<Longrightarrow> only_sent Q s t"
  by (auto simp: only_sent_def list_all_iff)

lemma only_sent_sent: "only_sent P s t \<longleftrightarrow> log_grows s t \<and> list_all P (sent s t)"
proof
  assume "only_sent P s t"
  then obtain es where es: "io_log t = es @ io_log s" "list_all P es"
    unfolding only_sent_def by blast
  then have "log_grows s t" unfolding log_grows_def suffix_def by blast
  with es show "log_grows s t \<and> list_all P (sent s t)" by simp
next
  assume "log_grows s t \<and> list_all P (sent s t)"
  then show "only_sent P s t" unfolding only_sent_def using sent_log [of s t] by blast
qed

lemma only_keeps_wp: "only.keeps P m \<Longrightarrow> wp m (\<lambda>_ t. list_all P (sent s t)) s"
  by (rule wpI) (auto dest: only.keepsD simp: only_sent_sent)

lemma only_keeps_mono: "only.keeps P m \<Longrightarrow> (\<And>e. P e \<Longrightarrow> Q e) \<Longrightarrow> only.keeps Q m"
  by (rule only.keepsI) (blast dest: only.keepsD intro: only_sent_weaken)

lemmas only_intros = only.keeps_intros only_emit only_call

end
