(* ===== verification/Metrics.thy ===== *)
theory Metrics
  imports Prelude
begin

section \<open>The metrics of the programs\<close>

text \<open>
  The Prometheus collectors declared by \<open>internal/agent/metrics.go\<close>, \<open>internal/controller/metrics.go\<close> and
  \<open>internal/webhook/metrics.go\<close>: name, kind, labels and buckets (in milliseconds). The help texts are left
  out. What a program records goes to its log; \<open>records\<close> says that an entry fits a declaration, and
  \<open>registrable\<close> that a registry takes a list of them (otherwise \<open>MustRegister\<close> or the constructor
  panics).
\<close>

datatype metric_kind = MCounter | MGauge | MHistogram

datatype buckets = NoBuckets | DefBuckets | Buckets "int list"

record metric_desc =
  mt_subsystem :: string
  mt_name :: string
  mt_kind :: metric_kind
  mt_labels :: "string list"
  mt_buckets :: buckets

definition metric :: "string \<Rightarrow> metric_kind \<Rightarrow> string \<Rightarrow> string list \<Rightarrow> metric_desc" where
  "metric subsystem kind name labels =
     \<lparr>mt_subsystem = subsystem, mt_name = name, mt_kind = kind, mt_labels = labels, mt_buckets = NoBuckets\<rparr>"

definition histogram :: "string \<Rightarrow> string \<Rightarrow> string list \<Rightarrow> buckets \<Rightarrow> metric_desc" where
  "histogram subsystem name labels bs = (metric subsystem MHistogram name labels)\<lparr>mt_buckets := bs\<rparr>"

text \<open>The agent's collectors, by the field of \<open>AgentMetrics\<close> that holds them.\<close>

definition agent_metrics :: "(string \<times> metric_desc) list" where
  "agent_metrics =
     [(''SyncDuration'', histogram ''agent'' ''sync_duration_seconds'' [''profile'']
         (Buckets [100, 500, 1000, 2000, 5000, 10000, 30000, 60000])),
      (''SyncTotal'', metric ''agent'' MCounter ''sync_total'' [''profile'', ''result'']),
      (''FilesChanged'', metric ''agent'' MGauge ''files_changed'' [''profile'']),
      (''GitFetchDuration'', histogram ''agent'' ''git_fetch_duration_seconds'' [''operation'']
         (Buckets [500, 1000, 2000, 5000, 10000, 30000, 60000, 120000])),
      (''GitFetchTotal'', metric ''agent'' MCounter ''git_fetch_total'' [''operation'', ''result'']),
      (''ScanDuration'', histogram ''agent'' ''scan_duration_seconds'' []
         (Buckets [100, 500, 1000, 2000, 5000, 10000, 30000, 60000])),
      (''ScanTotal'', metric ''agent'' MCounter ''scan_total'' [''result'']),
      (''DesignerBlocked'', metric ''agent'' MGauge ''designer_sessions_blocked'' []),
      (''LastSyncTimestamp'', metric ''agent'' MGauge ''last_sync_timestamp_seconds'' []),
      (''LastSyncSuccess'', metric ''agent'' MGauge ''last_sync_success'' []),
      (''FilesAdded'', metric ''agent'' MGauge ''files_added'' [''profile'']),
      (''FilesModified'', metric ''agent'' MGauge ''files_modified'' [''profile'']),
      (''FilesDeleted'', metric ''agent'' MGauge ''files_deleted'' [''profile'']),
      (''DesignerSessionsActive'', metric ''agent'' MGauge ''designer_sessions_active'' []),
      (''SyncSkippedTotal'', metric ''agent'' MCounter ''sync_skipped_total'' [''reason'']),
      (''GatewayStartupDuration'', histogram ''agent'' ''gateway_startup_duration_seconds'' []
         (Buckets [5000, 10000, 30000, 60000, 120000, 300000, 600000]))]"

definition controller_metrics :: "metric_desc list" where
  "controller_metrics =
     [histogram ''controller'' ''reconcile_duration_seconds'' [''name'', ''namespace''] DefBuckets,
      metric ''controller'' MCounter ''reconcile_total'' [''name'', ''namespace'', ''result''],
      histogram ''controller'' ''ref_resolve_duration_seconds'' [''name'', ''namespace'']
        (Buckets [100, 250, 500, 1000, 2500, 5000, 10000, 30000]),
      metric ''controller'' MGauge ''gateways_discovered'' [''name'', ''namespace''],
      metric ''controller'' MGauge ''gateways_synced'' [''name'', ''namespace''],
      metric ''controller'' MGauge ''cr_ready'' [''name'', ''namespace''],
      metric ''controller'' MGauge ''github_app_token_expiry_timestamp_seconds'' [''app_id'', ''installation_id''],
      metric ''controller'' MGauge ''cr_info'' [''name'', ''namespace'', ''git_repo'', ''git_ref'', ''auth_type'', ''polling_interval''],
      metric ''controller'' MGauge ''cr_paused'' [''name'', ''namespace''],
      metric ''controller'' MGauge ''condition_status'' [''name'', ''namespace'', ''type''],
      metric ''controller'' MGauge ''gateway_sync_status'' [''name'', ''namespace'', ''gateway''],
      metric ''controller'' MGauge ''gateway_last_sync_timestamp_seconds'' [''name'', ''namespace'', ''gateway''],
      metric ''controller'' MGauge ''gateways_missing_sidecar'' [''name'', ''namespace'']]"

definition webhook_metrics :: "metric_desc list" where
  "webhook_metrics =
     [metric ''webhook_receiver'' MCounter ''requests_total'' [''source'', ''status_code''],
      metric ''webhook_injector'' MCounter ''injections_total'' [''namespace'', ''result'']]"

subsection \<open>What a registry takes, and what fits a declaration\<close>

definition full_name :: "metric_desc \<Rightarrow> string" where
  "full_name m = ''stoker_'' @ mt_subsystem m @ ''_'' @ mt_name m"

definition bucket_list :: "int list \<Rightarrow> metric_desc \<Rightarrow> int list" where
  "bucket_list defaults m = (case mt_buckets m of NoBuckets \<Rightarrow> [] | DefBuckets \<Rightarrow> defaults | Buckets bs \<Rightarrow> bs)"

definition metric_char :: "char \<Rightarrow> bool" where
  "metric_char c \<longleftrightarrow> c \<in> set ''abcdefghijklmnopqrstuvwxyz_''"

definition describable :: "int list \<Rightarrow> metric_desc \<Rightarrow> bool" where
  "describable defaults m \<longleftrightarrow> list_all metric_char (full_name m) \<and> list_all (list_all metric_char) (mt_labels m) \<and>
     distinct (mt_labels m) \<and> sorted_wrt (<) (bucket_list defaults m) \<and>
     (if mt_kind m = MHistogram then ''le'' \<notin> set (mt_labels m) else True)"

definition registrable :: "int list \<Rightarrow> metric_desc list \<Rightarrow> bool" where
  "registrable defaults ms \<longleftrightarrow> distinct (map full_name ms) \<and> list_all (describable defaults) ms"

definition fits :: "metric_desc \<Rightarrow> metric_kind \<Rightarrow> string list \<Rightarrow> bool" where
  "fits m kind ls \<longleftrightarrow> mt_kind m = kind \<and> length ls = length (mt_labels m)"

definition records :: "metric_desc list \<Rightarrow> metric_kind \<Rightarrow> string \<Rightarrow> string list \<Rightarrow> bool" where
  "records ms kind name ls \<longleftrightarrow> (case find (\<lambda>m. mt_name m = name) ms of None \<Rightarrow> False | Some m \<Rightarrow> fits m kind ls)"

definition agent_records :: "metric_kind \<Rightarrow> string \<Rightarrow> string list \<Rightarrow> bool" where
  "agent_records kind field ls \<longleftrightarrow> (case map_of agent_metrics field of None \<Rightarrow> False | Some m \<Rightarrow> fits m kind ls)"

text \<open>The metrics with one series for each resource.\<close>

definition per_resource :: "metric_desc list \<Rightarrow> string list" where
  "per_resource ms = map mt_name (filter (\<lambda>m. take 2 (mt_labels m) = [''name'', ''namespace'']) ms)"

lemmas metric_defs = metric_def histogram_def fits_def

lemma agent_arity [simp]:
  "agent_records MHistogram ''SyncDuration'' ls \<longleftrightarrow> length ls = 1" "agent_records MHistogram ''GitFetchDuration'' ls \<longleftrightarrow> length ls = 1"
  "agent_records MHistogram ''ScanDuration'' ls \<longleftrightarrow> ls = []" "agent_records MHistogram ''GatewayStartupDuration'' ls \<longleftrightarrow> ls = []"
  "agent_records MCounter ''SyncTotal'' ls \<longleftrightarrow> length ls = 2" "agent_records MCounter ''GitFetchTotal'' ls \<longleftrightarrow> length ls = 2"
  "agent_records MCounter ''ScanTotal'' ls \<longleftrightarrow> length ls = 1" "agent_records MCounter ''SyncSkippedTotal'' ls \<longleftrightarrow> length ls = 1"
  "agent_records MGauge ''FilesChanged'' ls \<longleftrightarrow> length ls = 1" "agent_records MGauge ''FilesAdded'' ls \<longleftrightarrow> length ls = 1"
  "agent_records MGauge ''FilesModified'' ls \<longleftrightarrow> length ls = 1" "agent_records MGauge ''FilesDeleted'' ls \<longleftrightarrow> length ls = 1"
  "agent_records MGauge ''DesignerBlocked'' ls \<longleftrightarrow> ls = []" "agent_records MGauge ''LastSyncTimestamp'' ls \<longleftrightarrow> ls = []"
  "agent_records MGauge ''LastSyncSuccess'' ls \<longleftrightarrow> ls = []" "agent_records MGauge ''DesignerSessionsActive'' ls \<longleftrightarrow> ls = []"
  by (simp_all add: agent_records_def agent_metrics_def metric_defs eval_nat_numeral)

lemma controller_arity [simp]:
  "records controller_metrics MCounter ''reconcile_total'' ls \<longleftrightarrow> length ls = 3"
  "records controller_metrics MHistogram ''reconcile_duration_seconds'' ls \<longleftrightarrow> length ls = 2"
  "records controller_metrics MHistogram ''ref_resolve_duration_seconds'' ls \<longleftrightarrow> length ls = 2"
  "records controller_metrics MGauge ''gateways_discovered'' ls \<longleftrightarrow> length ls = 2"
  "records controller_metrics MGauge ''gateways_synced'' ls \<longleftrightarrow> length ls = 2"
  "records controller_metrics MGauge ''cr_ready'' ls \<longleftrightarrow> length ls = 2"
  "records controller_metrics MGauge ''github_app_token_expiry_timestamp_seconds'' ls \<longleftrightarrow> length ls = 2"
  "records controller_metrics MGauge ''cr_info'' ls \<longleftrightarrow> length ls = 6"
  "records controller_metrics MGauge ''cr_paused'' ls \<longleftrightarrow> length ls = 2"
  "records controller_metrics MGauge ''condition_status'' ls \<longleftrightarrow> length ls = 3"
  "records controller_metrics MGauge ''gateway_sync_status'' ls \<longleftrightarrow> length ls = 3"
  "records controller_metrics MGauge ''gateway_last_sync_timestamp_seconds'' ls \<longleftrightarrow> length ls = 3"
  "records controller_metrics MGauge ''gateways_missing_sidecar'' ls \<longleftrightarrow> length ls = 2"
  by (simp_all add: records_def controller_metrics_def metric_defs eval_nat_numeral)

lemma webhook_arity [simp]:
  "records webhook_metrics MCounter ''requests_total'' ls \<longleftrightarrow> length ls = 2"
  "records webhook_metrics MCounter ''injections_total'' ls \<longleftrightarrow> length ls = 2"
  by (simp_all add: records_def webhook_metrics_def metric_defs eval_nat_numeral)

lemma registrable_agent: "registrable defaults (map snd agent_metrics)"
  by (simp add: registrable_def describable_def agent_metrics_def metric_defs full_name_def bucket_list_def metric_char_def)

lemma registrable_controller: "registrable defaults (controller_metrics @ webhook_metrics) \<longleftrightarrow> sorted_wrt (<) defaults"
  by (simp add: registrable_def describable_def controller_metrics_def webhook_metrics_def metric_defs full_name_def
      bucket_list_def metric_char_def)

end
