(* ===== verification/AgentSends.thy ===== *)
theory AgentSends
  imports AgentRun EffectLaws Metrics
begin

section \<open>What the agent's operations send\<close>

text \<open>
  \<open>agent_log P\<close>: a class of log entries that contains everything but HTTP requests, samples of
  metrics and the mark of readiness. The operations that read and write ConfigMaps, send events and run a
  plan stay inside any such class. \<open>agent_sends P\<close> also contains the requests and the samples that fit
  the declaration of their metric; then every part of a cycle stays inside. It is used for the well-formed
  samples, and for the order of the readiness mark.
\<close>

definition is_http :: "effect \<Rightarrow> bool" where
  "is_http e = (case e of Http _ _ \<Rightarrow> True | _ \<Rightarrow> False)"

definition is_sample :: "effect \<Rightarrow> bool" where
  "is_sample e = (case e of CounterInc _ _ \<Rightarrow> True | GaugeSet _ _ _ \<Rightarrow> True | Sampled _ _ \<Rightarrow> True | _ \<Rightarrow> False)"

locale agent_log =
  fixes P :: "effect \<Rightarrow> bool"
  assumes plain: "\<not> is_http e \<Longrightarrow> \<not> is_sample e \<Longrightarrow> e \<noteq> MarkedReady \<Longrightarrow> P e"
begin

lemma plain_entries: "P (CmRead n c)" "P (CmCreate cm ok)" "P (CmUpdate cm ok)" "P (Event t r m)" "P (GitFetch u f p)" "P (Sleep d)"
  by (simp_all add: plain is_http_def is_sample_def)

lemmas intros = only_intros plain_entries

lemma modify: "(\<And>s. io_log (f s) = io_log s) \<Longrightarrow> only.keeps P (modify f)"
  by (rule only.keeps_modify) (simp add: only_sent_def)

lemma get_cm: "only.keeps P (get_cm K ns n)"
  unfolding get_cm_def by (intro intros)

lemma create_cm: "only.keeps P (create_cm K cm)"
  unfolding create_cm_def by (intro intros)

lemma update_cm: "only.keeps P (update_cm K cm)"
  unfolding update_cm_def by (intro intros)

lemma write_status_attempts: "only.keeps P (write_status_attempts K ns cr gw json n)"
proof (induction n)
  case (Suc n)
  show ?case
    unfolding write_status_attempts.simps by (intro intros get_cm create_cm update_cm Suc)
qed (simp add: only.keeps_ret)

lemma write_status: "only.keeps P (write_status E st)"
  by (simp add: write_status_def write_status_config_map_def write_status_attempts)

lemma event: "only.keeps P (event E t r m)"
  unfolding event_def by (intro intros)

lemma report_error: "only.keeps P (report_error E c r m)"
  unfolding report_error_def by (intro intros event write_status)

lemma set_designer_blocked: "only.keeps P (set_designer_blocked E b)"
  unfolding set_designer_blocked_def by (intro intros write_status)

lemma read_metadata: "only.keeps P (read_metadata E)"
  unfolding read_metadata_def read_metadata_config_map_def by (intro intros get_cm)

lemma run_plan: "only.keeps P (run_plan E plan)"
  unfolding run_plan_def by (rule only.keepsI) (auto simp: only_sent_def split: prod.splits)

lemma sync_with_profile: "only.keeps P (sync_with_profile E)"
  unfolding sync_with_profile_def by (intro intros read_metadata run_plan)

lemma record_synced: "only.keeps P (record_synced c p)"
  unfolding record_synced_def by (rule modify) simp

lemma apply_sync_period: "only.keeps P (apply_sync_period p)"
  unfolding apply_sync_period_def by (intro intros modify) simp

lemma apply_sync_period_from_meta: "only.keeps P (apply_sync_period_from_meta E meta)"
  unfolding apply_sync_period_from_meta_def by (intro intros apply_sync_period)

lemma fetch_repo: "only.keeps P (fetch_repo E u r)"
  unfolding fetch_repo_def
  by (intro only.keeps_bind only_emit plain_entries only.keepsI) (auto simp: only_sent_def split: prod.splits)

lemma fetch_cr_ref: "only.keeps P (fetch_cr_ref E)"
  unfolding fetch_cr_ref_def by (intro intros modify) simp

lemma wait_for_metadata: "only.keeps P (wait_for_metadata E n)"
  by (induction n) (simp only: wait_for_metadata.simps; intro intros read_metadata; assumption?)+

lemma back_off: "only.keeps P (back_off E)"
  unfolding back_off_def by (intro intros modify) simp_all

end

interpretation quiet: agent_log "\<lambda>e. \<not> is_http e"
  by unfold_locales simp

lemma quiet_log: "only_sent (\<lambda>e. \<not> is_http e) s t \<Longrightarrow> filter is_http (io_log t) = filter is_http (io_log s)"
  by (auto simp: only_sent_def list_all_iff filter_empty_conv)

definition agent_metric_ok :: "effect \<Rightarrow> bool" where
  "agent_metric_ok e = (case e of CounterInc m ls \<Rightarrow> agent_records MCounter m ls
    | GaugeSet m ls v \<Rightarrow> agent_records MGauge m ls | Sampled m ls \<Rightarrow> agent_records MHistogram m ls | _ \<Rightarrow> True)"

lemma agent_metric_ok_simps [simp]:
  "agent_metric_ok (CounterInc m ls) = agent_records MCounter m ls"
  "agent_metric_ok (GaugeSet m ls v) = agent_records MGauge m ls" "agent_metric_ok (Sampled m ls) = agent_records MHistogram m ls"
  "agent_metric_ok MarkedReady"
  by (simp_all add: agent_metric_ok_def)

locale agent_sends = agent_log +
  assumes http: "P (Http rq answer)" and sample: "is_sample e \<Longrightarrow> agent_metric_ok e \<Longrightarrow> P e"
begin

lemma samples: "agent_records MCounter m ls \<Longrightarrow> P (CounterInc m ls)" "agent_records MGauge m ls \<Longrightarrow> P (GaugeSet m ls v)"
  "agent_records MHistogram m ls \<Longrightarrow> P (Sampled m ls)"
  by (simp_all add: sample is_sample_def)

lemmas sends = intros samples

lemma sends_http: "only.keeps P (http_send c rq)" "only.keeps P (authorized c m u)"
  unfolding http_send_def authorized_def by (intro intros http)+

lemma post_attempts: "only.keeps P (post_attempts c url a n e)"
proof (induction n arbitrary: a e)
  case (Suc n)
  show ?case unfolding post_attempts.simps by (intro sends sends_http Suc)
qed (simp add: only.keeps_ret)

lemma gateway: "only.keeps P (trigger_scan c)" "only.keeps P (health_check c)"
  "only.keeps P (port_check c)" "only.keeps P (get_designer_sessions c)"
  unfolding trigger_scan_def post_scan_def health_check_def port_check_def get_designer_sessions_def
  by (intro sends sends_http post_attempts)+

lemmas ops = sends event report_error write_status set_designer_blocked
  record_synced read_metadata sync_with_profile apply_sync_period fetch_repo
  back_off gateway

lemma sync_once: "only.keeps P (sync_once E c r ini p)"
  unfolding sync_once_def sync_failed_def file_gauges_def sync_report_step_def scan_step_def
  by (intro ops) simp_all

lemma designer_wait: "only.keeps P (designer_wait E c r i n)"
proof (induction n)
  case 0
  show ?case unfolding designer_wait.simps [of E c r i 0]
    by (rule only.keeps_bind [OF only_call]) (auto split: wait_event.splits intro!: ops)
next
  case (Suc n)
  show ?case unfolding designer_wait.simps [of E c r i "Suc n"]
    by (rule only.keeps_bind [OF only_call]) (auto split: wait_event.splits intro!: ops Suc)
qed

lemma check_designer_sessions: "only.keeps P (check_designer_sessions E p c r)"
  unfolding check_designer_sessions_def by (intro ops designer_wait) simp_all

lemma sync_or_back_off: "only.keeps P (sync_or_back_off E meta result)"
  unfolding sync_or_back_off_def by (intro ops sync_once modify) simp

lemma trigger_sync: "only.keeps P (trigger_sync E meta result)"
  unfolding trigger_sync_def
  by (intro ops check_designer_sessions sync_or_back_off) simp_all

lemma trigger: "only.keeps P (handle_sync_trigger E u)"
  unfolding handle_sync_trigger_def trigger_read_def trigger_locked_def
  by (intro ops trigger_sync modify) simp_all

lemma startup:
  assumes "P MarkedReady"
  shows "only.keeps P (run_startup E n)"
  unfolding run_startup_def initial_sync_def
  by (intro ops sync_once modify wait_for_metadata fetch_cr_ref
      apply_sync_period_from_meta assms) simp_all

lemma post_commission: "only.keeps P (post_commission_poll E g)"
  unfolding post_commission_poll_def by (intro ops sync_once) simp_all

end

interpretation metered: agent_sends agent_metric_ok
  by unfold_locales (auto simp: agent_metric_ok_def is_sample_def is_http_def split: effect.splits)

interpretation unmarked: agent_sends "\<lambda>e. e \<noteq> MarkedReady"
  by unfold_locales (auto simp: is_sample_def)

end
