(* ===== verification/SyncConfine.thy ===== *)
theory SyncConfine
  imports SyncCorrect
begin

section \<open>Where a sync writes, whatever its destinations\<close>

text \<open>
  The effects of \<open>SyncCorrect\<close> rest on destinations in clean form and on the documented meaning of
  the built-in patterns. That a run stays below its two directories needs neither: every callback of
  a walk below a directory writes below it, whatever the walk meets.
\<close>

subsection \<open>Plans as the agent builds them\<close>

definition plan_safe :: "sync_plan \<Rightarrow> bool" where
  "plan_safe plan \<longleftrightarrow> list_all name_ok (p_live_dir plan) \<and> p_staging_dir plan = p_live_dir plan @ [staging_name] \<and>
     (\<forall>m \<in> set (p_mappings plan). mapping_safe (p_staging_dir plan) (p_apply_template plan) m)"

lemma plan_safeD:
  assumes "plan_safe plan"
  shows "list_all name_ok (p_live_dir plan)" "list_all name_ok (p_staging_dir plan)"
    "prefix (p_live_dir plan) (p_staging_dir plan)" "p_staging_dir plan \<noteq> []"
    "\<forall>m \<in> set (p_mappings plan). mapping_safe (p_staging_dir plan) (p_apply_template plan) m"
    "\<forall>R \<in> set (mkeys (compute_managed_roots (p_mappings plan) [])). dest_ok R"
  using assms
  by (auto simp: plan_safe_def staging_name_def name_ok_def compute_managed_roots_keys mapping_safe_def)
    (simp add: mkeys_def)

subsection \<open>Changes below a directory\<close>

lemma staged_only_refl [simp]: "staged_only root w w"
  by (simp add: staged_only_def)

lemma staged_only_trans:
  assumes "staged_only root u v" "staged_only root v w"
  shows "staged_only root u w"
  unfolding staged_only_def
proof (intro allI impI)
  fix q assume q: "\<not> prefix root q"
  show "nodew w q = nodew u q \<or> (nodew u q = None \<and> nodew w q = Some Dir \<and> strict_prefix q root)"
    by (cases rule: staged_only_cases [OF assms(1) q]; cases rule: staged_only_cases [OF assms(2) q]) auto
qed

lemma staged_only_put:
  assumes "put_effect D w w'" "\<And>p. p \<in> D \<Longrightarrow> prefix root p"
  shows "staged_only root w w'"
  unfolding staged_only_def
proof (intro allI impI)
  fix q assume q: "\<not> prefix root q"
  from assms(1) show "nodew w' q = nodew w q \<or> (nodew w q = None \<and> nodew w' q = Some Dir \<and> strict_prefix q root)"
  proof (cases rule: put_effect_cases [where q = q])
    case (made p)
    with q prefix_same_cases [of q p root] assms(2) [of p] show ?thesis by (auto simp: strict_prefix_def)
  qed (use q assms(2) in auto)
qed

lemma staged_only_below:
  "(\<And>q. \<not> prefix root q \<Longrightarrow> nodew w' q = nodew w q) \<Longrightarrow> staged_only root w w'"
  by (simp add: staged_only_def)

lemma staged_only_weaken:
  assumes "staged_only staging w w'" "prefix live staging"
  shows "staged_only live w w'"
  unfolding staged_only_def
proof (intro allI impI)
  fix q assume q: "\<not> prefix live q"
  then have "\<not> prefix staging q" using assms(2) prefix_order.trans by blast
  then show "nodew w' q = nodew w q \<or> (nodew w q = None \<and> nodew w' q = Some Dir \<and> strict_prefix q live)"
    by (cases rule: staged_only_cases [OF assms(1)])
      (use q prefix_same_cases [of q staging live] assms(2) in \<open>auto simp: strict_prefix_def\<close>)
qed

lemma staged_only_mkdir: "mkdir_all p w = (e, w') \<Longrightarrow> prefix root p \<Longrightarrow> staged_only root w w'"
  by (rule staged_only_put [where D = "{p}"]) (auto intro: put_effect_mk dest: mkdir_all_effect)

text \<open>A state of the walk that changed files only below the root, and is well formed.\<close>

definition below :: "apath \<Rightarrow> world \<Rightarrow> world \<Rightarrow> bool" where
  "below root w w' \<longleftrightarrow> staged_only root w w' \<and> fs_ok (store w')"

lemma below_trans: "below root u v \<Longrightarrow> below root v w \<Longrightarrow> below root u w"
  using staged_only_trans by (auto simp: below_def)

subsection \<open>Staging\<close>

lemma stage_all_below:
  assumes "stage_all E plan excludes ms (staged, w) = (e, (staged', w'))"
    and "\<forall>m \<in> set ms. mapping_safe (p_staging_dir plan) (p_apply_template plan) m"
    and "fs_ok (store w)" "list_all name_ok (p_staging_dir plan)"
  shows "below (p_staging_dir plan) w w'"
  using assms
proof (induction ms arbitrary: staged w)
  case (Cons m ms)
  let ?st = "p_staging_dir plan"
  obtain e1 staged1 w1 where st: "(if m_type m = mapping_type_file
            then stage_single_file E m ?st excludes (p_apply_template plan) (staged, w)
            else stage_directory E m ?st excludes (p_apply_template plan) (staged, w))
      = (e1, (staged1, w1))" by (metis surj_pair)
  have w1: "below ?st w w1"
  proof (cases "m_type m = mapping_type_file")
    case True
    with st stage_single_file_put [of E m ?st excludes "p_apply_template plan" staged w] Cons.prems(2-4)
    show ?thesis by (auto simp: below_def intro: staged_only_put)
  next
    case False
    with st stage_directory_effect [of E m ?st excludes "p_apply_template plan" staged w] Cons.prems(2-4)
    have "put_effect (stage_area E excludes ?st) w w1" "fs_ok (store w1)" by simp_all
    then show ?thesis by (auto simp: below_def stage_area_def intro: staged_only_put)
  qed
  have "stage_all E plan excludes ms (staged1, w1) = (e, (staged', w')) \<or> w' = w1"
    using Cons.prems(1) st by (cases e1) auto
  with Cons.IH [of staged1 w1] Cons.prems(2,4) w1 show ?case by (auto simp: below_def intro: staged_only_trans)
qed (simp add: below_def)

lemma remove_all_below: "fs_ok (store w) \<Longrightarrow> below p w (snd (remove_all p w))"
  by (auto simp: below_def remove_all_frame remove_all_fs_ok intro: staged_only_below)

lemma build_staging_below:
  assumes run: "build_staging E plan excludes w = (e, w')" and plan: "plan_safe plan" and ok: "fs_ok (store w)"
  shows "below (p_staging_dir plan) w w'"
proof -
  let ?st = "p_staging_dir plan"
  note P = plan_safeD [OF plan]
  obtain e1 w1 where ra: "remove_all ?st w = (e1, w1)" by (rule prod.exhaust)
  from remove_all_below [OF ok, of ?st] ra have b1: "below ?st w w1" by simp
  obtain e2 w2 where mk: "mkdir_all ?st w1 = (e2, w2)" by (rule prod.exhaust)
  have b2: "below ?st w1 w2"
    using staged_only_mkdir [OF mk] mkdir_all_fs_ok [OF mk _ P(2)] b1 by (simp add: below_def)
  obtain e3 staged w3 where st: "stage_all E plan excludes (p_mappings plan) ([], w2) = (e3, (staged, w3))"
    by (metis surj_pair)
  have b3: "below ?st w2 w3" by (rule stage_all_below [OF st P(5) _ P(2)]) (use b2 in \<open>simp add: below_def\<close>)
  have "w' = w1 \<or> w' = w2 \<or> w' = w3"
    using run ra mk st by (auto simp: build_staging_def split: option.splits)
  with b1 b2 b3 below_trans show ?thesis by metis
qed

subsection \<open>Merging\<close>

text \<open>Every name the walk hands to its callback is one of a directory entry.\<close>

lemma walk_names:
  assumes cb: "\<And>q d e s r s'. I s \<Longrightarrow> prefix root q \<Longrightarrow> list_all name_ok q \<Longrightarrow> cb q d e s = (r, s') \<Longrightarrow> I s'"
    and ok: "\<And>s. I s \<Longrightarrow> fs_ok (store (snd s))" and root: "list_all name_ok root"
    and I: "I s" and run: "walk cb root s = (r, s')"
  shows "I s'"
proof -
  have lst: "walk_list f p es s = (r, s') \<Longrightarrow> I s \<Longrightarrow> prefix root p \<Longrightarrow> list_all name_ok p \<Longrightarrow>
      list_all (\<lambda>(x, k). name_ok x) es \<Longrightarrow>
      (\<And>q k s r s'. I s \<Longrightarrow> prefix root q \<Longrightarrow> list_all name_ok q \<Longrightarrow> f q k s = (r, s') \<Longrightarrow> I s') \<Longrightarrow> I s'"
    for f p es s r s'
  proof (induction es arbitrary: s)
    case (Cons e es)
    obtain x k where e: "e = (x, k)" by (rule prod.exhaust)
    obtain r1 s1 where f: "f (p @ [x]) k s = (r1, s1)" by (rule prod.exhaust)
    have "I s1" by (rule Cons.prems(6) [OF Cons.prems(2) _ _ f]) (use Cons.prems e in auto)
    with Cons f e show ?case by (cases r1) auto
  qed simp
  have dir: "walk_dir n cb p k s = (r, s') \<Longrightarrow> I s \<Longrightarrow> prefix root p \<Longrightarrow> list_all name_ok p \<Longrightarrow> I s'" for n p k s r s'
  proof (induction n arbitrary: p k s r s')
    case (Suc n)
    obtain r1 s1 where c1: "cb p (Some k) None s = (r1, s1)" by (rule prod.exhaust)
    have I1: "I s1" by (rule cb [OF Suc.prems(2-4) c1])
    show ?case
    proof (cases "read_dir (store (snd s1)) p")
      case (Inl err)
      obtain r2 s2 where c2: "cb p (Some k) (Some err) s1 = (r2, s2)" by (rule prod.exhaust)
      have "I s2" by (rule cb [OF I1 Suc.prems(3,4) c2])
      with Inl Suc.prems(1) c1 c2 I1 show ?thesis by (auto split: if_splits)
    next
      case (Inr dirs)
      have "name_ok x" if "(x, l) \<in> set dirs" for x l
      proof -
        obtain p' where "dirs = dir_entries (store (snd s1)) p'"
          using Inr by (auto simp: read_dir_def split: sum.splits if_splits)
        with that set_dir_entries [OF ok [OF I1], of x l p'] fs_ok_names [OF ok [OF I1], of "p' @ [x]"]
        show ?thesis by auto
      qed
      then have "list_all (\<lambda>(x, k). name_ok x) dirs" by (auto simp: list_all_iff)
      from lst [OF _ I1 Suc.prems(3,4) this, of "walk_dir n cb" r s'] Suc.IH Suc.prems(1) c1 I1 Inr
      show ?thesis by (auto split: if_splits)
    qed
  qed simp
  obtain r1 s1 where w: "(case lstat (store (snd s)) root of Inl err \<Rightarrow> cb root None (Some err) s
      | Inr info \<Rightarrow> walk_dir (walk_fuel (store (snd s))) cb root (kind_of info) s) = (r1, s1)" by (rule prod.exhaust)
  then have "I s1" using cb [OF I _ root] dir [OF _ I _ root] by (auto split: sum.splits)
  with w run show ?thesis by (simp add: walk_def)
qed

lemma merge_cb_below:
  assumes run: "merge_cb E staging live q d err s = (r, s')" and q: "prefix staging q" "list_all name_ok q"
    and live: "list_all name_ok live" and ok: "fs_ok (store (snd s))"
  shows "below live (snd s) (snd s')"
proof -
  obtain rs where rs: "q = staging @ rs" "list_all name_ok rs" using q by (auto simp: prefix_def)
  obtain a mo w where s: "s = ((a, mo), w)" by (metis surj_pair)
  have okw: "fs_ok (store w)" using ok s by simp
  have dst: "rs \<noteq> [] \<Longrightarrow> join_abs live (filepath_rel staging q) = live @ rs"
    using rs(2) live by (simp add: rs(1) filepath_rel_below join_abs_join)
  have nm: "list_all name_ok (live @ rs)" using live rs(2) by simp
  obtain e w1 where mk: "mkdir_all (live @ rs) w = (e, w1)" by (rule prod.exhaust)
  obtain x w2 where cp: "copy_file E q (live @ rs) w = (x, w2)" by (rule prod.exhaust)
  have b1: "below live w w1"
    using staged_only_mkdir [OF mk, of live] mkdir_all_fs_ok [OF mk okw nm] by (simp add: below_def)
  have b2: "below live w w2"
    using staged_only_put [OF copy_file_put [OF cp], of live] copy_file_fs_ok [OF cp okw nm] by (simp add: below_def)
  have "snd s' = w \<or> snd s' = w1 \<or> snd s' = w2"
  proof (cases "rs = [] \<or> err \<noteq> None \<or> d = Some KLink")
    case True
    then have "snd s' = w" using run s by (auto simp: merge_cb_def rs(1) filepath_rel_below [of staging "[]", simplified] Let_def split: if_splits option.splits)
    then show ?thesis by simp
  next
    case False
    then have "filepath_rel staging q \<noteq> ''.''" using rs by (simp add: filepath_rel_below slash_join_not_dot)
    with False run s mk cp dst show ?thesis
      by (auto simp: merge_cb_def Let_def split: if_splits sum.splits)
  qed
  with b1 b2 okw s show ?thesis by (auto simp: below_def)
qed

lemma merge_below:
  assumes "merge_staging_to_live E staging live w = (e, (cnt, w'))" "list_all name_ok staging" "list_all name_ok live"
    and "fs_ok (store w)"
  shows "below live w w'"
proof -
  obtain r s1 where wk: "walk (merge_cb E staging live) staging ((0, 0), w) = (r, s1)" by (rule prod.exhaust)
  have "below live w (snd s1)"
  proof (rule walk_names [where I = "\<lambda>s. below live w (snd s)", OF _ _ assms(2) _ wk])
    fix q d err s r s'
    assume "below live w (snd s)" "prefix staging q" "list_all name_ok q" "merge_cb E staging live q d err s = (r, s')"
    with merge_cb_below [OF _ _ _ assms(3), of E staging q d err s r s'] below_trans
    show "below live w (snd s')" by (auto simp: below_def intro: staged_only_trans)
  qed (use assms(4) in \<open>simp_all add: below_def\<close>)
  with assms(1) wk show ?thesis by (auto simp: merge_staging_to_live_def)
qed

subsection \<open>Orphans\<close>

lemma remove_below:
  assumes "remove p w = (e, w')" "prefix live p" "fs_ok (store w)"
  shows "below live w w'"
proof (cases e)
  case None
  note r = remove_None [OF assms(1) [unfolded None]]
  have "nodew w' q = nodew w q" if "\<not> prefix live q" for q
    using that assms(2) r(1,2) by (auto simp: node_at_mdel)
  with remove_fs_ok [OF assms(1,3)] show ?thesis by (simp add: below_def staged_only_below)
next
  case (Some err)
  with remove_Some [of p w err w'] assms show ?thesis by (simp add: below_def)
qed

lemma remove_empty_dirs_below:
  "prefix live p \<or> strict_prefix p live \<Longrightarrow> fs_ok (store w) \<Longrightarrow> \<forall>R \<in> set (mkeys roots). dest_ok R \<Longrightarrow>
   below live w (remove_empty_dirs live roots p w)"
proof (induction live roots p w rule: remove_empty_dirs.induct)
  case (1 live roots p w)
  obtain e w1 where rm: "remove p w = (e, w1)" by (rule prod.exhaust)
  have refl: "below live w w" using "1.prems"(2) by (simp add: below_def)
  show ?case
  proof (cases "is_under_managed_root (filepath_rel live p) roots \<and> (\<exists>es. read_dir (store w) p = Inr es \<and> es = [])")
    case False
    then have "remove_empty_dirs live roots p w = w"
      by (subst remove_empty_dirs.simps) (auto split: sum.splits)
    with refl show ?thesis by simp
  next
    case True
    then have u: "is_under_managed_root (filepath_rel live p) roots" and rd: "read_dir (store w) p = Inr []" by auto
    have p: "prefix live p" using not_managed_above [OF _ "1.prems"(3), of p live] u "1.prems"(1) by blast
    have b1: "below live w w1" by (rule remove_below [OF rm p "1.prems"(2)])
    show ?thesis
    proof (cases e)
      case (Some err)
      then have "remove_empty_dirs live roots p w = w1"
        using u rd rm by (subst remove_empty_dirs.simps) simp
      with b1 show ?thesis by simp
    next
      case None
      have eq: "remove_empty_dirs live roots p w = remove_empty_dirs live roots (abs_dir p) w1"
        using u rd rm None by (subst remove_empty_dirs.simps) simp
      have "prefix live (abs_dir p) \<or> strict_prefix (abs_dir p) live"
        using p prefix_same_cases [of "abs_dir p" p live] by (auto simp: abs_dir_def prefixeq_butlast strict_prefix_def)
      then have "below live w1 (remove_empty_dirs live roots (abs_dir p) w1)"
        using "1.IH" [OF _ rd _ rm [symmetric] None] u b1 "1.prems"(3) by (simp add: below_def)
      with eq b1 below_trans show ?thesis by metis
    qed
  qed
qed

lemma orphan_cb_below:
  assumes run: "orphan_cb E staging live roots excludes q d err s = (r, s')" and q: "prefix live q"
    and roots: "\<forall>R \<in> set (mkeys roots). dest_ok R" and ok: "fs_ok (store (snd s))"
  shows "below live (snd s) (snd s')"
proof -
  obtain n w where s: "s = (n, w)" by (rule prod.exhaust)
  obtain e w1 where rm: "remove q w = (e, w1)" by (rule prod.exhaust)
  have b1: "below live w w1" by (rule remove_below [OF rm q]) (use ok s in simp)
  have "prefix live (abs_dir q) \<or> strict_prefix (abs_dir q) live"
    using q prefix_same_cases [of "abs_dir q" q live] by (auto simp: abs_dir_def prefixeq_butlast strict_prefix_def)
  then have b2: "below live w1 (remove_empty_dirs live roots (abs_dir q) w1)"
    by (rule remove_empty_dirs_below) (use b1 roots in \<open>simp_all add: below_def\<close>)
  have "snd s' = w \<or> snd s' = w1 \<or> snd s' = remove_empty_dirs live roots (abs_dir q) w1"
    using run s rm by (auto simp: orphan_cb_def Let_def split: if_splits option.splits sum.splits)
  with b1 b2 ok s below_trans show ?thesis by (auto simp: below_def intro: staged_only_trans)
qed

lemma clean_below:
  assumes "clean_orphans E staging live roots excludes w = (e, (d, w'))"
    and "\<forall>R \<in> set (mkeys roots). dest_ok R" "fs_ok (store w)"
  shows "below live w w'"
proof -
  obtain r s1 where wk: "walk (orphan_cb E staging live roots excludes) live (0, w) = (r, s1)" by (rule prod.exhaust)
  have "below live w (snd s1)"
  proof (rule walk_inv [where I = "\<lambda>s. below live w (snd s)", OF _ _ wk])
    fix q d err s r s'
    assume "below live w (snd s)" "prefix live q" "orphan_cb E staging live roots excludes q d err s = (r, s')"
    with orphan_cb_below [OF _ _ assms(2), of E staging live excludes q d err s r s'] below_trans
    show "below live w (snd s')" by (auto simp: below_def intro: staged_only_trans)
  qed (use assms(3) in \<open>simp add: below_def\<close>)
  with assms(1) wk show ?thesis by (auto simp: clean_orphans_def)
qed

subsection \<open>A whole run\<close>

lemma apply_staging_below:
  assumes run: "apply_staging E plan excludes (compute_managed_roots (p_mappings plan) []) w = (r, w')"
    and plan: "plan_safe plan" and ok: "fs_ok (store w)"
  shows "below (p_live_dir plan) w w'"
proof (cases "p_dry_run plan")
  case True
  with apply_staging_dry [OF run] ok show ?thesis by (simp add: below_def)
next
  case False
  note P = plan_safeD [OF plan]
  from run False show ?thesis
  proof (cases rule: apply_staging_live)
    case (merge_err e cnt)
    from merge_below [OF merge_err(1) P(2,1) ok] show ?thesis .
  next
    case (clean cnt w1 e d)
    note m = merge_below [OF clean(1) P(2,1) ok]
    from clean_below [OF clean(2) P(6)] m below_trans show ?thesis by (auto simp: below_def intro: staged_only_trans)
  qed
qed

lemma execute_plan_below:
  assumes run: "execute_plan E plan w = (r, w')" and plan: "plan_safe plan" and ok: "fs_ok (store w)"
  shows "staged_only (p_live_dir plan) w w'" "p_dry_run plan \<Longrightarrow> staged_only (p_staging_dir plan) w w'"
proof -
  let ?live = "p_live_dir plan" and ?st = "p_staging_dir plan"
  note P = plan_safeD [OF plan]
  have up: "below ?st u v \<Longrightarrow> below ?live u v" for u v using P(3) by (auto simp: below_def intro: staged_only_weaken)
  have "below ?live w w' \<and> (p_dry_run plan \<longrightarrow> below ?st w w')"
    using run
  proof (cases rule: execute_plan_stages)
    case (fail e)
    from build_staging_below [OF fail(1) plan ok] up show ?thesis by simp
  next
    case (apply_err w1 e)
    note b = build_staging_below [OF apply_err(1) plan ok]
    then have "fs_ok (store w1)" by (simp add: below_def)
    from apply_staging_below [OF apply_err(2) plan this] b up below_trans apply_staging_dry [OF apply_err(2)]
    show ?thesis by metis
  next
    case (success w1 res w2)
    note b = build_staging_below [OF success(1) plan ok]
    then have "fs_ok (store w1)" by (simp add: below_def)
    note a = apply_staging_below [OF success(2) plan this]
    then have "below ?st w2 w'" using success(3) remove_all_below [of w2 ?st] by (simp add: below_def)
    with a b up below_trans apply_staging_dry [OF success(2)] show ?thesis by metis
  qed
  then show "staged_only ?live w w'" "p_dry_run plan \<Longrightarrow> staged_only ?st w w'" by (auto simp: below_def)
qed

end
