(* ===== verification/AgentSyncProps.thy ===== *)
theory AgentSyncProps
  imports AgentLemmas AgentSends SyncProps SyncConfine
begin

section \<open>Properties of the agent\<close>

text \<open>
  What a sync cycle records, sends and writes, what a trigger does, and what holds in every
  reachable state; and a small agent, gateway and cluster on which they are applied.
\<close>

subsection \<open>A sample agent\<close>

type_synonym sample_cluster = "(string, config_map) gomap"

definition sample_cfg :: agent_config where
  "sample_cfg = \<lparr>c_pod_name = ''gw-0'', c_pod_namespace = ''ns'', c_gateway_name = ''gw'', c_cr_name = ''cr'',
     c_cr_namespace = ''ns'', c_repo_path = ''/repo'', c_data_path = ''/live'', c_gateway_port = ''8088'',
     c_gateway_tls = False, c_api_key_file = [], c_sync_period = 30, c_profile_name = []\<rparr>"

definition sample_profile :: "bool \<Rightarrow> resolved_profile" where
  "sample_profile dry = \<lparr>rp_mappings = [\<lparr>pm_source = ''cfg'', pm_destination = ''config'', pm_type = ''dir'',
       pm_required = True, pm_template = False, pm_patches = []\<rparr>],
     rp_exclude_patterns = [], rp_vars = [], rp_sync_period = 0, rp_dry_run = dry,
     rp_designer_policy = ''fail'', rp_paused = False\<rparr>"

definition sample_cm_api :: "sample_cluster cm_api" where
  "sample_cm_api = \<lparr>k_get_cm = (\<lambda>ns n k. (case mget k n of Some cm \<Rightarrow> Inr cm | None \<Rightarrow> Inl (ApiError NotFound n), k)),
     k_create_cm = (\<lambda>cm k. (None, mput k (cm_name cm) cm)), k_update_cm = (\<lambda>cm k. (None, mput k (cm_name cm) cm))\<rparr>"

definition sample_http :: "(int \<times> string) \<Rightarrow> sample_cluster http_api" where
  "sample_http ans = \<lparr>h_new_request = (\<lambda>m u. None),
     h_do = (\<lambda>rq k. (Inr \<lparr>rs_status = fst ans, rs_body = snd ans\<rparr>, k))\<rparr>"

definition sample_agent :: "bool \<Rightarrow> int \<times> string \<Rightarrow> (sample_cluster, string) agent_env" where
  "sample_agent dry ans = \<lparr>ae_cfg = sample_cfg, ae_sys = sample_env,
     ae_content = \<lparr>tmpl_parse = (\<lambda>t. None), tmpl_execute = (\<lambda>t c. Inr t), json_valid = (\<lambda>s. True),
       json_decode = (\<lambda>s. Some s), json_string = (\<lambda>s. s), sjson_set = (\<lambda>c p v. Inr v)\<rparr>,
     ae_json = \<lparr>json_profiles = (\<lambda>s. Inr [(''default'', sample_profile dry)]), json_status = gs_sync_status\<rparr>,
     ae_cm = sample_cm_api, ae_http = sample_http ans,
     ae_decode_sessions = (\<lambda>b. Inr (if b = ''busy'' then Some [\<lparr>ds_id = ''1'', ds_user = ''u'', ds_project = ''p'',
        ds_address = [], ds_timezone = [], ds_uptime = 0\<rparr>] else None)),
     ae_pod_labels = (\<lambda>ns n k. (Inr [], k)), ae_get_cr = (\<lambda>ns n k. (None, k)),
     ae_git = (\<lambda>u r p kw. (Inr \<lparr>gr_commit = ''c1'', gr_ref = r\<rparr>, kw)), ae_now = (\<lambda>k. (5, k)),
     ae_format_time = itoa, ae_duration = (\<lambda>k. (''1s'', k)), ae_select = (\<lambda>k. (Tick, k)),
     ae_engine_excludes = engine_excludes, ae_recorder = True, ae_version = ''dev''\<rparr>"

definition sample_meta_cm :: config_map where
  "sample_meta_cm = \<lparr>cm_namespace = ''ns'', cm_name = ''stoker-metadata-cr'', cm_labels = [], cm_resource_version = ''1'',
     cm_data = [(''commit'', ''c1''), (''ref'', ''main''), (''gitURL'', ''u''), (''profiles'', ''P'')]\<rparr>"

definition sample_state :: "sample_cluster agent_state" where
  "sample_state = new_agent sample_cfg [(''stoker-metadata-cr'', sample_meta_cm)] sample_world"

lemma sample_paths: "abs_path (c_repo_path sample_cfg) = [''repo'']" "abs_path (c_data_path sample_cfg) = [''live'']"
  by code_simp+

subsection \<open>One sync cycle\<close>

text \<open>
  \<open>syncOnce\<close> records the commit and the profiles as synced exactly when it returns no error,
  and then the plan was executed without error; otherwise both are as before. It changes files
  only through the plan, and never the failure count, the backoff or the probe flags.
\<close>

theorem sync_once_spec:
  "case run_state (sync_once E commit ref isInitial profiles) s of (r, t) \<Rightarrow>
     (if r = None
      then ag_last_commit t = commit \<and> ag_last_profiles t = profiles \<and>
        (\<exists>res. fst (fst (run_state (sync_with_profile E) s)) = Inr res)
      else ag_last_commit t = ag_last_commit s \<and> ag_last_profiles t = ag_last_profiles s) \<and>
     ag_world t = ag_world (snd (run_state (sync_with_profile E) s)) \<and>
     ag_errors t = ag_errors s \<and> ag_backoff_until t = ag_backoff_until s \<and> ag_health t = ag_health s"
proof -
  obtain r t where run: "run_state (sync_once E commit ref isInitial profiles) s = (r, t)" by (rule prod.exhaust)
  have "\<exists>res. fst (fst (run_state (sync_with_profile E) s)) = Inr res" if "r = None"
    using run by (cases rule: sync_once_cases) (use that in auto)
  with sync_once_record [OF run] run show ?thesis by auto
qed

definition scan_url :: "('k, 'j) agent_env \<Rightarrow> string \<Rightarrow> string" where
  "scan_url E path = ic_base_url (agent_client E) @ path"

text \<open>
  A run of one to three posts to one address, with nothing but pauses between them, and the answer
  to the last is a status of success.
\<close>

definition scan_posts :: "string \<Rightarrow> effect list \<Rightarrow> bool" where
  "scan_posts url es \<longleftrightarrow> list_all (scan_entry url) es \<and> 1 \<le> posts url es \<and> posts url es \<le> 3 \<and> ends_accepted es"

text \<open>
  C15: a cycle that is not the initial one, not a dry run and not during shutdown returns no error
  only if the gateway was told to scan its projects and then its configuration, each by one to
  three posts, the last of which it answered with a status of success.
\<close>

theorem synced_only_after_scan:
  assumes "run_state (sync_once E commit ref False profiles) s = (None, t)" "\<not> is_shutting_down (ag_health s)"
    and "\<not> snd (snd (fst (run_state (sync_with_profile E) s)))"
  shows "\<exists>later configs projects earlier.
     io_log t = later @ configs @ projects @ earlier \<and> suffix (io_log s) earlier \<and>
     scan_posts (scan_url E scan_projects_path) projects \<and> scan_posts (scan_url E scan_config_path) configs"
  using assms(1)
proof (cases rule: sync_once_cases)
  case (reported res name dry s1 s2)
  from assms(3) reported(1) have "\<not> dry" by simp
  have "log_grows s s2"
    using grow.R_trans [OF same_ctlD(10) [OF ctl.keepsD [OF ctl_sync_with_profile reported(1)]] same_coreD(11) [OF reported(3)]] .
  then obtain pre where pre: "io_log s2 = pre @ io_log s" by (auto simp: log_grows_def suffix_def)
  show ?thesis
    using reported(4)
  proof (cases rule: sync_report_step_cases)
    case (2 x s3 s4)
    obtain sr s5 where ts: "run_state (trigger_scan (agent_client E)) s2 = (sr, s5)" by (rule prod.exhaust)
    with 2(1) \<open>\<not> dry\<close> have x: "x = scan_result_string sr" and "log_grows s5 s3"
      by (auto simp: scan_step_def log_grows_def suffix_ConsI split: prod.splits if_splits)
    then obtain mid where mid: "io_log s3 = mid @ io_log s5" by (auto simp: log_grows_def suffix_def)
    from same_coreD(11) [OF 2(4)] obtain lat where lat: "io_log s4 = lat @ io_log s3"
      by (auto simp: log_grows_def suffix_def)
    have "sr_error sr = []"
      using 2(2) \<open>\<not> dry\<close> scan_string_error [of sr] by (auto simp: x sync_outcome_def split: if_splits)
    with ts show ?thesis
    proof (cases rule: trigger_scan_cases)
      case (both es fs)
      have "io_log t = (lat @ mid) @ fs @ es @ pre @ io_log s" using 2(5) lat mid both(2) pre by simp
      with both show ?thesis
        by (intro exI [of _ "lat @ mid"] exI [of _ fs] exI [of _ es] exI [of _ "pre @ io_log s"])
          (simp add: scan_posts_def scan_url_def suffix_def)
    qed simp_all
  qed simp
qed (use assms(2) in simp_all)

theorem synced_only_after_scan_witness:
  "\<exists>later configs projects earlier.
     io_log (snd (run_state (sync_once (sample_agent False (200, [])) ''c1'' ''main'' False ''P'') sample_state)) =
       later @ configs @ projects @ earlier \<and> suffix (io_log sample_state) earlier \<and>
     scan_posts (scan_url (sample_agent False (200, [])) scan_projects_path) projects \<and>
     scan_posts (scan_url (sample_agent False (200, [])) scan_config_path) configs"
proof -
  let ?out = "run_state (sync_once (sample_agent False (200, [])) ''c1'' ''main'' False ''P'') sample_state"
  have "fst ?out = None" by code_simp
  then have r: "?out = (None, snd ?out)" by (metis prod.collapse)
  show ?thesis
    by (rule synced_only_after_scan [OF r]) code_simp+
qed

subsection \<open>Where a cycle writes\<close>

lemma abs_path_names: "list_all name_ok (abs_path p)"
  by (simp add: abs_path_def join_abs_names)

lemma agent_plan_safe:
  assumes "agent_plan E meta profile labels m = Inr plan"
    and "abs_path (c_repo_path (ae_cfg E)) \<parallel> abs_path (c_data_path (ae_cfg E))"
  shows "plan_safe plan" "p_live_dir plan = abs_path (c_data_path (ae_cfg E))"
    "p_staging_dir plan = abs_path (c_data_path (ae_cfg E)) @ [staging_name]" "p_dry_run plan = rp_dry_run profile"
proof -
  obtain plan0 where b: "build_sync_plan (ae_sys E) (ae_content E) m profile
      (build_template_context (ae_cfg E) meta (rp_vars profile) labels)
      (abs_path (c_repo_path (ae_cfg E))) (abs_path (c_data_path (ae_cfg E))) = Inr plan0"
    and plan: "plan = plan0\<lparr>p_exclude_patterns := p_exclude_patterns plan0 @ ae_engine_excludes E\<rparr>"
    using assms(1) by (auto simp: agent_plan_def Let_def split: sum.splits)
  note ok = build_sync_plan_safe [OF b abs_path_names abs_path_names assms(2)]
  show "plan_safe plan" "p_live_dir plan = abs_path (c_data_path (ae_cfg E))"
    "p_staging_dir plan = abs_path (c_data_path (ae_cfg E)) @ [staging_name]" "p_dry_run plan = rp_dry_run profile"
    using ok by (simp_all add: plan plan_safe_def abs_path_names)
qed

text \<open>An agent whose profile puts one file at a destination that is not written in clean form; other texts it cannot decode.\<close>

definition file_agent :: "bool \<Rightarrow> (sample_cluster, string) agent_env" where
  "file_agent dry = (sample_agent dry (200, []))\<lparr>ae_json := \<lparr>json_profiles = (\<lambda>s. if s = ''P''
       then Inr [(''default'', (sample_profile dry)\<lparr>rp_mappings := [\<lparr>pm_source = ''cfg/a'', pm_destination = ''./x'',
         pm_type = ''file'', pm_required = True, pm_template = False, pm_patches = []\<rparr>]\<rparr>)]
       else Inl (Errorf ''invalid character'')), json_status = gs_sync_status\<rparr>\<rparr>"

lemma sample_cfgs: "ae_cfg (sample_agent dry ans) = sample_cfg" "ae_cfg (file_agent dry) = sample_cfg"
  by (simp_all add: sample_agent_def file_agent_def)

lemma sample_apart: "abs_path (c_repo_path sample_cfg) \<parallel> abs_path (c_data_path sample_cfg)"
  by (simp add: sample_paths parallel_def)

lemma sample_start: "ag_world sample_state = sample_world" "io_log sample_state = []"
  by (simp_all add: sample_state_def new_agent_def)

text \<open>
  C14: whatever the profile says, however its destinations are written and whatever its templates and
  patches produce, a sync cycle writes only below the data directory; missing directories above it may be
  made. The repository and the data directory are apart from each other, and the file system is a tree.
\<close>

theorem agent_sync_confined:
  assumes "run_state (sync_once E commit ref isInitial profiles) s = (r, t)" "fs_ok (store (ag_world s))"
    and "abs_path (c_repo_path (ae_cfg E)) \<parallel> abs_path (c_data_path (ae_cfg E))"
    and "\<not> prefix (abs_path (c_data_path (ae_cfg E))) q"
  shows "nodew (ag_world t) q = nodew (ag_world s) q \<or>
    (nodew (ag_world s) q = None \<and> nodew (ag_world t) q = Some Dir \<and> strict_prefix q (abs_path (c_data_path (ae_cfg E))))"
proof -
  obtain pr name dry s1 where p: "run_state (sync_with_profile E) s = ((pr, name, dry), s1)"
    by (metis prod_cases3 surj_pair)
  have t: "ag_world t = ag_world s1" using sync_once_record(9) [OF assms(1)] p by simp
  show ?thesis
    using p
  proof (cases rule: sync_with_profile_world)
    case (ran meta profile labels plan res)
    note ok = agent_plan_safe [OF ran(4) assms(3)]
    from execute_plan_below(1) [OF ran(5) ok(1) assms(2)] assms(4) show ?thesis by (simp add: ok(2) t staged_only_def)
  qed (simp add: t)
qed

theorem agent_sync_confined_witness:
  "let w = ag_world (snd (run_state (sync_once (file_agent False) ''c1'' ''main'' False ''P'') sample_state))
   in nodew w [''repo'', ''cfg'', ''a''] = Some (File ''x'' 420) \<and> nodew w [''live'', ''x''] = Some (File ''x'' 420)"
proof -
  have d: "\<not> prefix (abs_path (c_data_path (ae_cfg (file_agent False)))) [''repo'', ''cfg'', ''a'']"
    by (simp add: sample_cfgs sample_paths)
  have n: "nodew sample_world [''repo'', ''cfg'', ''a''] = Some (File ''x'' 420)"
    by (simp add: sample_world_def node_at_def)
  have x: "nodew (ag_world (snd (run_state (sync_once (file_agent False) ''c1'' ''main'' False ''P'') sample_state)))
      [''live'', ''x''] = Some (File ''x'' 420)"
    by code_simp
  from agent_sync_confined [where commit = "''c1''" and ref = "''main''" and isInitial = False and profiles = "''P''"
      and s = sample_state and E = "file_agent False", OF surjective_pairing _ _ d] n x sample_world_ok sample_apart
  show ?thesis by (simp add: Let_def sample_cfgs sample_start)
qed

subsection \<open>Dry runs\<close>

text \<open>No request was sent to the gateway between two states.\<close>

lemma quiet_file_gauges: "only.keeps (\<lambda>e. \<not> is_http e) (file_gauges p r)"
  unfolding file_gauges_def by (intro only_intros) (simp_all add: is_http_def)

lemma quiet_sync_failed: "only.keeps (\<lambda>e. \<not> is_http e) (sync_failed E c r p e)"
  unfolding sync_failed_def by (intro only_intros quiet.report_error quiet.event) (simp_all add: is_http_def)

lemma quiet_dry_report: "only.keeps (\<lambda>e. \<not> is_http e) (sync_report_step E c r ini p res name True)"
  unfolding sync_report_step_def scan_step_def if_True
  by (intro only_intros quiet.write_status quiet.event quiet.record_synced) (simp_all add: is_http_def)

text \<open>
  C16: a cycle of a profile in dry-run mode changes no file outside the staging directory and
  sends nothing to the gateway, so neither the live configuration nor the running gateway sees it.
\<close>

theorem dry_run_inert:
  assumes "run_state (sync_once E commit ref isInitial profiles) s = (r, t)" "fs_ok (store (ag_world s))"
    and "abs_path (c_repo_path (ae_cfg E)) \<parallel> abs_path (c_data_path (ae_cfg E))"
    and "snd (snd (fst (run_state (sync_with_profile E) s)))"
    and "\<not> prefix (abs_path (c_data_path (ae_cfg E)) @ [staging_name]) q"
  shows "filter is_http (io_log t) = filter is_http (io_log s) \<and>
    (nodew (ag_world t) q = nodew (ag_world s) q \<or>
     (nodew (ag_world s) q = None \<and> nodew (ag_world t) q = Some Dir \<and>
      strict_prefix q (abs_path (c_data_path (ae_cfg E)) @ [staging_name])))"
proof -
  obtain pr name dry s1 where p: "run_state (sync_with_profile E) s = ((pr, name, dry), s1)"
    by (metis prod_cases3 surj_pair)
  have dry: "dry" using assms(4) p by simp
  have t: "ag_world t = ag_world s1" using sync_once_record(9) [OF assms(1)] p by simp
  have "only_sent (\<lambda>e. \<not> is_http e) s t"
  proof (cases pr)
    case (Inl err)
    let ?m = "emit (Sampled ''SyncDuration'' [name]) \<bind> (\<lambda>_. sync_failed E commit ref name err)"
    have k: "only.keeps (\<lambda>e. \<not> is_http e) ?m" by (intro only_intros quiet_sync_failed) (simp add: is_http_def)
    have "run_state ?m s1 = (r, t)" using assms(1) p Inl by (simp add: sync_once_def)
    with only.keepsD [OF k this] only.keepsD [OF quiet.sync_with_profile p]
    show ?thesis by (blast intro: only.R_trans)
  next
    case (Inr res)
    let ?m = "emit (Sampled ''SyncDuration'' [name]) \<bind> (\<lambda>_. file_gauges name res \<bind> (\<lambda>_. reads (\<lambda>s. is_shutting_down (ag_health s)) \<bind> (\<lambda>down.
       if down then record_synced commit profiles \<bind> (\<lambda>_. ret None)
       else sync_report_step E commit ref isInitial profiles res name True)))"
    have k: "only.keeps (\<lambda>e. \<not> is_http e) ?m"
      by (intro only_intros quiet_file_gauges quiet.record_synced quiet_dry_report) (simp add: is_http_def)
    have "run_state ?m s1 = (r, t)" using assms(1) p Inr dry by (simp add: sync_once_def)
    with only.keepsD [OF k this] only.keepsD [OF quiet.sync_with_profile p] show ?thesis
      by (blast intro: only.R_trans)
  qed
  moreover have "nodew (ag_world t) q = nodew (ag_world s) q \<or>
     (nodew (ag_world s) q = None \<and> nodew (ag_world t) q = Some Dir \<and>
      strict_prefix q (abs_path (c_data_path (ae_cfg E)) @ [staging_name]))"
    using p
  proof (cases rule: sync_with_profile_world)
    case (ran meta profile labels plan res)
    note ok = agent_plan_safe [OF ran(4) assms(3)]
    from execute_plan_below(2) [OF ran(5) ok(1) assms(2)] ran(2) dry assms(5) show ?thesis
      by (simp add: ok(3,4) t staged_only_def)
  qed (simp add: t)
  ultimately show ?thesis by (simp add: quiet_log)
qed

theorem dry_run_inert_witness:
  "filter is_http (io_log (snd (run_state (sync_once (file_agent True) ''c1'' ''main'' False ''P'') sample_state))) = [] \<and>
   nodew (ag_world (snd (run_state (sync_once (file_agent True) ''c1'' ''main'' False ''P'') sample_state)))
     [''live'', ''config'', ''old''] = Some (File ''o'' 420)"
proof -
  have d: "\<not> prefix (abs_path (c_data_path (ae_cfg (file_agent True))) @ [staging_name]) [''live'', ''config'', ''old'']"
    by (simp add: sample_cfgs sample_paths staging_name_def)
  have n: "nodew sample_world [''live'', ''config'', ''old''] = Some (File ''o'' 420)"
    by (simp add: sample_world_def node_at_def)
  have y: "snd (snd (fst (run_state (sync_with_profile (file_agent True)) sample_state)))"
    by code_simp
  from dry_run_inert [where commit = "''c1''" and ref = "''main''" and isInitial = False and profiles = "''P''",
      OF surjective_pairing _ _ y d] sample_world_ok sample_apart n
  show ?thesis by (simp add: sample_cfgs sample_start)
qed

end
