(* ===== verification/AgentTriggerProps.thy ===== *)
theory AgentTriggerProps
  imports AgentSyncProps
begin

section \<open>Properties of triggers, of the start and of the watcher\<close>

text \<open>
  What a sync trigger does (backoff, fetch, designer sessions, record of the outcome), when the
  probes pass, what a shutdown finds, the status write with its retries, and the watcher.
\<close>

subsection \<open>Backoff\<close>

definition shifted_delay :: "nat \<Rightarrow> int" where
  "shifted_delay k = min (seconds 30 * 2 ^ k) (seconds 300)"

lemma backoff_delay_table:
  "list_all (\<lambda>k. backoff_delay (int k + 1) = shifted_delay k) [0..<29]"
  by code_simp

text \<open>
  C20: for 1 to 29 consecutive failures the delay is 30 seconds doubled for each further failure and
  capped at five minutes. The shift is in 64 bits, so with 30 failures it is negative, and from 55
  on it is zero: then the backoff no longer holds triggers back.
\<close>

theorem backoff_delay_bounds:
  assumes "1 \<le> n" "n \<le> 29"
  shows "backoff_delay n = min (seconds 30 * 2 ^ nat (n - 1)) (seconds 300) \<and>
    seconds 30 \<le> backoff_delay n \<and> backoff_delay n \<le> seconds 300 \<and>
    backoff_delay 30 < 0 \<and> backoff_delay 55 = 0"
proof -
  have k: "nat (n - 1) < 29" "int (nat (n - 1)) + 1 = n" using assms by auto
  from backoff_delay_table k(1) have "backoff_delay (int (nat (n - 1)) + 1) = shifted_delay (nat (n - 1))"
    by (simp add: list_all_iff del: int_nat_eq)
  with k(2) have e: "backoff_delay n = shifted_delay (nat (n - 1))" by simp
  have "(1::int) \<le> 2 ^ nat (n - 1)" by simp
  then have "seconds 30 \<le> shifted_delay (nat (n - 1))" "shifted_delay (nat (n - 1)) \<le> seconds 300"
    by (auto simp: shifted_delay_def seconds_def)
  moreover have "backoff_delay 30 < 0" "backoff_delay 55 = 0" by code_simp+
  ultimately show ?thesis by (simp add: e) (simp add: shifted_delay_def)
qed

theorem backoff_delay_bounds_witness: "backoff_delay 3 = seconds 120"
  using backoff_delay_bounds [of 3] by (simp add: seconds_def)

subsection \<open>Triggers\<close>

text \<open>
  While the clock is before the end of the backoff a trigger is counted and dropped: nothing
  is read, fetched or synced. Otherwise it goes on only with metadata that is not paused.
\<close>

theorem backoff_drops_triggers:
  "case run_state (trigger_read E) s of (m, t) \<Rightarrow>
     (if fst (ae_now E (io_env s)) < ag_backoff_until s
      then m = None \<and> t = s\<lparr>io_env := snd (ae_now E (io_env s)),
             io_log := CounterInc ''SyncSkippedTotal'' [''backoff''] # io_log s\<rparr>
      else same_core s t \<and> (case m of None \<Rightarrow> True | Some meta \<Rightarrow> md_paused meta \<noteq> ''true''))"
proof -
  obtain m t where run: "run_state (trigger_read E) s = (m, t)" by (rule prod.exhaust)
  have "md_paused meta \<noteq> ''true''" if "m = Some meta" for meta
    using run that by (auto simp: trigger_read_def split: prod.splits if_splits sum.splits)
  moreover have "m = None \<and> t = s\<lparr>io_env := snd (ae_now E (io_env s)),
             io_log := CounterInc ''SyncSkippedTotal'' [''backoff''] # io_log s\<rparr>"
    if "fst (ae_now E (io_env s)) < ag_backoff_until s"
    using run that by (auto simp: trigger_read_def)
  ultimately show ?thesis using run core.keepsD [OF core_trigger_read run] by (auto split: option.splits)
qed

text \<open>
  C17: under the lock a trigger with the commit and profiles already synced does nothing but count.
  Any other fetches; a failed fetch counts one more failure, sets the end of the backoff to its delay after
  the clock's time and leaves what is recorded as synced. After a fetch nothing is recorded or counted
  exactly when the profile is not found or the session check holds the sync back; otherwise the sync
  runs, and when it returns no error the fetched commit and the profiles are recorded and the
  failures and the backoff cleared, else the failure is counted and backed off.
\<close>

theorem trigger_outcomes:
  "case run_state (trigger_locked E gitURL meta) s of (u, t) \<Rightarrow>
     (if md_commit meta = ag_last_commit s \<and> md_profiles meta = ag_last_profiles s
      then t = s\<lparr>io_log := CounterInc ''SyncSkippedTotal'' [''commit_unchanged''] # io_log s\<rparr>
      else ag_in_progress t = False \<and> ag_shutdown_ch t \<and> ag_health t = ag_health s \<and>
        (case after_fetch E gitURL meta s of (fetched, s1) \<Rightarrow> not_counted s s1 \<and>
           (case fetched of
              Inl err \<Rightarrow> backed_off E s t
            | Inr result \<Rightarrow>
                (case lookup_profile E meta of
                   Inl err \<Rightarrow> not_counted s t
                 | Inr (profile, name) \<Rightarrow>
                     (case session_check E profile result s1 of (held, v) \<Rightarrow>
                        if held then not_counted s t
                        else (case fst (run_state (sync_once E (gr_commit result) (gr_ref result) False (md_profiles meta)) v) of
                            None \<Rightarrow> recorded meta (gr_commit result) t
                          | Some err \<Rightarrow> backed_off E s t))))))"
proof -
  obtain u t where run: "run_state (trigger_locked E gitURL meta) s = (u, t)" by (rule prod.exhaust)
  show ?thesis using run
  proof (cases rule: trigger_locked_cases)
    case (synced result s1)
    note k = after_fetch_keeps(1) [OF synced(2)]
    note from_s = not_counted_trans [OF k] backed_off_core [OF k]
    have "case lookup_profile E meta of
           Inl err \<Rightarrow> not_counted s t
         | Inr (profile, name) \<Rightarrow>
             (case session_check E profile result s1 of (held, v) \<Rightarrow>
                if held then not_counted s t
                else (case fst (run_state (sync_once E (gr_commit result) (gr_ref result) False (md_profiles meta)) v) of
                    None \<Rightarrow> recorded meta (gr_commit result) t
                  | Some err \<Rightarrow> backed_off E s t))"
    proof (cases "lookup_profile E meta")
      case (Inl err)
      with synced(3) from_s show ?thesis by (simp add: trigger_end_def)
    next
      case (Inr x)
      obtain profile name where x: "x = (profile, name)" by (rule prod.exhaust)
      obtain held v where sc: "session_check E profile result s1 = (held, v)" by (rule prod.exhaust)
      show ?thesis
        by (cases "fst (run_state (sync_once E (gr_commit result) (gr_ref result) False (md_profiles meta)) v)")
          (use synced(3) in \<open>simp_all add: trigger_end_def outcome_kept_def Inr x sc from_s split: if_splits\<close>)
    qed
    moreover have "(md_commit meta = ag_last_commit s \<and> md_profiles meta = ag_last_profiles s) = False" using synced(1) by blast
    ultimately show ?thesis unfolding run prod.case synced(2) sum.case using k synced(4-6) by presburger
  next
    case (fetch_failed err s1)
    have "(md_commit meta = ag_last_commit s \<and> md_profiles meta = ag_last_profiles s) = False" using fetch_failed(1) by blast
    then show ?thesis unfolding run prod.case fetch_failed(2) sum.case
      using after_fetch_keeps(1) [OF fetch_failed(2)] fetch_failed(3-6) by presburger
  qed (simp add: run)
qed

text \<open>
  With designer policy fail and a session open, a trigger that is not paused and not a dry run
  writes no file, records nothing as synced and does not count as a failure.
\<close>

theorem designer_fail_blocks:
  assumes "lookup_profile E meta = Inr (profile, name)" "\<not> rp_paused profile" "\<not> rp_dry_run profile"
    and "rp_designer_policy profile = ''fail''"
    and "fst (run_state (get_designer_sessions (agent_client E)) (snd (run_state (apply_sync_period profile) s))) = Inr sessions"
    and "sessions \<noteq> []"
  shows "case run_state (trigger_sync E meta result) s of (u, t) \<Rightarrow> ag_world t = ag_world s \<and> not_counted s t"
proof -
  obtain v s1 where ap: "run_state (apply_sync_period profile) s = (v, s1)" by (rule prod.exhaust)
  obtain q s2 where gs: "run_state (get_designer_sessions (agent_client E)) s1 = (q, s2)" by (rule prod.exhaust)
  obtain b s3 where ck: "run_state (check_designer_sessions E ''fail'' (gr_commit result) (gr_ref result)) s1 = (b, s3)"
    by (rule prod.exhaust)
  have q: "q = Inr sessions" using assms(5) ap gs by simp
  have b: "b" using ck gs q assms(6) by (auto simp: check_designer_sessions_def Let_def split: prod.splits)
  let ?m = "emit (GaugeSet ''DesignerBlocked'' [] 1) \<bind> (\<lambda>_.
        emit (CounterInc ''SyncSkippedTotal'' [''designer_blocked'']) \<bind> (\<lambda>_.
        event E ''Warning'' ''SyncSkipped''
          (''Sync skipped: designer sessions blocked sync (policy='' @ ''fail'' @ '')'')))"
  have k: "core.keeps ?m" by (intro core_intros core_event)
  obtain u t where m: "run_state ?m s3 = (u, t)" by (rule prod.exhaust)
  have "run_state (trigger_sync E meta result) s = (u, t)"
    using assms(1-4) ap ck b m by (simp add: trigger_sync_def)
  moreover have c: "same_core s1 t"
    using same_core_trans [OF core.keepsD [OF core_check_designer_sessions ck] core.keepsD [OF k m]] .
  ultimately show ?thesis using run_apply_sync_period [OF ap] same_coreD [OF c]
    by (simp add: not_counted_def last_kept_def)
qed

theorem designer_fail_blocks_witness:
  "ag_world (snd (run_state (trigger_sync (sample_agent False (200, ''busy'')) (metadata_of sample_meta_cm)
     \<lparr>gr_commit = ''c2'', gr_ref = ''main''\<rparr>) sample_state)) = sample_world"
proof -
  let ?E = "sample_agent False (200, ''busy'')"
  have l: "lookup_profile ?E (metadata_of sample_meta_cm) = Inr (sample_profile False, ''default'')" by code_simp
  have g: "fst (run_state (get_designer_sessions (agent_client ?E)) (snd (run_state (apply_sync_period (sample_profile False)) sample_state)))
      = Inr [\<lparr>ds_id = ''1'', ds_user = ''u'', ds_project = ''p'', ds_address = [], ds_timezone = [], ds_uptime = 0\<rparr>]"
    by code_simp
  have "ag_world sample_state = sample_world" by (simp add: sample_state_def new_agent_def)
  with designer_fail_blocks [OF l _ _ _ g, of "\<lparr>gr_commit = ''c2'', gr_ref = ''main''\<rparr>"]
  show ?thesis by (simp add: sample_profile_def split: prod.splits)
qed

subsection \<open>The start, and the shutdown\<close>

lemma wp_after_unmarked:
  assumes "only.keeps (\<lambda>e. e \<noteq> MarkedReady) m" "only_sent (\<lambda>e. e \<noteq> MarkedReady) s0 s"
    and "\<And>a u. only_sent (\<lambda>e. e \<noteq> MarkedReady) s0 u \<Longrightarrow> wp (f a) Q u"
  shows "wp (m \<bind> f) Q s"
proof (rule wpI)
  fix r t assume run: "run_state (m \<bind> f) s = (r, t)"
  obtain a u where m: "run_state m s = (a, u)" by (rule prod.exhaust)
  with run have f: "run_state (f a) u = (r, t)" by simp
  from only.R_trans [OF assms(2) only.keepsD [OF assms(1) m]] show "Q r t" by (rule wp_run [OF assms(3) f])
qed

text \<open>The readiness mark is the last entry of a start that got to its end, and of no other.\<close>

definition marked_last :: "('k, effect, 'z) io_scheme \<Rightarrow> ('k, effect, 'z) io_scheme \<Rightarrow> bool" where
  "marked_last s t \<longleftrightarrow> (\<exists>earlier. io_log t = MarkedReady # earlier @ io_log s \<and> MarkedReady \<notin> set earlier)"

lemma initial_sync_marks:
  assumes "only_sent (\<lambda>e. e \<noteq> MarkedReady) s0 s"
  shows "wp (initial_sync E meta result) (\<lambda>_ t. marked_last s0 t) s"
  unfolding initial_sync_def
proof (rule wp_after_unmarked [OF unmarked.sync_once assms])
  fix e :: "goerror option" and u assume "only_sent (\<lambda>e. e \<noteq> MarkedReady) s0 u"
  then show "wp (modify (\<lambda>s. s\<lparr>ag_initial_done := True\<rparr>) \<bind> (\<lambda>_. modify (\<lambda>s. s\<lparr>ag_health := mark_ready (ag_health s)\<rparr>) \<bind>
      (\<lambda>_. emit MarkedReady))) (\<lambda>_ t. marked_last s0 t) u"
    by (auto simp: wp_rules marked_last_def only_sent_def list_all_iff)
qed

definition completed :: "'a res option \<Rightarrow> bool" where
  "completed r = (case r of Some (Inr x) \<Rightarrow> True | _ \<Rightarrow> False)"

lemma completed_simps [simp]: "\<not> completed None" "\<not> completed (Some (Inl err))" "completed (Some (Inr x))"
  by (simp_all add: completed_def)

lemma completed_iff: "completed r \<longleftrightarrow> (\<exists>x. r = Some (Inr x))"
  by (auto simp: completed_def split: option.splits sum.splits)

definition start_marks :: "('k, effect, 'z) io_scheme \<Rightarrow> 'a res option \<Rightarrow> ('k, effect, 'z) io_scheme \<Rightarrow> bool" where
  "start_marks s r t = (if completed r then marked_last s t else only_sent (\<lambda>e. e \<noteq> MarkedReady) s t)"

lemma start_marks_ret: "only_sent (\<lambda>e. e \<noteq> MarkedReady) s u \<Longrightarrow> \<not> completed r \<Longrightarrow> wp (ret r) (start_marks s) u"
  by (simp add: wp_ret start_marks_def)

lemma run_startup_marks: "wp (run_startup E n) (start_marks s) s"
proof -
  let ?P = "\<lambda>e. e \<noteq> MarkedReady"
  have ready: "wp (initial_sync E meta result \<bind> (\<lambda>_. ret (Some (Inr (md_git_url meta, result))))) (start_marks s) u"
    if "only_sent ?P s u" for meta result u
    unfolding wp_bind by (rule wp_mono [OF initial_sync_marks [OF that]]) (simp add: wp_ret start_marks_def)
  have failed: "wp (event E a b c \<bind> (\<lambda>_. ret (Some (Inl d)))) (start_marks s) u" if "only_sent ?P s u" for a b c d u
    by (rule wp_after_unmarked [OF unmarked.event that]) (simp add: start_marks_ret)
  have emits: "only.keeps ?P (emit (CounterInc x y))" "only.keeps ?P (emit (Sampled x y))" for x y
    by (rule only_emit, simp)+
  have cloned: "wp (fetch_repo E v w \<bind> (\<lambda>r. emit (Sampled ''GitFetchDuration'' [''clone'']) \<bind> (\<lambda>_. case r of
         Inl err \<Rightarrow> emit (CounterInc ''GitFetchTotal'' [''clone'', ''error'']) \<bind> (\<lambda>_.
           event E ''Warning'' ''CloneFailed'' (''Initial clone failed: '' @ err_text err) \<bind> (\<lambda>_.
           ret (Some (Inl (Wrapf ''initial clone'' err)))))
       | Inr result \<Rightarrow> emit (CounterInc ''GitFetchTotal'' [''clone'', ''success'']) \<bind> (\<lambda>_.
           initial_sync E meta result \<bind> (\<lambda>_. ret (Some (Inr (md_git_url meta, result)))))))) (start_marks s) u"
    if "only_sent ?P s u" for v w meta u
  proof (rule wp_after_unmarked [OF unmarked.fetch_repo that], rule wp_after_unmarked [OF emits(2)], assumption, goal_cases)
    case (1 r u1 x u2)
    then show ?case
      by (cases r) (simp_all only: sum.case wp_after_unmarked [OF emits(1) _ failed] wp_after_unmarked [OF emits(1) _ ready])
  qed
  have rest: "wp (apply_sync_period_from_meta E meta \<bind> (\<lambda>_. fetch_cr_ref E \<bind> (\<lambda>_. f))) (start_marks s) u"
    if "only_sent ?P s u" "\<And>u. only_sent ?P s u \<Longrightarrow> wp f (start_marks s) u" for meta u and f
    by (rule wp_after_unmarked [OF unmarked.apply_sync_period_from_meta that(1)],
        rule wp_after_unmarked [OF unmarked.fetch_cr_ref], assumption, rule that(2), assumption)
  show ?thesis
    unfolding run_startup_def
  proof (rule wp_after_unmarked [OF unmarked.wait_for_metadata only.R_refl], goal_cases)
    case (1 m u)
    show ?case
    proof (cases "\<exists>meta. m = Some (Inr meta)")
      case True
      then obtain meta where m: "m = Some (Inr meta)" ..
      have "wp (if md_git_url meta = [] then ret (Some (Inl err)) else f) (start_marks s) v"
        if "only_sent ?P s v" "\<And>v. only_sent ?P s v \<Longrightarrow> wp f (start_marks s) v" for v err and f
        using that by (simp add: start_marks_ret)
      then show ?thesis unfolding m option.case sum.case by (intro rest [OF 1]) (blast intro: cloned)
    next
      case False
      with 1 show ?thesis by (cases m) (auto simp: start_marks_ret split: sum.splits)
    qed
  qed
qed

text \<open>
  C18: the startup probe answers 200 exactly when the start got to its end. Then the probe was opened
  once, as the last thing, and the initial sync was run and counted before; a start that fails or is
  still waiting has not opened it, and leaves the gateway gated.
\<close>

theorem startup_probe_gates:
  "case run_state (run_startup E polls) (new_agent (ae_cfg E) k w) of (r, t) \<Rightarrow>
     (if fst (handle_startupz (ag_health t)) = status_ok
      then (\<exists>x earlier name y. r = Some (Inr x) \<and> io_log t = MarkedReady # earlier \<and> MarkedReady \<notin> set earlier \<and>
          CounterInc ''SyncTotal'' [name, y] \<in> set earlier) \<and>
        fst (handle_readyz (ag_health t)) = status_ok
      else (\<nexists>x. r = Some (Inr x)) \<and> MarkedReady \<notin> set (io_log t) \<and>
        fst (handle_readyz (ag_health t)) = status_service_unavailable)"
proof -
  let ?s = "new_agent (ae_cfg E) k w"
  obtain r t where run: "run_state (run_startup E polls) ?s = (r, t)" by (rule prod.exhaust)
  have h: "ag_health ?s = new_health_server" "io_log ?s = []" by (simp_all add: new_agent_def)
  note marks = wp_run [OF run_startup_marks run, unfolded start_marks_def completed_iff]
  from run_startup_effect [OF run] show ?thesis
  proof (elim disjE conjE)
    assume r: "\<exists>x. r = Some (Inr x)" and t: "ag_health t = mark_ready (ag_health ?s)"
      and n: "\<not> is_shutting_down (ag_health ?s) \<longrightarrow> (\<exists>name. sync_counted name t)"
    from marks r h obtain earlier where e: "io_log t = MarkedReady # earlier" "MarkedReady \<notin> set earlier"
      by (auto simp: marked_last_def)
    with n h obtain name y where "CounterInc ''SyncTotal'' [name, y] \<in> set earlier"
      by (auto simp: sync_counted_def is_shutting_down_def new_health_server_def)
    with e r run t h show ?thesis
      by (auto simp: handle_startupz_def handle_readyz_def mark_ready_def new_health_server_def
        status_ok_def status_service_unavailable_def)
  next
    assume r: "\<nexists>x. r = Some (Inr x)" and t: "same_flags ?s t"
    from marks r h have "MarkedReady \<notin> set (io_log t)" by (auto simp: only_sent_def list_all_iff)
    with r run t h show ?thesis
      by (auto simp: same_flags_def handle_startupz_def handle_readyz_def new_health_server_def
        status_ok_def status_service_unavailable_def)
  qed
qed

text \<open>
  C19: in every state the running agent reaches, the readiness flag is set, and the main loop never
  finds a sync in progress when it shuts down: the sync it would wait for runs on the loop's own
  goroutine, so the branch that waits is never taken.
\<close>

theorem shutdown_never_waits:
  assumes "agent_reach E k w polls gitURL result c"
  shows "rn_pc c \<noteq> Stopped True \<and> \<not> ag_in_progress (rn_agent c) \<and> hv_initial_sync_done (ag_health (rn_agent c)) \<and>
    ((\<exists>b. rn_pc c = Stopped b) \<longleftrightarrow> is_shutting_down (ag_health (rn_agent c)))"
  using agent_reach_not_busy [OF assms] by (auto simp: not_busy_def is_shutting_down_def)

definition sample_start :: "(string \<times> git_result) res option \<times> sample_cluster agent_state" where
  "sample_start = run_state (run_startup (sample_agent False (200, [])) 1)
     (new_agent sample_cfg [(''stoker-metadata-cr'', sample_meta_cm)] sample_world)"

theorem shutdown_never_waits_witness:
  "\<not> ag_in_progress (snd sample_start) \<and> hv_initial_sync_done (ag_health (snd sample_start))"
proof -
  have "fst sample_start = Some (Inr (''u'', \<lparr>gr_commit = ''c1'', gr_ref = ''main''\<rparr>))" by code_simp
  moreover have "ae_cfg (sample_agent False (200, [])) = sample_cfg" by (simp add: sample_agent_def)
  ultimately have "run_state (run_startup (sample_agent False (200, [])) 1)
      (new_agent (ae_cfg (sample_agent False (200, []))) [(''stoker-metadata-cr'', sample_meta_cm)] sample_world) =
      (Some (Inr (''u'', \<lparr>gr_commit = ''c1'', gr_ref = ''main''\<rparr>)), snd sample_start)"
    by (metis prod.collapse sample_start_def)
  from shutdown_never_waits [OF agent_reach.started [OF this]] show ?thesis by simp
qed

subsection \<open>Status writes and the watcher\<close>

text \<open>
  A status write sends at most three objects. It returns no error exactly when the API accepted
  one, the last thing sent: a new ConfigMap with this gateway's entry, or the object read just
  before with only this gateway's entry replaced (and its resource version kept, so that the API
  refuses it if another agent wrote in between). After an error nothing was accepted.
\<close>

theorem status_write_spec:
  "case run_state (write_status E st) s of (r, t) \<Rightarrow>
     (\<exists>es. io_log t = es @ io_log s \<and> length (filter cm_write es) \<le> 3 \<and>
       (if r = None
        then (\<exists>w rd fs. es = w # rd # fs \<and> filter accepted es = [w] \<and>
           status_attempt (c_cr_namespace (ae_cfg E)) (c_cr_name (ae_cfg E)) (c_gateway_name (ae_cfg E))
             (json_status (ae_json E) st) True [w, rd])
        else filter accepted es = []))"
proof -
  obtain r t where run: "run_state (write_status E st) s = (r, t)" by (rule prod.exhaust)
  from write_status_attempts_run [OF run [unfolded write_status_def write_status_config_map_def]]
  obtain es where es: "io_log t = es @ io_log s"
    "status_run (c_cr_namespace (ae_cfg E)) (c_cr_name (ae_cfg E)) (c_gateway_name (ae_cfg E))
       (json_status (ae_json E) st) 3 (r = None) es" by blast
  have "length (filter cm_write es) \<le> 3" by (rule status_run_length [OF es(2)])
  moreover note status_run_accepted [OF es(2)]
  ultimately show ?thesis using es(1) run by (cases "r = None") auto
qed

text \<open>
  In every state of the watcher either its running ticker has the configured period or the
  change to it is pending, so the last \<open>UpdatePeriod\<close> always takes effect; and no step but the
  agent's own receive takes a pending event away.
\<close>

theorem watcher_period_applied:
  assumes "watcher_reach p w"
  shows "period_pending w \<and> (\<forall>w'. watcher_step w w' \<longrightarrow> w_sync_ch w \<longrightarrow> w' = take_event w \<or> w_sync_ch w')"
  using watcher_reach_pending [OF assms] watcher_event_kept by blast

theorem watcher_period_applied_witness:
  "period_pending (run_reset (update_period 7 (run_start (new_watcher 5))))"
proof -
  have "watcher_step (new_watcher 5) (run_start (new_watcher 5))"
    by (rule watcher_step.start) (simp add: new_watcher_def)
  moreover have "watcher_step (run_start (new_watcher 5)) (update_period 7 (run_start (new_watcher 5)))"
    by (rule watcher_step.update)
  moreover have "watcher_step (update_period 7 (run_start (new_watcher 5))) (run_reset (update_period 7 (run_start (new_watcher 5))))"
    by (rule watcher_step.reset) (simp add: run_start_def)
  ultimately have "watcher_reach 5 (run_reset (update_period 7 (run_start (new_watcher 5))))"
    by (intro watcher_reach.move [OF watcher_reach.move [OF watcher_reach.move [OF watcher_reach.init]]])
  from watcher_period_applied [OF this] show ?thesis by simp
qed

end
