(* ===== verification/ApiTypes.thy ===== *)
theory ApiTypes
  imports AgentConfig
begin

section \<open>api/v1alpha1: the GatewaySync resource\<close>

text \<open>
  The Go structs of the custom resource as records, with the parts of \<open>metav1.ObjectMeta\<close> and
  \<open>metav1.Condition\<close> the code reads or writes. A pointer is an option; a time is the number of
  nanoseconds since the zero \<open>time.Time\<close>; a quantity is its text.
\<close>

record object_meta =
  om_name :: string
  om_namespace :: string
  om_labels :: "(string, string) gomap"
  om_annotations :: "(string, string) gomap"
  om_resource_version :: string
  om_generation :: int
  om_finalizers :: "string list"
  om_deletion_timestamp :: "int option"

record secret_key_ref =
  sk_name :: string
  sk_key :: string

record ssh_key_auth =
  sa_secret_ref :: secret_key_ref
  sa_known_hosts :: "secret_key_ref option"

record github_app_auth =
  ga_app_id :: int
  ga_installation_id :: int
  ga_private_key_secret_ref :: secret_key_ref
  ga_api_base_url :: string

record git_auth_spec =
  au_ssh_key :: "ssh_key_auth option"
  au_github_app :: "github_app_auth option"
  au_token :: "secret_key_ref option"

record git_spec =
  gt_repo :: string
  gt_ref :: string
  gt_auth :: "git_auth_spec option"

record polling_spec =
  po_enabled :: "bool option"
  po_interval :: string

record gateway_spec =
  gw_port :: int
  gw_tls :: "bool option"
  gw_secret_name :: string
  gw_secret_key :: string

record resource_requirements =
  rr_limits :: "(string, string) gomap"
  rr_requests :: "(string, string) gomap"

record agent_spec =
  ag_repository :: string
  ag_tag :: string
  ag_pull_policy :: string
  ag_resources :: "resource_requirements option"

record sync_defaults =
  df_exclude_patterns :: "string list"
  df_vars :: "(string, string) gomap"
  df_sync_period :: int
  df_designer_policy :: string
  df_dry_run :: bool
  df_paused :: bool

record mapping_patch =
  mp_file :: string
  mp_set :: "(string, string) gomap"

record sync_mapping =
  sm_source :: string
  sm_destination :: string
  sm_type :: string
  sm_required :: bool
  sm_template :: bool
  sm_patches :: "mapping_patch list"

record sync_profile_spec =
  sp_mappings :: "sync_mapping list"
  sp_exclude_patterns :: "string list"
  sp_vars :: "(string, string) gomap"
  sp_sync_period :: "int option"
  sp_dry_run :: "bool option"
  sp_designer_policy :: string
  sp_paused :: "bool option"

record gateway_sync_spec =
  ss_git :: git_spec
  ss_polling :: polling_spec
  ss_gateway :: gateway_spec
  ss_defaults :: sync_defaults
  ss_profiles :: "(string, sync_profile_spec) gomap"
  ss_agent :: agent_spec
  ss_paused :: bool

record discovered_gateway =
  dg_name :: string
  dg_namespace :: string
  dg_pod_name :: string
  dg_service_account :: string
  dg_profile :: string
  dg_sync_status :: string
  dg_last_sync_time :: "int option"
  dg_last_sync_duration :: string
  dg_synced_commit :: string
  dg_synced_ref :: string
  dg_agent_version :: string
  dg_last_scan_result :: string
  dg_files_changed :: int
  dg_projects_synced :: "string list"

text \<open>The values the API server admits for a condition's status.\<close>

datatype cond_status = CTrue | CFalse | CUnknown

record status_condition =
  cd_type :: string
  cd_status :: cond_status
  cd_observed_generation :: int
  cd_last_transition :: int
  cd_reason :: string
  cd_message :: string

record gateway_sync_status =
  st_observed_generation :: int
  st_last_sync_time :: "int option"
  st_last_sync_ref :: string
  st_last_sync_commit :: string
  st_last_sync_commit_short :: string
  st_ref_resolution :: string
  st_profile_count :: int
  st_discovered :: "discovered_gateway list"
  st_conditions :: "status_condition list"

record gateway_sync =
  gy_meta :: object_meta
  gy_spec :: gateway_sync_spec
  gy_status :: gateway_sync_status

definition gy_name :: "gateway_sync \<Rightarrow> string" where
  "gy_name gs = om_name (gy_meta gs)"

definition gy_namespace :: "gateway_sync \<Rightarrow> string" where
  "gy_namespace gs = om_namespace (gy_meta gs)"

definition gy_auth :: "gateway_sync \<Rightarrow> git_auth_spec option" where
  "gy_auth gs = gt_auth (ss_git (gy_spec gs))"

definition gy_github_app :: "gateway_sync \<Rightarrow> github_app_auth option" where
  "gy_github_app gs = (case gy_auth gs of None \<Rightarrow> None | Some a \<Rightarrow> au_github_app a)"

text \<open>A number of seconds in nanoseconds, the unit of \<open>time.Duration\<close>.\<close>

definition sec :: "int \<Rightarrow> int" where
  "sec n = n * 1000000000"

text \<open>\<open>Time.Unix\<close>: the seconds since 1970.\<close>

definition unix_seconds :: "int \<Rightarrow> int" where
  "unix_seconds t = t div sec 1 - 62135596800"

text \<open>The bytes of U+2014.\<close>

definition em_dash :: string where
  "em_dash = [CHR 0xE2, CHR 0x80, CHR 0x94]"

subsection \<open>pkg/types/annotations.go, pkg/conditions: names\<close>

definition annotation_inject :: string where "annotation_inject = ''stoker.io/inject''"
definition annotation_cr_name :: string where "annotation_cr_name = ''stoker.io/cr-name''"
definition annotation_gateway_name :: string where "annotation_gateway_name = ''stoker.io/gateway-name''"
definition annotation_profile :: string where "annotation_profile = ''stoker.io/profile''"
definition annotation_requested_ref :: string where "annotation_requested_ref = ''stoker.io/requested-ref''"
definition annotation_requested_at :: string where "annotation_requested_at = ''stoker.io/requested-at''"
definition annotation_requested_by :: string where "annotation_requested_by = ''stoker.io/requested-by''"
definition annotation_injected :: string where "annotation_injected = ''stoker.io/injected''"
definition annotation_secret_type :: string where "annotation_secret_type = ''stoker.io/secret-type''"
definition label_agent :: string where "label_agent = ''stoker.io/agent''"
definition stoker_finalizer :: string where "stoker_finalizer = ''stoker.io/finalizer''"
definition sync_status_missing_sidecar :: string where "sync_status_missing_sidecar = ''MissingSidecar''"

definition type_ready :: string where "type_ready = ''Ready''"
definition type_ref_resolved :: string where "type_ref_resolved = ''RefResolved''"
definition type_profiles_valid :: string where "type_profiles_valid = ''ProfilesValid''"
definition type_all_gateways_synced :: string where "type_all_gateways_synced = ''AllGatewaysSynced''"
definition type_sidecar_injected :: string where "type_sidecar_injected = ''SidecarInjected''"
definition type_ssh_host_key :: string where "type_ssh_host_key = ''SSHHostKeyVerification''"

lemmas condition_types = type_ready_def type_ref_resolved_def type_profiles_valid_def
  type_all_gateways_synced_def type_sidecar_injected_def type_ssh_host_key_def

end
