(* ===== verification/ControllerProfiles.thy ===== *)
theory ControllerProfiles
  imports ApiTypes
begin

section \<open>internal/controller: profiles\<close>

text \<open>
  \<open>validateProfiles\<close> and \<open>resolveProfiles\<close>: what the controller checks of the profiles of a
  resource and what it hands to the agents. A \<open>range\<close> over a map visits the association list in
  its order.
\<close>

subsection \<open>Validation\<close>

definition ident_start :: "char \<Rightarrow> bool" where
  "ident_start c \<longleftrightarrow> (let n = (of_char c :: nat) in 97 \<le> n \<and> n \<le> 122 \<or> 65 \<le> n \<and> n \<le> 90 \<or> c = CHR ''_'')"

text \<open>The regular expression \<open>^[a-zA-Z_][a-zA-Z0-9_]*$\<close>.\<close>

definition valid_var_key :: "string \<Rightarrow> bool" where
  "valid_var_key s = (case s of [] \<Rightarrow> False | c # r \<Rightarrow> ident_start c \<and> list_all (\<lambda>x. ident_start x \<or> is_digit x) r)"

fun validate_var_keys :: "(string, string) gomap \<Rightarrow> string \<Rightarrow> goerror option" where
  "validate_var_keys [] field = None"
| "validate_var_keys ((k, v) # vars) field =
     (if \<not> valid_var_key k
      then Some (Errorf (field @ '': key '' @ quote k @
        '' is not a valid identifier (use letters, digits, underscores only '' @ em_dash @
        '' dashes are not supported in template variable names)''))
      else validate_var_keys vars field)"

definition contains_traversal :: "string \<Rightarrow> bool" where
  "contains_traversal p \<longleftrightarrow> ''..'' \<in> set (slash_split p)"

definition validate_path :: "string \<Rightarrow> string \<Rightarrow> goerror option" where
  "validate_path p field =
     (if is_abs p then Some (Errorf (field @ '': absolute paths not allowed ('' @ quote p @ '')''))
      else if contains_traversal p then Some (Errorf (field @ '': path traversal (..) not allowed ('' @ quote p @ '')''))
      else None)"

fun validate_mappings :: "string \<Rightarrow> nat \<Rightarrow> sync_mapping list \<Rightarrow> goerror option" where
  "validate_mappings name i [] = None"
| "validate_mappings name i (m # ms) =
     (let label = ''profiles['' @ name @ ''].mappings['' @ itoa (int i) @ '']'' in
      case validate_path (sm_source m) (label @ ''.source'') of
        Some err \<Rightarrow> Some err
      | None \<Rightarrow> (case validate_path (sm_destination m) (label @ ''.destination'') of
          Some err \<Rightarrow> Some err
        | None \<Rightarrow> validate_mappings name (Suc i) ms))"

fun validate_profile_list :: "(string, sync_profile_spec) gomap \<Rightarrow> goerror option" where
  "validate_profile_list [] = None"
| "validate_profile_list ((name, profile) # ps) =
     (case validate_var_keys (sp_vars profile) (''profiles['' @ name @ ''].vars'') of
        Some err \<Rightarrow> Some err
      | None \<Rightarrow> (case validate_mappings name 0 (sp_mappings profile) of
          Some err \<Rightarrow> Some err
        | None \<Rightarrow> validate_profile_list ps))"

definition validate_profiles :: "gateway_sync \<Rightarrow> goerror option" where
  "validate_profiles gs =
     (case validate_var_keys (df_vars (ss_defaults (gy_spec gs))) ''sync.defaults.vars'' of
        Some err \<Rightarrow> Some err
      | None \<Rightarrow> validate_profile_list (ss_profiles (gy_spec gs)))"

subsection \<open>Resolution\<close>

definition resolve_patch :: "mapping_patch \<Rightarrow> resolved_patch" where
  "resolve_patch p = \<lparr>rp_file = mp_file p, rp_set = mp_set p\<rparr>"

definition resolve_sync_mapping :: "sync_mapping \<Rightarrow> profile_mapping" where
  "resolve_sync_mapping m = \<lparr>pm_source = sm_source m, pm_destination = sm_destination m, pm_type = sm_type m,
     pm_required = sm_required m, pm_template = sm_template m, pm_patches = map resolve_patch (sm_patches m)\<rparr>"

definition resolve_profile :: "sync_defaults \<Rightarrow> sync_profile_spec \<Rightarrow> resolved_profile" where
  "resolve_profile defaults p =
     (let merged = mcopy (mcopy [] (df_vars defaults)) (sp_vars p);
          period = (case sp_sync_period p of None \<Rightarrow> df_sync_period defaults | Some v \<Rightarrow> v);
          policy = (if sp_designer_policy p \<noteq> [] then sp_designer_policy p else df_designer_policy defaults)
      in \<lparr>rp_mappings = map resolve_sync_mapping (sp_mappings p),
          rp_exclude_patterns = df_exclude_patterns defaults @ sp_exclude_patterns p,
          rp_vars = merged,
          rp_sync_period = (if period = 0 then 30 else period),
          rp_dry_run = (case sp_dry_run p of None \<Rightarrow> df_dry_run defaults | Some b \<Rightarrow> b),
          rp_designer_policy = (if policy = [] then ''proceed'' else policy),
          rp_paused = (case sp_paused p of None \<Rightarrow> df_paused defaults | Some b \<Rightarrow> b)\<rparr>)"

definition resolve_profiles :: "gateway_sync \<Rightarrow> (string, resolved_profile) gomap" where
  "resolve_profiles gs = map (\<lambda>(name, p). (name, resolve_profile (ss_defaults (gy_spec gs)) p)) (ss_profiles (gy_spec gs))"

definition resolve_auth_type :: "git_auth_spec option \<Rightarrow> string" where
  "resolve_auth_type auth =
     (case auth of
        None \<Rightarrow> ''none''
      | Some a \<Rightarrow>
          if au_ssh_key a \<noteq> None then ''ssh''
          else if au_token a \<noteq> None then ''token''
          else if au_github_app a \<noteq> None then ''githubApp''
          else ''none'')"

definition short_commit :: "string \<Rightarrow> string" where
  "short_commit sha = (if length sha > 7 then take 7 sha else sha)"

subsection \<open>What validation says of every profile\<close>

lemma validate_var_keys_iff: "validate_var_keys vars field = None \<longleftrightarrow> (\<forall>k \<in> set (mkeys vars). valid_var_key k)"
  by (induction vars field rule: validate_var_keys.induct) (auto simp: mkeys_def)

lemma validate_path_iff: "validate_path p field = None \<longleftrightarrow> \<not> is_abs p \<and> \<not> contains_traversal p"
  by (simp add: validate_path_def)

lemma first_error_None: "(case x of None \<Rightarrow> a | Some e \<Rightarrow> Some e) = None \<longleftrightarrow> x = None \<and> a = None"
  by (cases x) auto

lemma validate_mappings_iff:
  "validate_mappings name i ms = None \<longleftrightarrow>
   (\<forall>m \<in> set ms. (\<forall>p \<in> {sm_source m, sm_destination m}. \<not> is_abs p \<and> \<not> contains_traversal p))"
  by (induction ms arbitrary: i) (auto simp: Let_def first_error_None validate_path_iff)

lemma validate_profile_list_iff:
  "validate_profile_list ps = None \<longleftrightarrow>
   (\<forall>(name, p) \<in> set ps. (\<forall>k \<in> set (mkeys (sp_vars p)). valid_var_key k) \<and>
      (\<forall>m \<in> set (sp_mappings p). \<forall>q \<in> {sm_source m, sm_destination m}. \<not> is_abs q \<and> \<not> contains_traversal q))"
  by (induction ps) (auto simp: first_error_None validate_var_keys_iff validate_mappings_iff)

lemma mget_resolve_profiles:
  "mget (resolve_profiles gs) name = map_option (resolve_profile (ss_defaults (gy_spec gs))) (mget (ss_profiles (gy_spec gs)) name)"
  by (simp add: resolve_profiles_def mget_def map_of_map)

text \<open>A path without a \<open>..\<close> component has none after cleaning.\<close>

lemma clean_acc_no_dotdot:
  "\<forall>c \<in> set cs. CHR ''/'' \<notin> set c \<and> c \<noteq> ''..'' \<Longrightarrow> list_all name_ok acc \<Longrightarrow> list_all name_ok (clean_acc False acc cs)"
proof (induction cs arbitrary: acc)
  case (Cons c cs)
  have c: "CHR ''/'' \<notin> set c" "c \<noteq> ''..''" using Cons.prems(1) by auto
  have "list_all name_ok (clean_step False acc c)"
    using c(1)
  proof (cases rule: component_cases)
    case name
    then show ?thesis using Cons.prems(2) by simp
  qed (use c(2) Cons.prems(2) in auto)
  with Cons show ?case by simp
qed simp

lemma no_traversal_clean: "\<not> contains_traversal p \<Longrightarrow> list_all name_ok (clean_rel p)"
  unfolding clean_rel_def contains_traversal_def
  by (simp add: list_all_rev) (rule clean_acc_no_dotdot; use split_no_slash in auto)

lemma resolve_profile_vars:
  assumes "mwf (df_vars d)" "mwf (sp_vars p)"
  shows "mget (rp_vars (resolve_profile d p)) k =
    (case mget (sp_vars p) k of Some v \<Rightarrow> Some v | None \<Rightarrow> mget (df_vars d) k)"
  using assms by (simp add: resolve_profile_def Let_def mget_mcopy split: option.splits)

end
