(* ===== verification/ControllerStatus.thy ===== *)
theory ControllerStatus
  imports ControllerProfiles
begin

section \<open>internal/controller: conditions, backoff, intervals\<close>

text \<open>
  The operations of the reconciler on the status of a resource and on its own maps. A call of
  \<open>setCondition\<close> is a \<open>cond_update\<close> applied at an instant; the two functions that compute
  conditions from the gateways return the calls they make.
\<close>

subsection \<open>Conditions\<close>

record cond_update =
  cu_type :: string
  cu_status :: cond_status
  cu_reason :: string
  cu_message :: string

definition cond :: "string \<Rightarrow> cond_status \<Rightarrow> string \<Rightarrow> string \<Rightarrow> cond_update" where
  "cond t s r m = \<lparr>cu_type = t, cu_status = s, cu_reason = r, cu_message = m\<rparr>"

lemma cond_simps [simp]:
  "cu_type (cond t s r m) = t" "cu_status (cond t s r m) = s" "cu_reason (cond t s r m) = r"
  "cu_message (cond t s r m) = m"
  by (simp_all add: cond_def)

definition new_condition :: "int \<Rightarrow> int \<Rightarrow> cond_update \<Rightarrow> status_condition" where
  "new_condition generation now u = \<lparr>cd_type = cu_type u, cd_status = cu_status u,
     cd_observed_generation = generation, cd_last_transition = now, cd_reason = cu_reason u, cd_message = cu_message u\<rparr>"

fun put_condition :: "int \<Rightarrow> int \<Rightarrow> cond_update \<Rightarrow> status_condition list \<Rightarrow> status_condition list" where
  "put_condition generation now u [] = [new_condition generation now u]"
| "put_condition generation now u (c # cs) =
     (if cd_type c = cu_type u
      then (if cd_status c \<noteq> cu_status u then new_condition generation now u
            else c\<lparr>cd_reason := cu_reason u, cd_message := cu_message u, cd_observed_generation := generation\<rparr>) # cs
      else c # put_condition generation now u cs)"

definition map_status :: "(gateway_sync_status \<Rightarrow> gateway_sync_status) \<Rightarrow> gateway_sync \<Rightarrow> gateway_sync" where
  "map_status f gs = gs\<lparr>gy_status := f (gy_status gs)\<rparr>"

definition set_condition :: "int \<Rightarrow> cond_update \<Rightarrow> gateway_sync \<Rightarrow> gateway_sync" where
  "set_condition now u gs = map_status (\<lambda>st. st\<lparr>st_conditions :=
     put_condition (om_generation (gy_meta gs)) now u (st_conditions st)\<rparr>) gs"

definition condition_has_status :: "status_condition list \<Rightarrow> string \<Rightarrow> cond_status \<Rightarrow> bool" where
  "condition_has_status conds t s = list_ex (\<lambda>c. cd_type c = t \<and> cd_status c = s) conds"

definition condition_has_reason :: "status_condition list \<Rightarrow> string \<Rightarrow> string \<Rightarrow> bool" where
  "condition_has_reason conds t r = list_ex (\<lambda>c. cd_type c = t \<and> cd_reason c = r) conds"

definition find_condition :: "status_condition list \<Rightarrow> string \<Rightarrow> status_condition option" where
  "find_condition conds t = find (\<lambda>c. cd_type c = t) conds"

definition count_status :: "string \<Rightarrow> discovered_gateway list \<Rightarrow> nat" where
  "count_status s gws = length (filter (\<lambda>g. dg_sync_status g = s) gws)"

definition all_synced_updates :: "discovered_gateway list \<Rightarrow> cond_update list" where
  "all_synced_updates gws =
     (let total = length gws in
      if total = 0 then [cond type_all_gateways_synced CFalse ''NoGatewaysDiscovered'' ''0/0 synced'']
      else (let synced = count_status sync_status_synced gws;
                missing = count_status sync_status_missing_sidecar gws;
                counts = itoa (int synced) @ ''/'' @ itoa (int total) @ '' synced''
        in [if synced = total then cond type_all_gateways_synced CTrue ''SyncSucceeded'' counts
            else cond type_all_gateways_synced CFalse ''SyncInProgress''
              (if missing > 0 then counts @ '' ('' @ itoa (int missing) @ '' missing sidecar)'' else counts),
            if missing > 0
            then cond type_sidecar_injected CFalse ''SidecarMissing'' (itoa (int missing) @ '' gateway(s) missing stoker-agent sidecar'')
            else cond type_sidecar_injected CTrue ''SidecarPresent'' ''All gateways have stoker-agent sidecar'']))"

definition ready_update :: "status_condition list \<Rightarrow> cond_update" where
  "ready_update conds =
     (let refResolved = condition_has_status conds type_ref_resolved CTrue;
          allSynced = condition_has_status conds type_all_gateways_synced CTrue;
          profilesValid = condition_has_status conds type_profiles_valid CTrue
      in if refResolved \<and> allSynced \<and> profilesValid then cond type_ready CTrue ''SyncSucceeded'' ''All gateways synced''
         else if \<not> profilesValid then cond type_ready CFalse ''Reconciling'' ''Profiles invalid''
         else if \<not> refResolved then cond type_ready CFalse ''Reconciling'' ''Ref not resolved''
         else cond type_ready CFalse ''Reconciling'' ''Waiting for gateways to sync'')"

subsection \<open>Backoff and tokens\<close>

type_synonym namespaced_name = "string \<times> string"

record backoff_state =
  bo_failure_count :: nat
  bo_last_failure :: int

record cached_token =
  ct_token :: string
  ct_expiry :: int

fun double_delay :: "nat \<Rightarrow> int \<Rightarrow> int" where
  "double_delay 0 delay = delay"
| "double_delay (Suc n) delay = (if delay < sec 300 then double_delay n (delay * 2) else delay)"

definition requeue_delay :: "(namespaced_name, backoff_state) gomap \<Rightarrow> namespaced_name \<Rightarrow> int" where
  "requeue_delay backoff key =
     (case mget backoff key of
        None \<Rightarrow> sec 30
      | Some st \<Rightarrow>
          if bo_failure_count st = 0 then sec 30
          else (let delay = double_delay (bo_failure_count st - 1) (sec 30) in
            if delay > sec 300 then sec 300 else delay))"

definition record_failure :: "int \<Rightarrow> namespaced_name \<Rightarrow> (namespaced_name, backoff_state) gomap \<Rightarrow> (namespaced_name, backoff_state) gomap" where
  "record_failure now key backoff =
     (let st = (case mget backoff key of None \<Rightarrow> \<lparr>bo_failure_count = 0, bo_last_failure = 0\<rparr> | Some st \<Rightarrow> st)
      in mput backoff key (st\<lparr>bo_failure_count := Suc (bo_failure_count st), bo_last_failure := now\<rparr>))"

definition reset_backoff :: "namespaced_name \<Rightarrow> (namespaced_name, backoff_state) gomap \<Rightarrow> (namespaced_name, backoff_state) gomap" where
  "reset_backoff key backoff = mdel backoff key"

definition token_cache_key :: "github_app_auth \<Rightarrow> string" where
  "token_cache_key a = itoa (ga_app_id a) @ '':'' @ itoa (ga_installation_id a)"

definition token_refresh_buffer :: int where
  "token_refresh_buffer = sec 300"

subsection \<open>Intervals\<close>

definition polling_interval :: "(string \<Rightarrow> int option) \<Rightarrow> gateway_sync \<Rightarrow> int" where
  "polling_interval parse_duration gs =
     (let p = ss_polling (gy_spec gs) in
      if po_enabled p = Some False then 0
      else (case parse_duration (if po_interval p = [] then ''60s'' else po_interval p) of
          None \<Rightarrow> sec 60
        | Some d \<Rightarrow> d))"

text \<open>\<open>now\<close> is read only when a token is cached.\<close>

definition requeue_interval :: "(string \<Rightarrow> int option) \<Rightarrow> (string, cached_token) gomap \<Rightarrow> int \<Rightarrow> gateway_sync \<Rightarrow> int" where
  "requeue_interval parse_duration tokens now gs =
     (let interval = polling_interval parse_duration gs in
      case gy_github_app gs of
        None \<Rightarrow> interval
      | Some a \<Rightarrow> (case mget tokens (token_cache_key a) of
            None \<Rightarrow> interval
          | Some cached \<Rightarrow>
              (let tokenRefresh = ct_expiry cached - now - token_refresh_buffer in
               if tokenRefresh > 0 \<and> (interval = 0 \<or> tokenRefresh < interval) then tokenRefresh else interval)))"

subsection \<open>Laws of the conditions\<close>

lemma find_put_condition:
  "find_condition (put_condition g now u cs) t =
   (if t = cu_type u
    then Some (case find_condition cs t of
        None \<Rightarrow> new_condition g now u
      | Some c \<Rightarrow> if cd_status c \<noteq> cu_status u then new_condition g now u
          else c\<lparr>cd_reason := cu_reason u, cd_message := cu_message u, cd_observed_generation := g\<rparr>)
    else find_condition cs t)"
  by (induction cs) (auto simp: find_condition_def new_condition_def)

lemma types_put_condition:
  "map cd_type (put_condition g now u cs) =
   (if cu_type u \<in> cd_type ` set cs then map cd_type cs else map cd_type cs @ [cu_type u])"
  by (induction cs) (auto simp: new_condition_def)

lemma distinct_put_condition:
  "distinct (map cd_type cs) \<Longrightarrow> distinct (map cd_type (put_condition g now u cs))"
  by (simp add: types_put_condition)

lemma find_condition_Some:
  "distinct (map cd_type cs) \<Longrightarrow> find_condition cs t = Some c \<longleftrightarrow> c \<in> set cs \<and> cd_type c = t"
  by (induction cs) (auto simp: find_condition_def)

lemma condition_has_status_iff:
  "distinct (map cd_type cs) \<Longrightarrow>
   condition_has_status cs t s \<longleftrightarrow> (\<exists>c. find_condition cs t = Some c \<and> cd_status c = s)"
  by (auto simp: condition_has_status_def list_ex_iff find_condition_Some)

subsection \<open>Laws of the backoff\<close>

lemma double_delay_eq: "double_delay n (sec 30 * 2 ^ k) = sec 30 * 2 ^ (min (n + k) (max k 4))"
proof (induction n arbitrary: k)
  case (Suc n)
  show ?case
  proof (cases "k < 4")
    case True
    then have "k \<in> {0, 1, 2, 3}" by auto
    then have "sec 30 * 2 ^ k < sec 300" by (auto simp: sec_def)
    with Suc [of "Suc k"] True show ?thesis by (simp add: ac_simps max_def)
  next
    case False
    then have "(2::int) ^ 4 \<le> 2 ^ k" by (intro power_increasing) auto
    then have "\<not> sec 30 * 2 ^ k < sec 300" by (simp add: sec_def)
    with False show ?thesis by (simp add: max_def)
  qed
qed (simp add: max_def min_def)

end
