(* ===== verification/PodTypes.thy ===== *)
theory PodTypes
  imports ApiTypes
begin

section \<open>The parts of a Kubernetes pod the program reads and writes\<close>

text \<open>
  Records for the fields of \<open>corev1.Pod\<close> that the injector and the controller use. A field of a
  container or of a volume that the program only passes on is not listed.
\<close>

record env_var =
  ev_name :: string
  ev_value :: string
  ev_field_path :: "string option"

record volume_mount =
  vm_name :: string
  vm_mount_path :: string
  vm_read_only :: bool

record probe =
  pb_path :: string
  pb_port :: int
  pb_period_seconds :: int
  pb_failure_threshold :: int

record container_port =
  cp_name :: string
  cp_container_port :: int
  cp_protocol :: string

record security_context =
  sx_run_as_non_root :: bool
  sx_read_only_root_filesystem :: bool
  sx_allow_privilege_escalation :: bool
  sx_seccomp_profile :: string
  sx_drop :: "string list"

record container =
  co_name :: string
  co_image :: string
  co_image_pull_policy :: string
  co_command :: "string list"
  co_restart_policy :: "string option"
  co_env :: "env_var list"
  co_resources :: resource_requirements
  co_ports :: "container_port list"
  co_security_context :: "security_context option"
  co_startup_probe :: "probe option"
  co_liveness_probe :: "probe option"
  co_readiness_probe :: "probe option"
  co_volume_mounts :: "volume_mount list"

datatype volume_source = EmptyDir | SecretVolume string int | OtherVolume string

record volume =
  vo_name :: string
  vo_source :: volume_source

record pod =
  pd_meta :: object_meta
  pd_phase :: string
  pd_service_account :: string
  pd_containers :: "container list"
  pd_init_containers :: "container list"
  pd_volumes :: "volume list"

definition pod_annotation :: "pod \<Rightarrow> string \<Rightarrow> string" where
  "pod_annotation p k = mstr (om_annotations (pd_meta p)) k"

definition agent_container_name :: string where
  "agent_container_name = ''stoker-agent''"

definition has_agent_container :: "pod \<Rightarrow> bool" where
  "has_agent_container p = list_ex (\<lambda>c. co_name c = agent_container_name) (pd_init_containers p)"

end
