(* ===== verification/GitRemote.thy ===== *)
theory GitRemote
  imports ApiTypes GoPath Effects
begin

section \<open>internal/git: references, credentials, the token exchange, go-git\<close>

text \<open>
  \<open>auth.go\<close>, \<open>githubapp.go\<close> and the \<open>GoGitClient\<close> of \<open>client.go\<close>. The parsers of keys and PEM
  blocks, the JWT signature, HTTP, the JSON decoder and the go-git library are the fields of
  \<open>git_api\<close>; a function that may observe or change another system takes and returns the value of
  type \<open>'k\<close> that stands for it. A hash is its hexadecimal text.
\<close>

datatype auth_method = NoAuth | BasicAuth string string | SshAuth string "string option"

record adv_refs =
  ar_peeled :: "(string, string) gomap"
  ar_references :: "(string, string) gomap"

datatype private_key = RsaKey string | OtherKey string

record jwt_claims =
  jc_issued_at :: int
  jc_expires_at :: int
  jc_issuer :: string

record token_request =
  tr_method :: string
  tr_url :: string
  tr_authorization :: string
  tr_accept :: string

text \<open>\<open>GitHubAppTokenResult\<close>.\<close>

record installation_token =
  it_token :: string
  it_expires_at :: int

text \<open>A Secret; its data is never a nil map when it exists.\<close>

record secret_obj =
  se_namespace :: string
  se_name :: string
  se_labels :: "(string, string) gomap"
  se_annotations :: "(string, string) gomap"
  se_data :: "(string, string) gomap"

record 'k git_api =
  gi_now :: "'k \<Rightarrow> int \<times> 'k"
  gi_parse_endpoint :: "string \<Rightarrow> goerror option"
  gi_new_transport :: "string \<Rightarrow> goerror option"
  gi_open_session :: "string \<Rightarrow> auth_method \<Rightarrow> 'k \<Rightarrow> goerror option \<times> 'k"
  gi_advertised :: "string \<Rightarrow> auth_method \<Rightarrow> 'k \<Rightarrow> adv_refs res \<times> 'k"
  gi_parse_ssh_key :: "string \<Rightarrow> goerror option"
  gi_new_known_hosts :: "string \<Rightarrow> 'k \<Rightarrow> goerror option \<times> 'k"
  gi_pem_decode :: "string \<Rightarrow> (string \<times> string) option"
  gi_parse_pkcs1 :: "string \<Rightarrow> string res"
  gi_parse_pkcs8 :: "string \<Rightarrow> private_key res"
  gi_sign_jwt :: "string \<Rightarrow> jwt_claims \<Rightarrow> string res"
  gi_new_request :: "string \<Rightarrow> goerror option"
  gi_http_do :: "token_request \<Rightarrow> 'k \<Rightarrow> (int \<times> string res) res \<times> 'k"
  gi_decode_token :: "string \<Rightarrow> installation_token res"
  gi_plain_clone :: "string \<Rightarrow> string \<Rightarrow> auth_method \<Rightarrow> nat \<Rightarrow> 'k \<Rightarrow> goerror option \<times> 'k"
  gi_plain_open :: "string \<Rightarrow> 'k \<Rightarrow> goerror option \<times> 'k"
  gi_remote_urls :: "string \<Rightarrow> string \<Rightarrow> 'k \<Rightarrow> string list res \<times> 'k"
  gi_delete_remote :: "string \<Rightarrow> string \<Rightarrow> 'k \<Rightarrow> goerror option \<times> 'k"
  gi_create_remote :: "string \<Rightarrow> string \<Rightarrow> string list \<Rightarrow> 'k \<Rightarrow> goerror option \<times> 'k"
  gi_fetch :: "string \<Rightarrow> auth_method \<Rightarrow> 'k \<Rightarrow> goerror option \<times> 'k"
  gi_already_up_to_date :: "goerror \<Rightarrow> bool"
  gi_worktree :: "string \<Rightarrow> 'k \<Rightarrow> goerror option \<times> 'k"
  gi_tag :: "string \<Rightarrow> string \<Rightarrow> 'k \<Rightarrow> string res \<times> 'k"
  gi_resolve_revision :: "string \<Rightarrow> string \<Rightarrow> 'k \<Rightarrow> string res \<times> 'k"
  gi_checkout :: "string \<Rightarrow> string \<Rightarrow> 'k \<Rightarrow> goerror option \<times> 'k"
  gi_stat :: "string \<Rightarrow> 'k \<Rightarrow> goerror option \<times> 'k"

subsection \<open>client.go: references\<close>

text \<open>\<open>plumbing.IsHash\<close>: forty hexadecimal digits.\<close>

definition is_hex :: "char \<Rightarrow> bool" where
  "is_hex c \<longleftrightarrow> (let n = (of_char c :: nat) in 48 \<le> n \<and> n \<le> 57 \<or> 97 \<le> n \<and> n \<le> 102 \<or> 65 \<le> n \<and> n \<le> 70)"

definition is_hash :: "string \<Rightarrow> bool" where
  "is_hash s \<longleftrightarrow> length s = 40 \<and> list_all is_hex s"

text \<open>\<open>plumbing.NewHash(s).String()\<close>: the digits in lower case.\<close>

definition lower_hex :: "char \<Rightarrow> char" where
  "lower_hex c = (let n = (of_char c :: nat) in if 65 \<le> n \<and> n \<le> 70 then char_of (n + 32) else c)"

definition new_hash :: "string \<Rightarrow> string" where
  "new_hash s = map lower_hex s"

fun first_ref :: "(string, string) gomap \<Rightarrow> string list \<Rightarrow> string option" where
  "first_ref refs [] = None"
| "first_ref refs (c # cs) = (case mget refs c of Some h \<Rightarrow> Some h | None \<Rightarrow> first_ref refs cs)"

definition match_ref :: "adv_refs \<Rightarrow> string \<Rightarrow> string \<Rightarrow> git_result res" where
  "match_ref ar ref repoURL =
     (if is_hash ref then Inr \<lparr>gr_commit = ref, gr_ref = ref\<rparr>
      else (let candidates = [''refs/tags/'' @ ref, ''refs/heads/'' @ ref] in
        case first_ref (ar_peeled ar) candidates of
          Some h \<Rightarrow> Inr \<lparr>gr_commit = h, gr_ref = ref\<rparr>
        | None \<Rightarrow> (case first_ref (ar_references ar) candidates of
            Some h \<Rightarrow> Inr \<lparr>gr_commit = h, gr_ref = ref\<rparr>
          | None \<Rightarrow> Inl (Errorf (''ref '' @ quote ref @ '' not found in remote '' @ repoURL)))))"

definition ls_remote :: "'k git_api \<Rightarrow> string \<Rightarrow> string \<Rightarrow> auth_method \<Rightarrow> (('k, 'e, 'z) io_scheme, git_result res) state" where
  "ls_remote G repoURL ref auth =
     (case gi_parse_endpoint G repoURL of
        Some err \<Rightarrow> ret (Inl (Wrapf (''parsing endpoint '' @ repoURL) err))
      | None \<Rightarrow> (case gi_new_transport G repoURL of
          Some err \<Rightarrow> ret (Inl (Wrapf (''creating transport for '' @ repoURL) err))
        | None \<Rightarrow> do {
            e \<leftarrow> call (gi_open_session G repoURL auth);
            (case e of
               Some err \<Rightarrow> ret (Inl (Wrapf (''opening session for '' @ repoURL) err))
             | None \<Rightarrow> do {
                 r \<leftarrow> call (gi_advertised G repoURL auth);
                 ret (case r of
                     Inl err \<Rightarrow> Inl (Wrapf (''ls-remote '' @ repoURL) err)
                   | Inr ar \<Rightarrow> match_ref ar ref repoURL) }) }))"

subsection \<open>githubapp.go\<close>

definition parse_rsa_private_key :: "'k git_api \<Rightarrow> string \<Rightarrow> string res" where
  "parse_rsa_private_key G pemBytes =
     (case gi_pem_decode G pemBytes of
        None \<Rightarrow> Inl (Errorf ''no PEM block found'')
      | Some (blockType, bytes) \<Rightarrow>
          if blockType = ''RSA PRIVATE KEY'' then gi_parse_pkcs1 G bytes
          else if blockType = ''PRIVATE KEY''
          then (case gi_parse_pkcs8 G bytes of
              Inl err \<Rightarrow> Inl err
            | Inr (RsaKey k) \<Rightarrow> Inr k
            | Inr (OtherKey k) \<Rightarrow> Inl (Errorf ''PKCS#8 key is not RSA''))
          else Inl (Errorf (''unsupported PEM block type: '' @ blockType)))"

text \<open>\<open>jwt.NewNumericDate\<close> cuts an instant to the second.\<close>

definition truncate_sec :: "int \<Rightarrow> int" where
  "truncate_sec t = t - t mod sec 1"

definition app_claims :: "int \<Rightarrow> int \<Rightarrow> jwt_claims" where
  "app_claims now appID = \<lparr>jc_issued_at = truncate_sec (now - sec 60),
     jc_expires_at = truncate_sec (now + sec 600), jc_issuer = itoa appID\<rparr>"

definition api_base :: "string \<Rightarrow> string" where
  "api_base apiURL = (if apiURL = [] then ''https://api.github.com'' else apiURL)"

definition app_token_request :: "string \<Rightarrow> int \<Rightarrow> string \<Rightarrow> token_request" where
  "app_token_request apiURL installationID jwt = \<lparr>tr_method = ''POST'',
     tr_url = api_base apiURL @ ''/app/installations/'' @ itoa installationID @ ''/access_tokens'',
     tr_authorization = ''Bearer '' @ jwt, tr_accept = ''application/vnd.github+json''\<rparr>"

definition token_of_response :: "'k git_api \<Rightarrow> (int \<times> string res) res \<Rightarrow> installation_token res" where
  "token_of_response G r =
     (case r of
        Inl err \<Rightarrow> Inl (Wrapf ''exchanging token'' err)
      | Inr (status, body) \<Rightarrow> (case body of
          Inl err \<Rightarrow> Inl (Wrapf ''reading response'' err)
        | Inr text \<Rightarrow>
            if status \<noteq> 201
            then Inl (Errorf (''GitHub API returned '' @ itoa status @ '': '' @ text))
            else (case gi_decode_token G text of
                Inl err \<Rightarrow> Inl (Wrapf ''parsing response'' err)
              | Inr t \<Rightarrow> Inr t)))"

definition exchange_github_app_token :: "'k git_api \<Rightarrow> string \<Rightarrow> int \<Rightarrow> int \<Rightarrow> string \<Rightarrow> (('k, 'e, 'z) io_scheme, installation_token res) state" where
  "exchange_github_app_token G pemBytes appID installationID apiURL =
     (case parse_rsa_private_key G pemBytes of
        Inl err \<Rightarrow> ret (Inl (Wrapf ''parsing PEM key'' err))
      | Inr key \<Rightarrow> do {
          now \<leftarrow> call (gi_now G);
          (case gi_sign_jwt G key (app_claims now appID) of
             Inl err \<Rightarrow> ret (Inl (Wrapf ''signing JWT'' err))
           | Inr jwt \<Rightarrow> (case gi_new_request G (tr_url (app_token_request apiURL installationID jwt)) of
               Some err \<Rightarrow> ret (Inl (Wrapf ''creating request'' err))
             | None \<Rightarrow> do {
                 r \<leftarrow> call (gi_http_do G (app_token_request apiURL installationID jwt));
                 ret (token_of_response G r) })) })"

subsection \<open>auth.go\<close>

type_synonym 'k secret_getter = "string \<Rightarrow> string \<Rightarrow> 'k \<Rightarrow> secret_obj res \<times> 'k"

text \<open>
  Every credential is read the same way: get the Secret, then take a key of its data. \<open>getting\<close>
  and \<open>secret_kind\<close> are the words of the error texts.
\<close>

definition read_secret_key :: "'k secret_getter \<Rightarrow> string \<Rightarrow> string \<Rightarrow> string \<Rightarrow> secret_key_ref \<Rightarrow> (('k, 'e, 'z) io_scheme, string res) state" where
  "read_secret_key get_secret getting secret_kind namespace ref = do {
     r \<leftarrow> call (get_secret namespace (sk_name ref));
     ret (case r of
        Inl err \<Rightarrow> Inl (Wrapf (getting @ '' '' @ namespace @ ''/'' @ sk_name ref) err)
      | Inr secret \<Rightarrow> (case mget (se_data secret) (sk_key ref) of
          None \<Rightarrow> Inl (Errorf (''key '' @ quote (sk_key ref) @ '' not found in '' @ secret_kind @ '' '' @
            namespace @ ''/'' @ sk_name ref))
        | Some v \<Rightarrow> Inr v)) }"

definition resolve_token_auth :: "'k secret_getter \<Rightarrow> string \<Rightarrow> secret_key_ref \<Rightarrow> (('k, 'e, 'z) io_scheme, auth_method res) state" where
  "resolve_token_auth get_secret namespace ref = do {
     r \<leftarrow> read_secret_key get_secret ''getting token secret'' ''secret'' namespace ref;
     ret (case r of Inl err \<Rightarrow> Inl err | Inr token \<Rightarrow> Inr (BasicAuth ''x-access-token'' token)) }"

definition resolve_known_hosts :: "'k git_api \<Rightarrow> 'k secret_getter \<Rightarrow> string \<Rightarrow> secret_key_ref \<Rightarrow> (('k, 'e, 'z) io_scheme, string res) state" where
  "resolve_known_hosts G get_secret namespace kh = do {
     r \<leftarrow> read_secret_key get_secret ''getting known_hosts secret'' ''known_hosts secret'' namespace kh;
     (case r of
        Inl err \<Rightarrow> ret (Inl err)
      | Inr khData \<Rightarrow> do {
          e \<leftarrow> call (gi_new_known_hosts G khData);
          ret (case e of Some err \<Rightarrow> Inl err | None \<Rightarrow> Inr khData) }) }"

definition resolve_ssh_auth :: "'k git_api \<Rightarrow> 'k secret_getter \<Rightarrow> string \<Rightarrow> ssh_key_auth \<Rightarrow> (('k, 'e, 'z) io_scheme, auth_method res) state" where
  "resolve_ssh_auth G get_secret namespace sshAuth = do {
     r \<leftarrow> read_secret_key get_secret ''getting SSH key secret'' ''secret'' namespace (sa_secret_ref sshAuth);
     (case r of
        Inl err \<Rightarrow> ret (Inl err)
      | Inr pemBytes \<Rightarrow>
          (case gi_parse_ssh_key G pemBytes of
             Some err \<Rightarrow> ret (Inl (Wrapf ''parsing SSH private key'' err))
           | None \<Rightarrow> (case sa_known_hosts sshAuth of
               None \<Rightarrow> ret (Inr (SshAuth pemBytes None))
             | Some kh \<Rightarrow> do {
                 k \<leftarrow> resolve_known_hosts G get_secret namespace kh;
                 ret (case k of Inl err \<Rightarrow> Inl err | Inr hosts \<Rightarrow> Inr (SshAuth pemBytes (Some hosts))) }))) }"

definition resolve_github_app_auth :: "'k git_api \<Rightarrow> 'k secret_getter \<Rightarrow> string \<Rightarrow> github_app_auth \<Rightarrow> (('k, 'e, 'z) io_scheme, auth_method res) state" where
  "resolve_github_app_auth G get_secret namespace a = do {
     r \<leftarrow> read_secret_key get_secret ''getting GitHub App PEM secret'' ''secret'' namespace (ga_private_key_secret_ref a);
     (case r of
        Inl err \<Rightarrow> ret (Inl err)
      | Inr pemBytes \<Rightarrow> do {
          x \<leftarrow> exchange_github_app_token G pemBytes (ga_app_id a) (ga_installation_id a) (ga_api_base_url a);
          ret (case x of
              Inl err \<Rightarrow> Inl (Wrapf ''exchanging GitHub App token'' err)
            | Inr t \<Rightarrow> Inr (BasicAuth ''x-access-token'' (it_token t))) }) }"

definition resolve_auth :: "'k git_api \<Rightarrow> 'k secret_getter \<Rightarrow> string \<Rightarrow> git_auth_spec option \<Rightarrow> (('k, 'e, 'z) io_scheme, auth_method res) state" where
  "resolve_auth G get_secret namespace authSpec =
     (case authSpec of
        None \<Rightarrow> ret (Inr NoAuth)
      | Some spec \<Rightarrow> (case au_ssh_key spec of
          Some ssh \<Rightarrow> resolve_ssh_auth G get_secret namespace ssh
        | None \<Rightarrow> (case au_token spec of
            Some t \<Rightarrow> resolve_token_auth get_secret namespace t
          | None \<Rightarrow> (case au_github_app spec of
              Some a \<Rightarrow> resolve_github_app_auth G get_secret namespace a
            | None \<Rightarrow> ret (Inr NoAuth)))))"

subsection \<open>client.go: clone and fetch with go-git\<close>

text \<open>A repository handle is its path; the library keeps the repository in the other system's state.\<close>

fun try_revisions :: "'k git_api \<Rightarrow> string \<Rightarrow> string list \<Rightarrow> string \<Rightarrow> (('k, 'e, 'z) io_scheme, string res) state" where
  "try_revisions G path [] ref = do {
     r \<leftarrow> call (gi_resolve_revision G path ref);
     ret (case r of Inl err \<Rightarrow> Inl (Wrapf (''cannot resolve ref '' @ quote ref) err) | Inr h \<Rightarrow> Inr h) }"
| "try_revisions G path (p # ps) ref = do {
     r \<leftarrow> call (gi_resolve_revision G path (p @ ref));
     (case r of Inl err \<Rightarrow> try_revisions G path ps ref | Inr h \<Rightarrow> ret (Inr h)) }"

definition gogit_resolve_ref :: "'k git_api \<Rightarrow> string \<Rightarrow> string \<Rightarrow> (('k, 'e, 'z) io_scheme, string res) state" where
  "gogit_resolve_ref G path ref =
     (if is_hash ref then ret (Inr (new_hash ref))
      else do {
        t \<leftarrow> call (gi_tag G path ref);
        (case t of
           Inr h \<Rightarrow> ret (Inr h)
         | Inl err \<Rightarrow> try_revisions G path [''refs/tags/'', ''refs/remotes/origin/''] ref) })"

definition checkout_ref :: "'k git_api \<Rightarrow> string \<Rightarrow> string \<Rightarrow> (('k, 'e, 'z) io_scheme, git_result res) state" where
  "checkout_ref G path ref = do {
     w \<leftarrow> call (gi_worktree G path);
     (case w of
        Some err \<Rightarrow> ret (Inl (Wrapf ''getting worktree'' err))
      | None \<Rightarrow> do {
          r \<leftarrow> gogit_resolve_ref G path ref;
          (case r of
             Inl err \<Rightarrow> ret (Inl err)
           | Inr h \<Rightarrow> do {
               e \<leftarrow> call (gi_checkout G path h);
               ret (case e of
                   Some err \<Rightarrow> Inl (Wrapf (''checkout '' @ ref) err)
                 | None \<Rightarrow> Inr \<lparr>gr_commit = h, gr_ref = ref\<rparr>) }) }) }"

definition ensure_remote_url :: "'k git_api \<Rightarrow> string \<Rightarrow> string \<Rightarrow> (('k, 'e, 'z) io_scheme, goerror option) state" where
  "ensure_remote_url G path desiredURL = do {
     r \<leftarrow> call (gi_remote_urls G path ''origin'');
     (case r of
        Inl err \<Rightarrow> ret (Some (Wrapf ''getting origin remote'' err))
      | Inr urls \<Rightarrow>
          if urls \<noteq> [] \<and> hd urls = desiredURL then ret None
          else do {
            d \<leftarrow> call (gi_delete_remote G path ''origin'');
            (case d of
               Some err \<Rightarrow> ret (Some (Wrapf ''deleting origin remote'' err))
             | None \<Rightarrow> do {
                 c \<leftarrow> call (gi_create_remote G path ''origin'' [desiredURL]);
                 ret (case c of Some err \<Rightarrow> Some (Wrapf ''creating origin remote'' err) | None \<Rightarrow> None) }) }) }"

definition gogit_clone_and_checkout :: "'k git_api \<Rightarrow> string \<Rightarrow> string \<Rightarrow> string \<Rightarrow> auth_method \<Rightarrow> (('k, 'e, 'z) io_scheme, git_result res) state" where
  "gogit_clone_and_checkout G repoURL ref path auth = do {
     e \<leftarrow> call (gi_plain_clone G path repoURL auth 1);
     (case e of
        Some err \<Rightarrow> ret (Inl (Wrapf (''git clone '' @ repoURL) err))
      | None \<Rightarrow> checkout_ref G path ref) }"

definition gogit_fetch_and_checkout :: "'k git_api \<Rightarrow> string \<Rightarrow> string \<Rightarrow> string \<Rightarrow> auth_method \<Rightarrow> (('k, 'e, 'z) io_scheme, git_result res) state" where
  "gogit_fetch_and_checkout G repoURL ref path auth = do {
     o1 \<leftarrow> call (gi_plain_open G path);
     (case o1 of
        Some err \<Rightarrow> ret (Inl (Wrapf (''opening repo at '' @ path) err))
      | None \<Rightarrow> do {
          u \<leftarrow> ensure_remote_url G path repoURL;
          (case u of
             Some err \<Rightarrow> ret (Inl err)
           | None \<Rightarrow> do {
               f \<leftarrow> call (gi_fetch G path auth);
               (case f of
                  Some err \<Rightarrow> if gi_already_up_to_date G err then checkout_ref G path ref
                    else ret (Inl (Wrapf ''git fetch'' err))
                | None \<Rightarrow> checkout_ref G path ref) }) }) }"

definition is_cloned :: "'k git_api \<Rightarrow> string \<Rightarrow> (('k, 'e, 'z) io_scheme, bool) state" where
  "is_cloned G path = do { e \<leftarrow> call (gi_stat G (filepath_join path ''.git'')); ret (e = None) }"

definition gogit_clone_or_fetch :: "'k git_api \<Rightarrow> string \<Rightarrow> string \<Rightarrow> string \<Rightarrow> auth_method \<Rightarrow> (('k, 'e, 'z) io_scheme, git_result res) state" where
  "gogit_clone_or_fetch G repoURL ref path auth = do {
     c \<leftarrow> is_cloned G path;
     (if c then gogit_fetch_and_checkout G repoURL ref path auth
      else gogit_clone_and_checkout G repoURL ref path auth) }"

end
