(* ===== verification/ControllerCluster.thy ===== *)
theory ControllerCluster
  imports ControllerStatus PodTypes GitRemote
begin

section \<open>internal/controller: operations on the cluster\<close>

text \<open>
  Discovery, the auto-RBAC binding, the metadata ConfigMap, the token Secret and the cleanup, as
  monads over the reconciler's state. The Kubernetes client, the git
  library, JSON and the clock are the fields of \<open>ctrl_api\<close>. An object the controller creates is
  logged with the name of the resource that owns it (\<open>SetControllerReference\<close>).
\<close>

record rbac_subject =
  sb_kind :: string
  sb_name :: string
  sb_namespace :: string

record role_binding =
  rb_namespace :: string
  rb_name :: string
  rb_labels :: "(string, string) gomap"
  rb_role_kind :: string
  rb_role_name :: string
  rb_subjects :: "rbac_subject list"

record 'k ctrl_api =
  ka_get_gs :: "namespaced_name \<Rightarrow> 'k \<Rightarrow> gateway_sync res \<times> 'k"
  ka_update_gs :: "gateway_sync \<Rightarrow> 'k \<Rightarrow> goerror option \<times> 'k"
  ka_patch_gs :: "gateway_sync \<Rightarrow> gateway_sync \<Rightarrow> 'k \<Rightarrow> goerror option \<times> 'k"
  ka_patch_status :: "gateway_sync \<Rightarrow> gateway_sync \<Rightarrow> 'k \<Rightarrow> gateway_sync res \<times> 'k"
  ka_set_owner :: "gateway_sync \<Rightarrow> goerror option"
  ka_get_cm :: "string \<Rightarrow> string \<Rightarrow> 'k \<Rightarrow> config_map res \<times> 'k"
  ka_create_cm :: "config_map \<Rightarrow> 'k \<Rightarrow> goerror option \<times> 'k"
  ka_update_cm :: "config_map \<Rightarrow> 'k \<Rightarrow> goerror option \<times> 'k"
  ka_delete_cm :: "config_map \<Rightarrow> 'k \<Rightarrow> goerror option \<times> 'k"
  ka_get_secret :: "string \<Rightarrow> string \<Rightarrow> 'k \<Rightarrow> secret_obj res \<times> 'k"
  ka_create_secret :: "secret_obj \<Rightarrow> 'k \<Rightarrow> goerror option \<times> 'k"
  ka_update_secret :: "secret_obj \<Rightarrow> 'k \<Rightarrow> goerror option \<times> 'k"
  ka_delete_secret :: "secret_obj \<Rightarrow> 'k \<Rightarrow> goerror option \<times> 'k"
  ka_list_pods :: "string \<Rightarrow> 'k \<Rightarrow> pod list res \<times> 'k"
  ka_get_rb :: "string \<Rightarrow> string \<Rightarrow> 'k \<Rightarrow> role_binding res \<times> 'k"
  ka_create_rb :: "role_binding \<Rightarrow> 'k \<Rightarrow> goerror option \<times> 'k"
  ka_update_rb :: "role_binding \<Rightarrow> 'k \<Rightarrow> goerror option \<times> 'k"
  ka_delete_rb :: "role_binding \<Rightarrow> 'k \<Rightarrow> goerror option \<times> 'k"
  ka_git :: "'k git_api"
  ka_now :: "'k \<Rightarrow> int \<times> 'k"
  ka_parse_duration :: "string \<Rightarrow> int option"
  ka_format_duration :: "int \<Rightarrow> string"
  ka_parse_time :: "string \<Rightarrow> int option"
  ka_encode_profiles :: "(string, resolved_profile) gomap \<Rightarrow> string"
  ka_decode_status :: "string \<Rightarrow> gateway_status res"
  ka_auto_bind_rbac :: bool

datatype ctrl_effect =
    PatchStatus gateway_sync bool          \<comment> \<open>the object sent, and whether the API accepted it\<close>
  | UpdateGS gateway_sync bool
  | PatchGS gateway_sync bool
  | CreateCM config_map string bool        \<comment> \<open>with the owner's name\<close>
  | UpdateCM config_map bool
  | DeleteCM string string bool            \<comment> \<open>with namespace and name\<close>
  | CreateSecret secret_obj string bool
  | UpdateSecret secret_obj bool
  | DeleteSecret string string bool
  | CreateRB role_binding string bool
  | UpdateRB role_binding bool
  | DeleteRB string string bool
  | Notice string string string            \<comment> \<open>an event on the resource: type, reason, message\<close>
  | LsRemote string string
  | Exchange string
  | Series string "string list" int        \<comment> \<open>a metric written: labels and value\<close>
  | Count string "string list"             \<comment> \<open>a counter incremented\<close>
  | Timed string "string list"             \<comment> \<open>a histogram's sample, without the duration\<close>
  | DropSeries string "string list"        \<comment> \<open>the series of a metric with these labels deleted\<close>

record 'k ctrl_state = "('k, ctrl_effect) io" +
  rc_backoff :: "(namespaced_name, backoff_state) gomap"
  rc_tokens :: "(string, cached_token) gomap"

definition logged :: "('k \<Rightarrow> goerror option \<times> 'k) \<Rightarrow> (bool \<Rightarrow> ctrl_effect) \<Rightarrow> ('k ctrl_state, goerror option) state" where
  "logged f entry = do { e \<leftarrow> call f; emit (entry (e = None)); ret e }"

definition label_managed_by :: string where
  "label_managed_by = ''app.kubernetes.io/managed-by''"

definition default_service_account :: string where
  "default_service_account = ''default''"

definition agent_cluster_role_name :: string where
  "agent_cluster_role_name = ''stoker-agent''"

subsection \<open>gateway_discovery.go\<close>

definition find_gateway_sync_for_pod :: "pod \<Rightarrow> namespaced_name list" where
  "find_gateway_sync_for_pod p =
     (let crName = pod_annotation p annotation_cr_name in
      if crName = [] then [] else [(om_namespace (pd_meta p), crName)])"

definition has_sync_agent :: "pod \<Rightarrow> bool" where
  "has_sync_agent p = has_agent_container p"

definition gateway_name_of :: "pod \<Rightarrow> string" where
  "gateway_name_of p =
     (if pod_annotation p annotation_gateway_name \<noteq> [] then pod_annotation p annotation_gateway_name
      else if mstr (om_labels (pd_meta p)) ''app.kubernetes.io/name'' \<noteq> []
      then mstr (om_labels (pd_meta p)) ''app.kubernetes.io/name''
      else om_name (pd_meta p))"

definition sidecar_missing :: "pod \<Rightarrow> bool" where
  "sidecar_missing p \<longleftrightarrow> pod_annotation p annotation_inject = ''true'' \<and> \<not> has_sync_agent p"

definition service_account_of :: "pod \<Rightarrow> string" where
  "service_account_of p = (if pd_service_account p = [] then default_service_account else pd_service_account p)"

definition gateway_of_pod :: "pod \<Rightarrow> discovered_gateway" where
  "gateway_of_pod p = \<lparr>dg_name = gateway_name_of p, dg_namespace = om_namespace (pd_meta p),
     dg_pod_name = om_name (pd_meta p), dg_service_account = service_account_of p,
     dg_profile = pod_annotation p annotation_profile,
     dg_sync_status = (if sidecar_missing p then sync_status_missing_sidecar else sync_status_pending),
     dg_last_sync_time = None, dg_last_sync_duration = [], dg_synced_commit = [], dg_synced_ref = [],
     dg_agent_version = [], dg_last_scan_result = [], dg_files_changed = 0, dg_projects_synced = []\<rparr>"

definition belongs_to :: "gateway_sync \<Rightarrow> pod \<Rightarrow> bool" where
  "belongs_to gs p \<longleftrightarrow> mget (om_annotations (pd_meta p)) annotation_cr_name = Some (gy_name gs)"

definition running :: "pod \<Rightarrow> bool" where
  "running p \<longleftrightarrow> pd_phase p = ''Running''"

text \<open>\<open>prevStatus[pod.Name]\<close>: the last entry with the pod's name.\<close>

definition prev_status :: "discovered_gateway list \<Rightarrow> string \<Rightarrow> string" where
  "prev_status gws podName = (case find (\<lambda>g. dg_pod_name g = podName) (rev gws) of
      None \<Rightarrow> [] | Some g \<Rightarrow> dg_sync_status g)"

fun discover_pods :: "gateway_sync \<Rightarrow> pod list \<Rightarrow> ('k ctrl_state, discovered_gateway list) state" where
  "discover_pods gs [] = ret []"
| "discover_pods gs (p # ps) =
     (if \<not> belongs_to gs p then discover_pods gs ps
      else if \<not> running p then discover_pods gs ps
      else do {
        (if sidecar_missing p \<and> prev_status (st_discovered (gy_status gs)) (om_name (pd_meta p)) \<noteq> sync_status_missing_sidecar
         then emit (Notice ''Warning'' ''MissingSidecar'' (''Pod '' @ om_name (pd_meta p) @
           '' has inject annotation but no stoker-agent sidecar '' @ em_dash @
           '' webhook may have been unavailable during pod creation. Delete and recreate the pod.''))
         else ret ());
        rest \<leftarrow> discover_pods gs ps;
        ret (gateway_of_pod p # rest) })"

definition discover_gateways :: "'k ctrl_api \<Rightarrow> gateway_sync \<Rightarrow> ('k ctrl_state, discovered_gateway list res) state" where
  "discover_gateways K gs = do {
     r \<leftarrow> call (ka_list_pods K (gy_namespace gs));
     (case r of
        Inl err \<Rightarrow> ret (Inl (Wrapf ''listing pods'' err))
      | Inr pods \<Rightarrow> do { gws \<leftarrow> discover_pods gs pods; ret (Inr gws) }) }"

definition apply_status :: "'k ctrl_api \<Rightarrow> gateway_status \<Rightarrow> discovered_gateway \<Rightarrow> discovered_gateway" where
  "apply_status K st g = g\<lparr>dg_sync_status := gs_sync_status st, dg_synced_commit := gs_synced_commit st,
     dg_synced_ref := gs_synced_ref st, dg_last_sync_duration := gs_last_sync_duration st,
     dg_agent_version := gs_agent_version st, dg_last_scan_result := gs_last_scan_result st,
     dg_files_changed := gs_files_changed st, dg_projects_synced := gs_projects_synced st,
     dg_last_sync_time := (if gs_last_sync_time st \<noteq> []
       then (case ka_parse_time K (gs_last_sync_time st) of None \<Rightarrow> dg_last_sync_time g | Some t \<Rightarrow> Some t)
       else dg_last_sync_time g)\<rparr>"

text \<open>The entry of a gateway: under its pod's name, else under its own.\<close>

definition status_entry :: "(string, string) gomap \<Rightarrow> discovered_gateway \<Rightarrow> string option" where
  "status_entry data g =
     (case mget data (dg_pod_name g) of Some s \<Rightarrow> Some s | None \<Rightarrow> mget data (dg_name g))"

definition enrich :: "'k ctrl_api \<Rightarrow> (string, string) gomap \<Rightarrow> discovered_gateway \<Rightarrow> discovered_gateway" where
  "enrich K data g =
     (case status_entry data g of
        None \<Rightarrow> g
      | Some s \<Rightarrow> if s = [] then g
          else (case ka_decode_status K s of Inl err \<Rightarrow> g | Inr st \<Rightarrow> apply_status K st g))"

definition collect_gateway_status :: "'k ctrl_api \<Rightarrow> gateway_sync \<Rightarrow> discovered_gateway list \<Rightarrow> ('k ctrl_state, discovered_gateway list) state" where
  "collect_gateway_status K gs gateways = do {
     r \<leftarrow> call (ka_get_cm K (gy_namespace gs) (''stoker-status-'' @ gy_name gs));
     ret (case r of Inl err \<Rightarrow> gateways | Inr cm \<Rightarrow> map (enrich K (cm_data cm)) gateways) }"

subsection \<open>rbac.go\<close>

definition agent_role_binding_name :: "string \<Rightarrow> string" where
  "agent_role_binding_name crName = ''stoker-agent-'' @ crName"

text \<open>The keys of a Go map, sorted.\<close>

definition sorted_names :: "string list \<Rightarrow> string list" where
  "sorted_names xs = sort (remdups xs)"

definition collect_service_accounts :: "'k ctrl_api \<Rightarrow> gateway_sync \<Rightarrow> ('k ctrl_state, string list res) state" where
  "collect_service_accounts K gs = do {
     r \<leftarrow> call (ka_list_pods K (gy_namespace gs));
     ret (case r of
        Inl err \<Rightarrow> Inl (Wrapf ''listing pods for RBAC subjects'' err)
      | Inr pods \<Rightarrow> Inr (sorted_names (map service_account_of (filter (belongs_to gs) pods)))) }"

definition build_subjects :: "string list \<Rightarrow> string \<Rightarrow> rbac_subject list" where
  "build_subjects names namespace =
     map (\<lambda>n. \<lparr>sb_kind = ''ServiceAccount'', sb_name = n, sb_namespace = namespace\<rparr>) names"

definition subjects_equal :: "rbac_subject list \<Rightarrow> rbac_subject list \<Rightarrow> bool" where
  "subjects_equal a b \<longleftrightarrow> length a = length b \<and> sort (map sb_name a) = sort (map sb_name b)"

definition new_role_binding :: "gateway_sync \<Rightarrow> rbac_subject list \<Rightarrow> role_binding" where
  "new_role_binding gs desired = \<lparr>rb_namespace = gy_namespace gs, rb_name = agent_role_binding_name (gy_name gs),
     rb_labels = [(label_managed_by, ''stoker-operator''), (''stoker.io/gatewaysync'', gy_name gs)],
     rb_role_kind = ''ClusterRole'', rb_role_name = agent_cluster_role_name, rb_subjects = desired\<rparr>"

definition wrap_opt :: "string \<Rightarrow> goerror option \<Rightarrow> goerror option" where
  "wrap_opt msg e = (case e of None \<Rightarrow> None | Some err \<Rightarrow> Some (Wrapf msg err))"

definition bind_subjects :: "'k ctrl_api \<Rightarrow> gateway_sync \<Rightarrow> rbac_subject list \<Rightarrow> ('k ctrl_state, goerror option) state" where
  "bind_subjects K gs desired = do {
     r \<leftarrow> call (ka_get_rb K (gy_namespace gs) (agent_role_binding_name (gy_name gs)));
     (case r of
        Inl err \<Rightarrow>
          if api_is NotFound err
          then (case ka_set_owner K gs of
              Some e \<Rightarrow> ret (Some (Wrapf ''setting owner reference on RoleBinding'' e))
            | None \<Rightarrow> do {
                e \<leftarrow> logged (ka_create_rb K (new_role_binding gs desired)) (CreateRB (new_role_binding gs desired) (gy_name gs));
                ret (wrap_opt ''creating agent RoleBinding'' e) })
          else ret (Some (Wrapf ''getting agent RoleBinding'' err))
      | Inr existing \<Rightarrow>
          if rb_role_name existing \<noteq> agent_cluster_role_name
          then do {
            e \<leftarrow> logged (ka_delete_rb K existing) (DeleteRB (rb_namespace existing) (rb_name existing));
            ret (case e of None \<Rightarrow> None
               | Some err \<Rightarrow> if api_is NotFound err then None else Some (Wrapf ''deleting mismatched RoleBinding'' err)) }
          else if \<not> subjects_equal (rb_subjects existing) desired
          then do {
            e \<leftarrow> logged (ka_update_rb K (existing\<lparr>rb_subjects := desired\<rparr>)) (UpdateRB (existing\<lparr>rb_subjects := desired\<rparr>));
            ret (wrap_opt ''updating agent RoleBinding subjects'' e) }
          else ret None) }"

definition ensure_agent_role_binding :: "'k ctrl_api \<Rightarrow> gateway_sync \<Rightarrow> ('k ctrl_state, goerror option) state" where
  "ensure_agent_role_binding K gs = do {
     r \<leftarrow> collect_service_accounts K gs;
     (case r of
        Inl err \<Rightarrow> ret (Some err)
      | Inr names \<Rightarrow> bind_subjects K gs
          (build_subjects (if names = [] then [default_service_account] else names) (gy_namespace gs))) }"

end
