(* ===== verification/ControllerMetadata.thy ===== *)
theory ControllerMetadata
  imports ControllerCluster
begin

section \<open>internal/controller: credentials, metadata, cleanup\<close>

text \<open>
  The steps of a reconcile that read credentials, resolve the git reference, write the metadata
  ConfigMap the agents read and remove what a deleted resource leaves behind.
\<close>

subsection \<open>Secrets\<close>

definition secret_exists :: "'k ctrl_api \<Rightarrow> gateway_sync \<Rightarrow> string \<Rightarrow> string \<Rightarrow> ('k ctrl_state, goerror option) state" where
  "secret_exists K gs what name = do {
     r \<leftarrow> call (ka_get_secret K (gy_namespace gs) name);
     ret (case r of Inl err \<Rightarrow> Some (Wrapf (what @ '' '' @ quote name @ '' not found'') err) | Inr secret \<Rightarrow> None) }"

text \<open>The Secrets of a specification, in the order they are checked.\<close>

definition auth_secrets :: "git_auth_spec \<Rightarrow> (string \<times> string) list" where
  "auth_secrets spec =
     (case au_ssh_key spec of None \<Rightarrow> [] | Some k \<Rightarrow> [(''SSH key secret'', sk_name (sa_secret_ref k))])
     @ (case au_token spec of None \<Rightarrow> [] | Some t \<Rightarrow> [(''token secret'', sk_name t)])
     @ (case au_github_app spec of None \<Rightarrow> [] | Some a \<Rightarrow> [(''GitHub App private key secret'', sk_name (ga_private_key_secret_ref a))])"

fun secrets_exist :: "'k ctrl_api \<Rightarrow> gateway_sync \<Rightarrow> (string \<times> string) list \<Rightarrow> ('k ctrl_state, goerror option) state" where
  "secrets_exist K gs [] = ret None"
| "secrets_exist K gs ((what, name) # rest) = do {
     e \<leftarrow> secret_exists K gs what name;
     (case e of Some err \<Rightarrow> ret (Some err) | None \<Rightarrow> secrets_exist K gs rest) }"

definition validate_git_secrets :: "'k ctrl_api \<Rightarrow> gateway_sync \<Rightarrow> ('k ctrl_state, goerror option) state" where
  "validate_git_secrets K gs =
     (case gy_auth gs of None \<Rightarrow> ret None | Some spec \<Rightarrow> secrets_exist K gs (auth_secrets spec))"

definition validate_api_key_secret :: "'k ctrl_api \<Rightarrow> gateway_sync \<Rightarrow> ('k ctrl_state, goerror option) state" where
  "validate_api_key_secret K gs = secret_exists K gs ''gateway API key secret'' (gw_secret_name (ss_gateway (gy_spec gs)))"

subsection \<open>The git reference\<close>

definition valid_cached_token :: "'k ctrl_api \<Rightarrow> github_app_auth \<Rightarrow> ('k ctrl_state, string option) state" where
  "valid_cached_token K a = do {
     c \<leftarrow> reads (\<lambda>s. mget (rc_tokens s) (token_cache_key a));
     (case c of
        None \<Rightarrow> ret None
      | Some cached \<Rightarrow> do {
          now \<leftarrow> call (ka_now K);
          ret (if now < ct_expiry cached - token_refresh_buffer then Some (ct_token cached) else None) }) }"

definition store_github_token :: "string \<Rightarrow> cached_token \<Rightarrow> ('k ctrl_state, unit) state" where
  "store_github_token cacheKey token = modify (\<lambda>s. s\<lparr>rc_tokens := mput (rc_tokens s) cacheKey token\<rparr>)"

definition read_pem :: "'k ctrl_api \<Rightarrow> gateway_sync \<Rightarrow> github_app_auth \<Rightarrow> ('k ctrl_state, string res) state" where
  "read_pem K gs a = read_secret_key (ka_get_secret K) ''reading PEM secret'' ''secret'' (gy_namespace gs) (ga_private_key_secret_ref a)"

text \<open>From the key on; a new token goes to the cache.\<close>

definition exchange_app_token :: "'k ctrl_api \<Rightarrow> gateway_sync \<Rightarrow> github_app_auth \<Rightarrow> ('k ctrl_state, string res) state" where
  "exchange_app_token K gs a = do {
     p \<leftarrow> read_pem K gs a;
     (case p of
        Inl err \<Rightarrow> ret (Inl err)
      | Inr pemBytes \<Rightarrow> do {
          emit (Exchange (token_cache_key a));
          x \<leftarrow> exchange_github_app_token (ka_git K) pemBytes (ga_app_id a) (ga_installation_id a) (ga_api_base_url a);
          (case x of
             Inl err \<Rightarrow> ret (Inl err)
           | Inr result \<Rightarrow> do {
               store_github_token (token_cache_key a) \<lparr>ct_token = it_token result, ct_expiry = it_expires_at result\<rparr>;
               emit (Series ''github_app_token_expiry_timestamp_seconds'' [itoa (ga_app_id a), itoa (ga_installation_id a)] (unix_seconds (it_expires_at result)));
               ret (Inr (it_token result)) }) }) }"

definition resolve_github_app_token :: "'k ctrl_api \<Rightarrow> gateway_sync \<Rightarrow> github_app_auth \<Rightarrow> ('k ctrl_state, string res) state" where
  "resolve_github_app_token K gs a = do {
     c \<leftarrow> valid_cached_token K a;
     (case c of
        Some token \<Rightarrow> ret (Inr token)
      | None \<Rightarrow> exchange_app_token K gs a) }"

text \<open>The reference wanted: the webhook's annotation, when it is set, else the specification's.\<close>

definition requested_ref :: "gateway_sync \<Rightarrow> string" where
  "requested_ref gs = mstr (om_annotations (gy_meta gs)) annotation_requested_ref"

definition desired_ref :: "gateway_sync \<Rightarrow> string" where
  "desired_ref gs = (if requested_ref gs \<noteq> [] then requested_ref gs else gt_ref (ss_git (gy_spec gs)))"

definition cached_resolution :: "'k ctrl_api \<Rightarrow> gateway_sync \<Rightarrow> ('k ctrl_state, git_result option) state" where
  "cached_resolution K gs =
     (let st = gy_status gs in
      if st_ref_resolution st = ''Resolved'' \<and> st_last_sync_ref st = desired_ref gs \<and> st_last_sync_commit st \<noteq> []
      then (case st_last_sync_time st of
          None \<Rightarrow> ret None
        | Some t \<Rightarrow> do {
            now \<leftarrow> call (ka_now K);
            ret (if now - t < polling_interval (ka_parse_duration K) gs
                 then Some \<lparr>gr_commit = st_last_sync_commit st, gr_ref = st_last_sync_ref st\<rparr> else None) })
      else ret None)"

definition controller_auth :: "'k ctrl_api \<Rightarrow> gateway_sync \<Rightarrow> ('k ctrl_state, auth_method res) state" where
  "controller_auth K gs =
     (case gy_github_app gs of
        Some a \<Rightarrow> do {
          r \<leftarrow> resolve_github_app_token K gs a;
          ret (case r of
              Inl err \<Rightarrow> Inl (Wrapf ''resolving GitHub App auth'' err)
            | Inr token \<Rightarrow> Inr (BasicAuth ''x-access-token'' token)) }
      | None \<Rightarrow> do {
          r \<leftarrow> resolve_auth (ka_git K) (ka_get_secret K) (gy_namespace gs) (gy_auth gs);
          ret (case r of Inl err \<Rightarrow> Inl (Wrapf ''resolving git auth'' err) | Inr auth \<Rightarrow> Inr auth) })"

definition resolve_ref :: "'k ctrl_api \<Rightarrow> gateway_sync \<Rightarrow> ('k ctrl_state, git_result res) state" where
  "resolve_ref K gs = do {
     c \<leftarrow> cached_resolution K gs;
     (case c of
        Some result \<Rightarrow> ret (Inr result)
      | None \<Rightarrow> do {
          a \<leftarrow> controller_auth K gs;
          (case a of
             Inl err \<Rightarrow> ret (Inl err)
           | Inr auth \<Rightarrow> do {
               emit (LsRemote (gt_repo (ss_git (gy_spec gs))) (desired_ref gs));
               ls_remote (ka_git K) (gt_repo (ss_git (gy_spec gs))) (desired_ref gs) auth }) }) }"

subsection \<open>The metadata ConfigMap and the token Secret\<close>

definition controller_labels :: "gateway_sync \<Rightarrow> (string, string) gomap" where
  "controller_labels gs = [(label_managed_by, ''stoker-controller''), (label_cr_name, gy_name gs)]"

definition github_token_secret_name :: "string \<Rightarrow> string" where
  "github_token_secret_name crName = ''stoker-github-token-'' @ crName"

definition new_token_secret :: "gateway_sync \<Rightarrow> string \<Rightarrow> secret_obj" where
  "new_token_secret gs token = \<lparr>se_namespace = gy_namespace gs, se_name = github_token_secret_name (gy_name gs),
     se_labels = controller_labels gs, se_annotations = [(annotation_secret_type, ''github-app-token'')],
     se_data = [(''token'', token)]\<rparr>"

definition ensure_github_token_secret :: "'k ctrl_api \<Rightarrow> gateway_sync \<Rightarrow> string \<Rightarrow> ('k ctrl_state, goerror option) state" where
  "ensure_github_token_secret K gs token = do {
     r \<leftarrow> call (ka_get_secret K (gy_namespace gs) (github_token_secret_name (gy_name gs)));
     (case r of
        Inl err \<Rightarrow>
          if api_is NotFound err
          then (case ka_set_owner K gs of
              Some e \<Rightarrow> ret (Some (Wrapf ''setting owner ref on token Secret'' e))
            | None \<Rightarrow> logged (ka_create_secret K (new_token_secret gs token)) (CreateSecret (new_token_secret gs token) (gy_name gs)))
          else ret (Some (Wrapf (''getting token Secret '' @ github_token_secret_name (gy_name gs)) err))
      | Inr secret \<Rightarrow>
          if mstr (se_data secret) ''token'' = token then ret None
          else (let updated = secret\<lparr>se_data := mput (se_data secret) ''token'' token\<rparr>
                in logged (ka_update_secret K updated) (UpdateSecret updated))) }"

definition metadata_data :: "'k ctrl_api \<Rightarrow> gateway_sync \<Rightarrow> git_result \<Rightarrow> (string, string) gomap" where
  "metadata_data K gs result =
     [(''commit'', gr_commit result), (''ref'', gr_ref result), (''gitURL'', gt_repo (ss_git (gy_spec gs))),
      (''paused'', fmt_bool (ss_paused (gy_spec gs))), (''authType'', resolve_auth_type (gy_auth gs)),
      (''profiles'', ka_encode_profiles K (resolve_profiles gs)),
      (''gatewayPort'', itoa (gw_port (ss_gateway (gy_spec gs))))]
     @ (case gw_tls (ss_gateway (gy_spec gs)) of None \<Rightarrow> [] | Some b \<Rightarrow> [(''gatewayTLS'', fmt_bool b)])"

definition metadata_name :: "gateway_sync \<Rightarrow> string" where
  "metadata_name gs = ''stoker-metadata-'' @ gy_name gs"

definition new_metadata_cm :: "gateway_sync \<Rightarrow> (string, string) gomap \<Rightarrow> config_map" where
  "new_metadata_cm gs data = \<lparr>cm_namespace = gy_namespace gs, cm_name = metadata_name gs,
     cm_labels = controller_labels gs, cm_resource_version = [], cm_data = data\<rparr>"

text \<open>The token Secret is brought up to date first, from the token in the cache.\<close>

definition publish_token :: "'k ctrl_api \<Rightarrow> gateway_sync \<Rightarrow> ('k ctrl_state, goerror option) state" where
  "publish_token K gs =
     (case gy_github_app gs of
        None \<Rightarrow> ret None
      | Some a \<Rightarrow> do {
          c \<leftarrow> reads (\<lambda>s. mget (rc_tokens s) (token_cache_key a));
          (case c of
             None \<Rightarrow> ret None
           | Some cached \<Rightarrow> do {
               e \<leftarrow> ensure_github_token_secret K gs (ct_token cached);
               ret (wrap_opt ''ensuring GitHub App token Secret'' e) }) })"

definition put_metadata :: "'k ctrl_api \<Rightarrow> gateway_sync \<Rightarrow> (string, string) gomap \<Rightarrow> ('k ctrl_state, goerror option) state" where
  "put_metadata K gs data = do {
     r \<leftarrow> call (ka_get_cm K (gy_namespace gs) (metadata_name gs));
     (case r of
        Inl err \<Rightarrow>
          if api_is NotFound err
          then (case ka_set_owner K gs of
              Some e \<Rightarrow> ret (Some (Wrapf ''setting owner ref on ConfigMap'' e))
            | None \<Rightarrow> logged (ka_create_cm K (new_metadata_cm gs data)) (CreateCM (new_metadata_cm gs data) (gy_name gs)))
          else ret (Some (Wrapf (''getting ConfigMap '' @ metadata_name gs) err))
      | Inr cm \<Rightarrow>
          if meq (cm_data cm) data then ret None
          else logged (ka_update_cm K (cm\<lparr>cm_data := data\<rparr>)) (UpdateCM (cm\<lparr>cm_data := data\<rparr>))) }"

definition ensure_metadata_config_map :: "'k ctrl_api \<Rightarrow> gateway_sync \<Rightarrow> git_result \<Rightarrow> ('k ctrl_state, goerror option) state" where
  "ensure_metadata_config_map K gs result = do {
     e \<leftarrow> publish_token K gs;
     (case e of
        Some err \<Rightarrow> ret (Some err)
      | None \<Rightarrow> put_metadata K gs (metadata_data K gs result)) }"

subsection \<open>Cleanup\<close>

definition cr_metrics :: "string list" where
  "cr_metrics = [''reconcile_duration_seconds'', ''reconcile_total'', ''ref_resolve_duration_seconds'',
     ''gateways_discovered'', ''gateways_synced'', ''cr_ready'', ''cr_info'', ''cr_paused'', ''condition_status'',
     ''gateway_sync_status'', ''gateway_last_sync_timestamp_seconds'', ''gateways_missing_sidecar'']"

fun drop_series :: "string list \<Rightarrow> string list \<Rightarrow> ('k ctrl_state, unit) state" where
  "drop_series labels [] = ret ()"
| "drop_series labels (m # ms) = do { emit (DropSeries m labels); drop_series labels ms }"

definition cleanup_cr_metrics :: "string \<Rightarrow> string \<Rightarrow> ('k ctrl_state, unit) state" where
  "cleanup_cr_metrics name namespace = drop_series [name, namespace] cr_metrics"

definition ignore_not_found :: "string \<Rightarrow> goerror option \<Rightarrow> goerror option" where
  "ignore_not_found msg e = (case e of
      None \<Rightarrow> None
    | Some err \<Rightarrow> if api_is NotFound err then None else Some (Wrapf msg err))"

fun delete_config_maps :: "'k ctrl_api \<Rightarrow> gateway_sync \<Rightarrow> string list \<Rightarrow> ('k ctrl_state, goerror option) state" where
  "delete_config_maps K gs [] = ret None"
| "delete_config_maps K gs (name # names) = do {
     r \<leftarrow> call (ka_get_cm K (gy_namespace gs) name);
     (case r of
        Inl err \<Rightarrow>
          if api_is NotFound err then delete_config_maps K gs names
          else ret (Some (Wrapf (''getting ConfigMap '' @ name) err))
      | Inr cm \<Rightarrow> do {
          d \<leftarrow> logged (ka_delete_cm K cm) (DeleteCM (cm_namespace cm) (cm_name cm));
          (case ignore_not_found (''deleting ConfigMap '' @ name) d of
             Some err \<Rightarrow> ret (Some err)
           | None \<Rightarrow> delete_config_maps K gs names) }) }"

definition delete_token_secret :: "'k ctrl_api \<Rightarrow> gateway_sync \<Rightarrow> ('k ctrl_state, goerror option) state" where
  "delete_token_secret K gs = (let name = github_token_secret_name (gy_name gs) in do {
     r \<leftarrow> call (ka_get_secret K (gy_namespace gs) name);
     (case r of
        Inl err \<Rightarrow> ret (ignore_not_found (''getting token Secret '' @ name) (Some err))
      | Inr secret \<Rightarrow> do {
          d \<leftarrow> logged (ka_delete_secret K secret) (DeleteSecret (se_namespace secret) (se_name secret));
          ret (ignore_not_found (''deleting token Secret '' @ name) d) }) })"

definition owned_config_maps :: "gateway_sync \<Rightarrow> string list" where
  "owned_config_maps gs = [''stoker-metadata-'' @ gy_name gs, ''stoker-status-'' @ gy_name gs, ''stoker-changes-'' @ gy_name gs]"

definition cleanup_owned_resources :: "'k ctrl_api \<Rightarrow> gateway_sync \<Rightarrow> ('k ctrl_state, goerror option) state" where
  "cleanup_owned_resources K gs = do {
     cleanup_cr_metrics (gy_name gs) (gy_namespace gs);
     e \<leftarrow> delete_config_maps K gs (owned_config_maps gs);
     (case e of
        Some err \<Rightarrow> ret (Some err)
      | None \<Rightarrow> delete_token_secret K gs) }"

end
