(* ===== verification/ControllerReconcile.thy ===== *)
theory ControllerReconcile
  imports ControllerMetadata
begin

section \<open>internal/controller: Reconcile\<close>

text \<open>
  One reconcile of one resource, with its early returns, over the steps of the other theories.
  The Go variable \<open>gs\<close> is passed from step to step; \<open>base\<close> is the copy taken after the first Get.
  The work queue never runs two reconciles of one resource at the same time; reconciles of other
  resources touch other keys of the backoff map. The histograms of durations are not modelled.
\<close>

record ctrl_outcome =
  oc_requeue_after :: int
  oc_error :: "goerror option"
  oc_label :: string                  \<comment> \<open>the \<open>result\<close> label of \<open>reconcile_total\<close>\<close>

definition success :: "goerror option \<Rightarrow> ctrl_outcome" where
  "success e = \<lparr>oc_requeue_after = 0, oc_error = e, oc_label = ''success''\<rparr>"

definition failure :: "goerror \<Rightarrow> ctrl_outcome" where
  "failure err = \<lparr>oc_requeue_after = 0, oc_error = Some err, oc_label = ''error''\<rparr>"

definition requeue :: "int \<Rightarrow> ctrl_outcome" where
  "requeue delay = \<lparr>oc_requeue_after = delay, oc_error = None, oc_label = ''requeue''\<rparr>"

subsection \<open>The status of the resource\<close>

definition set_cond :: "'k ctrl_api \<Rightarrow> cond_update \<Rightarrow> gateway_sync \<Rightarrow> ('k ctrl_state, gateway_sync) state" where
  "set_cond K u gs = do { now \<leftarrow> call (ka_now K); ret (set_condition now u gs) }"

fun set_conds :: "'k ctrl_api \<Rightarrow> cond_update list \<Rightarrow> gateway_sync \<Rightarrow> ('k ctrl_state, gateway_sync) state" where
  "set_conds K [] gs = ret gs"
| "set_conds K (u # us) gs = do { gs' \<leftarrow> set_cond K u gs; set_conds K us gs' }"

text \<open>An accepted patch fills the object from the answer.\<close>

definition patch_status :: "'k ctrl_api \<Rightarrow> gateway_sync \<Rightarrow> gateway_sync \<Rightarrow> ('k ctrl_state, gateway_sync res) state" where
  "patch_status K gs base = do {
     r \<leftarrow> call (ka_patch_status K gs base);
     emit (PatchStatus gs (case r of Inl err \<Rightarrow> False | Inr gs' \<Rightarrow> True));
     ret r }"

definition update_gs :: "'k ctrl_api \<Rightarrow> gateway_sync \<Rightarrow> ('k ctrl_state, goerror option) state" where
  "update_gs K gs = logged (ka_update_gs K gs) (UpdateGS gs)"

definition error_of :: "'a res \<Rightarrow> goerror option" where
  "error_of r = (case r of Inl err \<Rightarrow> Some err | Inr v \<Rightarrow> None)"

definition gs_labels :: "gateway_sync \<Rightarrow> string list" where
  "gs_labels gs = [gy_name gs, gy_namespace gs]"

subsection \<open>Backoff\<close>

definition reset_failures :: "namespaced_name \<Rightarrow> ('k ctrl_state, unit) state" where
  "reset_failures req = modify (\<lambda>s. s\<lparr>rc_backoff := reset_backoff req (rc_backoff s)\<rparr>)"

definition record_and_delay :: "'k ctrl_api \<Rightarrow> namespaced_name \<Rightarrow> ('k ctrl_state, int) state" where
  "record_and_delay K req = do {
     now \<leftarrow> call (ka_now K);
     modify (\<lambda>s. s\<lparr>rc_backoff := record_failure now req (rc_backoff s)\<rparr>);
     reads (\<lambda>s. requeue_delay (rc_backoff s) req) }"

text \<open>\<open>Duration.Round\<close> to the second, as the messages show it.\<close>

definition round_sec :: "int \<Rightarrow> int" where
  "round_sec d = (d + sec 1 div 2) div sec 1 * sec 1"

text \<open>The retry after a missing Secret: the delay is in the Ready condition.\<close>

definition retry_not_ready :: "'k ctrl_api \<Rightarrow> namespaced_name \<Rightarrow> gateway_sync \<Rightarrow> gateway_sync \<Rightarrow> goerror \<Rightarrow> ('k ctrl_state, ctrl_outcome) state" where
  "retry_not_ready K req base gs err = do {
     delay \<leftarrow> record_and_delay K req;
     gs' \<leftarrow> set_cond K (cond type_ready CFalse ''Reconciling''
       (err_text err @ '' (retry in '' @ ka_format_duration K (round_sec delay) @ '')'')) gs;
     ignored \<leftarrow> patch_status K gs' base;
     ret (requeue delay) }"

subsection \<open>Step 0: finalizer, pause\<close>

definition has_finalizer :: "gateway_sync \<Rightarrow> bool" where
  "has_finalizer gs \<longleftrightarrow> stoker_finalizer \<in> set (om_finalizers (gy_meta gs))"

definition map_finalizers :: "(string list \<Rightarrow> string list) \<Rightarrow> gateway_sync \<Rightarrow> gateway_sync" where
  "map_finalizers f gs = gs\<lparr>gy_meta := (gy_meta gs)\<lparr>om_finalizers := f (om_finalizers (gy_meta gs))\<rparr>\<rparr>"

definition add_finalizer :: "gateway_sync \<Rightarrow> gateway_sync" where
  "add_finalizer gs = map_finalizers (\<lambda>fs. if stoker_finalizer \<in> set fs then fs else fs @ [stoker_finalizer]) gs"

definition remove_finalizer :: "gateway_sync \<Rightarrow> gateway_sync" where
  "remove_finalizer gs = map_finalizers (filter (\<lambda>x. x \<noteq> stoker_finalizer)) gs"

definition reconcile_deleted :: "'k ctrl_api \<Rightarrow> namespaced_name \<Rightarrow> gateway_sync \<Rightarrow> ('k ctrl_state, ctrl_outcome) state" where
  "reconcile_deleted K req gs =
     (if has_finalizer gs
      then do {
        e \<leftarrow> cleanup_owned_resources K gs;
        (case e of
           Some err \<Rightarrow> ret (success (Some err))
         | None \<Rightarrow> do {
             reset_failures req;
             u \<leftarrow> update_gs K (remove_finalizer gs);
             ret (success u) }) }
      else ret (success None))"

definition reconcile_paused :: "'k ctrl_api \<Rightarrow> gateway_sync \<Rightarrow> gateway_sync \<Rightarrow> ('k ctrl_state, ctrl_outcome) state" where
  "reconcile_paused K base gs = do {
     emit (Series ''cr_paused'' (gs_labels gs) 1);
     gs' \<leftarrow> set_cond K (cond type_ready CFalse ''Paused'' ''Reconciliation paused'') gs;
     (if \<not> condition_has_reason (st_conditions (gy_status gs)) type_ready ''Paused''
      then emit (Notice ''Normal'' ''Paused'' ''Reconciliation paused'') else ret ());
     r \<leftarrow> patch_status K gs' base;
     ret (success (error_of r)) }"

subsection \<open>Steps 1 and 2: profiles, credentials\<close>

definition check_profiles :: "'k ctrl_api \<Rightarrow> gateway_sync \<Rightarrow> ('k ctrl_state, gateway_sync) state" where
  "check_profiles K gs =
     (case validate_profiles gs of
        Some err \<Rightarrow> do {
          gs' \<leftarrow> set_cond K (cond type_profiles_valid CFalse ''ProfilesInvalid'' (err_text err)) gs;
          emit (Notice ''Warning'' ''ProfilesInvalid'' (''Profile validation failed: '' @ err_text err));
          ret gs' }
      | None \<Rightarrow> set_cond K (cond type_profiles_valid CTrue ''ProfilesValid'' ''All profiles valid'') gs)"

definition host_key_updates :: "gateway_sync \<Rightarrow> cond_update list" where
  "host_key_updates gs =
     (case gy_auth gs of
        None \<Rightarrow> []
      | Some spec \<Rightarrow> (case au_ssh_key spec of
          None \<Rightarrow> []
        | Some ssh \<Rightarrow>
            (if sa_known_hosts ssh = None
             then [cond type_ssh_host_key CFalse ''HostKeyVerificationDisabled''
               (''SSH host key verification disabled '' @ em_dash @
                '' set spec.git.auth.sshKey.knownHosts to enable MITM protection'')]
             else [cond type_ssh_host_key CTrue ''HostKeyVerificationEnabled'' ''SSH host key verification enabled''])))"

subsection \<open>Step 3: the reference\<close>

definition ref_failed_reason :: "gateway_sync \<Rightarrow> goerror \<Rightarrow> string" where
  "ref_failed_reason gs err =
     (if gy_github_app gs \<noteq> None \<and> contains_str (err_text err) ''GitHub App'' then ''GitHubAppExchangeFailed''
      else ''RefResolutionFailed'')"

definition ref_failed :: "'k ctrl_api \<Rightarrow> namespaced_name \<Rightarrow> gateway_sync \<Rightarrow> gateway_sync \<Rightarrow> goerror \<Rightarrow> ('k ctrl_state, ctrl_outcome) state" where
  "ref_failed K req base gs err = do {
     delay \<leftarrow> record_and_delay K req;
     gs' \<leftarrow> set_cond K (cond type_ref_resolved CFalse (ref_failed_reason gs err)
       (''Ref resolution failed (retry in '' @ ka_format_duration K (round_sec delay) @ ''): '' @ err_text err)) gs;
     (if \<not> condition_has_status (st_conditions (gy_status gs)) type_ref_resolved CFalse
      then emit (Notice ''Warning'' (ref_failed_reason gs err) (''Ref resolution failed: '' @ err_text err)) else ret ());
     ignored \<leftarrow> patch_status K (map_status (\<lambda>st. st\<lparr>st_ref_resolution := ''Error''\<rparr>) gs') base;
     ret (requeue delay) }"

definition mark_resolved :: "int \<Rightarrow> git_result \<Rightarrow> gateway_sync \<Rightarrow> gateway_sync" where
  "mark_resolved now result = map_status (\<lambda>st.
     if st_last_sync_commit st \<noteq> gr_commit result
     then st\<lparr>st_ref_resolution := ''Resolved'', st_last_sync_commit := gr_commit result,
       st_last_sync_commit_short := short_commit (gr_commit result), st_last_sync_ref := gr_ref result,
       st_last_sync_time := Some now\<rparr>
     else st\<lparr>st_ref_resolution := ''Resolved''\<rparr>)"

definition ref_resolved :: "'k ctrl_api \<Rightarrow> namespaced_name \<Rightarrow> git_result \<Rightarrow> gateway_sync \<Rightarrow> ('k ctrl_state, gateway_sync) state" where
  "ref_resolved K req result gs = do {
     reset_failures req;
     gs' \<leftarrow> set_cond K (cond type_ref_resolved CTrue ''RefResolved'' (gr_commit result)) gs;
     (if st_last_sync_commit (gy_status gs') \<noteq> gr_commit result
      then do { now \<leftarrow> call (ka_now K); ret (mark_resolved now result gs') }
      else ret (mark_resolved 0 result gs')) }"

subsection \<open>Steps 5 to 6.5: gateways, conditions, metrics\<close>

definition refresh_gateways :: "'k ctrl_api \<Rightarrow> gateway_sync \<Rightarrow> ('k ctrl_state, gateway_sync) state" where
  "refresh_gateways K gs = do {
     r \<leftarrow> discover_gateways K gs;
     (case r of
        Inl err \<Rightarrow> ret gs
      | Inr found \<Rightarrow> do {
          gateways \<leftarrow> collect_gateway_status K gs found;
          (if length gateways \<noteq> length (st_discovered (gy_status gs))
           then emit (Notice ''Normal'' ''GatewaysDiscovered'' (''Discovered '' @ itoa (int (length gateways)) @
             '' gateway(s) (was '' @ itoa (int (length (st_discovered (gy_status gs)))) @ '')'')) else ret ());
          ret (map_status (\<lambda>st. st\<lparr>st_discovered := gateways\<rparr>) gs) }) }"

definition bind_agent_rbac :: "'k ctrl_api \<Rightarrow> gateway_sync \<Rightarrow> ('k ctrl_state, unit) state" where
  "bind_agent_rbac K gs =
     (if ka_auto_bind_rbac K
      then do {
        e \<leftarrow> ensure_agent_role_binding K gs;
        (case e of
           Some err \<Rightarrow> emit (Notice ''Warning'' ''RBACError'' (''Failed to create agent RoleBinding: '' @ err_text err))
         | None \<Rightarrow> ret ()) }
      else ret ())"

definition update_conditions :: "'k ctrl_api \<Rightarrow> gateway_sync \<Rightarrow> ('k ctrl_state, gateway_sync) state" where
  "update_conditions K gs = do {
     gs' \<leftarrow> set_conds K (all_synced_updates (st_discovered (gy_status gs))) gs;
     set_cond K (ready_update (st_conditions (gy_status gs'))) gs' }"

definition sync_status_value :: "string \<Rightarrow> int" where
  "sync_status_value status =
     (if status = sync_status_pending then 0
      else if status = sync_status_synced then 1
      else if status = sync_status_error then 2
      else if status = sync_status_missing_sidecar then 3
      else 0)"

definition bool_value :: "bool \<Rightarrow> int" where
  "bool_value b = (if b then 1 else 0)"

definition gateway_series :: "gateway_sync \<Rightarrow> discovered_gateway \<Rightarrow> ctrl_effect list" where
  "gateway_series gs gw =
     [Series ''gateway_sync_status'' (gs_labels gs @ [dg_name gw]) (sync_status_value (dg_sync_status gw))]
     @ (case dg_last_sync_time gw of
          None \<Rightarrow> []
        | Some t \<Rightarrow> [Series ''gateway_last_sync_timestamp_seconds'' (gs_labels gs @ [dg_name gw]) (unix_seconds t)])"

definition metric_effects :: "gateway_sync \<Rightarrow> ctrl_effect list" where
  "metric_effects gs =
     (let gws = st_discovered (gy_status gs); conds = st_conditions (gy_status gs); interval = po_interval (ss_polling (gy_spec gs)) in
      [Series ''gateways_discovered'' (gs_labels gs) (int (length gws)),
       DropSeries ''gateway_sync_status'' (gs_labels gs), DropSeries ''gateway_last_sync_timestamp_seconds'' (gs_labels gs)]
      @ concat (map (gateway_series gs) gws)
      @ [Series ''gateways_synced'' (gs_labels gs) (int (count_status sync_status_synced gws)),
         Series ''gateways_missing_sidecar'' (gs_labels gs) (int (count_status sync_status_missing_sidecar gws))]
      @ map (\<lambda>c. Series ''condition_status'' (gs_labels gs @ [cd_type c]) (bool_value (cd_status c = CTrue))) conds
      @ [Series ''cr_ready'' (gs_labels gs) (bool_value (condition_has_status conds type_ready CTrue)),
         DropSeries ''cr_info'' (gs_labels gs),
         Series ''cr_info'' (gs_labels gs @ [gt_repo (ss_git (gy_spec gs)), gt_ref (ss_git (gy_spec gs)),
           resolve_auth_type (gy_auth gs), (if interval = [] then ''60s'' else interval)]) 1])"

fun emit_all :: "ctrl_effect list \<Rightarrow> ('k ctrl_state, unit) state" where
  "emit_all [] = ret ()"
| "emit_all (e # es) = do { emit e; emit_all es }"

definition observe_gateway_metrics :: "gateway_sync \<Rightarrow> ('k ctrl_state, unit) state" where
  "observe_gateway_metrics gs = emit_all (metric_effects gs)"

subsection \<open>Steps 7 and 8\<close>

definition map_annotations :: "((string, string) gomap \<Rightarrow> (string, string) gomap) \<Rightarrow> gateway_sync \<Rightarrow> gateway_sync" where
  "map_annotations f gs = gs\<lparr>gy_meta := (gy_meta gs)\<lparr>om_annotations := f (om_annotations (gy_meta gs))\<rparr>\<rparr>"

definition ref_caught_up :: "gateway_sync \<Rightarrow> bool" where
  "ref_caught_up gs \<longleftrightarrow> requested_ref gs \<noteq> [] \<and>
     trim_prefix (requested_ref gs) ''v'' = trim_prefix (gt_ref (ss_git (gy_spec gs))) ''v''"

definition clear_requested_ref :: "'k ctrl_api \<Rightarrow> namespaced_name \<Rightarrow> gateway_sync \<Rightarrow> ('k ctrl_state, unit) state" where
  "clear_requested_ref K req gs =
     (if \<not> ref_caught_up gs then ret ()
      else do {
        r \<leftarrow> call (ka_get_gs K req);
        (case r of
           Inl err \<Rightarrow> ret ()
         | Inr fresh \<Rightarrow>
             if requested_ref fresh \<noteq> requested_ref gs then ret ()
             else (let cleared = map_annotations (\<lambda>m. mdel m annotation_requested_ref) fresh in do {
               e \<leftarrow> logged (ka_patch_gs K cleared fresh) (PatchGS cleared);
               ret () })) })"

definition requeue_after :: "'k ctrl_api \<Rightarrow> gateway_sync \<Rightarrow> ('k ctrl_state, int) state" where
  "requeue_after K gs = do {
     tokens \<leftarrow> reads rc_tokens;
     now \<leftarrow> (if (case gy_github_app gs of None \<Rightarrow> False | Some a \<Rightarrow> mget tokens (token_cache_key a) \<noteq> None)
           then call (ka_now K) else ret 0);
     ret (requeue_interval (ka_parse_duration K) tokens now gs) }"

definition final_status :: "gateway_sync \<Rightarrow> gateway_sync" where
  "final_status gs = map_status (\<lambda>st. st\<lparr>st_observed_generation := om_generation (gy_meta gs),
     st_profile_count := int (length (ss_profiles (gy_spec gs)))\<rparr>) gs"

definition publish_status :: "'k ctrl_api \<Rightarrow> namespaced_name \<Rightarrow> gateway_sync \<Rightarrow> gateway_sync \<Rightarrow> ('k ctrl_state, ctrl_outcome) state" where
  "publish_status K req base gs = do {
     r \<leftarrow> patch_status K (final_status gs) base;
     (case r of
        Inl err \<Rightarrow> ret (failure err)
      | Inr gs' \<Rightarrow> do {
          clear_requested_ref K req gs';
          after \<leftarrow> requeue_after K gs';
          ret (success None\<lparr>oc_requeue_after := after\<rparr>) }) }"

subsection \<open>The whole\<close>

text \<open>From step 4 on.\<close>

definition reconcile_gateways :: "'k ctrl_api \<Rightarrow> namespaced_name \<Rightarrow> gateway_sync \<Rightarrow> git_result \<Rightarrow> gateway_sync \<Rightarrow> ('k ctrl_state, ctrl_outcome) state" where
  "reconcile_gateways K req base result gs = do {
     ignored \<leftarrow> ensure_metadata_config_map K gs result;
     gs1 \<leftarrow> refresh_gateways K gs;
     bind_agent_rbac K gs1;
     gs2 \<leftarrow> update_conditions K gs1;
     observe_gateway_metrics gs2;
     publish_status K req base gs2 }"

text \<open>Step 3 and step 3.5.\<close>

definition reconcile_ref :: "'k ctrl_api \<Rightarrow> namespaced_name \<Rightarrow> gateway_sync \<Rightarrow> gateway_sync \<Rightarrow> ('k ctrl_state, ctrl_outcome) state" where
  "reconcile_ref K req base gs = do {
     r \<leftarrow> resolve_ref K gs;
     emit (Timed ''ref_resolve_duration_seconds'' (gs_labels gs));
     (case r of
        Inl err \<Rightarrow> ref_failed K req base gs err
      | Inr result \<Rightarrow> do {
          gs1 \<leftarrow> ref_resolved K req result gs;
          e \<leftarrow> validate_api_key_secret K gs1;
          (case e of
             Some err \<Rightarrow> retry_not_ready K req base gs1 err
           | None \<Rightarrow> reconcile_gateways K req base result gs1) }) }"

text \<open>From step 1 on.\<close>

definition reconcile_active :: "'k ctrl_api \<Rightarrow> namespaced_name \<Rightarrow> gateway_sync \<Rightarrow> ('k ctrl_state, ctrl_outcome) state" where
  "reconcile_active K req gs = do {
     emit (Series ''cr_paused'' (gs_labels gs) 0);
     gs1 \<leftarrow> check_profiles K gs;
     e \<leftarrow> validate_git_secrets K gs1;
     (case e of
        Some err \<Rightarrow> retry_not_ready K req gs gs1 err
      | None \<Rightarrow> do {
          gs2 \<leftarrow> set_conds K (host_key_updates gs1) gs1;
          reconcile_ref K req gs gs2 }) }"

definition reconcile_found :: "'k ctrl_api \<Rightarrow> namespaced_name \<Rightarrow> gateway_sync \<Rightarrow> ('k ctrl_state, ctrl_outcome) state" where
  "reconcile_found K req gs = do {
     (if requested_ref gs \<noteq> [] then reset_failures req else ret ());
     (if om_deletion_timestamp (gy_meta gs) \<noteq> None then reconcile_deleted K req gs
      else if \<not> has_finalizer gs then do { u \<leftarrow> update_gs K (add_finalizer gs); ret (success u) }
      else if ss_paused (gy_spec gs) then reconcile_paused K gs gs
      else reconcile_active K req gs) }"

definition reconcile_body :: "'k ctrl_api \<Rightarrow> namespaced_name \<Rightarrow> ('k ctrl_state, ctrl_outcome) state" where
  "reconcile_body K req = do {
     r \<leftarrow> call (ka_get_gs K req);
     (case r of
        Inl err \<Rightarrow> ret (if api_is NotFound err then success None else failure err)
      | Inr gs \<Rightarrow> reconcile_found K req gs) }"

definition reconcile :: "'k ctrl_api \<Rightarrow> namespaced_name \<Rightarrow> ('k ctrl_state, ctrl_outcome) state" where
  "reconcile K req = do {
     o1 \<leftarrow> reconcile_body K req;
     emit (Timed ''reconcile_duration_seconds'' [snd req, fst req]);
     emit (Count ''reconcile_total'' [snd req, fst req, oc_label o1]);
     ret o1 }"

subsection \<open>Which updates of a resource start a reconcile\<close>

definition generation_changed :: "gateway_sync \<Rightarrow> gateway_sync \<Rightarrow> bool" where
  "generation_changed old new \<longleftrightarrow> om_generation (gy_meta old) \<noteq> om_generation (gy_meta new)"

definition annotation_or_generation_changed :: "gateway_sync \<Rightarrow> gateway_sync \<Rightarrow> bool" where
  "annotation_or_generation_changed old new \<longleftrightarrow>
     generation_changed old new \<or> \<not> meq (om_annotations (gy_meta old)) (om_annotations (gy_meta new))"

end
