(* ===== verification/ControllerTriggers.thy ===== *)
theory ControllerTriggers
  imports ControllerReconcile
begin

section \<open>internal/controller: what starts a reconcile\<close>

text \<open>
  \<open>SetupWithManager\<close>: the watches of the controller, as a function from an event of the API server to
  the requests it queues. The predicate guards the resource itself (creation and deletion always
  pass); an owned object counts through the name of its controller; a pod through its annotation. The
  queue, which merges equal requests, and its five workers are the library's.
\<close>

datatype watch_event =
    Created gateway_sync
  | Updated gateway_sync gateway_sync
  | Deleted gateway_sync
  | OwnedChanged string "string option"   \<comment> \<open>a ConfigMap, Secret or RoleBinding: namespace and owner\<close>
  | PodChanged pod

definition request_of :: "gateway_sync \<Rightarrow> namespaced_name" where
  "request_of gs = (gy_namespace gs, gy_name gs)"

definition requests_for :: "watch_event \<Rightarrow> namespaced_name list" where
  "requests_for e = (case e of
      Created gs \<Rightarrow> [request_of gs]
    | Updated old new \<Rightarrow> if annotation_or_generation_changed old new then [request_of new] else []
    | Deleted gs \<Rightarrow> [request_of gs]
    | OwnedChanged ns owner \<Rightarrow> (case owner of None \<Rightarrow> [] | Some n \<Rightarrow> [(ns, n)])
    | PodChanged p \<Rightarrow> find_gateway_sync_for_pod p)"

definition cleared_request :: "gateway_sync \<Rightarrow> gateway_sync" where
  "cleared_request = map_annotations (\<lambda>m. mdel m annotation_requested_ref)"

text \<open>A write of the resource that queues nothing.\<close>

definition silent :: "gateway_sync \<Rightarrow> gateway_sync \<Rightarrow> bool" where
  "silent old new \<longleftrightarrow> requests_for (Updated old new) = []"

lemma silent_same [simp]: "gy_meta new = gy_meta old \<Longrightarrow> silent old new"
  by (simp add: silent_def requests_for_def annotation_or_generation_changed_def generation_changed_def)

lemma silent_finalizers:
  "gy_meta gs = gy_meta base \<Longrightarrow> silent base (add_finalizer gs)" "gy_meta gs = gy_meta base \<Longrightarrow> silent base (remove_finalizer gs)"
  by (simp_all add: silent_def requests_for_def annotation_or_generation_changed_def generation_changed_def
      add_finalizer_def remove_finalizer_def map_finalizers_def)

lemma cleared_request_restarts:
  assumes "requested_ref gs \<noteq> []"
  shows "requests_for (Updated gs (cleared_request gs)) = [request_of gs]"
    "desired_ref (cleared_request gs) = gt_ref (ss_git (gy_spec gs))"
proof -
  have "mget (om_annotations (gy_meta gs)) annotation_requested_ref \<noteq> None"
    using assms by (auto simp: requested_ref_def mstr_def split: option.splits)
  then have "\<not> meq (om_annotations (gy_meta gs)) (mdel (om_annotations (gy_meta gs)) annotation_requested_ref)"
    by (auto simp: meq_iff)
  then show "requests_for (Updated gs (cleared_request gs)) = [request_of gs]"
    by (simp add: requests_for_def annotation_or_generation_changed_def cleared_request_def map_annotations_def
        request_of_def gy_name_def gy_namespace_def)
  show "desired_ref (cleared_request gs) = gt_ref (ss_git (gy_spec gs))"
    by (simp add: desired_ref_def requested_ref_def cleared_request_def map_annotations_def mstr_def)
qed

end
