(* ===== verification/ControllerLaws.thy ===== *)
theory ControllerLaws
  imports ControllerTriggers EffectLaws Metrics
begin

section \<open>What a reconcile sends and changes\<close>

text \<open>
  Frame lemmas for the steps of a reconcile: what they send and where it comes from, what they keep of
  the resource, and which entries of the reconciler's maps they may change.
\<close>

subsection \<open>The resource\<close>

lemma map_status_simps [simp]:
  "gy_meta (map_status f gs) = gy_meta gs" "gy_spec (map_status f gs) = gy_spec gs"
  "gy_status (map_status f gs) = f (gy_status gs)"
  by (simp_all add: map_status_def)

lemma set_condition_simps [simp]:
  "gy_meta (set_condition now u gs) = gy_meta gs" "gy_spec (set_condition now u gs) = gy_spec gs"
  "gy_status (set_condition now u gs) = (gy_status gs)\<lparr>st_conditions :=
     put_condition (om_generation (gy_meta gs)) now u (st_conditions (gy_status gs))\<rparr>"
  by (simp_all add: set_condition_def)

text \<open>The resource as fetched but for the status, which has one condition of a type.\<close>

definition one_condition_per_type :: "gateway_sync \<Rightarrow> bool" where
  "one_condition_per_type gs \<longleftrightarrow> distinct (map cd_type (st_conditions (gy_status gs)))"

definition same_resource :: "gateway_sync \<Rightarrow> gateway_sync \<Rightarrow> bool" where
  "same_resource base gs \<longleftrightarrow> gy_meta gs = gy_meta base \<and> gy_spec gs = gy_spec base \<and>
     (one_condition_per_type base \<longrightarrow> one_condition_per_type gs)"

lemma same_resource_refl [simp]: "same_resource gs gs"
  by (simp add: same_resource_def)

lemma same_resource_set_condition: "same_resource base gs \<Longrightarrow> same_resource base (set_condition now u gs)"
  by (simp add: same_resource_def one_condition_per_type_def distinct_put_condition)

lemma same_resource_map_status:
  "same_resource base gs \<Longrightarrow> (\<And>st. st_conditions (f st) = st_conditions st) \<Longrightarrow> same_resource base (map_status f gs)"
  by (simp add: same_resource_def one_condition_per_type_def)

text \<open>A sample fits the declaration of its metric.\<close>

definition ctrl_metric_ok :: "ctrl_effect \<Rightarrow> bool" where
  "ctrl_metric_ok e = (case e of Series m ls v \<Rightarrow> records controller_metrics MGauge m ls
    | Count m ls \<Rightarrow> records controller_metrics MCounter m ls
    | Timed m ls \<Rightarrow> records controller_metrics MHistogram m ls | _ \<Rightarrow> True)"

text \<open>A patch that removes the request of a resource whose specification has caught up with it.\<close>

definition clears_request :: "gateway_sync \<Rightarrow> bool" where
  "clears_request g \<longleftrightarrow>
     (\<exists>seen fresh. ref_caught_up seen \<and> requested_ref fresh = requested_ref seen \<and> g = cleared_request fresh)"

definition status_effect_ok :: "gateway_sync \<Rightarrow> ctrl_effect \<Rightarrow> bool" where
  "status_effect_ok base e \<longleftrightarrow> ctrl_metric_ok e \<and> (case e of
      PatchStatus gs ok \<Rightarrow> same_resource base gs
    | UpdateGS gs ok \<Rightarrow> silent base gs
    | PatchGS gs ok \<Rightarrow> clears_request gs
    | _ \<Rightarrow> True)"

lemma status_effect_ok_simps [simp]:
  "status_effect_ok base (PatchStatus gs ok) = same_resource base gs"
  "status_effect_ok base (UpdateGS gs ok) = silent base gs" "status_effect_ok base (PatchGS gs ok) = clears_request gs"
  "status_effect_ok base (CreateCM cm n ok)" "status_effect_ok base (UpdateCM cm ok)" "status_effect_ok base (DeleteCM ns n ok)"
  "status_effect_ok base (CreateSecret se n ok)" "status_effect_ok base (UpdateSecret se ok)" "status_effect_ok base (DeleteSecret ns n ok)"
  "status_effect_ok base (CreateRB rb n ok)" "status_effect_ok base (UpdateRB rb ok)" "status_effect_ok base (DeleteRB ns n ok)"
  "status_effect_ok base (Notice t r m)" "status_effect_ok base (LsRemote u r)" "status_effect_ok base (Exchange k)"
  "status_effect_ok base (DropSeries m l)"
  "status_effect_ok base (Series m l v) = records controller_metrics MGauge m l"
  "status_effect_ok base (Count m l) = records controller_metrics MCounter m l"
  "status_effect_ok base (Timed m l) = records controller_metrics MHistogram m l"
  by (simp_all add: status_effect_ok_def ctrl_metric_ok_def)

lemma length_gs_labels [simp]: "length (gs_labels gs) = 2"
  by (simp add: gs_labels_def)

text \<open>Where an object that is sent comes from, and which object it is.\<close>

definition effect_origin :: "'k ctrl_api \<Rightarrow> namespaced_name \<Rightarrow> gateway_sync \<Rightarrow> ctrl_effect \<Rightarrow> bool" where
  "effect_origin K req base e = (case e of
      PatchGS g ok \<Rightarrow> (\<exists>k fresh. fst (ka_get_gs K req k) = Inr fresh \<and> g = cleared_request fresh)
    | UpdateGS g ok \<Rightarrow> gy_namespace g = gy_namespace base \<and> gy_name g = gy_name base \<and> gy_spec g = gy_spec base
    | CreateCM cm owner ok \<Rightarrow> (\<exists>data. cm = new_metadata_cm base data) \<and> owner = gy_name base
    | UpdateCM cm ok \<Rightarrow> (\<exists>k old data. fst (ka_get_cm K (gy_namespace base) (metadata_name base) k) = Inr old \<and> cm = old\<lparr>cm_data := data\<rparr>)
    | DeleteCM ns n ok \<Rightarrow> (\<exists>k asked cm. asked \<in> set (owned_config_maps base) \<and>
        fst (ka_get_cm K (gy_namespace base) asked k) = Inr cm \<and> ns = cm_namespace cm \<and> n = cm_name cm)
    | CreateSecret se owner ok \<Rightarrow> (\<exists>token. se = new_token_secret base token) \<and> owner = gy_name base
    | UpdateSecret se ok \<Rightarrow> (\<exists>k old data. fst (ka_get_secret K (gy_namespace base) (github_token_secret_name (gy_name base)) k) = Inr old \<and>
        se = old\<lparr>se_data := data\<rparr>)
    | DeleteSecret ns n ok \<Rightarrow> (\<exists>k old. fst (ka_get_secret K (gy_namespace base) (github_token_secret_name (gy_name base)) k) = Inr old \<and>
        ns = se_namespace old \<and> n = se_name old)
    | CreateRB rb owner ok \<Rightarrow> (\<exists>desired. rb = new_role_binding base desired) \<and> owner = gy_name base
    | UpdateRB rb ok \<Rightarrow> (\<exists>k old desired. fst (ka_get_rb K (gy_namespace base) (agent_role_binding_name (gy_name base)) k) = Inr old \<and>
        rb = old\<lparr>rb_subjects := desired\<rparr>)
    | DeleteRB ns n ok \<Rightarrow> (\<exists>k old. fst (ka_get_rb K (gy_namespace base) (agent_role_binding_name (gy_name base)) k) = Inr old \<and>
        ns = rb_namespace old \<and> n = rb_name old)
    | LsRemote u r \<Rightarrow> u = gt_repo (ss_git (gy_spec base)) \<and> r = desired_ref base
    | Exchange key \<Rightarrow> (case gy_github_app base of None \<Rightarrow> False | Some a \<Rightarrow> key = token_cache_key a)
    | DropSeries m ls \<Rightarrow> ls = gs_labels base
    | _ \<Rightarrow> True)"

definition effect_ok :: "'k ctrl_api \<Rightarrow> namespaced_name \<Rightarrow> gateway_sync \<Rightarrow> ctrl_effect \<Rightarrow> bool" where
  "effect_ok K req base e \<longleftrightarrow> status_effect_ok base e \<and> effect_origin K req base e"

lemma same_resource_eqs:
  assumes "same_resource base gs"
  shows "gy_meta gs = gy_meta base" "gy_spec gs = gy_spec base" "gy_namespace gs = gy_namespace base" "gy_name gs = gy_name base"
    "gy_github_app gs = gy_github_app base" "desired_ref gs = desired_ref base" "gs_labels gs = gs_labels base"
    "metadata_name gs = metadata_name base" "new_metadata_cm gs data = new_metadata_cm base data"
    "new_token_secret gs token = new_token_secret base token" "new_role_binding gs desired = new_role_binding base desired"
    "owned_config_maps gs = owned_config_maps base" "metadata_data K gs result = metadata_data K base result"
  using assms
  by (simp_all add: same_resource_def metadata_data_def resolve_profiles_def gy_namespace_def gy_name_def gy_github_app_def gy_auth_def desired_ref_def requested_ref_def
      gs_labels_def metadata_name_def new_metadata_cm_def controller_labels_def new_token_secret_def new_role_binding_def owned_config_maps_def)

lemma effect_ok_simps [simp]:
  "effect_ok K req base (PatchStatus gs ok) = same_resource base gs"
  "effect_ok K req base (Notice t r m)"
  "effect_ok K req base (Series m l v) = records controller_metrics MGauge m l"
  "effect_ok K req base (Count m l) = records controller_metrics MCounter m l"
  "effect_ok K req base (Timed m l) = records controller_metrics MHistogram m l"
  "effect_ok K req base (CreateCM (new_metadata_cm base data) (gy_name base) ok)"
  "effect_ok K req base (CreateSecret (new_token_secret base token) (gy_name base) ok)"
  "effect_ok K req base (CreateRB (new_role_binding base desired) (gy_name base) ok)"
  "effect_ok K req base (LsRemote (gt_repo (ss_git (gy_spec base))) (desired_ref base))"
  "effect_ok K req base (DropSeries m l) = (l = gs_labels base)"
  by (simp_all add: effect_ok_def effect_origin_def, blast+)

lemma effect_ok_finalizers:
  assumes "same_resource base gs"
  shows "effect_ok K req base (UpdateGS (add_finalizer gs) ok)" "effect_ok K req base (UpdateGS (remove_finalizer gs) ok)"
proof -
  note eqs = same_resource_eqs(1,2) [OF assms]
  have m: "gy_namespace (map_finalizers f gs) = gy_namespace base" "gy_name (map_finalizers f gs) = gy_name base"
    "gy_spec (map_finalizers f gs) = gy_spec base" for f
    using eqs by (simp_all add: map_finalizers_def gy_namespace_def gy_name_def)
  show "effect_ok K req base (UpdateGS (add_finalizer gs) ok)" "effect_ok K req base (UpdateGS (remove_finalizer gs) ok)"
    using silent_finalizers [OF eqs(1)] by (simp_all add: effect_ok_def effect_origin_def m add_finalizer_def remove_finalizer_def)
qed

lemma effect_ok_updates:
  "fst (ka_get_cm K (gy_namespace base) (metadata_name base) k) = Inr cm \<Longrightarrow> effect_ok K req base (UpdateCM (cm\<lparr>cm_data := d\<rparr>) ok)"
  "fst (ka_get_secret K (gy_namespace base) (github_token_secret_name (gy_name base)) k) = Inr se \<Longrightarrow>
     effect_ok K req base (UpdateSecret (se\<lparr>se_data := d\<rparr>) ok)"
  "fst (ka_get_rb K (gy_namespace base) (agent_role_binding_name (gy_name base)) k) = Inr rb \<Longrightarrow>
     effect_ok K req base (UpdateRB (rb\<lparr>rb_subjects := sbs\<rparr>) ok)"
  "fst (ka_get_rb K (gy_namespace base) (agent_role_binding_name (gy_name base)) k) = Inr rb \<Longrightarrow> effect_ok K req base (DeleteRB (rb_namespace rb) (rb_name rb) ok)"
  "fst (ka_get_cm K (gy_namespace base) n k) = Inr cm \<Longrightarrow> n \<in> set (owned_config_maps base) \<Longrightarrow>
     effect_ok K req base (DeleteCM (cm_namespace cm) (cm_name cm) ok)"
  "fst (ka_get_secret K (gy_namespace base) (github_token_secret_name (gy_name base)) k) = Inr se \<Longrightarrow>
     effect_ok K req base (DeleteSecret (se_namespace se) (se_name se) ok)"
  "gy_github_app base = Some a \<Longrightarrow> effect_ok K req base (Exchange (token_cache_key a))"
  by (auto simp: effect_ok_def effect_origin_def)

lemma same_resource_mark_resolved: "same_resource base gs \<Longrightarrow> same_resource base (mark_resolved now r gs)"
  unfolding mark_resolved_def by (rule same_resource_map_status) auto

subsection \<open>Reading operations\<close>

text \<open>They change neither the log nor the maps; the cluster may change meanwhile.\<close>

definition only_env :: "('k, 'e, 'z) io_scheme \<Rightarrow> ('k, 'e, 'z) io_scheme \<Rightarrow> bool" where
  "only_env s t \<longleftrightarrow> (\<exists>k. t = s\<lparr>io_env := k\<rparr>)"

interpretation env: step_order only_env
proof
  fix s :: "('k, 'e, 'z) io_scheme"
  have "s = s\<lparr>io_env := io_env s\<rparr>" by simp
  then show "only_env s s" unfolding only_env_def by blast
qed (auto simp: only_env_def)

lemma env_call: "env.keeps (call f)"
  by (rule env.keepsI) (auto simp: only_env_def)

lemma only_env: "env.keeps m \<Longrightarrow> only.keeps P m"
  by (rule only.keepsI, drule (1) env.keepsD) (auto simp: only_env_def only_sent_def)

lemma run_call_bind: "run_state (call f \<bind> g) s = run_state (g (fst (f (io_env s)))) (s\<lparr>io_env := snd (f (io_env s))\<rparr>)"
  by simp

text \<open>
  What the operations that only read rely on: every call that asks the API, the remote or the clock
  keeps the relation.
\<close>

locale api_reads = step_order R for R :: "'k ctrl_state \<Rightarrow> 'k ctrl_state \<Rightarrow> bool" +
  fixes K :: "'k ctrl_api"
  assumes get_gs: "keeps (call (ka_get_gs K r))" and get_cm: "keeps (call (ka_get_cm K ns n))"
    and get_secret: "keeps (call (ka_get_secret K ns n))" and list_pods: "keeps (call (ka_list_pods K ns))"
    and get_rb: "keeps (call (ka_get_rb K ns n))" and clock: "keeps (call (ka_now K))"
    and git_clock: "keeps (call (gi_now (ka_git K)))" and git_session: "keeps (call (gi_open_session (ka_git K) u a))"
    and git_advertised: "keeps (call (gi_advertised (ka_git K) u a))"
    and git_known_hosts: "keeps (call (gi_new_known_hosts (ka_git K) d))" and git_http: "keeps (call (gi_http_do (ka_git K) rq))"
begin

lemmas asking = get_gs get_cm get_secret list_pods get_rb clock git_clock git_session git_advertised git_known_hosts git_http

lemmas asking_intros = keeps_intros asking

lemma keeps_call_bind:
  assumes "keeps (call f)" "\<And>k. keeps (g (fst (f k)))"
  shows "keeps (call f \<bind> g)"
proof (rule keepsI)
  fix s r t
  assume run: "run_state (call f \<bind> g) s = (r, t)"
  have "R s (s\<lparr>io_env := snd (f (io_env s))\<rparr>)" by (rule keepsD [OF assms(1)]) simp
  moreover have "R (s\<lparr>io_env := snd (f (io_env s))\<rparr>) t"
    by (rule keepsD [OF assms(2) run [unfolded run_call_bind]])
  ultimately show "R s t" by (rule R_trans)
qed

lemma keeps_logged: "keeps (call f) \<Longrightarrow> (\<And>ok. keeps (emit (entry ok))) \<Longrightarrow> keeps (logged f entry)"
  unfolding logged_def by (intro keeps_intros)

lemma asks_set_cond: "keeps (set_cond K u gs)"
  unfolding set_cond_def by (intro asking_intros)

lemma asks_read_secret_key: "keeps (read_secret_key (ka_get_secret K) a b n r)"
  unfolding read_secret_key_def by (intro asking_intros)

lemma asks_exchange: "keeps (exchange_github_app_token (ka_git K) p a i u)"
  unfolding exchange_github_app_token_def by (intro asking_intros)

lemma asks_resolve_auth: "keeps (resolve_auth (ka_git K) (ka_get_secret K) n a)"
  unfolding resolve_auth_def resolve_ssh_auth_def resolve_known_hosts_def resolve_token_auth_def resolve_github_app_auth_def
  by (intro asking_intros asks_read_secret_key asks_exchange)

lemma asks_ls_remote: "keeps (ls_remote (ka_git K) u r a)"
  unfolding ls_remote_def by (intro asking_intros)

lemma asks_secrets_exist: "keeps (secrets_exist K gs l)"
proof (induction l)
  case (Cons x l)
  then show ?case by (cases x) (simp only: secrets_exist.simps secret_exists_def; intro asking_intros)
qed (simp add: keeps_ret)

lemma asks_validate_secrets: "keeps (validate_git_secrets K gs)" "keeps (validate_api_key_secret K gs)"
  unfolding validate_git_secrets_def validate_api_key_secret_def secret_exists_def by (intro asking_intros asks_secrets_exist)+

lemma asks_tokens: "keeps (valid_cached_token K a)" "keeps (requeue_after K gs)"
  unfolding valid_cached_token_def requeue_after_def by (intro asking_intros)+

lemma asks_collect: "keeps (collect_gateway_status K gs gws)" "keeps (collect_service_accounts K gs)"
  unfolding collect_gateway_status_def collect_service_accounts_def by (intro asking_intros)+

lemmas asking_ops = asks_set_cond asks_read_secret_key asks_exchange asks_resolve_auth asks_ls_remote asks_validate_secrets
  asks_tokens asks_collect

end

interpretation env_reads: api_reads only_env K for K
  by unfold_locales (rule env_call)+

lemmas only_env_ops = env_reads.asking_ops [THEN only_env]

lemma only_logged: "(\<And>ok. P (entry ok)) \<Longrightarrow> only.keeps P (logged f entry)"
  unfolding logged_def by (intro only_intros)

lemma only_modify_tokens: "only.keeps P (modify (\<lambda>s. s\<lparr>rc_tokens := f s\<rparr>))"
  by (rule only.keeps_modify) (simp add: only_sent_def)

subsection \<open>The writes of a reconcile\<close>

text \<open>
  What a reconcile of the resource \<open>base\<close> relies on besides: each of its writes keeps the relation, with
  the object as the code builds it. The relation may be about what is sent, or about the cluster.
\<close>

locale reconcile_steps = api_reads R K for R :: "'k ctrl_state \<Rightarrow> 'k ctrl_state \<Rightarrow> bool" and K :: "'k ctrl_api" +
  fixes req :: namespaced_name and base :: gateway_sync
  assumes tells: "effect_ok K req base e \<Longrightarrow> keeps (emit e)"
    and forgets: "keeps (reset_failures req)"
    and remembers: "keeps (modify (\<lambda>s. s\<lparr>rc_backoff := record_failure now req (rc_backoff s)\<rparr>))"
    and caches: "gy_github_app base = Some a \<Longrightarrow> keeps (store_github_token (token_cache_key a) v)"
    and writes_status: "same_resource base gs \<Longrightarrow> keeps (call (ka_patch_status K gs b))"
    and clears_annotation: "fst (ka_get_gs K req k) = Inr fresh \<Longrightarrow> keeps (call (ka_patch_gs K (cleared_request fresh) fresh))"
    and creates_cm: "keeps (call (ka_create_cm K (new_metadata_cm base (metadata_data K base result))))"
    and updates_cm: "fst (ka_get_cm K (gy_namespace base) (metadata_name base) k) = Inr cm \<Longrightarrow>
      keeps (call (ka_update_cm K (cm\<lparr>cm_data := metadata_data K base result\<rparr>)))"
    and deletes_cm: "fst (ka_get_cm K (gy_namespace base) n k) = Inr cm \<Longrightarrow> n \<in> set (owned_config_maps base) \<Longrightarrow>
      keeps (call (ka_delete_cm K cm))"
    and creates_secret: "keeps (call (ka_create_secret K (new_token_secret base token)))"
    and updates_secret: "fst (ka_get_secret K (gy_namespace base) (github_token_secret_name (gy_name base)) k) = Inr se \<Longrightarrow>
      keeps (call (ka_update_secret K (se\<lparr>se_data := d\<rparr>)))"
    and deletes_secret: "fst (ka_get_secret K (gy_namespace base) (github_token_secret_name (gy_name base)) k) = Inr se \<Longrightarrow>
      keeps (call (ka_delete_secret K se))"
    and creates_rb: "keeps (call (ka_create_rb K (new_role_binding base sbs)))"
    and updates_rb: "fst (ka_get_rb K (gy_namespace base) (agent_role_binding_name (gy_name base)) k) = Inr rb \<Longrightarrow>
      keeps (call (ka_update_rb K (rb\<lparr>rb_subjects := sbs\<rparr>)))"
    and deletes_rb: "fst (ka_get_rb K (gy_namespace base) (agent_role_binding_name (gy_name base)) k) = Inr rb \<Longrightarrow>
      keeps (call (ka_delete_rb K rb))"
begin

lemmas writing = writes_status clears_annotation creates_cm updates_cm deletes_cm creates_secret updates_secret deletes_secret
  creates_rb updates_rb deletes_rb

lemmas step_intros = asking_intros tells

lemma does_record_and_delay: "keeps (record_and_delay K req)"
  unfolding record_and_delay_def by (intro step_intros remembers)

lemma does_resolve_app_token:
  "gy_github_app base = Some a \<Longrightarrow> keeps (resolve_github_app_token K gs a)"
  unfolding resolve_github_app_token_def exchange_app_token_def read_pem_def
  by (intro step_intros asking_ops caches effect_ok_updates) simp_all

lemma does_resolve_ref:
  assumes "same_resource base gs"
  shows "keeps (resolve_ref K gs)"
  unfolding resolve_ref_def cached_resolution_def controller_auth_def same_resource_eqs [OF assms]
  by (intro step_intros asking_ops does_resolve_app_token) simp_all

lemma does_ensure_token_secret:
  assumes "same_resource base gs"
  shows "keeps (ensure_github_token_secret K gs token)"
  unfolding ensure_github_token_secret_def Let_def same_resource_eqs [OF assms]
  by (rule keeps_call_bind [OF get_secret], intro step_intros keeps_logged writing effect_ok_updates) simp_all

lemma does_put_metadata:
  assumes "same_resource base gs"
  shows "keeps (put_metadata K gs (metadata_data K gs result))"
  unfolding put_metadata_def same_resource_eqs [OF assms]
  by (rule keeps_call_bind [OF get_cm], intro step_intros keeps_logged writing effect_ok_updates) simp_all

lemma does_ensure_metadata_config_map:
  "same_resource base gs \<Longrightarrow> keeps (ensure_metadata_config_map K gs result)"
  unfolding ensure_metadata_config_map_def publish_token_def
  by (intro step_intros does_ensure_token_secret does_put_metadata)

lemma does_discover_pods: "keeps (discover_pods gs ps)"
  by (induction gs ps rule: discover_pods.induct)
    (simp only: discover_pods.simps; intro step_intros effect_ok_simps; blast)+

lemma does_discover_gateways: "keeps (discover_gateways K gs)"
  unfolding discover_gateways_def by (intro step_intros does_discover_pods)

lemma does_bind_subjects:
  assumes "same_resource base gs"
  shows "keeps (bind_subjects K gs desired)"
  unfolding bind_subjects_def same_resource_eqs [OF assms]
  by (rule keeps_call_bind [OF get_rb], intro step_intros keeps_logged writing effect_ok_updates) simp_all

lemma does_bind_agent_rbac: "same_resource base gs \<Longrightarrow> keeps (bind_agent_rbac K gs)"
  unfolding bind_agent_rbac_def ensure_agent_role_binding_def
  by (intro step_intros asking_ops does_bind_subjects effect_ok_simps)

lemma does_emit_all: "list_all (effect_ok K req base) es \<Longrightarrow> keeps (emit_all es)"
  by (induction es) (simp only: emit_all.simps; intro step_intros; simp)+

lemma does_observe_gateway_metrics:
  assumes "same_resource base gs"
  shows "keeps (observe_gateway_metrics gs)"
  unfolding observe_gateway_metrics_def
  by (rule does_emit_all)
    (auto simp: metric_effects_def gateway_series_def Let_def list_all_iff same_resource_eqs [OF assms] split: option.splits)

lemma does_drop_series: "l = gs_labels base \<Longrightarrow> keeps (drop_series l ms)"
  by (induction ms) (simp only: drop_series.simps; intro step_intros; simp)+

lemma does_delete_config_maps:
  assumes "same_resource base gs" "set ns \<subseteq> set (owned_config_maps base)"
  shows "keeps (delete_config_maps K gs ns)"
  using assms(2)
proof (induction ns)
  case (Cons n ns)
  then show ?case unfolding delete_config_maps.simps same_resource_eqs [OF assms(1)]
    by (intro keeps_call_bind [OF get_cm] keeps_case_sum keeps_if keeps_bind keeps_case_option keeps_ret keeps_logged deletes_cm tells effect_ok_updates(5))
      auto
qed (simp add: keeps_ret)

lemma does_delete_token_secret: "same_resource base gs \<Longrightarrow> keeps (delete_token_secret K gs)"
  unfolding delete_token_secret_def Let_def
  by (rule keeps_call_bind, simp add: get_secret, intro step_intros keeps_logged deletes_secret effect_ok_updates(6))
    (simp_all add: same_resource_eqs)

lemma does_cleanup:
  assumes "same_resource base gs"
  shows "keeps (cleanup_owned_resources K gs)"
  unfolding cleanup_owned_resources_def cleanup_cr_metrics_def
  by (intro step_intros does_drop_series does_delete_config_maps [OF assms] does_delete_token_secret [OF assms])
    (simp_all add: same_resource_eqs [OF assms], simp add: gs_labels_def same_resource_eqs [OF assms])

lemma does_clear_requested_ref: "keeps (clear_requested_ref K req gs)"
  unfolding clear_requested_ref_def Let_def cleared_request_def [symmetric]
  by (rule keeps_if, rule keeps_ret, rule keeps_call_bind [OF get_gs], intro step_intros keeps_logged clears_annotation)
    (auto simp: effect_ok_def effect_origin_def clears_request_def)

lemma yields_set_cond: "same_resource base gs \<Longrightarrow> yields (same_resource base) (set_cond K u gs)"
  unfolding set_cond_def
  by (rule yields_then [OF clock]) (rule yields_ret, rule same_resource_set_condition)

lemma yields_set_conds: "same_resource base gs \<Longrightarrow> yields (same_resource base) (set_conds K us gs)"
proof (induction us arbitrary: gs)
  case (Cons u us)
  then show ?case by (simp del: bind_assoc) (rule yields_bind [OF yields_set_cond])
qed (simp add: yields_ret)

lemma does_patch_status: "same_resource base gs \<Longrightarrow> keeps (patch_status K gs b)"
  unfolding patch_status_def by (intro step_intros writes_status) simp_all

lemma does_retry_not_ready:
  "same_resource base gs \<Longrightarrow> keeps (retry_not_ready K req b gs err)"
  unfolding retry_not_ready_def
  by (rule keeps_bind [OF does_record_and_delay], rule keeps_bind_yields [OF yields_set_cond])
    (auto intro!: step_intros does_patch_status)

lemma yields_check_profiles:
  "same_resource base gs \<Longrightarrow> yields (same_resource base) (check_profiles K gs)"
  unfolding check_profiles_def
  by (intro yields_case_option yields_set_cond)
    (auto intro!: yields_bind [OF yields_set_cond] yields_then [OF tells] yields_ret)

lemma does_ref_failed: "same_resource base gs \<Longrightarrow> keeps (ref_failed K req b gs err)"
  unfolding ref_failed_def
  by (rule keeps_bind [OF does_record_and_delay], rule keeps_bind_yields [OF yields_set_cond])
    (auto intro!: step_intros does_patch_status same_resource_map_status)

lemma yields_ref_resolved:
  "same_resource base gs \<Longrightarrow> yields (same_resource base) (ref_resolved K req r gs)"
  unfolding ref_resolved_def
  by (rule yields_then [OF forgets], rule yields_bind [OF yields_set_cond])
    (auto intro!: yields_then [OF clock] yields_ret same_resource_mark_resolved)

lemma yields_refresh_gateways:
  "same_resource base gs \<Longrightarrow> yields (same_resource base) (refresh_gateways K gs)"
  unfolding refresh_gateways_def
  by (rule yields_then [OF does_discover_gateways], intro yields_case_sum yields_ret
      yields_then [OF asks_collect(1)] yields_then)
    (auto intro!: step_intros same_resource_map_status)

lemma yields_update_conditions:
  "same_resource base gs \<Longrightarrow> yields (same_resource base) (update_conditions K gs)"
  unfolding update_conditions_def by (rule yields_bind [OF yields_set_conds]) (auto intro: yields_set_cond)

lemma does_publish_status: "same_resource base gs \<Longrightarrow> keeps (publish_status K req b gs)"
  unfolding publish_status_def final_status_def
  by (intro step_intros does_patch_status does_clear_requested_ref asking_ops same_resource_map_status) simp_all

lemma does_reconcile_gateways:
  "same_resource base gs \<Longrightarrow> keeps (reconcile_gateways K req b r gs)"
  unfolding reconcile_gateways_def
  by (rule keeps_bind [OF does_ensure_metadata_config_map], assumption, rule keeps_bind_yields [OF yields_refresh_gateways],
      assumption, rule keeps_bind [OF does_bind_agent_rbac], assumption, rule keeps_bind_yields [OF yields_update_conditions],
      assumption, rule keeps_bind [OF does_observe_gateway_metrics], assumption, rule does_publish_status)

lemma does_reconcile_ref: "same_resource base gs \<Longrightarrow> keeps (reconcile_ref K req b gs)"
  unfolding reconcile_ref_def
  by (rule keeps_bind [OF does_resolve_ref], assumption, rule keeps_bind [OF tells], simp, rule keeps_case_sum, erule does_ref_failed,
      rule keeps_bind_yields [OF yields_ref_resolved], assumption,
      rule keeps_bind [OF asks_validate_secrets(2)])
    (auto intro!: keeps_case_option does_retry_not_ready does_reconcile_gateways)

lemma does_reconcile_active: "same_resource base gs \<Longrightarrow> keeps (reconcile_active K req gs)"
  unfolding reconcile_active_def
  by (rule keeps_bind, rule tells, simp, rule keeps_bind_yields [OF yields_check_profiles], assumption,
      rule keeps_bind [OF asks_validate_secrets(1)], rule keeps_case_option,
      rule keeps_bind_yields [OF yields_set_conds])
    (auto intro: does_reconcile_ref does_retry_not_ready)

lemma does_reconcile_paused: "same_resource base gs \<Longrightarrow> keeps (reconcile_paused K gs gs)"
  unfolding reconcile_paused_def
  by (intro step_intros does_patch_status keeps_bind_yields [OF yields_set_cond]) simp_all

text \<open>A reconcile after its first Get, when also the updates of the finalizer keep the relation.\<close>

lemma does_reconcile_found:
  assumes "\<And>gs. same_resource base gs \<Longrightarrow> keeps (call (ka_update_gs K (add_finalizer gs))) \<and> keeps (call (ka_update_gs K (remove_finalizer gs)))"
    and "same_resource base gs"
  shows "keeps (reconcile_found K req gs)"
  unfolding reconcile_found_def reconcile_deleted_def update_gs_def
  using assms
  by (intro step_intros keeps_logged forgets does_cleanup does_reconcile_paused does_reconcile_active effect_ok_finalizers) simp_all

end

subsection \<open>The frame\<close>

text \<open>Of the reconciler's maps only the entry of the request and the one of the resource's app may change.\<close>

definition same_tokens :: "gateway_sync \<Rightarrow> (string, cached_token) gomap \<Rightarrow> (string, cached_token) gomap \<Rightarrow> bool" where
  "same_tokens base m n \<longleftrightarrow> (case gy_github_app base of
      None \<Rightarrow> n = m
    | Some a \<Rightarrow> mdel n (token_cache_key a) = mdel m (token_cache_key a))"

definition reconcile_frame :: "'k ctrl_api \<Rightarrow> namespaced_name \<Rightarrow> gateway_sync \<Rightarrow> 'k ctrl_state \<Rightarrow> 'k ctrl_state \<Rightarrow> bool" where
  "reconcile_frame K req base s t \<longleftrightarrow> only_sent (effect_ok K req base) s t \<and>
     mdel (rc_backoff t) req = mdel (rc_backoff s) req \<and> same_tokens base (rc_tokens s) (rc_tokens t)"

lemma mdel_again: "mdel (mdel m k) k = mdel m k" "mdel (mput m k v) k = mdel m k"
  by (simp_all add: mdel_def mput_def delete_idem delete_update_same)

lemma same_tokens_refl [simp]: "same_tokens base m m"
  by (simp add: same_tokens_def split: option.split)

interpretation frame: step_order "reconcile_frame K req base" for K req base
proof
  fix s t u :: "'a ctrl_state"
  assume "reconcile_frame K req base s t" "reconcile_frame K req base t u"
  then show "reconcile_frame K req base s u"
    by (auto simp: reconcile_frame_def same_tokens_def intro: only.R_trans split: option.splits)
qed (simp add: reconcile_frame_def only.R_refl)

lemma frame_call: "frame.keeps K req base (call f)"
  by (rule frame.keepsI) (auto simp: reconcile_frame_def only_sent_def)

lemma frame_emit: "effect_ok K req base e \<Longrightarrow> frame.keeps K req base (emit e)"
  unfolding emit_def by (rule frame.keeps_modify) (simp add: reconcile_frame_def only_sent_def)

lemma frame_maps:
  "frame.keeps K req base (reset_failures req)"
  "frame.keeps K req base (modify (\<lambda>s. s\<lparr>rc_backoff := record_failure now req (rc_backoff s)\<rparr>))"
  "gy_github_app base = Some a \<Longrightarrow> frame.keeps K req base (store_github_token (token_cache_key a) v)"
  unfolding reset_failures_def store_github_token_def
  by (rule frame.keeps_modify, simp add: reconcile_frame_def only_sent_def reset_backoff_def record_failure_def Let_def
      same_tokens_def mdel_again)+

interpretation rc: reconcile_steps "reconcile_frame K req base" K req base for K req base
  by unfold_locales (simp_all add: frame_call frame_emit frame_maps)

lemma rc_reconcile_found: "same_resource base gs \<Longrightarrow> frame.keeps K req base (reconcile_found K req gs)"
  by (rule rc.does_reconcile_found) (simp_all add: frame_call)

subsection \<open>The cleanup\<close>

text \<open>It only drops series and deletes.\<close>

definition cleanup_effect :: "ctrl_effect \<Rightarrow> bool" where
  "cleanup_effect e = (case e of DropSeries m l \<Rightarrow> True | DeleteCM ns n ok \<Rightarrow> True | DeleteSecret ns n ok \<Rightarrow> True | _ \<Rightarrow> False)"

lemma cleanup_effect_simps [simp]:
  "cleanup_effect (DropSeries m l)" "cleanup_effect (DeleteCM ns n ok)" "cleanup_effect (DeleteSecret ns n ok)"
  by (simp_all add: cleanup_effect_def)

lemma cleanup_drop_series: "only.keeps cleanup_effect (drop_series l ms)"
  by (induction l ms rule: drop_series.induct)
    (simp only: drop_series.simps; intro only_intros cleanup_effect_simps; blast)+

lemma cleanup_delete_config_maps: "only.keeps cleanup_effect (delete_config_maps K gs ns)"
  by (induction K gs ns rule: delete_config_maps.induct)
    (simp only: delete_config_maps.simps; intro only_intros only_logged cleanup_effect_simps; blast)+

lemma cleanup_sends: "only.keeps cleanup_effect (cleanup_owned_resources K gs)"
  unfolding cleanup_owned_resources_def cleanup_cr_metrics_def delete_token_secret_def Let_def
  by (intro only_intros only_logged cleanup_drop_series cleanup_delete_config_maps cleanup_effect_simps)

end
