(* ===== verification/ControllerProps.thy ===== *)
theory ControllerProps
  imports ControllerLaws
begin

section \<open>Properties of the controller\<close>

text \<open>
  What every reconcile sends and returns, whatever its branch: the frame of a reconcile, its guards,
  the conditions it publishes and its retry delays.
\<close>

subsection \<open>The frame of a reconcile\<close>

definition after_get :: "'k ctrl_api \<Rightarrow> namespaced_name \<Rightarrow> 'k ctrl_state \<Rightarrow> 'k ctrl_state" where
  "after_get K req s = s\<lparr>io_env := snd (ka_get_gs K req (io_env s))\<rparr>"

definition counted :: "namespaced_name \<Rightarrow> string \<Rightarrow> 'k ctrl_state \<Rightarrow> 'k ctrl_state" where
  "counted req label t = t\<lparr>io_log := Count ''reconcile_total'' [snd req, fst req, label] #
     Timed ''reconcile_duration_seconds'' [snd req, fst req] # io_log t\<rparr>"

lemma after_get_log [simp]: "io_log (after_get K req s) = io_log s"
  by (simp add: after_get_def)

lemma counted_maps [simp]: "rc_backoff (counted req l t) = rc_backoff t" "rc_tokens (counted req l t) = rc_tokens t"
  by (simp_all add: counted_def)

lemma wp_reconcile_found:
  "fst (ka_get_gs K req (io_env s)) = Inr gs \<Longrightarrow>
   wp (reconcile K req) Q s = wp (reconcile_found K req gs) (\<lambda>o1 t. Q o1 (counted req (oc_label o1) t)) (after_get K req s)"
  by (simp add: reconcile_def reconcile_body_def wp_def counted_def after_get_def split: prod.splits)

lemma wp_reconcile_missing:
  "fst (ka_get_gs K req (io_env s)) = Inl err \<Longrightarrow>
   wp (reconcile K req) Q s = (let o1 = (if api_is NotFound err then success None else failure err) in
     Q o1 (counted req (oc_label o1) (after_get K req s)))"
  by (simp add: reconcile_def reconcile_body_def wp_rules counted_def after_get_def Let_def)

lemma only_sent_log: "only_sent P s t \<Longrightarrow> io_log s = io_log s' \<Longrightarrow> only_sent P s' t"
  by (simp add: only_sent_def)

lemma only_sent_counted: "only_sent P s t \<Longrightarrow> P (Count ''reconcile_total'' [snd req, fst req, label]) \<Longrightarrow>
  P (Timed ''reconcile_duration_seconds'' [snd req, fst req]) \<Longrightarrow> only_sent P s (counted req label t)"
  by (auto simp: only_sent_def counted_def)

lemma reconcile_found_frame:
  assumes "run_state (reconcile_found K req gs) (after_get K req s) = (o1, t)"
  shows "list_all (effect_ok K req gs) (sent s (counted req l t))" "mdel (rc_backoff t) req = mdel (rc_backoff s) req"
    "same_tokens gs (rc_tokens s) (rc_tokens t)" "\<exists>es. io_log t = es @ io_log s"
proof -
  from frame.keepsD [OF rc_reconcile_found [OF same_resource_refl] assms]
  have f: "reconcile_frame K req gs (after_get K req s) t" .
  then have sent: "only_sent (effect_ok K req gs) s t" by (auto simp: reconcile_frame_def intro: only_sent_log)
  then have "only_sent (effect_ok K req gs) s (counted req l t)" "\<exists>es. io_log t = es @ io_log s"
    by (simp add: only_sent_counted) (use sent in \<open>auto simp: only_sent_def\<close>)
  then show "list_all (effect_ok K req gs) (sent s (counted req l t))" "\<exists>es. io_log t = es @ io_log s"
    by (simp_all add: only_sent_sent)
  from f show "mdel (rc_backoff t) req = mdel (rc_backoff s) req" "same_tokens gs (rc_tokens s) (rc_tokens t)"
    by (simp_all add: reconcile_frame_def after_get_def)
qed

lemma reconcile_found_ok:
  assumes "run_state (reconcile_found K req gs) (after_get K req s) = (o1, t)"
  shows "list_all (status_effect_ok gs) (sent s (counted req l t))"
  by (rule list.pred_mono_strong [OF reconcile_found_frame(1) [OF assms]]) (simp add: effect_ok_def)

text \<open>
  C21: every status the reconcile sends has the metadata and the specification of the resource it
  fetched and one condition of a type, when the fetched resource has, and every sample of a metric fits
  its declaration; a resource that cannot be fetched makes the reconcile send nothing but its count.
\<close>

theorem status_patches_wellformed:
  "wp (reconcile K req) (\<lambda>o1 t.
     case fst (ka_get_gs K req (io_env s)) of
       Inl err \<Rightarrow> sent s t = [Count ''reconcile_total'' [snd req, fst req, oc_label o1], Timed ''reconcile_duration_seconds'' [snd req, fst req]] \<and>
         oc_error o1 = (if api_is NotFound err then None else Some err)
     | Inr gs \<Rightarrow> list_all (status_effect_ok gs) (sent s t)) s"
proof (cases "fst (ka_get_gs K req (io_env s))")
  case (Inl err)
  then show ?thesis
    by (simp add: wp_reconcile_missing Let_def success_def failure_def counted_def)
next
  case (Inr gs)
  then show ?thesis by (simp add: wp_reconcile_found) (rule wpI, rule reconcile_found_ok)
qed

subsection \<open>Guards\<close>

definition status_only :: "gateway_sync \<Rightarrow> ctrl_effect \<Rightarrow> bool" where
  "status_only gs e = (case e of
      PatchStatus g ok \<Rightarrow> gy_spec g = gy_spec gs \<and> gy_meta g = gy_meta gs \<and>
        condition_has_reason (st_conditions (gy_status g)) type_ready ''Paused''
    | Series m l v \<Rightarrow> True | Notice t r m \<Rightarrow> True | Count m l \<Rightarrow> True | Timed m l \<Rightarrow> True | _ \<Rightarrow> False)"

lemma has_reason_put_condition:
  "condition_has_reason (put_condition g now (cond t s r m) cs) t r"
  by (induction cs) (auto simp: condition_has_reason_def new_condition_def)

lemma paused_status_only: "only.keeps (status_only gs) (reconcile_paused K gs gs)"
proof -
  let ?V = "\<lambda>g. gy_spec g = gy_spec gs \<and> gy_meta g = gy_meta gs \<and>
    condition_has_reason (st_conditions (gy_status g)) type_ready ''Paused''"
  have set: "only.yields (status_only gs) ?V (set_cond K (cond type_ready CFalse ''Paused'' m) gs)" for m
    unfolding set_cond_def
    by (rule only.yields_then [OF only_call]) (rule only.yields_ret, simp add: has_reason_put_condition)
  have patch: "only.keeps (status_only gs) (patch_status K g gs)" if "?V g" for g
    unfolding patch_status_def using that by (intro only_intros) (simp add: status_only_def)
  show ?thesis unfolding reconcile_paused_def
    by (rule only.keeps_bind, rule only_emit, simp add: status_only_def, rule only.keeps_bind_yields [OF set])
      (auto intro!: only_intros patch simp: status_only_def)
qed

text \<open>
  C22: a resource that is being deleted and has lost its finalizer is left alone; one without the
  finalizer only gets it; a paused one only has its status patched, with the reason Paused: no
  reference is resolved and no object is written for it.
\<close>

theorem reconcile_guards:
  "wp (reconcile K req) (\<lambda>o1 t.
     case fst (ka_get_gs K req (io_env s)) of
       Inl err \<Rightarrow> True
     | Inr gs \<Rightarrow>
         if om_deletion_timestamp (gy_meta gs) \<noteq> None
         then has_finalizer gs \<or> sent s t = [Count ''reconcile_total'' [snd req, fst req, ''success''], Timed ''reconcile_duration_seconds'' [snd req, fst req]]
         else if \<not> has_finalizer gs
         then (\<exists>ok. sent s t = [Count ''reconcile_total'' [snd req, fst req, ''success''],
             Timed ''reconcile_duration_seconds'' [snd req, fst req], UpdateGS (add_finalizer gs) ok])
         else if ss_paused (gy_spec gs) then list_all (status_only gs) (sent s t) \<and> oc_requeue_after o1 = 0
         else True) s"
proof (cases "fst (ka_get_gs K req (io_env s))")
  case (Inl err)
  then show ?thesis by (simp add: wp_reconcile_missing Let_def)
next
  case (Inr gs)
  let ?s = "after_get K req s"
  have paused: "wp (reconcile_paused K gs gs) (\<lambda>o1 t. list_all (status_only gs) (sent s (counted req (oc_label o1) t)) \<and> oc_requeue_after o1 = 0) u"
    if "io_log u = io_log s" for u
  proof (rule wpI, intro conjI)
    fix o1 t assume run: "run_state (reconcile_paused K gs gs) u = (o1, t)"
    from only.keepsD [OF paused_status_only run] that
    have "only_sent (status_only gs) s t" by (auto intro: only_sent_log)
    then have "only_sent (status_only gs) s (counted req (oc_label o1) t)"
      by (rule only_sent_counted) (simp_all add: status_only_def)
    then show "list_all (status_only gs) (sent s (counted req (oc_label o1) t))" by (simp add: only_sent_sent)
    from run show "oc_requeue_after o1 = 0"
      by (auto simp: reconcile_paused_def success_def patch_status_def set_cond_def split: prod.splits if_splits)
  qed
  have rules: "wp (reset_failures req) Q u = Q () (u\<lparr>rc_backoff := reset_backoff req (rc_backoff u)\<rparr>)" for Q u
    by (simp add: reset_failures_def wp_rules)
  show ?thesis using Inr
    by (auto simp: wp_reconcile_found reconcile_found_def wp_rules rules reconcile_deleted_def update_gs_def logged_def
        success_def counted_def after_get_def intro: paused [unfolded counted_def after_get_def])
qed

subsection \<open>Conditions\<close>

lemma has_status_put_condition:
  assumes "distinct (map cd_type cs)"
  shows "condition_has_status (put_condition g now u cs) t st =
    (if t = cu_type u then cu_status u = st else condition_has_status cs t st)"
proof -
  have "distinct (map cd_type (put_condition g now u cs))" by (rule distinct_put_condition [OF assms])
  with assms show ?thesis
    by (auto simp: condition_has_status_iff find_put_condition new_condition_def split: option.splits)
qed

lemma has_status_set_condition:
  "one_condition_per_type gs \<Longrightarrow>
   condition_has_status (st_conditions (gy_status (set_condition now u gs))) t st =
    (if t = cu_type u then cu_status u = st else condition_has_status (st_conditions (gy_status gs)) t st)"
  by (simp add: one_condition_per_type_def has_status_put_condition)

lemma one_condition_set_condition: "one_condition_per_type gs \<Longrightarrow> one_condition_per_type (set_condition now u gs)"
  by (simp add: one_condition_per_type_def distinct_put_condition)

lemma wp_set_cond: "wp (set_cond K u gs) Q s =
  Q (set_condition (fst (ka_now K (io_env s))) u gs) (s\<lparr>io_env := snd (ka_now K (io_env s))\<rparr>)"
  by (simp add: set_cond_def wp_rules)

definition all_synced :: "gateway_sync \<Rightarrow> bool" where
  "all_synced gs \<longleftrightarrow> st_discovered (gy_status gs) \<noteq> [] \<and>
     list_all (\<lambda>g. dg_sync_status g = sync_status_synced) (st_discovered (gy_status gs))"

lemma count_status_all: "count_status s gws = length gws \<longleftrightarrow> list_all (\<lambda>g. dg_sync_status g = s) gws"
proof (induction gws)
  case (Cons g gws)
  have "length (filter P gws) \<noteq> Suc (length gws)" for P
    using length_filter_le [of P gws] by linarith
  with Cons show ?case by (auto simp: count_status_def)
qed (simp add: count_status_def)

lemma all_synced_updates_split:
  "\<exists>u us. all_synced_updates (st_discovered (gy_status gs)) = u # us \<and> cu_type u = type_all_gateways_synced \<and>
     cu_status u = (if all_synced gs then CTrue else CFalse) \<and>
     (us = [] \<or> (\<exists>v. us = [v] \<and> cu_type v = type_sidecar_injected))"
  by (simp add: all_synced_updates_def Let_def all_synced_def count_status_all)

lemma ready_update_simps:
  "cu_type (ready_update cs) = type_ready"
  "cu_status (ready_update cs) = (if condition_has_status cs type_ref_resolved CTrue \<and>
     condition_has_status cs type_all_gateways_synced CTrue \<and> condition_has_status cs type_profiles_valid CTrue
     then CTrue else CFalse)"
  by (simp_all add: ready_update_def Let_def)

text \<open>
  C30: when the conditions of a resource are brought up to date, AllGatewaysSynced is true exactly
  when there is a gateway and every gateway is Synced, Ready is true exactly when the reference is
  resolved, the profiles are valid and AllGatewaysSynced is true, and these two keep their values. A
  failed resolution is different: it sends RefResolved false with the Ready condition as it was.
\<close>

theorem ready_condition_spec:
  "wp (update_conditions K gs) (\<lambda>g t.
     if one_condition_per_type gs
     then condition_has_status (st_conditions (gy_status g)) type_all_gateways_synced CTrue = all_synced gs \<and>
       condition_has_status (st_conditions (gy_status g)) type_ready CTrue =
         (condition_has_status (st_conditions (gy_status gs)) type_ref_resolved CTrue \<and>
          condition_has_status (st_conditions (gy_status gs)) type_profiles_valid CTrue \<and> all_synced gs) \<and>
       condition_has_status (st_conditions (gy_status g)) type_ref_resolved CTrue =
         condition_has_status (st_conditions (gy_status gs)) type_ref_resolved CTrue
     else True) s \<and>
   wp (ref_failed K req base gs err) (\<lambda>o1 t.
     \<exists>g ok. PatchStatus g ok \<in> set (sent s t) \<and> st_ref_resolution (gy_status g) = ''Error'' \<and>
       find_condition (st_conditions (gy_status g)) type_ready = find_condition (st_conditions (gy_status gs)) type_ready \<and>
       condition_has_status (st_conditions (gy_status g)) type_ref_resolved CFalse) s"
proof
  obtain u us where us: "all_synced_updates (st_discovered (gy_status gs)) = u # us" "cu_type u = type_all_gateways_synced"
      "cu_status u = (if all_synced gs then CTrue else CFalse)"
      "us = [] \<or> (\<exists>v. us = [v] \<and> cu_type v = type_sidecar_injected)"
    using all_synced_updates_split [of gs] by blast
  from us(4) show "wp (update_conditions K gs) (\<lambda>g t.
     if one_condition_per_type gs
     then condition_has_status (st_conditions (gy_status g)) type_all_gateways_synced CTrue = all_synced gs \<and>
       condition_has_status (st_conditions (gy_status g)) type_ready CTrue =
         (condition_has_status (st_conditions (gy_status gs)) type_ref_resolved CTrue \<and>
          condition_has_status (st_conditions (gy_status gs)) type_profiles_valid CTrue \<and> all_synced gs) \<and>
       condition_has_status (st_conditions (gy_status g)) type_ref_resolved CTrue =
         condition_has_status (st_conditions (gy_status gs)) type_ref_resolved CTrue
     else True) s"
    by (elim disjE exE conjE; simp add: update_conditions_def us wp_rules wp_set_cond has_status_set_condition one_condition_set_condition
        ready_update_simps condition_types del: set_condition_simps; blast)
next
  have has: "condition_has_status (put_condition g now (cond t CFalse r m) cs) t CFalse" for g now t r m cs
    by (induction cs) (auto simp: condition_has_status_def new_condition_def)
  show "wp (ref_failed K req base gs err) (\<lambda>o1 t.
     \<exists>g ok. PatchStatus g ok \<in> set (sent s t) \<and> st_ref_resolution (gy_status g) = ''Error'' \<and>
       find_condition (st_conditions (gy_status g)) type_ready = find_condition (st_conditions (gy_status gs)) type_ready \<and>
       condition_has_status (st_conditions (gy_status g)) type_ref_resolved CFalse) s"
    by (auto simp: ref_failed_def record_and_delay_def patch_status_def wp_rules wp_set_cond sent_def
        find_put_condition has condition_types intro!: exI)
qed

subsection \<open>Backoff\<close>

lemma failure_count_records:
  "\<exists>t. mget ((record_failure now key ^^ n) (reset_backoff key b)) key =
     (if n = 0 then None else Some \<lparr>bo_failure_count = n, bo_last_failure = t\<rparr>)"
  by (induction n) (auto simp: reset_backoff_def record_failure_def Let_def)

text \<open>
  After a reset, the delay after \<open>n\<close> recorded failures of a resource is 30 seconds doubled for
  each failure after the first, capped at five minutes, for every \<open>n\<close>: the loop stops doubling
  before the multiplication could overflow. A failure of one resource does not change the delay of
  another.
\<close>

theorem requeue_delay_bounds:
  "requeue_delay ((record_failure now key ^^ n) (reset_backoff key b)) key = min (sec 30 * 2 ^ (n - 1)) (sec 300) \<and>
   sec 30 \<le> requeue_delay b key \<and> requeue_delay b key \<le> sec 300 \<and>
   (if other = key then True else requeue_delay (record_failure now key b) other = requeue_delay b other)"
proof -
  have loop: "double_delay m (sec 30) = sec 30 * 2 ^ min m 4" for m
    using double_delay_eq [of m 0] by simp
  have cap: "(if double_delay m (sec 30) > sec 300 then sec 300 else double_delay m (sec 30)) = min (sec 30 * 2 ^ m) (sec 300)" for m
  proof (cases "m \<le> 3")
    case True
    then have "m \<in> {0, 1, 2, 3}" by auto
    then show ?thesis unfolding loop by (auto simp: sec_def)
  next
    case False
    then have "(2::int) ^ 4 \<le> 2 ^ m" by (intro power_increasing) auto
    moreover from False have "min m 4 = 4" by simp
    ultimately show ?thesis unfolding loop by (simp add: sec_def)
  qed
  have range: "sec 30 \<le> min (sec 30 * 2 ^ m) (sec 300)" "min (sec 30 * 2 ^ m) (sec 300) \<le> sec 300" for m
    using one_le_power [of "2::int" m] by (auto simp: sec_def)
  obtain t where "mget ((record_failure now key ^^ n) (reset_backoff key b)) key =
     (if n = 0 then None else Some \<lparr>bo_failure_count = n, bo_last_failure = t\<rparr>)"
    using failure_count_records by blast
  then have "requeue_delay ((record_failure now key ^^ n) (reset_backoff key b)) key = min (sec 30 * 2 ^ (n - 1)) (sec 300)"
    by (cases n) (simp_all add: requeue_delay_def Let_def cap del: double_delay.simps, simp add: sec_def)
  moreover have "sec 30 \<le> requeue_delay b key" "requeue_delay b key \<le> sec 300"
    by (auto simp: requeue_delay_def Let_def cap range simp del: double_delay.simps split: option.splits)
      (auto simp: sec_def)
  moreover have "if other = key then True else requeue_delay (record_failure now key b) other = requeue_delay b other"
    by (simp add: requeue_delay_def record_failure_def Let_def)
  ultimately show ?thesis by blast
qed

end
