(* ===== verification/ControllerClusterProps.thy ===== *)
theory ControllerClusterProps
  imports ControllerLaws
begin

section \<open>Properties of the controller's work on the cluster\<close>

text \<open>
  Discovery, the role binding of the agents and the resolution of the git reference, each against a
  description without its loops: a filter, a set of names, the reference asked for.
\<close>

subsection \<open>Discovery\<close>

definition members :: "gateway_sync \<Rightarrow> pod list \<Rightarrow> pod list" where
  "members gs pods = filter (\<lambda>p. belongs_to gs p \<and> running p) pods"

definition newly_missing :: "gateway_sync \<Rightarrow> pod \<Rightarrow> bool" where
  "newly_missing gs p \<longleftrightarrow> sidecar_missing p \<and>
     prev_status (st_discovered (gy_status gs)) (om_name (pd_meta p)) \<noteq> sync_status_missing_sidecar"

definition missing_notice :: "pod \<Rightarrow> ctrl_effect" where
  "missing_notice p = Notice ''Warning'' ''MissingSidecar'' (''Pod '' @ om_name (pd_meta p) @
     '' has inject annotation but no stoker-agent sidecar '' @ em_dash @
           '' webhook may have been unavailable during pod creation. Delete and recreate the pod.'')"

lemma run_discover_pods:
  "run_state (discover_pods gs ps) s = (map gateway_of_pod (members gs ps),
     s\<lparr>io_log := rev (map missing_notice (filter (newly_missing gs) (members gs ps))) @ io_log s\<rparr>)"
  by (induction gs ps arbitrary: s rule: discover_pods.induct)
    (simp_all add: members_def newly_missing_def missing_notice_def)

text \<open>
  Discovery returns one gateway for each pod of the namespace that is running and is annotated
  with the resource's name, in the order of the list, and nothing else; a warning is sent exactly
  for those pods that ask for the sidecar, do not have it, and were not already reported without it.
  When the pods cannot be listed nothing is returned and nothing is sent.
\<close>

theorem discovery_spec:
  "wp (discover_gateways K gs) (\<lambda>r t.
     case fst (ka_list_pods K (gy_namespace gs) (io_env s)) of
       Inl err \<Rightarrow> r = Inl (Wrapf ''listing pods'' err) \<and> sent s t = []
     | Inr pods \<Rightarrow> r = Inr (map gateway_of_pod (members gs pods)) \<and>
         rev (sent s t) = map missing_notice (filter (newly_missing gs) (members gs pods))) s"
  by (cases "fst (ka_list_pods K (gy_namespace gs) (io_env s))")
    (simp_all add: discover_gateways_def wp_def run_discover_pods)

subsection \<open>The role binding of the agents\<close>

definition owned_pods :: "gateway_sync \<Rightarrow> pod list \<Rightarrow> pod list" where
  "owned_pods gs pods = filter (belongs_to gs) pods"

definition binds_agents :: "gateway_sync \<Rightarrow> pod list \<Rightarrow> role_binding \<Rightarrow> bool" where
  "binds_agents gs pods rb \<longleftrightarrow>
     set (map sb_name (rb_subjects rb)) =
       (if owned_pods gs pods = [] then {''default''} else service_account_of ` set (owned_pods gs pods)) \<and>
     distinct (map sb_name (rb_subjects rb)) \<and>
     list_all (\<lambda>x. sb_kind x = ''ServiceAccount'' \<and> sb_namespace x = gy_namespace gs) (rb_subjects rb)"

definition rbac_effect_ok :: "gateway_sync \<Rightarrow> pod list res \<Rightarrow> ctrl_effect \<Rightarrow> bool" where
  "rbac_effect_ok gs r e = (case r of
      Inl err \<Rightarrow> False
    | Inr pods \<Rightarrow> (case e of
        CreateRB rb owner ok \<Rightarrow> binds_agents gs pods rb \<and> owner = gy_name gs \<and> rb_role_name rb = ''stoker-agent'' \<and>
          rb_name rb = ''stoker-agent-'' @ gy_name gs \<and> rb_namespace rb = gy_namespace gs
      | UpdateRB rb ok \<Rightarrow> binds_agents gs pods rb \<and> rb_role_name rb = ''stoker-agent''
      | DeleteRB ns n ok \<Rightarrow> True
      | _ \<Rightarrow> False))"

lemma set_sorted_names: "set (sorted_names xs) = set xs" "distinct (sorted_names xs)" "sorted_names xs = [] \<longleftrightarrow> xs = []"
proof -
  show "set (sorted_names xs) = set xs" "distinct (sorted_names xs)" by (simp_all add: sorted_names_def)
  have "set (sorted_names xs) = {} \<longleftrightarrow> set xs = {}" by (simp add: sorted_names_def)
  then show "sorted_names xs = [] \<longleftrightarrow> xs = []" by simp
qed

definition desired_names :: "gateway_sync \<Rightarrow> pod list \<Rightarrow> string list" where
  "desired_names gs pods = (let names = sorted_names (map service_account_of (owned_pods gs pods))
     in if names = [] then [default_service_account] else names)"

lemma binds_desired: "rb_subjects rb = build_subjects (desired_names gs pods) (gy_namespace gs) \<Longrightarrow> binds_agents gs pods rb"
  by (auto simp: binds_agents_def build_subjects_def desired_names_def Let_def comp_def set_sorted_names
      default_service_account_def list_all_iff)

lemma bind_subjects_sends:
  "only.keeps (rbac_effect_ok gs (Inr pods)) (bind_subjects K gs (build_subjects (desired_names gs pods) (gy_namespace gs)))"
  unfolding bind_subjects_def
  by (intro only_intros only_logged)
    (auto simp: rbac_effect_ok_def new_role_binding_def agent_cluster_role_name_def agent_role_binding_name_def intro!: binds_desired)

text \<open>
  Whatever the state of the role binding, what the controller writes binds the agents' cluster
  role to exactly the service accounts of the resource's pods (to the namespace's default account
  when there is none), each once; when the pods cannot be listed it writes nothing, so an error never
  takes a running agent's rights away.
\<close>

theorem rbac_binding_covers:
  "wp (ensure_agent_role_binding K gs) (\<lambda>e t.
     list_all (rbac_effect_ok gs (fst (ka_list_pods K (gy_namespace gs) (io_env s)))) (sent s t) \<and>
     (case fst (ka_list_pods K (gy_namespace gs) (io_env s)) of Inl err \<Rightarrow> e \<noteq> None | Inr pods \<Rightarrow> True)) s"
proof (cases "fst (ka_list_pods K (gy_namespace gs) (io_env s))")
  case (Inl err)
  then show ?thesis by (simp add: ensure_agent_role_binding_def collect_service_accounts_def wp_rules)
next
  case (Inr pods)
  let ?s = "s\<lparr>io_env := snd (ka_list_pods K (gy_namespace gs) (io_env s))\<rparr>"
  have "list_all (rbac_effect_ok gs (Inr pods)) (sent s t)"
    if "run_state (bind_subjects K gs (build_subjects (desired_names gs pods) (gy_namespace gs))) ?s = (e, t)" for e t
  proof -
    from only.keepsD [OF bind_subjects_sends that] have "only_sent (rbac_effect_ok gs (Inr pods)) s t"
      by (simp add: only_sent_def)
    then show ?thesis by (simp add: only_sent_sent)
  qed
  with Inr show ?thesis
    by (auto simp: ensure_agent_role_binding_def collect_service_accounts_def wp_rules desired_names_def
        owned_pods_def Let_def intro!: wpI)
qed

subsection \<open>The reference\<close>

text \<open>The reference wanted, read off the resource.\<close>

definition wanted_ref :: "gateway_sync \<Rightarrow> string" where
  "wanted_ref gs = (case mget (om_annotations (gy_meta gs)) annotation_requested_ref of
      Some (c # cs) \<Rightarrow> c # cs
    | _ \<Rightarrow> gt_ref (ss_git (gy_spec gs)))"

lemma desired_ref_wanted: "desired_ref gs = wanted_ref gs"
  by (simp add: desired_ref_def wanted_ref_def requested_ref_def mstr_def split: option.splits list.splits)

definition ref_effect_ok :: "gateway_sync \<Rightarrow> ctrl_effect \<Rightarrow> bool" where
  "ref_effect_ok gs e = (case e of LsRemote u r \<Rightarrow> u = gt_repo (ss_git (gy_spec gs)) \<and> r = wanted_ref gs
    | Exchange k \<Rightarrow> gy_github_app gs \<noteq> None | Series m l v \<Rightarrow> gy_github_app gs \<noteq> None | _ \<Rightarrow> False)"

text \<open>
  The commit a listing of the remote gives a reference: itself when it is a hash, else the object
  of a tag, else of a branch, of its name; what an annotated tag points to comes first.
\<close>

definition names_commit :: "adv_refs \<Rightarrow> string \<Rightarrow> string \<Rightarrow> bool" where
  "names_commit ar ref c \<longleftrightarrow>
     (if is_hash ref then c = ref
      else case (mget (ar_peeled ar) (''refs/tags/'' @ ref), mget (ar_peeled ar) (''refs/heads/'' @ ref),
          mget (ar_references ar) (''refs/tags/'' @ ref), mget (ar_references ar) (''refs/heads/'' @ ref)) of
        (Some h, _, _, _) \<Rightarrow> c = h
      | (None, Some h, _, _) \<Rightarrow> c = h
      | (None, None, Some h, _) \<Rightarrow> c = h
      | (None, None, None, h) \<Rightarrow> h = Some c)"

definition from_remote :: "'k ctrl_api \<Rightarrow> gateway_sync \<Rightarrow> git_result \<Rightarrow> bool" where
  "from_remote K gs g \<longleftrightarrow> gr_ref g = wanted_ref gs \<and>
     (\<exists>auth k ar. fst (gi_advertised (ka_git K) (gt_repo (ss_git (gy_spec gs))) auth k) = Inr ar \<and>
        names_commit ar (wanted_ref gs) (gr_commit g))"

lemma match_ref_names: "match_ref ar ref u = Inr g \<Longrightarrow> gr_ref g = ref \<and> names_commit ar ref (gr_commit g)"
  by (auto simp: match_ref_def names_commit_def Let_def split: if_splits option.splits)

lemma ls_remote_names:
  "only.yields P (\<lambda>r. case r of Inl err \<Rightarrow> True | Inr g \<Rightarrow> gr_ref g = ref \<and>
     (\<exists>k ar. fst (gi_advertised G u a k) = Inr ar \<and> names_commit ar ref (gr_commit g))) (ls_remote G u ref a)"
proof -
  have adv: "only.yields P (\<lambda>x. case x of Inl err \<Rightarrow> True | Inr ar \<Rightarrow> \<exists>k. fst (gi_advertised G u a k) = Inr ar)
      (call (gi_advertised G u a))"
    by (rule yields_call) (auto split: sum.split)
  show ?thesis
    unfolding ls_remote_def
    by (intro only.yields_intros only.yields_ret only.yields_then [OF only_call] only.yields_bind [OF adv])
      (auto split: sum.splits dest!: match_ref_names)
qed

lemma controller_auth_sends: "only.keeps (ref_effect_ok gs) (controller_auth K gs)"
  unfolding controller_auth_def resolve_github_app_token_def exchange_app_token_def read_pem_def store_github_token_def
  by (intro only_intros only_env_ops only_modify_tokens)
    (auto simp: ref_effect_ok_def)

definition ask_remote :: "'k ctrl_api \<Rightarrow> gateway_sync \<Rightarrow> ('k ctrl_state, git_result res) state" where
  "ask_remote K gs = do {
     a \<leftarrow> controller_auth K gs;
     (case a of
        Inl err \<Rightarrow> ret (Inl err)
      | Inr auth \<Rightarrow> do {
          emit (LsRemote (gt_repo (ss_git (gy_spec gs))) (desired_ref gs));
          ls_remote (ka_git K) (gt_repo (ss_git (gy_spec gs))) (desired_ref gs) auth }) }"

lemma ask_remote_names:
  "only.yields (ref_effect_ok gs) (\<lambda>r. case r of Inl err \<Rightarrow> True | Inr g \<Rightarrow> from_remote K gs g) (ask_remote K gs)"
  unfolding ask_remote_def desired_ref_wanted
  by (rule only.yields_then [OF controller_auth_sends], intro only.yields_intros only.yields_ret
      only.yields_then [OF only_emit] only.yields_mono [OF ls_remote_names])
    (auto simp: ref_effect_ok_def from_remote_def split: sum.splits)

definition resolved_recently :: "'k ctrl_api \<Rightarrow> int \<Rightarrow> gateway_sync \<Rightarrow> bool" where
  "resolved_recently K now gs \<longleftrightarrow> (let st = gy_status gs in
     st_ref_resolution st = ''Resolved'' \<and> st_last_sync_ref st = wanted_ref gs \<and> st_last_sync_commit st \<noteq> [] \<and>
     (case st_last_sync_time st of None \<Rightarrow> False | Some t \<Rightarrow> now - t < polling_interval (ka_parse_duration K) gs))"

lemma resolve_ref_recent:
  assumes "run_state (resolve_ref K gs) s = (r, t)" "resolved_recently K (fst (ka_now K (io_env s))) gs"
  shows "r = Inr \<lparr>gr_commit = st_last_sync_commit (gy_status gs), gr_ref = wanted_ref gs\<rparr> \<and> sent s t = []"
  using assms
  by (auto simp: resolved_recently_def resolve_ref_def cached_resolution_def desired_ref_wanted Let_def split: option.splits)

lemma resolve_ref_asks:
  assumes "run_state (resolve_ref K gs) s = (r, t)" "\<not> resolved_recently K (fst (ka_now K (io_env s))) gs"
  obtains u where "run_state (ask_remote K gs) u = (r, t)" "io_log u = io_log s"
proof -
  have eq: "resolve_ref K gs = cached_resolution K gs \<bind> (\<lambda>c. case c of Some result \<Rightarrow> ret (Inr result) | None \<Rightarrow> ask_remote K gs)"
    by (simp add: resolve_ref_def ask_remote_def cong: option.case_cong)
  have "fst (run_state (cached_resolution K gs) s) = None \<and> io_log (snd (run_state (cached_resolution K gs) s)) = io_log s"
    using assms(2) by (auto simp: resolved_recently_def cached_resolution_def desired_ref_wanted Let_def split: option.split)
  then obtain u where "run_state (cached_resolution K gs) s = (None, u)" "io_log u = io_log s"
    by (cases "run_state (cached_resolution K gs) s") auto
  with assms(1) that show thesis by (simp add: eq)
qed

text \<open>
  C31: resolving asks the repository of the specification for the reference wanted (the webhook's
  when its annotation is set and not empty) and for no other. When the status says that this
  reference was resolved within the polling interval, the recorded commit is returned and nothing
  is sent; otherwise the commit returned is the one a listing of the remote gives the reference.
\<close>

theorem resolve_ref_spec:
  "wp (resolve_ref K gs) (\<lambda>r t. list_all (ref_effect_ok gs) (sent s t) \<and>
     (if resolved_recently K (fst (ka_now K (io_env s))) gs
      then r = Inr \<lparr>gr_commit = st_last_sync_commit (gy_status gs), gr_ref = wanted_ref gs\<rparr> \<and> sent s t = []
      else (case r of Inl err \<Rightarrow> True | Inr g \<Rightarrow> from_remote K gs g))) s"
proof (rule wpI)
  fix r t assume run: "run_state (resolve_ref K gs) s = (r, t)"
  show "list_all (ref_effect_ok gs) (sent s t) \<and>
     (if resolved_recently K (fst (ka_now K (io_env s))) gs
      then r = Inr \<lparr>gr_commit = st_last_sync_commit (gy_status gs), gr_ref = wanted_ref gs\<rparr> \<and> sent s t = []
      else (case r of Inl err \<Rightarrow> True | Inr g \<Rightarrow> from_remote K gs g))"
  proof (cases "resolved_recently K (fst (ka_now K (io_env s))) gs")
    case True
    with resolve_ref_recent [OF run] show ?thesis by simp
  next
    case False
    from resolve_ref_asks [OF run False] obtain u where u: "run_state (ask_remote K gs) u = (r, t)" "io_log u = io_log s" .
    have "only_sent (ref_effect_ok gs) s t" "case r of Inl err \<Rightarrow> True | Inr g \<Rightarrow> from_remote K gs g"
      using only.yieldsD [OF ask_remote_names u(1)] u(2) by (simp_all add: only_sent_def)
    with False show ?thesis by (simp add: only_sent_sent)
  qed
qed

end
