(* ===== verification/SampleResource.thy ===== *)
theory SampleResource
  imports PodTypes
begin

section \<open>A sample resource and a sample pod\<close>

text \<open>
  A resource with one profile, a variant with GitHub App credentials, and a gateway pod that asks for the
  agent: the inputs on which the theorems of several components are applied.
\<close>

definition sample_meta :: object_meta where
  "sample_meta = \<lparr>om_name = ''cr'', om_namespace = ''ns'', om_labels = [], om_annotations = [], om_resource_version = ''1'',
     om_generation = 1, om_finalizers = [stoker_finalizer], om_deletion_timestamp = None\<rparr>"

definition sample_spec_profile :: sync_profile_spec where
  "sample_spec_profile = \<lparr>sp_mappings = [\<lparr>sm_source = ''cfg'', sm_destination = ''config'', sm_type = ''dir'',
       sm_required = True, sm_template = False, sm_patches = []\<rparr>], sp_exclude_patterns = [], sp_vars = [],
     sp_sync_period = None, sp_dry_run = None, sp_designer_policy = [], sp_paused = None\<rparr>"

definition sample_gs :: gateway_sync where
  "sample_gs = \<lparr>gy_meta = sample_meta,
     gy_spec = \<lparr>ss_git = \<lparr>gt_repo = ''https://host/r'', gt_ref = ''main'', gt_auth = None\<rparr>,
       ss_polling = \<lparr>po_enabled = None, po_interval = []\<rparr>,
       ss_gateway = \<lparr>gw_port = 8088, gw_tls = Some False, gw_secret_name = ''key'', gw_secret_key = ''apiKey''\<rparr>,
       ss_defaults = \<lparr>df_exclude_patterns = [], df_vars = [], df_sync_period = 0, df_designer_policy = [], df_dry_run = False, df_paused = False\<rparr>,
       ss_profiles = [(''default'', sample_spec_profile)],
       ss_agent = \<lparr>ag_repository = [], ag_tag = [], ag_pull_policy = [], ag_resources = None\<rparr>, ss_paused = False\<rparr>,
     gy_status = \<lparr>st_observed_generation = 0, st_last_sync_time = None, st_last_sync_ref = [], st_last_sync_commit = [],
       st_last_sync_commit_short = [], st_ref_resolution = [], st_profile_count = 0, st_discovered = [], st_conditions = []\<rparr>\<rparr>"

definition sample_app_gs :: gateway_sync where
  "sample_app_gs = sample_gs\<lparr>gy_spec := (gy_spec sample_gs)\<lparr>ss_git := (ss_git (gy_spec sample_gs))\<lparr>gt_auth :=
     Some \<lparr>au_ssh_key = None, au_github_app = Some \<lparr>ga_app_id = 1, ga_installation_id = 2,
         ga_private_key_secret_ref = \<lparr>sk_name = ''app'', sk_key = ''pem''\<rparr>, ga_api_base_url = []\<rparr>, au_token = None\<rparr>\<rparr>\<rparr>\<rparr>"

definition sample_container :: container where
  "sample_container = \<lparr>co_name = ''gateway'', co_image = ''ignition'', co_image_pull_policy = [], co_command = [],
     co_restart_policy = None, co_env = [], co_resources = \<lparr>rr_limits = [], rr_requests = []\<rparr>, co_ports = [],
     co_security_context = None, co_startup_probe = None, co_liveness_probe = None, co_readiness_probe = None,
     co_volume_mounts = [\<lparr>vm_name = ''data'', vm_mount_path = ''/data'', vm_read_only = False\<rparr>]\<rparr>"

definition sample_pod :: pod where
  "sample_pod = \<lparr>pd_meta = \<lparr>om_name = ''ign-0'', om_namespace = ''ns'', om_labels = [],
       om_annotations = [(annotation_inject, ''true''), (annotation_cr_name, ''cr'')], om_resource_version = [],
       om_generation = 0, om_finalizers = [], om_deletion_timestamp = None\<rparr>,
     pd_phase = ''Pending'', pd_service_account = [], pd_containers = [sample_container], pd_init_containers = [],
     pd_volumes = [\<lparr>vo_name = ''data'', vo_source = OtherVolume ''pvc''\<rparr>]\<rparr>"

end
