(* ===== verification/ControllerCleanup.thy ===== *)
theory ControllerCleanup
  imports ControllerLaws
begin

section \<open>Deletion removes everything before it lets the resource go\<close>

text \<open>
  The laws of the API the controller relies on, as two locales, and that a cleanup without error leaves
  nothing. \<open>shrinks\<close>: no object is there that was not before.
\<close>

definition shrinks :: "('k \<Rightarrow> string \<Rightarrow> string \<Rightarrow> bool) \<Rightarrow> ('k \<Rightarrow> string \<Rightarrow> string \<Rightarrow> bool) \<Rightarrow> 'k \<Rightarrow> 'k \<Rightarrow> bool" where
  "shrinks has_cm has_secret k k' \<longleftrightarrow>
     (\<forall>ns n. (has_cm k' ns n \<longrightarrow> has_cm k ns n) \<and> (has_secret k' ns n \<longrightarrow> has_secret k ns n))"

definition absent :: "goerror option \<Rightarrow> bool" where
  "absent e = (case e of None \<Rightarrow> True | Some err \<Rightarrow> api_is NotFound err)"

definition nothing_left :: "('k \<Rightarrow> string \<Rightarrow> string \<Rightarrow> bool) \<Rightarrow> ('k \<Rightarrow> string \<Rightarrow> string \<Rightarrow> bool) \<Rightarrow> gateway_sync \<Rightarrow> 'k \<Rightarrow> bool" where
  "nothing_left has_cm has_secret gs k \<longleftrightarrow>
     list_all (\<lambda>n. \<not> has_cm k (gy_namespace gs) n) (owned_config_maps gs) \<and>
     \<not> has_secret k (gy_namespace gs) (github_token_secret_name (gy_name gs))"

lemma run_drop_series:
  "run_state (drop_series labels ms) s = ((), s\<lparr>io_log := rev (map (\<lambda>m. DropSeries m labels) ms) @ io_log s\<rparr>)"
  by (induction labels ms arbitrary: s rule: drop_series.induct) simp_all

text \<open>A Get that answers an object answers the one asked for.\<close>

locale object_store =
  fixes K :: "'k ctrl_api"
  assumes get_gs_found: "fst (ka_get_gs K (ns, n) k) = Inr gs \<Longrightarrow> gy_namespace gs = ns \<and> gy_name gs = n"
    and get_cm_found: "fst (ka_get_cm K ns n k) = Inr cm \<Longrightarrow> cm_namespace cm = ns \<and> cm_name cm = n"
    and get_secret_found: "fst (ka_get_secret K ns n k) = Inr se \<Longrightarrow> se_namespace se = ns \<and> se_name se = n"
    and get_rb_found: "fst (ka_get_rb K ns n k) = Inr rb \<Longrightarrow> rb_namespace rb = ns \<and> rb_name rb = n"

text \<open>
  The laws the cleanup relies on besides. \<open>has_cm\<close> and \<open>has_secret\<close> say which objects exist in a state
  of the cluster. A Get that answers NotFound means the object does not exist; after a Delete that
  succeeds or answers NotFound the object does not exist; none of these calls, nor an update of the
  resource, creates a ConfigMap or a Secret, nor does anyone else meanwhile.
\<close>

locale cluster_laws = object_store K for K :: "'k ctrl_api" +
  fixes has_cm :: "'k \<Rightarrow> string \<Rightarrow> string \<Rightarrow> bool"
    and has_secret :: "'k \<Rightarrow> string \<Rightarrow> string \<Rightarrow> bool"
  assumes get_cm_shrinks: "shrinks has_cm has_secret k (snd (ka_get_cm K ns n k))"
    and get_secret_shrinks: "shrinks has_cm has_secret k (snd (ka_get_secret K ns n k))"
    and delete_cm_shrinks: "shrinks has_cm has_secret k (snd (ka_delete_cm K cm k))"
    and delete_secret_shrinks: "shrinks has_cm has_secret k (snd (ka_delete_secret K se k))"
    and update_gs_shrinks: "shrinks has_cm has_secret k (snd (ka_update_gs K gs k))"
    and get_cm_absent: "fst (ka_get_cm K ns n k) = Inl e \<Longrightarrow> api_is NotFound e \<Longrightarrow> \<not> has_cm (snd (ka_get_cm K ns n k)) ns n"
    and get_secret_absent: "fst (ka_get_secret K ns n k) = Inl e \<Longrightarrow> api_is NotFound e \<Longrightarrow> \<not> has_secret (snd (ka_get_secret K ns n k)) ns n"
    and delete_cm_done: "absent (fst (ka_delete_cm K cm k)) \<Longrightarrow> \<not> has_cm (snd (ka_delete_cm K cm k)) (cm_namespace cm) (cm_name cm)"
    and delete_secret_done: "absent (fst (ka_delete_secret K se k)) \<Longrightarrow> \<not> has_secret (snd (ka_delete_secret K se k)) (se_namespace se) (se_name se)"
begin

lemma shrinks_refl: "shrinks has_cm has_secret k k"
  by (simp add: shrinks_def)

lemma shrinks_trans: "shrinks has_cm has_secret k k' \<Longrightarrow> shrinks has_cm has_secret k' k'' \<Longrightarrow> shrinks has_cm has_secret k k''"
  by (simp add: shrinks_def)

lemma gone_cm: "shrinks has_cm has_secret k k' \<Longrightarrow> \<not> has_cm k ns n \<Longrightarrow> \<not> has_cm k' ns n"
  by (auto simp: shrinks_def)

lemma gone_secret: "shrinks has_cm has_secret k k' \<Longrightarrow> \<not> has_secret k ns n \<Longrightarrow> \<not> has_secret k' ns n"
  by (auto simp: shrinks_def)

lemma ignore_not_found_None: "ignore_not_found m e = None \<longleftrightarrow> absent e"
  by (simp add: ignore_not_found_def absent_def split: option.splits)

text \<open>What a list of ConfigMaps is after its deletion succeeded.\<close>

lemma delete_config_maps_gone:
  assumes "run_state (delete_config_maps K gs ns) s = (e, t)"
  shows "shrinks has_cm has_secret (io_env s) (io_env t) \<and>
    (e = None \<longrightarrow> (\<forall>n \<in> set ns. \<not> has_cm (io_env t) (gy_namespace gs) n))"
  using assms
proof (induction ns arbitrary: s)
  case Nil
  then show ?case by (simp add: shrinks_refl)
next
  case (Cons n ns)
  let ?g = "ka_get_cm K (gy_namespace gs) n (io_env s)"
  let ?s = "s\<lparr>io_env := snd ?g\<rparr>"
  note sg = get_cm_shrinks [of "io_env s" "gy_namespace gs" n]
  show ?case
  proof (cases "fst ?g")
    case (Inl err)
    show ?thesis
    proof (cases "api_is NotFound err")
      case True
      with Cons.prems Inl have run: "run_state (delete_config_maps K gs ns) ?s = (e, t)" by simp
      note ih = Cons.IH [OF run, simplified]
      from ih have st: "shrinks has_cm has_secret (snd ?g) (io_env t)" by simp
      from gone_cm [OF st get_cm_absent [OF Inl True]] ih shrinks_trans [OF sg st] show ?thesis by simp
    next
      case False
      with Cons.prems Inl sg show ?thesis by auto
    qed
  next
    case (Inr cm)
    from get_cm_found [OF Inr] have cm: "cm_namespace cm = gy_namespace gs" "cm_name cm = n" by auto
    let ?d = "ka_delete_cm K cm (snd ?g)"
    let ?u = "s\<lparr>io_env := snd ?d, io_log := DeleteCM (cm_namespace cm) (cm_name cm) (fst ?d = None) # io_log s\<rparr>"
    have sd: "shrinks has_cm has_secret (io_env s) (snd ?d)" by (rule shrinks_trans [OF sg delete_cm_shrinks])
    show ?thesis
    proof (cases "ignore_not_found (''deleting ConfigMap '' @ n) (fst ?d)")
      case None
      then have run: "run_state (delete_config_maps K gs ns) ?u = (e, t)" using Cons.prems Inr by (simp add: logged_def)
      note ih = Cons.IH [OF run, simplified]
      from ih have st: "shrinks has_cm has_secret (snd ?d) (io_env t)" by simp
      from None delete_cm_done [of cm "snd ?g"] cm have "\<not> has_cm (snd ?d) (gy_namespace gs) n"
        by (simp add: ignore_not_found_None)
      from gone_cm [OF st this] ih shrinks_trans [OF sd st] show ?thesis by simp
    next
      case (Some err)
      with Cons.prems Inr sd show ?thesis by (auto simp: logged_def)
    qed
  qed
qed

lemma delete_token_secret_gone:
  assumes "run_state (delete_token_secret K gs) s = (e, t)"
  shows "shrinks has_cm has_secret (io_env s) (io_env t) \<and>
    (e = None \<longrightarrow> \<not> has_secret (io_env t) (gy_namespace gs) (github_token_secret_name (gy_name gs)))"
proof -
  let ?n = "github_token_secret_name (gy_name gs)"
  let ?g = "ka_get_secret K (gy_namespace gs) ?n (io_env s)"
  note sg = get_secret_shrinks [of "io_env s" "gy_namespace gs" ?n]
  show ?thesis
  proof (cases "fst ?g")
    case (Inl err)
    with assms sg get_secret_absent [OF Inl] show ?thesis
      by (auto simp: delete_token_secret_def Let_def ignore_not_found_None absent_def)
  next
    case (Inr se)
    from get_secret_found [OF Inr] have se: "se_namespace se = gy_namespace gs" "se_name se = ?n" by auto
    have sd: "shrinks has_cm has_secret (io_env s) (snd (ka_delete_secret K se (snd ?g)))"
      by (rule shrinks_trans [OF sg delete_secret_shrinks])
    with assms Inr se delete_secret_done [of se "snd ?g"] show ?thesis
      by (auto simp: delete_token_secret_def Let_def logged_def ignore_not_found_None)
  qed
qed


lemma cleanup_leaves_nothing:
  assumes "run_state (cleanup_owned_resources K gs) s = (None, t)"
  shows "nothing_left has_cm has_secret gs (io_env t)"
proof -
  let ?s = "s\<lparr>io_log := rev (map (\<lambda>m. DropSeries m [gy_name gs, gy_namespace gs]) cr_metrics) @ io_log s\<rparr>"
  obtain e u where e: "run_state (delete_config_maps K gs (owned_config_maps gs)) ?s = (e, u)" by (rule prod.exhaust)
  with assms have "e = None" "run_state (delete_token_secret K gs) u = (None, t)"
    by (auto simp: cleanup_owned_resources_def cleanup_cr_metrics_def run_drop_series split: option.splits)
  with delete_config_maps_gone [OF e] delete_token_secret_gone [of gs u None t] show ?thesis
    by (auto simp: nothing_left_def list_all_iff dest: gone_cm)
qed

lemma nothing_left_shrinks:
  "shrinks has_cm has_secret k k' \<Longrightarrow> nothing_left has_cm has_secret gs k \<Longrightarrow> nothing_left has_cm has_secret gs k'"
  by (auto simp: nothing_left_def list_all_iff dest: gone_cm gone_secret)

end

end
