(* ===== verification/ClusterStore.thy ===== *)
theory ClusterStore
  imports ControllerCleanup
begin

section \<open>A cluster that keeps its objects\<close>


text \<open>
  An API server as a store: Get finds by namespace and name, Create adds, Update replaces the object
  of the name, Delete removes it; each answers NotFound, AlreadyExists or Conflict, as the API does.
  Every write of a ConfigMap or a resource gives it a new version, and an update with another version
  than the stored one is refused. A resource has a status subresource: an update leaves the status, a
  patch of the status only sets it. An update that drops the last finalizer of a deleted resource removes it.
\<close>

record cluster =
  cl_cms :: "config_map list"
  cl_secrets :: "secret_obj list"
  cl_gs :: "gateway_sync list"
  cl_pods :: "pod list"
  cl_rbs :: "role_binding list"
  cl_time :: int
  cl_rev :: nat

definition not_found :: "string \<Rightarrow> goerror" where
  "not_found name = ApiError NotFound (name @ '' not found'')"

definition lookup_in :: "'a list \<Rightarrow> ('a \<Rightarrow> bool) \<Rightarrow> string \<Rightarrow> 'a res" where
  "lookup_in xs P name = (case find P xs of None \<Rightarrow> Inl (not_found name) | Some x \<Rightarrow> Inr x)"

definition is_cm :: "string \<Rightarrow> string \<Rightarrow> config_map \<Rightarrow> bool" where
  "is_cm ns n cm \<longleftrightarrow> cm_namespace cm = ns \<and> cm_name cm = n"

definition is_secret :: "string \<Rightarrow> string \<Rightarrow> secret_obj \<Rightarrow> bool" where
  "is_secret ns n se \<longleftrightarrow> se_namespace se = ns \<and> se_name se = n"

definition is_gs :: "string \<Rightarrow> string \<Rightarrow> gateway_sync \<Rightarrow> bool" where
  "is_gs ns n gs \<longleftrightarrow> gy_namespace gs = ns \<and> gy_name gs = n"

definition is_rb :: "string \<Rightarrow> string \<Rightarrow> role_binding \<Rightarrow> bool" where
  "is_rb ns n rb \<longleftrightarrow> rb_namespace rb = ns \<and> rb_name rb = n"

definition delete_from :: "'a list \<Rightarrow> ('a \<Rightarrow> bool) \<Rightarrow> string \<Rightarrow> goerror option \<times> 'a list" where
  "delete_from xs P name = (if list_ex P xs then (None, filter (\<lambda>x. \<not> P x) xs) else (Some (not_found name), xs))"

definition create_in :: "'a list \<Rightarrow> ('a \<Rightarrow> bool) \<Rightarrow> string \<Rightarrow> 'a \<Rightarrow> goerror option \<times> 'a list" where
  "create_in xs P name x = (if list_ex P xs then (Some (ApiError AlreadyExists (name @ '' already exists'')), xs) else (None, x # xs))"

definition update_in :: "'a list \<Rightarrow> ('a \<Rightarrow> bool) \<Rightarrow> string \<Rightarrow> 'a \<Rightarrow> goerror option \<times> 'a list" where
  "update_in xs P name x = (if list_ex P xs then (None, map (\<lambda>y. if P y then x else y) xs) else (Some (not_found name), xs))"

text \<open>A remote that advertises its references and answers every other call with an error.\<close>

definition remote_only :: "adv_refs \<Rightarrow> 'k git_api" where
  "remote_only refs = (let err = Errorf ''not available'' in \<lparr>
     gi_now = (\<lambda>k. (0, k)), gi_parse_endpoint = (\<lambda>u. None), gi_new_transport = (\<lambda>u. None),
     gi_open_session = (\<lambda>u a k. (None, k)), gi_advertised = (\<lambda>u a k. (Inr refs, k)),
     gi_parse_ssh_key = (\<lambda>p. None), gi_new_known_hosts = (\<lambda>d k. (None, k)), gi_pem_decode = (\<lambda>p. None),
     gi_parse_pkcs1 = (\<lambda>b. Inl err), gi_parse_pkcs8 = (\<lambda>b. Inl err), gi_sign_jwt = (\<lambda>k c. Inl err),
     gi_new_request = (\<lambda>u. None), gi_http_do = (\<lambda>r k. (Inl err, k)), gi_decode_token = (\<lambda>t. Inl err),
     gi_plain_clone = (\<lambda>p u a d k. (Some err, k)), gi_plain_open = (\<lambda>p k. (Some err, k)),
     gi_remote_urls = (\<lambda>p r k. (Inl err, k)), gi_delete_remote = (\<lambda>p r k. (Some err, k)),
     gi_create_remote = (\<lambda>p r us k. (Some err, k)), gi_fetch = (\<lambda>p a k. (Some err, k)),
     gi_already_up_to_date = (\<lambda>e. False), gi_worktree = (\<lambda>p k. (Some err, k)), gi_tag = (\<lambda>p t k. (Inl err, k)),
     gi_resolve_revision = (\<lambda>p r k. (Inl err, k)), gi_checkout = (\<lambda>p h k. (Some err, k)), gi_stat = (\<lambda>p k. (Some err, k))\<rparr>)"

subsection \<open>Writes\<close>

definition revision :: "nat \<Rightarrow> string" where
  "revision n = ''rv'' @ replicate n (CHR ''i'')"

definition conflict :: "string \<Rightarrow> goerror" where
  "conflict name = ApiError Conflict (name @ '' was modified'')"

definition store_create_cm :: "config_map \<Rightarrow> cluster \<Rightarrow> goerror option \<times> cluster" where
  "store_create_cm cm k = (case create_in (cl_cms k) (is_cm (cm_namespace cm) (cm_name cm)) (cm_name cm)
       (cm\<lparr>cm_resource_version := revision (cl_rev k)\<rparr>) of
       (None, l) \<Rightarrow> (None, k\<lparr>cl_cms := l, cl_rev := Suc (cl_rev k)\<rparr>)
     | (Some e, l) \<Rightarrow> (Some e, k))"

text \<open>An update without a version is unconditional.\<close>

definition store_update_cm :: "config_map \<Rightarrow> cluster \<Rightarrow> goerror option \<times> cluster" where
  "store_update_cm cm k = (case lookup_in (cl_cms k) (is_cm (cm_namespace cm) (cm_name cm)) (cm_name cm) of
      Inl e \<Rightarrow> (Some e, k)
    | Inr old \<Rightarrow>
        if cm_resource_version cm \<noteq> [] \<and> cm_resource_version cm \<noteq> cm_resource_version old then (Some (conflict (cm_name cm)), k)
        else (case update_in (cl_cms k) (is_cm (cm_namespace cm) (cm_name cm)) (cm_name cm)
            (cm\<lparr>cm_resource_version := revision (cl_rev k)\<rparr>) of (e, l) \<Rightarrow> (e, k\<lparr>cl_cms := l, cl_rev := Suc (cl_rev k)\<rparr>)))"

definition store_delete_cm :: "config_map \<Rightarrow> cluster \<Rightarrow> goerror option \<times> cluster" where
  "store_delete_cm cm k = (case delete_from (cl_cms k) (is_cm (cm_namespace cm) (cm_name cm)) (cm_name cm) of (e, l) \<Rightarrow> (e, k\<lparr>cl_cms := l\<rparr>))"

definition store_create_secret :: "secret_obj \<Rightarrow> cluster \<Rightarrow> goerror option \<times> cluster" where
  "store_create_secret se k = (case create_in (cl_secrets k) (is_secret (se_namespace se) (se_name se)) (se_name se) se of
     (e, l) \<Rightarrow> (e, k\<lparr>cl_secrets := l\<rparr>))"

definition store_update_secret :: "secret_obj \<Rightarrow> cluster \<Rightarrow> goerror option \<times> cluster" where
  "store_update_secret se k = (case update_in (cl_secrets k) (is_secret (se_namespace se) (se_name se)) (se_name se) se of
     (e, l) \<Rightarrow> (e, k\<lparr>cl_secrets := l\<rparr>))"

definition store_delete_secret :: "secret_obj \<Rightarrow> cluster \<Rightarrow> goerror option \<times> cluster" where
  "store_delete_secret se k = (case delete_from (cl_secrets k) (is_secret (se_namespace se) (se_name se)) (se_name se) of
     (e, l) \<Rightarrow> (e, k\<lparr>cl_secrets := l\<rparr>))"

definition store_create_rb :: "role_binding \<Rightarrow> cluster \<Rightarrow> goerror option \<times> cluster" where
  "store_create_rb rb k = (case create_in (cl_rbs k) (is_rb (rb_namespace rb) (rb_name rb)) (rb_name rb) rb of
     (e, l) \<Rightarrow> (e, k\<lparr>cl_rbs := l\<rparr>))"

definition store_update_rb :: "role_binding \<Rightarrow> cluster \<Rightarrow> goerror option \<times> cluster" where
  "store_update_rb rb k = (case update_in (cl_rbs k) (is_rb (rb_namespace rb) (rb_name rb)) (rb_name rb) rb of
     (e, l) \<Rightarrow> (e, k\<lparr>cl_rbs := l\<rparr>))"

definition store_delete_rb :: "role_binding \<Rightarrow> cluster \<Rightarrow> goerror option \<times> cluster" where
  "store_delete_rb rb k = (case delete_from (cl_rbs k) (is_rb (rb_namespace rb) (rb_name rb)) (rb_name rb) of
     (e, l) \<Rightarrow> (e, k\<lparr>cl_rbs := l\<rparr>))"

lemmas store_object_defs = store_delete_cm_def store_create_secret_def store_update_secret_def store_delete_secret_def
  store_create_rb_def store_update_rb_def store_delete_rb_def

definition find_gs :: "cluster \<Rightarrow> namespaced_name \<Rightarrow> gateway_sync res" where
  "find_gs k req = lookup_in (cl_gs k) (is_gs (fst req) (snd req)) (snd req)"

definition set_version :: "string \<Rightarrow> gateway_sync \<Rightarrow> gateway_sync" where
  "set_version v gs = gs\<lparr>gy_meta := (gy_meta gs)\<lparr>om_resource_version := v\<rparr>\<rparr>"

definition finished :: "gateway_sync \<Rightarrow> bool" where
  "finished gs \<longleftrightarrow> om_deletion_timestamp (gy_meta gs) \<noteq> None \<and> om_finalizers (gy_meta gs) = []"

definition put_gs :: "gateway_sync \<Rightarrow> cluster \<Rightarrow> cluster" where
  "put_gs gs k = (let P = is_gs (gy_namespace gs) (gy_name gs) in
     k\<lparr>cl_gs := (if finished gs then filter (\<lambda>y. \<not> P y) (cl_gs k)
                else map (\<lambda>y. if P y then set_version (revision (cl_rev k)) gs else y) (cl_gs k)),
       cl_rev := Suc (cl_rev k)\<rparr>)"

definition store_update_gs :: "gateway_sync \<Rightarrow> cluster \<Rightarrow> goerror option \<times> cluster" where
  "store_update_gs gs k = (case find_gs k (gy_namespace gs, gy_name gs) of
      Inl e \<Rightarrow> (Some e, k)
    | Inr cur \<Rightarrow>
        if om_resource_version (gy_meta gs) \<noteq> om_resource_version (gy_meta cur) then (Some (conflict (gy_name gs)), k)
        else (None, put_gs (gs\<lparr>gy_status := gy_status cur\<rparr>) k))"

text \<open>A merge patch of the annotations: what is different in the second map, or gone from it.\<close>

definition merge_diff :: "(string, string) gomap \<Rightarrow> (string, string) gomap \<Rightarrow> (string, string) gomap \<Rightarrow> (string, string) gomap" where
  "merge_diff base new cur =
     fold (\<lambda>(a, v) m. if mget base a = Some v then m else mput m a v) new
       (fold (\<lambda>a m. if mget new a = None then mdel m a else m) (mkeys base) cur)"

definition store_patch_gs :: "gateway_sync \<Rightarrow> gateway_sync \<Rightarrow> cluster \<Rightarrow> goerror option \<times> cluster" where
  "store_patch_gs gs base k = (case find_gs k (gy_namespace gs, gy_name gs) of
      Inl e \<Rightarrow> (Some e, k)
    | Inr cur \<Rightarrow> (None, put_gs (map_annotations (merge_diff (om_annotations (gy_meta base)) (om_annotations (gy_meta gs))) cur) k))"

definition store_patch_status :: "gateway_sync \<Rightarrow> gateway_sync \<Rightarrow> cluster \<Rightarrow> gateway_sync res \<times> cluster" where
  "store_patch_status gs base k = (case find_gs k (gy_namespace gs, gy_name gs) of
      Inl e \<Rightarrow> (Inl e, k)
    | Inr cur \<Rightarrow> (let new = cur\<lparr>gy_status := gy_status gs\<rparr> in (Inr (set_version (revision (cl_rev k)) new), put_gs new k)))"

definition store_api :: "cluster git_api \<Rightarrow> ((string, resolved_profile) gomap \<Rightarrow> string) \<Rightarrow> bool \<Rightarrow> cluster ctrl_api" where
  "store_api G encode autoBind = \<lparr>
     ka_get_gs = (\<lambda>req k. (find_gs k req, k)),
     ka_update_gs = store_update_gs,
     ka_patch_gs = store_patch_gs,
     ka_patch_status = store_patch_status,
     ka_set_owner = (\<lambda>gs. None),
     ka_get_cm = (\<lambda>ns n k. (lookup_in (cl_cms k) (is_cm ns n) n, k)),
     ka_create_cm = store_create_cm,
     ka_update_cm = store_update_cm,
     ka_delete_cm = store_delete_cm,
     ka_get_secret = (\<lambda>ns n k. (lookup_in (cl_secrets k) (is_secret ns n) n, k)),
     ka_create_secret = store_create_secret,
     ka_update_secret = store_update_secret,
     ka_delete_secret = store_delete_secret,
     ka_list_pods = (\<lambda>ns k. (Inr (filter (\<lambda>p. om_namespace (pd_meta p) = ns) (cl_pods k)), k)),
     ka_get_rb = (\<lambda>ns n k. (lookup_in (cl_rbs k) (is_rb ns n) n, k)),
     ka_create_rb = store_create_rb,
     ka_update_rb = store_update_rb,
     ka_delete_rb = store_delete_rb,
     ka_git = G,
     ka_now = (\<lambda>k. (cl_time k, k\<lparr>cl_time := cl_time k + sec 1\<rparr>)),
     ka_parse_duration = (\<lambda>t. Some (sec 60)), ka_format_duration = (\<lambda>d. itoa (d div sec 1) @ ''s''),
     ka_parse_time = (\<lambda>t. None), ka_encode_profiles = encode,
     ka_decode_status = (\<lambda>t. Inl (Errorf ''not JSON'')), ka_auto_bind_rbac = autoBind\<rparr>"

definition has_cm :: "cluster \<Rightarrow> string \<Rightarrow> string \<Rightarrow> bool" where
  "has_cm k ns n = list_ex (is_cm ns n) (cl_cms k)"

definition has_secret :: "cluster \<Rightarrow> string \<Rightarrow> string \<Rightarrow> bool" where
  "has_secret k ns n = list_ex (is_secret ns n) (cl_secrets k)"

lemma lookup_in_Inl: "lookup_in xs P n = Inl e \<longleftrightarrow> e = not_found n \<and> \<not> list_ex P xs"
  by (induction xs) (auto simp: lookup_in_def)

lemma lookup_in_Inr: "lookup_in xs P n = Inr x \<Longrightarrow> P x"
  by (auto simp: lookup_in_def find_Some_iff split: option.splits)

lemma delete_from_keeps: "list_ex Q (snd (delete_from xs P n)) \<Longrightarrow> list_ex Q xs"
  by (auto simp: delete_from_def list_ex_iff split: if_splits)

lemma delete_from_gone [simp]: "list_ex P (snd (delete_from xs P n)) = False"
  by (auto simp: delete_from_def list_ex_iff)

lemma lookup_create: "create_in xs P n x = (None, l) \<Longrightarrow> P x \<Longrightarrow> lookup_in l P n = Inr x"
  by (auto simp: create_in_def lookup_in_def split: if_splits)

lemma lookup_update: "update_in xs P n x = (None, l) \<Longrightarrow> P x \<Longrightarrow> lookup_in l P n = Inr x"
proof -
  have "find P (map (\<lambda>y. if P y then x else y) xs) = Some x" if "list_ex P xs" "P x"
    using that by (induction xs) auto
  then show "update_in xs P n x = (None, l) \<Longrightarrow> P x \<Longrightarrow> lookup_in l P n = Inr x"
    by (auto simp: update_in_def lookup_in_def split: if_splits)
qed

lemma lookup_in_ex: "lookup_in xs P n = Inr x \<Longrightarrow> list_ex P xs"
  by (auto simp: lookup_in_def list_ex_iff find_Some_iff split: option.splits)

text \<open>A ConfigMap is found as it was written.\<close>

abbreviation stamped :: "cluster \<Rightarrow> config_map \<Rightarrow> config_map" where
  "stamped k cm \<equiv> cm\<lparr>cm_resource_version := revision (cl_rev k)\<rparr>"

lemma store_create_cm_new:
  assumes "lookup_in (cl_cms k) (is_cm ns n) n = Inl e" "cm_namespace cm = ns" "cm_name cm = n"
  shows "fst (store_create_cm cm k) = None"
    "lookup_in (cl_cms (snd (store_create_cm cm k))) (is_cm ns n) n = Inr (stamped k cm)"
proof -
  from assms have c: "create_in (cl_cms k) (is_cm ns n) n (stamped k cm) = (None, stamped k cm # cl_cms k)"
    by (simp add: create_in_def lookup_in_Inl)
  show "fst (store_create_cm cm k) = None" by (simp add: store_create_cm_def assms c)
  from lookup_create [OF c] show "lookup_in (cl_cms (snd (store_create_cm cm k))) (is_cm ns n) n = Inr (stamped k cm)"
    by (simp add: store_create_cm_def assms c is_cm_def)
qed

lemma store_update_cm_found:
  assumes "lookup_in (cl_cms k) (is_cm ns n) n = Inr old" "cm_namespace cm = ns" "cm_name cm = n"
    "cm_resource_version cm = cm_resource_version old"
  shows "fst (store_update_cm cm k) = None"
    "lookup_in (cl_cms (snd (store_update_cm cm k))) (is_cm ns n) n = Inr (stamped k cm)"
proof -
  from assms(1) obtain l where u: "update_in (cl_cms k) (is_cm ns n) n (stamped k cm) = (None, l)"
    by (auto simp: update_in_def dest: lookup_in_ex)
  show "fst (store_update_cm cm k) = None" by (simp add: store_update_cm_def assms u)
  from lookup_update [OF u] show "lookup_in (cl_cms (snd (store_update_cm cm k))) (is_cm ns n) n = Inr (stamped k cm)"
    by (simp add: store_update_cm_def assms u is_cm_def)
qed

lemma find_gs_found: "find_gs k req = Inr gs \<Longrightarrow> gy_namespace gs = fst req \<and> gy_name gs = snd req"
  by (auto simp: find_gs_def is_gs_def dest: lookup_in_Inr)

text \<open>What a write of a resource leaves.\<close>

lemma put_gs_keeps [simp]:
  "cl_cms (put_gs gs k) = cl_cms k" "cl_secrets (put_gs gs k) = cl_secrets k" "cl_pods (put_gs gs k) = cl_pods k"
  "cl_rbs (put_gs gs k) = cl_rbs k" "cl_time (put_gs gs k) = cl_time k"
  by (simp_all add: put_gs_def Let_def)

lemma store_update_gs_keeps [simp]:
  "cl_cms (snd (store_update_gs gs k)) = cl_cms k" "cl_secrets (snd (store_update_gs gs k)) = cl_secrets k"
  by (simp_all add: store_update_gs_def split: sum.split)

interpretation store_objects: object_store "store_api G encode autoBind" for G encode autoBind
  by unfold_locales (auto simp: store_api_def is_cm_def is_secret_def is_rb_def dest: lookup_in_Inr find_gs_found)

interpretation store: cluster_laws "store_api G encode autoBind" has_cm has_secret for G encode autoBind
proof (unfold_locales, goal_cases)
  case (6 ns n k e) then show ?case by (auto simp: store_api_def has_cm_def has_secret_def lookup_in_Inl)
next
  case (7 ns n k e) then show ?case by (auto simp: store_api_def has_cm_def has_secret_def lookup_in_Inl)
qed (auto simp: store_api_def store_object_defs shrinks_def has_cm_def has_secret_def lookup_in_Inl case_prod_beta
    dest: lookup_in_Inr delete_from_keeps)

end
