(* ===== verification/CrossProps.thy ===== *)
theory CrossProps
  imports SampleResource ClusterStore AgentSyncProps
begin

section \<open>Properties that span components\<close>

text \<open>
  The controller's cleanup, and the agreement of controller and agent on the metadata ConfigMap and on
  the paths of a profile. The witnesses run the reconciler on the store of \<open>ClusterStore\<close>.
\<close>

subsection \<open>A sample cluster\<close>

definition empty_cluster :: cluster where
  "empty_cluster = \<lparr>cl_cms = [], cl_secrets = [], cl_gs = [], cl_pods = [], cl_rbs = [], cl_time = 0, cl_rev = 0\<rparr>"

definition ctrl_start :: "cluster \<Rightarrow> cluster ctrl_state" where
  "ctrl_start k = \<lparr>io_env = k, io_log = [], rc_backoff = [], rc_tokens = []\<rparr>"

definition sample_store :: "cluster ctrl_api" where
  "sample_store = store_api (remote_only \<lparr>ar_peeled = [], ar_references = [(''refs/heads/main'', ''c1'')]\<rparr>) (\<lambda>ps. ''P'') True"

subsection \<open>Deletion\<close>

definition is_update_gs :: "ctrl_effect \<Rightarrow> bool" where
  "is_update_gs e = (case e of UpdateGS g ok \<Rightarrow> True | _ \<Rightarrow> False)"

lemma cleanup_no_update: "list_all cleanup_effect es \<Longrightarrow> \<not> list_ex is_update_gs es"
  by (auto simp: list_all_iff list_ex_iff cleanup_effect_def is_update_gs_def split: ctrl_effect.splits)

text \<open>
  C24: a deleted resource is let go only when nothing of it is left: the update that drops the
  finalizer is sent only after the three ConfigMaps and the token Secret are gone, and when the
  cleanup cannot be completed the reconcile ends in an error, so it is tried again. Until then only
  deletions are sent.
\<close>

theorem deletion_cleans_first:
  assumes "cluster_laws K has_cm has_secret"
  shows "wp (reconcile_deleted K req gs) (\<lambda>o1 t.
     if list_ex is_update_gs (sent s t)
     then nothing_left has_cm has_secret gs (io_env t) \<and> (\<exists>ok es. sent s t = UpdateGS (remove_finalizer gs) ok # es \<and> list_all cleanup_effect es)
     else (has_finalizer gs \<longleftrightarrow> oc_error o1 \<noteq> None) \<and> list_all cleanup_effect (sent s t)) s"
proof (cases "has_finalizer gs")
  case False
  then show ?thesis by (simp add: reconcile_deleted_def wp_rules success_def)
next
  case True
  obtain e u where e: "run_state (cleanup_owned_resources K gs) s = (e, u)" by (rule prod.exhaust)
  from only.keepsD [OF cleanup_sends e] obtain es where es: "io_log u = es @ io_log s" "list_all cleanup_effect es"
    by (auto simp: only_sent_def)
  note no = cleanup_no_update [OF es(2)]
  show ?thesis
  proof (cases e)
    case None
    let ?k = "snd (ka_update_gs K (remove_finalizer gs) (io_env u))"
    from e None have "nothing_left has_cm has_secret gs (io_env u)" by (auto intro: cluster_laws.cleanup_leaves_nothing [OF assms])
    then have "nothing_left has_cm has_secret gs ?k"
      by (rule cluster_laws.nothing_left_shrinks [OF assms cluster_laws.update_gs_shrinks [OF assms]])
    with True None e es show ?thesis
      by (simp add: reconcile_deleted_def wp_def reset_failures_def update_gs_def logged_def is_update_gs_def)
  next
    case (Some err)
    with True e es no show ?thesis by (simp add: reconcile_deleted_def wp_def success_def)
  qed
qed

theorem deletion_cleans_first_witness:
  "let s = ctrl_start (empty_cluster\<lparr>cl_cms := [new_metadata_cm sample_gs []], cl_gs := [sample_gs]\<rparr>);
       t = snd (run_state (reconcile_deleted sample_store (''ns'', ''cr'') sample_gs) s)
   in list_ex is_update_gs (sent s t) \<and> nothing_left has_cm has_secret sample_gs (io_env t)"
proof -
  let ?s = "ctrl_start (empty_cluster\<lparr>cl_cms := [new_metadata_cm sample_gs []], cl_gs := [sample_gs]\<rparr>)"
  let ?r = "run_state (reconcile_deleted sample_store (''ns'', ''cr'') sample_gs) ?s"
  have "cluster_laws sample_store has_cm has_secret" unfolding sample_store_def by (rule store.cluster_laws_axioms)
  from deletion_cleans_first [OF this, of "(''ns'', ''cr'')" sample_gs ?s]
  have c: "if list_ex is_update_gs (sent ?s (snd ?r)) then nothing_left has_cm has_secret sample_gs (io_env (snd ?r)) \<and>
      (\<exists>ok es. sent ?s (snd ?r) = UpdateGS (remove_finalizer sample_gs) ok # es \<and> list_all cleanup_effect es)
    else (has_finalizer sample_gs \<longleftrightarrow> oc_error (fst ?r) \<noteq> None) \<and> list_all cleanup_effect (sent ?s (snd ?r))"
    by (simp add: wp_def split_beta)
  have "list_ex is_update_gs (sent ?s (snd ?r))"
  by (simp add: ctrl_start_def empty_cluster_def reconcile_deleted_def has_finalizer_def cleanup_owned_resources_def cleanup_cr_metrics_def
    run_drop_series owned_config_maps_def delete_token_secret_def ignore_not_found_def Let_def lookup_in_def not_found_def sample_store_def store_api_def
    reset_failures_def update_gs_def logged_def success_def sent_def is_update_gs_def store_update_gs_def find_gs_def is_gs_def store_delete_cm_def delete_from_def is_cm_def new_metadata_cm_def metadata_name_def gy_name_def gy_namespace_def sample_gs_def sample_meta_def split: prod.splits)
  with c show ?thesis by (simp add: Let_def)
qed

subsection \<open>From the controller to the agent\<close>

text \<open>The agent's view of the same cluster.\<close>

definition store_cm_api :: "cluster cm_api" where
  "store_cm_api = \<lparr>k_get_cm = (\<lambda>ns n k. (lookup_in (cl_cms k) (is_cm ns n) n, k)),
     k_create_cm = store_create_cm, k_update_cm = store_update_cm\<rparr>"

lemma put_metadata_stored:
  assumes "run_state (put_metadata (store_api G encode autoBind) gs data) s = (None, t)"
  shows "\<exists>cm. lookup_in (cl_cms (io_env t)) (is_cm (gy_namespace gs) (metadata_name gs)) (metadata_name gs) = Inr cm \<and>
    meq (cm_data cm) data"
proof -
  let ?n = "metadata_name gs"
  let ?look = "lookup_in (cl_cms (io_env s)) (is_cm (gy_namespace gs) ?n) ?n"
  have new: "cm_namespace (new_metadata_cm gs data) = gy_namespace gs" "cm_name (new_metadata_cm gs data) = ?n"
    "cm_data (new_metadata_cm gs data) = data"
    by (simp_all add: new_metadata_cm_def)
  show ?thesis
  proof (cases ?look)
    case (Inl err)
    then have nf: "api_is NotFound err" by (simp add: lookup_in_Inl not_found_def)
    with assms Inl have "io_env t = snd (store_create_cm (new_metadata_cm gs data) (io_env s))"
      by (auto simp: put_metadata_def store_api_def logged_def)
    with store_create_cm_new [OF Inl new(1,2)] new(3) show ?thesis by simp
  next
    case (Inr cm)
    then have cm: "cm_namespace (cm\<lparr>cm_data := data\<rparr>) = gy_namespace gs" "cm_name (cm\<lparr>cm_data := data\<rparr>) = ?n"
      by (auto dest: lookup_in_Inr simp: is_cm_def)
    show ?thesis
    proof (cases "meq (cm_data cm) data")
      case True
      with assms Inr show ?thesis by (auto simp: put_metadata_def store_api_def)
    next
      case False
      with assms Inr have "io_env t = snd (store_update_cm (cm\<lparr>cm_data := data\<rparr>) (io_env s))"
        by (auto simp: put_metadata_def store_api_def logged_def)
      with store_update_cm_found [OF Inr cm] show ?thesis by simp
    qed
  qed
qed

definition metadata_agrees :: "gateway_sync \<Rightarrow> git_result \<Rightarrow> metadata \<Rightarrow> bool" where
  "metadata_agrees gs result meta \<longleftrightarrow> md_commit meta = gr_commit result \<and> md_ref meta = gr_ref result \<and>
     md_git_url meta = gt_repo (ss_git (gy_spec gs)) \<and> (md_paused meta = ''true'' \<longleftrightarrow> ss_paused (gy_spec gs)) \<and>
     md_auth_type meta = resolve_auth_type (gy_auth gs)"

lemma mstr_meq: "meq a b \<Longrightarrow> mstr a k = mstr b k"
  by (simp add: meq_iff mstr_def)

lemma metadata_of_written:
  "meq (cm_data cm) (metadata_data (store_api G encode autoBind) gs result) \<Longrightarrow>
   metadata_agrees gs result (metadata_of cm) \<and> md_profiles (metadata_of cm) = encode (resolve_profiles gs)"
  by (simp add: metadata_agrees_def metadata_of_def mstr_meq metadata_data_def fmt_bool_def store_api_def)

definition chosen_profile :: "agent_config \<Rightarrow> string" where
  "chosen_profile cfg = (if c_profile_name cfg = [] then ''default'' else c_profile_name cfg)"

text \<open>
  C25: once the controller's write of the metadata succeeds, the agent that reads the ConfigMap from
  the same cluster gets the commit, the reference, the repository and the pause of the resource, and
  the profile it looks up is the resource's profile of its name, merged with the defaults. The JSON
  decoder is assumed to undo the encoder on these profiles.
\<close>

theorem metadata_reaches_agent:
  assumes "run_state (ensure_metadata_config_map (store_api G encode autoBind) gs result) s = (None, t)"
    and "encode (resolve_profiles gs) \<noteq> []"
    and "json_profiles (ae_json E) (encode (resolve_profiles gs)) = Inr (resolve_profiles gs)"
    and "io_env u = io_env t"
  shows "case fst (run_state (read_metadata_config_map store_cm_api (gy_namespace gs) (gy_name gs)) u) of
      Inl err \<Rightarrow> False
    | Inr meta \<Rightarrow> metadata_agrees gs result meta \<and>
        (case mget (ss_profiles (gy_spec gs)) (chosen_profile (ae_cfg E)) of
           None \<Rightarrow> (case lookup_profile E meta of Inl err \<Rightarrow> True | Inr p \<Rightarrow> False)
         | Some p \<Rightarrow> lookup_profile E meta = Inr (resolve_profile (ss_defaults (gy_spec gs)) p, chosen_profile (ae_cfg E)))"
proof -
  obtain s1 where "run_state (put_metadata (store_api G encode autoBind) gs (metadata_data (store_api G encode autoBind) gs result)) s1 = (None, t)"
    using assms(1) by (auto simp: ensure_metadata_config_map_def split: prod.splits option.splits)
  from put_metadata_stored [OF this] obtain cm where
    cm: "lookup_in (cl_cms (io_env t)) (is_cm (gy_namespace gs) (metadata_name gs)) (metadata_name gs) = Inr cm"
    "meq (cm_data cm) (metadata_data (store_api G encode autoBind) gs result)" by blast
  then have read: "fst (run_state (read_metadata_config_map store_cm_api (gy_namespace gs) (gy_name gs)) u) = Inr (metadata_of cm)"
    using assms(4) by (simp add: read_metadata_config_map_def get_cm_def store_cm_api_def metadata_config_map_name_def metadata_name_def)
  from metadata_of_written [OF cm(2)] assms(2,3) read show ?thesis
    by (auto simp: lookup_profile_def parse_resolved_profiles_def mget_resolve_profiles chosen_profile_def
        default_profile_name_def Let_def split: option.splits)
qed

theorem metadata_reaches_agent_witness:
  "let E = (sample_agent False (200, []))\<lparr>ae_json := \<lparr>json_profiles = (\<lambda>x. Inr (resolve_profiles sample_gs)), json_status = gs_sync_status\<rparr>\<rparr>;
       t = snd (run_state (ensure_metadata_config_map sample_store sample_gs \<lparr>gr_commit = ''c1'', gr_ref = ''main''\<rparr>) (ctrl_start empty_cluster));
       u = \<lparr>io_env = io_env t, io_log = []\<rparr>
   in case fst (run_state (read_metadata_config_map store_cm_api ''ns'' ''cr'') u) of
        Inl err \<Rightarrow> False
      | Inr meta \<Rightarrow> lookup_profile E meta = Inr (resolve_profile (ss_defaults (gy_spec sample_gs)) sample_spec_profile, ''default'')"
proof -
  let ?E = "(sample_agent False (200, []))\<lparr>ae_json := \<lparr>json_profiles = (\<lambda>x. Inr (resolve_profiles sample_gs)), json_status = gs_sync_status\<rparr>\<rparr>"
  let ?r = "run_state (ensure_metadata_config_map sample_store sample_gs \<lparr>gr_commit = ''c1'', gr_ref = ''main''\<rparr>) (ctrl_start empty_cluster)"
  let ?u = "\<lparr>io_env = io_env (snd ?r), io_log = []\<rparr> :: (cluster, effect) io"
  have "fst ?r = None"
  by (simp add: ensure_metadata_config_map_def publish_token_def gy_github_app_def gy_auth_def put_metadata_def logged_def 
     sample_gs_def sample_store_def store_api_def ctrl_start_def empty_cluster_def lookup_in_def not_found_def store_create_cm_def create_in_def)
  then have run: "?r = (None, snd ?r)" by (metis prod.collapse)
  have names: "gy_namespace sample_gs = ''ns''" "gy_name sample_gs = ''cr''"
    "mget (ss_profiles (gy_spec sample_gs)) ''default'' = Some sample_spec_profile" "chosen_profile (ae_cfg (sample_agent False (200, []))) = ''default''"
    by (simp_all add: sample_gs_def sample_meta_def gy_namespace_def gy_name_def chosen_profile_def sample_agent_def sample_cfg_def)
  from metadata_reaches_agent [OF run [unfolded sample_store_def], of ?E ?u] show ?thesis
    by (simp add: names Let_def sample_store_def split: sum.splits)
qed

subsection \<open>What the controller accepts\<close>

definition path_safe :: "string \<Rightarrow> bool" where
  "path_safe p \<longleftrightarrow> \<not> is_abs p \<and> \<not> contains_traversal p"

lemma path_safe_accepted: "path_safe p \<Longrightarrow> validate_resolved_path p label = None"
  using no_traversal_clean [of p] by (auto simp: path_safe_def validate_resolved_path_iff dest_ok_def)

lemma resolve_profile_simps:
  "rp_mappings (resolve_profile d p) = map resolve_sync_mapping (sp_mappings p)"
  "pm_source (resolve_sync_mapping m) = sm_source m" "pm_destination (resolve_sync_mapping m) = sm_destination m"
  by (simp_all add: resolve_profile_def resolve_sync_mapping_def Let_def)

text \<open>
  C27: the controller's validation passes exactly when every variable name, of the defaults and of
  each profile, is an identifier and no source or destination is absolute or has a \<open>..\<close> component;
  then the agent's own check accepts every path of every resolved profile as it is, whatever the
  label it reports.
\<close>

theorem validated_profiles_accepted:
  "(validate_profiles gs = None) =
     (list_all valid_var_key (mkeys (df_vars (ss_defaults (gy_spec gs)))) \<and>
      list_all (\<lambda>(name, p). list_all valid_var_key (mkeys (sp_vars p)) \<and>
        list_all (\<lambda>m. path_safe (sm_source m) \<and> path_safe (sm_destination m)) (sp_mappings p)) (ss_profiles (gy_spec gs))) \<and>
   (case validate_profiles gs of
      Some err \<Rightarrow> True
    | None \<Rightarrow> list_all (\<lambda>(name, rp). list_all (\<lambda>m. validate_resolved_path (pm_source m) label = None \<and>
        validate_resolved_path (pm_destination m) label = None) (rp_mappings rp)) (resolve_profiles gs))"
proof -
  have iff: "(validate_profiles gs = None) =
     (list_all valid_var_key (mkeys (df_vars (ss_defaults (gy_spec gs)))) \<and>
      list_all (\<lambda>(name, p). list_all valid_var_key (mkeys (sp_vars p)) \<and>
        list_all (\<lambda>m. path_safe (sm_source m) \<and> path_safe (sm_destination m)) (sp_mappings p)) (ss_profiles (gy_spec gs)))"
    by (simp add: validate_profiles_def first_error_None validate_var_keys_iff validate_profile_list_iff list_all_iff
        path_safe_def ball_conj_distrib conj_ac)
  have "list_all (\<lambda>(name, rp). list_all (\<lambda>m. validate_resolved_path (pm_source m) label = None \<and>
        validate_resolved_path (pm_destination m) label = None) (rp_mappings rp)) (resolve_profiles gs)"
    if v: "validate_profiles gs = None"
  proof -
    have "validate_resolved_path (sm_source m) label = None \<and> validate_resolved_path (sm_destination m) label = None"
      if "(name, p) \<in> set (ss_profiles (gy_spec gs))" "m \<in> set (sp_mappings p)" for name p m
      using v [unfolded iff] that by (fastforce simp: list_all_iff intro: path_safe_accepted)
    then show ?thesis
      by (fastforce simp: list_all_iff resolve_profiles_def resolve_profile_simps)
  qed
  with iff show ?thesis by (cases "validate_profiles gs") simp_all
qed

end
