(* ===== verification/WebhookReceiver.thy ===== *)
theory WebhookReceiver
  imports ApiTypes Effects
begin

section \<open>internal/webhook: the receiver\<close>

text \<open>
  \<open>hmac.go\<close> and \<open>receiver.go\<close>. A handler returns the answer it writes. HMAC, SHA-256, the JSON
  parser, the clock and the Kubernetes client are the fields of \<open>receiver_api\<close>. A JSON object is an
  association list with one entry for each name, as Go's map has it.
\<close>

datatype json =
    JNull
  | JBool bool
  | JNum string
  | JStr string
  | JArr "json list"
  | JObj "(string \<times> json) list"

record receiver =
  rv_hmac_secret :: string
  rv_bearer_token :: string

record webhook_request =
  wr_namespace :: string
  wr_cr_name :: string
  wr_signature :: string          \<comment> \<open>\<open>X-Hub-Signature-256\<close>\<close>
  wr_authorization :: string
  wr_body :: "string res"

record webhook_reply =
  wp_status :: int
  wp_body :: json

datatype webhook_effect =
    GetGS string string
  | AnnotateGS gateway_sync bool
  | Received string string string
  | CountRequest "string list"        \<comment> \<open>\<open>requests_total\<close>: source and status code\<close>

record 'k receiver_api =
  va_hmac_sha256 :: "string \<Rightarrow> string \<Rightarrow> string"    \<comment> \<open>key and message\<close>
  va_sha256 :: "string \<Rightarrow> string"
  va_parse_json :: "string \<Rightarrow> json res"
  va_format_time :: "int \<Rightarrow> string"
  va_now :: "'k \<Rightarrow> int \<times> 'k"
  va_get_gs :: "string \<Rightarrow> string \<Rightarrow> 'k \<Rightarrow> gateway_sync res \<times> 'k"
  va_update_gs :: "gateway_sync \<Rightarrow> 'k \<Rightarrow> goerror option \<times> 'k"

subsection \<open>hmac.go\<close>

definition hex_digit :: "nat \<Rightarrow> char" where
  "hex_digit n = (if n < 10 then char_of (48 + n) else char_of (87 + n))"

definition hex_encode :: "string \<Rightarrow> string" where
  "hex_encode bs = concat (map (\<lambda>c. let n = (of_char c :: nat) in [hex_digit (n div 16), hex_digit (n mod 16)]) bs)"

definition expected_signature :: "'k receiver_api \<Rightarrow> string \<Rightarrow> string \<Rightarrow> string" where
  "expected_signature V payload secret = ''sha256='' @ hex_encode (va_hmac_sha256 V secret payload)"

definition validate_hmac :: "'k receiver_api \<Rightarrow> string \<Rightarrow> string \<Rightarrow> string \<Rightarrow> goerror option" where
  "validate_hmac V payload signature secret =
     (if secret = [] then Some (Errorf ''HMAC secret is empty'')
      else if \<not> has_prefix signature ''sha256='' then Some (Errorf ''HMAC validation failed'')
      else if expected_signature V payload secret \<noteq> signature then Some (Errorf ''HMAC validation failed'')
      else None)"

subsection \<open>receiver.go\<close>

definition authorize :: "'k receiver_api \<Rightarrow> receiver \<Rightarrow> webhook_request \<Rightarrow> string \<Rightarrow> bool" where
  "authorize V rv r body =
     (if rv_hmac_secret rv = [] \<and> rv_bearer_token rv = [] then True
      else if rv_hmac_secret rv \<noteq> [] \<and> validate_hmac V body (wr_signature r) (rv_hmac_secret rv) = None then True
      else if rv_bearer_token rv \<noteq> [] \<and>
        va_sha256 V (wr_authorization r) = va_sha256 V (''Bearer '' @ rv_bearer_token rv) then True
      else False)"

text \<open>A type assertion on a member of a Go map: \<open>m["k"].(map[string]any)\<close> and the like.\<close>

definition obj_member :: "(string \<times> json) list \<Rightarrow> string \<Rightarrow> (string \<times> json) list option" where
  "obj_member m k = (case mget m k of Some (JObj o1) \<Rightarrow> Some o1 | _ \<Rightarrow> None)"

definition str_member :: "(string \<times> json) list \<Rightarrow> string \<Rightarrow> string option" where
  "str_member m k = (case mget m k of Some (JStr s) \<Rightarrow> if s \<noteq> [] then Some s else None | _ \<Rightarrow> None)"

definition arr_head_obj :: "(string \<times> json) list \<Rightarrow> string \<Rightarrow> (string \<times> json) list option" where
  "arr_head_obj m k = (case mget m k of Some (JArr (JObj o1 # rest)) \<Rightarrow> Some o1 | _ \<Rightarrow> None)"

definition github_ref :: "(string \<times> json) list \<Rightarrow> string option" where
  "github_ref raw = Option.bind (obj_member raw ''release'') (\<lambda>release. str_member release ''tag_name'')"

definition argocd_ref :: "(string \<times> json) list \<Rightarrow> string option" where
  "argocd_ref raw = Option.bind (obj_member raw ''app'') (\<lambda>app.
     Option.bind (obj_member app ''metadata'') (\<lambda>meta.
     Option.bind (obj_member meta ''annotations'') (\<lambda>anns. str_member anns ''git.ref'')))"

definition kargo_ref :: "(string \<times> json) list \<Rightarrow> string option" where
  "kargo_ref raw = Option.bind (obj_member raw ''freight'') (\<lambda>freight.
     Option.bind (arr_head_obj freight ''commits'') (\<lambda>commit. str_member commit ''tag''))"

definition payload_ref :: "(string \<times> json) list \<Rightarrow> string \<times> string" where
  "payload_ref raw =
     (case github_ref raw of Some tag \<Rightarrow> (tag, ''github'')
      | None \<Rightarrow> (case argocd_ref raw of Some ref \<Rightarrow> (ref, ''argocd'')
      | None \<Rightarrow> (case kargo_ref raw of Some tag \<Rightarrow> (tag, ''kargo'')
      | None \<Rightarrow> (case str_member raw ''ref'' of Some ref \<Rightarrow> (ref, ''generic'')
      | None \<Rightarrow> ([], [])))))"

text \<open>A \<open>null\<close> body leaves the map nil; any other value that is not an object is an error.\<close>

definition parse_payload :: "'k receiver_api \<Rightarrow> string \<Rightarrow> string \<times> string" where
  "parse_payload V body =
     (case va_parse_json V body of
        Inr (JObj raw) \<Rightarrow> payload_ref raw
      | Inr JNull \<Rightarrow> payload_ref []
      | _ \<Rightarrow> ([], []))"

definition max_payload_bytes :: nat where
  "max_payload_bytes = 1048576"

definition reply :: "int \<Rightarrow> json \<Rightarrow> webhook_reply" where
  "reply status body = \<lparr>wp_status = status, wp_body = body\<rparr>"

definition annotate_request :: "string \<Rightarrow> string \<Rightarrow> string \<Rightarrow> gateway_sync \<Rightarrow> gateway_sync" where
  "annotate_request ref at source gs = gs\<lparr>gy_meta := (gy_meta gs)\<lparr>om_annotations :=
     mput (mput (mput (om_annotations (gy_meta gs)) annotation_requested_ref ref)
       annotation_requested_at at) annotation_requested_by source\<rparr>\<rparr>"

type_synonym ('k, 'a) webhook_io = "(('k, webhook_effect) io, 'a) state"

text \<open>From the lookup of the resource on.\<close>

definition apply_request :: "'k receiver_api \<Rightarrow> webhook_request \<Rightarrow> string \<Rightarrow> string \<Rightarrow> ('k, webhook_reply) webhook_io" where
  "apply_request V r ref source = do {
     g \<leftarrow> call (va_get_gs V (wr_namespace r) (wr_cr_name r));
     emit (GetGS (wr_namespace r) (wr_cr_name r));
     (case g of
        Inl err \<Rightarrow> do { emit (CountRequest [source, ''404'']); ret (reply 404 (JStr ''not found'')) }
      | Inr gs \<Rightarrow>
          if mget (om_annotations (gy_meta gs)) annotation_requested_ref = Some ref
          then do {
            emit (CountRequest [source, ''202'']);
            ret (reply 202 (JObj [(''accepted'', JBool True), (''message'', JStr ''ref already set''), (''ref'', JStr ref)])) }
          else do {
            now \<leftarrow> call (va_now V);
            let gs' = annotate_request ref (va_format_time V now) source gs;
            e \<leftarrow> call (va_update_gs V gs');
            emit (AnnotateGS gs' (e = None));
            (case e of
               Some err \<Rightarrow> do { emit (CountRequest [source, ''500'']); ret (reply 500 (JStr ''internal error'')) }
             | None \<Rightarrow> do {
                 emit (Received ''Normal'' ''WebhookReceived'' (''Webhook from '' @ source @ '', ref '' @ quote ref));
                 emit (CountRequest [source, ''202'']);
                 ret (reply 202 (JObj [(''accepted'', JBool True), (''ref'', JStr ref)])) }) }) }"

definition handle_webhook :: "'k receiver_api \<Rightarrow> receiver \<Rightarrow> webhook_request \<Rightarrow> ('k, webhook_reply) webhook_io" where
  "handle_webhook V rv r =
     (case wr_body r of
        Inl err \<Rightarrow> do { emit (CountRequest [''unknown'', ''400'']); ret (reply 400 (JStr ''failed to read body'')) }
      | Inr raw \<Rightarrow> (let body = take max_payload_bytes raw in
          if \<not> authorize V rv r body
          then do { emit (CountRequest [''unknown'', ''401'']); ret (reply 401 (JStr ''unauthorized'')) }
          else (case parse_payload V body of (ref, source) \<Rightarrow>
            if ref = []
            then do {
              emit (CountRequest [''unknown'', ''400'']);
              ret (reply 400 (JObj [(''error'', JStr ''no ref found in payload'')])) }
            else apply_request V r ref source)))"

end
