(* ===== verification/WebhookInject.thy ===== *)
theory WebhookInject
  imports PodTypes Effects
begin

section \<open>internal/webhook: the sidecar injector\<close>

text \<open>
  \<open>inject.go\<close>: the admission handler that adds the agent to a pod. The decoder, the Kubernetes
  client and the operator's environment are the fields of \<open>injector_api\<close>; the patch of the answer is
  the patched pod.
\<close>

record 'k injector_api =
  ja_decode :: "string \<Rightarrow> pod res"
  ja_list_gs :: "string \<Rightarrow> 'k \<Rightarrow> gateway_sync list res \<times> 'k"
  ja_get_gs :: "string \<Rightarrow> string \<Rightarrow> 'k \<Rightarrow> gateway_sync res \<times> 'k"
  ja_getenv :: "string \<Rightarrow> string"

record admission_request =
  aq_namespace :: string
  aq_object :: string

datatype admission_response =
    Allowed string
  | Denied string
  | Errored int goerror
  | Patched pod

datatype injector_effect =
    ListedGS string
  | LookedUpGS string string
  | CountInjection "string list"      \<comment> \<open>\<open>injections_total\<close>: namespace and result\<close>

subsection \<open>Image, environment, volumes\<close>

definition resolve_agent_image :: "(string \<Rightarrow> string) \<Rightarrow> gateway_sync \<Rightarrow> string" where
  "resolve_agent_image getenv gs =
     (let spec = ss_agent (gy_spec gs) in
      if ag_repository spec \<noteq> []
      then ag_repository spec @ '':'' @ (if ag_tag spec = [] then ''latest'' else ag_tag spec)
      else if getenv ''DEFAULT_AGENT_IMAGE'' \<noteq> [] then getenv ''DEFAULT_AGENT_IMAGE''
      else ''ghcr.io/knorrlabs/stoker-agent:latest'')"

definition resolve_agent_pull_policy :: "gateway_sync \<Rightarrow> string" where
  "resolve_agent_pull_policy gs =
     (if ag_pull_policy (ss_agent (gy_spec gs)) \<noteq> [] then ag_pull_policy (ss_agent (gy_spec gs)) else ''IfNotPresent'')"

definition env_value :: "string \<Rightarrow> string \<Rightarrow> env_var" where
  "env_value n v = \<lparr>ev_name = n, ev_value = v, ev_field_path = None\<rparr>"

definition env_field :: "string \<Rightarrow> string \<Rightarrow> env_var" where
  "env_field n p = \<lparr>ev_name = n, ev_value = [], ev_field_path = Some p\<rparr>"

definition volume_sync_repo :: string where "volume_sync_repo = ''sync-repo''"
definition volume_git_credentials :: string where "volume_git_credentials = ''git-credentials''"
definition volume_api_key :: string where "volume_api_key = ''api-key''"
definition volume_git_token :: string where "volume_git_token = ''git-token''"
definition volume_git_tmp :: string where "volume_git_tmp = ''git-tmp''"
definition volume_known_hosts :: string where "volume_known_hosts = ''known-hosts''"
definition mount_repo :: string where "mount_repo = ''/repo''"
definition mount_ignition_data :: string where "mount_ignition_data = ''/ignition-data''"
definition mount_git_credentials :: string where "mount_git_credentials = ''/etc/stoker/git-credentials''"
definition mount_api_key :: string where "mount_api_key = ''/etc/stoker/api-key''"
definition mount_git_token :: string where "mount_git_token = ''/etc/stoker/git-token''"
definition mount_known_hosts :: string where "mount_known_hosts = ''/etc/stoker/known-hosts''"

lemmas volume_names = volume_sync_repo_def volume_git_credentials_def volume_api_key_def volume_git_token_def
  volume_git_tmp_def volume_known_hosts_def

definition credential_env :: "gateway_sync \<Rightarrow> env_var list" where
  "credential_env gs =
     (case gy_auth gs of
        None \<Rightarrow> []
      | Some auth \<Rightarrow> (case au_ssh_key auth of
          Some ssh \<Rightarrow> env_value ''GIT_SSH_KEY_FILE'' (mount_git_credentials @ ''/'' @ sk_key (sa_secret_ref ssh))
            # (case sa_known_hosts ssh of
                None \<Rightarrow> []
              | Some kh \<Rightarrow> [env_value ''GIT_KNOWN_HOSTS_FILE'' (mount_known_hosts @ ''/'' @ sk_key kh)])
        | None \<Rightarrow> (case au_token auth of
            Some t \<Rightarrow> [env_value ''GIT_TOKEN_FILE'' (mount_git_credentials @ ''/'' @ sk_key t)]
          | None \<Rightarrow> (case au_github_app auth of
              Some a \<Rightarrow> [env_value ''GIT_TOKEN_FILE'' (mount_git_token @ ''/token'')]
            | None \<Rightarrow> []))))"

definition build_env_vars :: "string \<Rightarrow> string \<Rightarrow> string \<Rightarrow> string \<Rightarrow> string \<Rightarrow> gateway_sync \<Rightarrow> env_var list" where
  "build_env_vars crName gatewayName profile gatewayPort gatewayTLS gs =
     [env_field ''POD_NAME'' ''metadata.name'', env_field ''POD_NAMESPACE'' ''metadata.namespace'',
      env_value ''CR_NAME'' crName, env_field ''CR_NAMESPACE'' ''metadata.namespace'',
      env_value ''GATEWAY_NAME'' gatewayName, env_value ''PROFILE'' profile, env_value ''REPO_PATH'' mount_repo,
      env_value ''DATA_PATH'' mount_ignition_data, env_value ''GATEWAY_PORT'' gatewayPort,
      env_value ''GATEWAY_TLS'' gatewayTLS,
      env_value ''API_KEY_FILE'' (mount_api_key @ ''/'' @ gw_secret_key (ss_gateway (gy_spec gs)))]
     @ credential_env gs
     @ [env_value ''SYNC_PERIOD'' ''30'']"

definition build_resources :: "gateway_sync \<Rightarrow> resource_requirements" where
  "build_resources gs =
     (case ag_resources (ss_agent (gy_spec gs)) of
        Some r \<Rightarrow> r
      | None \<Rightarrow> \<lparr>rr_limits = [(''cpu'', ''200m''), (''memory'', ''256Mi'')],
          rr_requests = [(''cpu'', ''50m''), (''memory'', ''64Mi'')]\<rparr>)"

definition git_credential_secret_name :: "gateway_sync \<Rightarrow> string" where
  "git_credential_secret_name gs =
     (case gy_auth gs of
        None \<Rightarrow> ''git-credentials''
      | Some auth \<Rightarrow> (case au_ssh_key auth of
          Some ssh \<Rightarrow> sk_name (sa_secret_ref ssh)
        | None \<Rightarrow> (case au_token auth of
            Some t \<Rightarrow> sk_name t
          | None \<Rightarrow> (case au_github_app auth of
              Some a \<Rightarrow> sk_name (ga_private_key_secret_ref a)
            | None \<Rightarrow> ''git-credentials''))))"

definition needs_git_credential_volume :: "gateway_sync \<Rightarrow> bool" where
  "needs_git_credential_volume gs =
     (case gy_auth gs of None \<Rightarrow> False | Some auth \<Rightarrow> au_ssh_key auth \<noteq> None \<or> au_token auth \<noteq> None)"

definition known_hosts_ref :: "gateway_sync \<Rightarrow> secret_key_ref option" where
  "known_hosts_ref gs =
     (case gy_auth gs of None \<Rightarrow> None | Some auth \<Rightarrow> (case au_ssh_key auth of None \<Rightarrow> None | Some ssh \<Rightarrow> sa_known_hosts ssh))"

definition needs_known_hosts_volume :: "gateway_sync \<Rightarrow> bool" where
  "needs_known_hosts_volume gs \<longleftrightarrow> known_hosts_ref gs \<noteq> None"

definition needs_git_hub_token_volume :: "gateway_sync \<Rightarrow> bool" where
  "needs_git_hub_token_volume gs \<longleftrightarrow> gy_github_app gs \<noteq> None"

definition git_hub_token_secret_name :: "string \<Rightarrow> string" where
  "git_hub_token_secret_name crName = ''stoker-github-token-'' @ crName"

definition mount :: "string \<Rightarrow> string \<Rightarrow> bool \<Rightarrow> volume_mount" where
  "mount n p ro = \<lparr>vm_name = n, vm_mount_path = p, vm_read_only = ro\<rparr>"

definition agent_volume_mounts :: "gateway_sync \<Rightarrow> volume_mount list" where
  "agent_volume_mounts gs =
     [mount volume_sync_repo mount_repo False, mount volume_api_key mount_api_key True, mount volume_git_tmp ''/tmp'' False]
     @ (if needs_git_credential_volume gs then [mount volume_git_credentials mount_git_credentials True] else [])
     @ (if needs_git_hub_token_volume gs then [mount volume_git_token mount_git_token True] else [])
     @ (if needs_known_hosts_volume gs then [mount volume_known_hosts mount_known_hosts True] else [])"

text \<open>The mode is octal 0444.\<close>

definition secret_mode :: int where
  "secret_mode = 292"

definition vol :: "string \<Rightarrow> volume_source \<Rightarrow> volume" where
  "vol n src = \<lparr>vo_name = n, vo_source = src\<rparr>"

definition agent_volumes :: "gateway_sync \<Rightarrow> volume list" where
  "agent_volumes gs =
     [vol volume_sync_repo EmptyDir, vol volume_git_tmp EmptyDir,
      vol volume_api_key (SecretVolume (gw_secret_name (ss_gateway (gy_spec gs))) secret_mode)]
     @ (if needs_git_credential_volume gs
        then [vol volume_git_credentials (SecretVolume (git_credential_secret_name gs) secret_mode)] else [])
     @ (if needs_git_hub_token_volume gs
        then [vol volume_git_token (SecretVolume (git_hub_token_secret_name (gy_name gs)) secret_mode)] else [])
     @ (case known_hosts_ref gs of
          None \<Rightarrow> []
        | Some kh \<Rightarrow> [vol volume_known_hosts (SecretVolume (sk_name kh) secret_mode)])"

definition mount_path_of :: "pod \<Rightarrow> string \<Rightarrow> string option" where
  "mount_path_of p name =
     map_option vm_mount_path (find (\<lambda>m. vm_name m = name) (concat (map co_volume_mounts (pd_containers p))))"

fun first_data_volume :: "pod \<Rightarrow> string list \<Rightarrow> string \<times> string" where
  "first_data_volume p [] = ([], [])"
| "first_data_volume p (name # names) =
     (if name \<notin> set (map vo_name (pd_volumes p)) then first_data_volume p names
      else (name, (case mount_path_of p name of Some path \<Rightarrow> path | None \<Rightarrow> mount_ignition_data)))"

definition resolve_data_volume :: "pod \<Rightarrow> string \<times> string" where
  "resolve_data_volume p = first_data_volume p [''ignition-data'', ''data'']"

subsection \<open>The sidecar\<close>

definition is_already_injected :: "pod \<Rightarrow> bool" where
  "is_already_injected p = has_agent_container p"

definition agent_probe :: "string \<Rightarrow> int \<Rightarrow> int \<Rightarrow> probe option" where
  "agent_probe path period threshold =
     Some \<lparr>pb_path = path, pb_port = 8082, pb_period_seconds = period, pb_failure_threshold = threshold\<rparr>"

definition restricted_security_context :: security_context where
  "restricted_security_context = \<lparr>sx_run_as_non_root = True, sx_read_only_root_filesystem = True,
     sx_allow_privilege_escalation = False, sx_seccomp_profile = ''RuntimeDefault'', sx_drop = [''ALL'']\<rparr>"

text \<open>\<open>break\<close> after the first variable of the name.\<close>

fun set_env :: "string \<Rightarrow> string \<Rightarrow> env_var list \<Rightarrow> env_var list" where
  "set_env n v [] = []"
| "set_env n v (e # es) = (if ev_name e = n then e\<lparr>ev_value := v\<rparr> # es else e # set_env n v es)"

definition injected_cr_name :: "pod \<Rightarrow> gateway_sync \<Rightarrow> string" where
  "injected_cr_name p gs = (if pod_annotation p annotation_cr_name = [] then gy_name gs else pod_annotation p annotation_cr_name)"

definition injected_port :: "gateway_sync \<Rightarrow> string" where
  "injected_port gs = (if gw_port (ss_gateway (gy_spec gs)) = 0 then ''8088'' else itoa (gw_port (ss_gateway (gy_spec gs))))"

definition injected_tls :: "gateway_sync \<Rightarrow> string" where
  "injected_tls gs = (if gw_tls (ss_gateway (gy_spec gs)) = Some True then ''true'' else ''false'')"

definition base_agent_container :: "(string \<Rightarrow> string) \<Rightarrow> pod \<Rightarrow> gateway_sync \<Rightarrow> container" where
  "base_agent_container getenv p gs = \<lparr>co_name = agent_container_name, co_image = resolve_agent_image getenv gs,
     co_image_pull_policy = resolve_agent_pull_policy gs, co_command = [''/agent''],
     co_restart_policy = Some ''Always'',
     co_env = build_env_vars (injected_cr_name p gs) (pod_annotation p annotation_gateway_name)
       (pod_annotation p annotation_profile) (injected_port gs) (injected_tls gs) gs,
     co_resources = build_resources gs,
     co_ports = [\<lparr>cp_name = ''metrics'', cp_container_port = 8083, cp_protocol = ''TCP''\<rparr>],
     co_security_context = Some restricted_security_context,
     co_startup_probe = agent_probe ''/startupz'' 2 150, co_liveness_probe = agent_probe ''/healthz'' 10 3,
     co_readiness_probe = agent_probe ''/readyz'' 5 3, co_volume_mounts = agent_volume_mounts gs\<rparr>"

definition mount_data_volume :: "pod \<Rightarrow> container \<Rightarrow> container" where
  "mount_data_volume p c =
     (case resolve_data_volume p of (name, path) \<Rightarrow>
        if name \<noteq> []
        then c\<lparr>co_volume_mounts := co_volume_mounts c @ [mount name path False], co_env := set_env ''DATA_PATH'' path (co_env c)\<rparr>
        else c)"

definition agent_container :: "(string \<Rightarrow> string) \<Rightarrow> pod \<Rightarrow> gateway_sync \<Rightarrow> container" where
  "agent_container getenv p gs = mount_data_volume p (base_agent_container getenv p gs)"

definition map_pod_meta :: "(object_meta \<Rightarrow> object_meta) \<Rightarrow> pod \<Rightarrow> pod" where
  "map_pod_meta f p = p\<lparr>pd_meta := f (pd_meta p)\<rparr>"

definition inject_sidecar :: "(string \<Rightarrow> string) \<Rightarrow> pod \<Rightarrow> gateway_sync \<Rightarrow> pod" where
  "inject_sidecar getenv p gs = map_pod_meta (\<lambda>m. m\<lparr>
       om_annotations := mput (om_annotations m) annotation_injected ''true'',
       om_labels := mput (om_labels m) label_agent ''true''\<rparr>)
     (p\<lparr>pd_init_containers := agent_container getenv p gs # pd_init_containers p,
        pd_volumes := pd_volumes p @ agent_volumes gs\<rparr>)"

subsection \<open>The handler\<close>

type_synonym ('k, 'a) injector_io = "(('k, injector_effect) io, 'a) state"

definition single_cr :: "string \<Rightarrow> gateway_sync list \<Rightarrow> string res" where
  "single_cr namespace items =
     (case items of
        [] \<Rightarrow> Inl (Errorf (''no GatewaySync CR found in namespace '' @ [CHR 0x27] @ namespace @ [CHR 0x27]))
      | [gs] \<Rightarrow> Inr (gy_name gs)
      | _ \<Rightarrow> Inl (Errorf (''multiple GatewaySync CRs in namespace '' @ [CHR 0x27] @ namespace @ [CHR 0x27] @ '': ['' @
          join_with '', '' (map gy_name items) @ ''] '' @ em_dash @ '' set annotation '' @
          [CHR 0x27] @ annotation_cr_name @ [CHR 0x27] @ '' explicitly'')))"

definition resolve_cr_name :: "'k injector_api \<Rightarrow> string \<Rightarrow> pod \<Rightarrow> ('k, string res) injector_io" where
  "resolve_cr_name J namespace p =
     (if pod_annotation p annotation_cr_name \<noteq> [] then ret (Inr (pod_annotation p annotation_cr_name))
      else do {
        r \<leftarrow> call (ja_list_gs J namespace);
        emit (ListedGS namespace);
        ret (case r of
           Inl err \<Rightarrow> Inl (Wrapf ''failed to list GatewaySync CRs'' err)
         | Inr items \<Rightarrow> single_cr namespace items) })"

definition write_cr_name :: "string \<Rightarrow> pod \<Rightarrow> pod" where
  "write_cr_name crName p =
     (if pod_annotation p annotation_cr_name = []
      then map_pod_meta (\<lambda>m. m\<lparr>om_annotations := mput (om_annotations m) annotation_cr_name crName\<rparr>) p
      else p)"

text \<open>The checks against the resource.\<close>

definition admit :: "'k injector_api \<Rightarrow> string \<Rightarrow> pod \<Rightarrow> gateway_sync \<Rightarrow> admission_response" where
  "admit J crName p gs =
     (if ss_paused (gy_spec gs) then Denied (''GatewaySync '' @ [CHR 0x27] @ crName @ [CHR 0x27] @ '' is paused'')
      else if pod_annotation p annotation_profile \<noteq> [] \<and> mget (ss_profiles (gy_spec gs)) (pod_annotation p annotation_profile) = None
      then Denied (''profile '' @ [CHR 0x27] @ pod_annotation p annotation_profile @ [CHR 0x27] @ '' not found in GatewaySync '' @
        [CHR 0x27] @ gy_name gs @ [CHR 0x27])
      else Patched (inject_sidecar (ja_getenv J) p gs))"

definition handle_named :: "'k injector_api \<Rightarrow> string \<Rightarrow> string \<Rightarrow> pod \<Rightarrow> ('k, admission_response) injector_io" where
  "handle_named J namespace crName p = do {
     r \<leftarrow> call (ja_get_gs J namespace crName);
     emit (LookedUpGS namespace crName);
     (case r of
        Inl err \<Rightarrow> ret (if api_is NotFound err
            then Denied (''GatewaySync '' @ [CHR 0x27] @ crName @ [CHR 0x27] @ '' not found in namespace '' @ [CHR 0x27] @ namespace @ [CHR 0x27])
            else Errored 500 err)
      | Inr gs \<Rightarrow> (case admit J crName p gs of
          Patched p' \<Rightarrow> do { emit (CountInjection [namespace, ''injected'']); ret (Patched p') }
        | other \<Rightarrow> ret other)) }"

definition handle_pod :: "'k injector_api \<Rightarrow> admission_request \<Rightarrow> ('k, admission_response) injector_io" where
  "handle_pod J req =
     (case ja_decode J (aq_object req) of
        Inl err \<Rightarrow> ret (Errored 400 err)
      | Inr p \<Rightarrow>
          if pod_annotation p annotation_inject \<noteq> ''true''
          then do { emit (CountInjection [aq_namespace req, ''skipped'']); ret (Allowed ''injection not requested'') }
          else if is_already_injected p
          then do { emit (CountInjection [aq_namespace req, ''skipped'']); ret (Allowed ''already injected'') }
          else do {
            r \<leftarrow> resolve_cr_name J (aq_namespace req) p;
            (case r of
               Inl err \<Rightarrow> ret (Denied (err_text err))
             | Inr crName \<Rightarrow> handle_named J (aq_namespace req) crName (write_cr_name crName p)) })"

end
