(* ===== verification/WebhookProps.thy ===== *)
theory WebhookProps
  imports WebhookReceiver WebhookInject ControllerReconcile AgentConfig EffectLaws
begin

section \<open>Properties of the webhooks\<close>

text \<open>
  The receiver up to the reconcile it causes, and the decisions of the admission handler.
\<close>

subsection \<open>The receiver\<close>

definition auth_configured :: "receiver \<Rightarrow> bool" where
  "auth_configured rv \<longleftrightarrow> rv_hmac_secret rv \<noteq> [] \<or> rv_bearer_token rv \<noteq> []"

text \<open>The body as the handler sees it: the first mebibyte.\<close>

definition seen_body :: "webhook_request \<Rightarrow> string" where
  "seen_body r = (case wr_body r of Inl err \<Rightarrow> [] | Inr raw \<Rightarrow> take max_payload_bytes raw)"

definition signature_valid :: "'k receiver_api \<Rightarrow> receiver \<Rightarrow> webhook_request \<Rightarrow> bool" where
  "signature_valid V rv r \<longleftrightarrow> rv_hmac_secret rv \<noteq> [] \<and>
     wr_signature r = ''sha256='' @ hex_encode (va_hmac_sha256 V (rv_hmac_secret rv) (seen_body r))"

definition bearer_valid :: "'k receiver_api \<Rightarrow> receiver \<Rightarrow> webhook_request \<Rightarrow> bool" where
  "bearer_valid V rv r \<longleftrightarrow> rv_bearer_token rv \<noteq> [] \<and>
     va_sha256 V (wr_authorization r) = va_sha256 V (''Bearer '' @ rv_bearer_token rv)"

lemma authorize_iff:
  "authorize V rv r (seen_body r) \<longleftrightarrow>
     \<not> auth_configured rv \<or> signature_valid V rv r \<or> bearer_valid V rv r"
proof -
  have "has_prefix (expected_signature V p k) ''sha256=''" for p k
    by (simp add: expected_signature_def has_prefix_iff)
  then have "validate_hmac V p sg k = None \<longleftrightarrow> k \<noteq> [] \<and> sg = expected_signature V p k" for p sg k
    by (auto simp: validate_hmac_def)
  then show ?thesis
    by (auto simp: authorize_def auth_configured_def signature_valid_def bearer_valid_def expected_signature_def)
qed

text \<open>
  C32: when a secret or a bearer token is configured, a request that carries neither a valid HMAC of
  its body nor the token is answered 401 whatever it names: no resource is looked up and nothing
  else is sent, so the answer does not tell whether the resource exists. Only requests that pass
  reach the API.
\<close>

theorem webhook_auth_first:
  "wp (handle_webhook V rv r) (\<lambda>a t.
     case wr_body r of
       Inl err \<Rightarrow> wp_status a = 400 \<and> io_env t = io_env s \<and> sent s t = [CountRequest [''unknown'', ''400'']]
     | Inr raw \<Rightarrow>
         if auth_configured rv \<and> \<not> signature_valid V rv r \<and> \<not> bearer_valid V rv r
         then wp_status a = 401 \<and> io_env t = io_env s \<and> sent s t = [CountRequest [''unknown'', ''401'']]
         else wp_status a \<noteq> 401) s"
proof (cases "wr_body r")
  case (Inl err)
  then show ?thesis by (simp add: handle_webhook_def wp_rules reply_def)
next
  case (Inr raw)
  then have b: "seen_body r = take max_payload_bytes raw" by (simp add: seen_body_def)
  have "wp (apply_request V r ref source) (\<lambda>a t. wp_status a \<noteq> 401) s" for ref source
    by (auto simp: apply_request_def wp_rules reply_def Let_def split: sum.splits option.splits)
  then show ?thesis using Inr authorize_iff [of V rv r]
    by (auto simp: handle_webhook_def wp_rules reply_def b Let_def split: prod.splits)
qed




text \<open>The updates of the resource in a log, each with whether the API accepted it.\<close>

definition update_answer :: "webhook_effect \<Rightarrow> bool list" where
  "update_answer e = (case e of AnnotateGS gs' ok \<Rightarrow> [ok] | _ \<Rightarrow> [])"

definition update_answers :: "webhook_effect list \<Rightarrow> bool list" where
  "update_answers es = concat (map update_answer es)"

lemma update_answers_simps [simp]:
  "update_answers [] = []" "update_answers (AnnotateGS gs ok # es) = ok # update_answers es"
  "update_answers (GetGS a b # es) = update_answers es" "update_answers (Received x y z # es) = update_answers es"
  "update_answers (CountRequest ls # es) = update_answers es"
  by (simp_all add: update_answers_def update_answer_def)



subsection \<open>The injector\<close>

lemma pod_annotation_map_meta:
  "pod_annotation (map_pod_meta f p) k = mstr (om_annotations (f (pd_meta p))) k"
  by (simp add: pod_annotation_def map_pod_meta_def)

lemma annotations_distinct:
  "annotation_cr_name \<noteq> annotation_inject" "annotation_injected \<noteq> annotation_inject" "annotation_injected \<noteq> annotation_cr_name"
  "annotation_cr_name \<noteq> annotation_profile" "annotation_injected \<noteq> annotation_profile"
  by (simp_all add: annotation_cr_name_def annotation_inject_def annotation_injected_def annotation_profile_def)

lemma agent_container_name_eq [simp]: "co_name (agent_container getenv p gs) = agent_container_name"
  by (simp add: agent_container_def mount_data_volume_def base_agent_container_def split: prod.splits)

lemma inject_sidecar_simps [simp]:
  "pd_containers (inject_sidecar getenv p gs) = pd_containers p"
  "pd_init_containers (inject_sidecar getenv p gs) = agent_container getenv p gs # pd_init_containers p"
  "pd_volumes (inject_sidecar getenv p gs) = pd_volumes p @ agent_volumes gs"
  "pd_service_account (inject_sidecar getenv p gs) = pd_service_account p"
  "pd_phase (inject_sidecar getenv p gs) = pd_phase p"
  by (simp_all add: inject_sidecar_def map_pod_meta_def)

lemma write_cr_name_simps [simp]:
  "pd_containers (write_cr_name n p) = pd_containers p" "pd_init_containers (write_cr_name n p) = pd_init_containers p"
  "pd_volumes (write_cr_name n p) = pd_volumes p"
  by (simp_all add: write_cr_name_def map_pod_meta_def)

lemma pod_annotation_inject [simp]:
  "k \<noteq> annotation_injected \<Longrightarrow> pod_annotation (inject_sidecar getenv p gs) k = pod_annotation p k"
  by (simp add: inject_sidecar_def pod_annotation_map_meta) (simp add: pod_annotation_def)

lemma pod_annotation_write:
  "pod_annotation (write_cr_name n p) k =
    (if k = annotation_cr_name \<and> pod_annotation p annotation_cr_name = [] then n else pod_annotation p k)"
  by (simp add: write_cr_name_def map_pod_meta_def pod_annotation_def)

text \<open>
  The resource a pod gets its sidecar for: the one its annotation names, or else the only one of
  its namespace; with several or none there is no such name. The state in which it is then
  fetched is that after the listing, when there was one.
\<close>

definition resource_of_pod :: "'k injector_api \<Rightarrow> string \<Rightarrow> pod \<Rightarrow> 'k \<Rightarrow> string option \<times> 'k" where
  "resource_of_pod J ns p k =
     (if pod_annotation p annotation_cr_name \<noteq> [] then (Some (pod_annotation p annotation_cr_name), k)
      else ((case fst (ja_list_gs J ns k) of
          Inl err \<Rightarrow> None
        | Inr items \<Rightarrow> if length items = 1 then Some (gy_name (hd items)) else None), snd (ja_list_gs J ns k)))"

text \<open>The name and the resource for which a pod that asks for the sidecar is patched.\<close>

definition injectable :: "'k injector_api \<Rightarrow> string \<Rightarrow> pod \<Rightarrow> 'k \<Rightarrow> (string \<times> gateway_sync) option" where
  "injectable J ns p k =
     (case resource_of_pod J ns p k of (name, k') \<Rightarrow> (case name of
        None \<Rightarrow> None
      | Some crName \<Rightarrow> (case fst (ja_get_gs J ns crName k') of
          Inl err \<Rightarrow> None
        | Inr gs \<Rightarrow>
            if \<not> ss_paused (gy_spec gs) \<and> (pod_annotation p annotation_profile = [] \<or>
              mget (ss_profiles (gy_spec gs)) (pod_annotation p annotation_profile) \<noteq> None)
            then Some (crName, gs) else None)))"

definition refuses :: "admission_response \<Rightarrow> bool" where
  "refuses a = (case a of Denied m \<Rightarrow> True | Errored code err \<Rightarrow> True | _ \<Rightarrow> False)"

lemma refuses_simps [simp]: "refuses (Denied m)" "refuses (Errored code err)" "\<not> refuses (Allowed m)" "\<not> refuses (Patched p)"
  by (simp_all add: refuses_def)

lemma single_cr_iff: "single_cr ns items = Inr crName \<longleftrightarrow> length items = 1 \<and> crName = gy_name (hd items)"
  by (auto simp: single_cr_def length_Suc_conv split: list.splits)

lemma single_cr_Inl: "single_cr ns items = Inl err \<Longrightarrow> length items \<noteq> 1"
  by (auto simp: single_cr_def split: list.splits)

lemma patched_pod:
  assumes "pod_annotation p annotation_inject = ''true''"
    "pod_annotation p annotation_cr_name \<noteq> [] \<longrightarrow> crName = pod_annotation p annotation_cr_name"
  shows "pod_annotation (inject_sidecar getenv (write_cr_name crName p) gs) annotation_cr_name = crName"
    "pod_annotation (inject_sidecar getenv (write_cr_name crName p) gs) annotation_inject = ''true''"
    "is_already_injected (inject_sidecar getenv (write_cr_name crName p) gs)"
  using assms by (simp_all add: annotations_distinct annotations_distinct(1-3) [symmetric] pod_annotation_write
      is_already_injected_def has_agent_container_def)

lemma write_cr_name_profile: "pod_annotation (write_cr_name n p) annotation_profile = pod_annotation p annotation_profile"
  by (simp add: pod_annotation_write annotations_distinct(4) [symmetric])

text \<open>
  C34: a pod that does not ask for the sidecar, or has it, is allowed as it is, without any call, so a second
  admission changes nothing. Any other pod is patched exactly when every check passes: it names a
  resource, or its namespace has exactly one, and that resource exists, is not paused and has the
  pod's profile; then the patch adds the sidecar for this resource and its name. When a check fails the
  pod is refused: with no resource, with several, and with an error of the API too.
\<close>

theorem injection_fail_closed:
  "wp (handle_pod J req) (\<lambda>a t.
     case ja_decode J (aq_object req) of
       Inl err \<Rightarrow> a = Errored 400 err \<and> t = s
     | Inr p \<Rightarrow>
         if pod_annotation p annotation_inject \<noteq> ''true''
         then a = Allowed ''injection not requested'' \<and> io_env t = io_env s
         else if is_already_injected p
         then a = Allowed ''already injected'' \<and> io_env t = io_env s
         else (case injectable J (aq_namespace req) p (io_env s) of
             None \<Rightarrow> refuses a
           | Some (crName, gs) \<Rightarrow> (\<exists>p'. a = Patched p' \<and>
               p' = inject_sidecar (ja_getenv J) (write_cr_name crName p) gs \<and>
               pod_annotation p' annotation_cr_name = crName \<and> pod_annotation p' annotation_inject = ''true'' \<and>
               is_already_injected p'))) s"
proof (cases "ja_decode J (aq_object req)")
  case (Inl err)
  then show ?thesis by (simp add: handle_pod_def wp_rules)
next
  case (Inr p)
  let ?ns = "aq_namespace req"
  let ?Q = "\<lambda>k a t. case injectable J ?ns p k of
             None \<Rightarrow> refuses a
           | Some (crName, gs) \<Rightarrow> (\<exists>p'. a = Patched p' \<and>
               p' = inject_sidecar (ja_getenv J) (write_cr_name crName p) gs \<and>
               pod_annotation p' annotation_cr_name = crName \<and> pod_annotation p' annotation_inject = ''true'' \<and>
               is_already_injected p')"
  have named: "wp (handle_named J ?ns crName (write_cr_name crName p)) (?Q k) u"
    if "pod_annotation p annotation_inject = ''true''" "resource_of_pod J ?ns p k = (Some crName, io_env u)" for crName u k
  proof -
    have keep: "pod_annotation p annotation_cr_name \<noteq> [] \<longrightarrow> crName = pod_annotation p annotation_cr_name"
      using that(2) by (auto simp: resource_of_pod_def split: if_splits)
    show ?thesis
      using that(2) patched_pod [OF that(1) keep]
      by (cases "fst (ja_get_gs J ?ns crName (io_env u))")
        (auto simp: handle_named_def wp_rules injectable_def admit_def write_cr_name_profile)
  qed
  have none: "?Q k (Denied m) t" if "fst (resource_of_pod J ?ns p k) = None" for k m and t :: "('a, injector_effect) io"
    using that by (auto simp: injectable_def split: prod.splits)
  show ?thesis
  proof (cases "pod_annotation p annotation_inject = ''true'' \<and> \<not> is_already_injected p")
    case True
    show ?thesis
    proof (cases "pod_annotation p annotation_cr_name = []")
      case False
      then have "resource_of_pod J ?ns p (io_env s) = (Some (pod_annotation p annotation_cr_name), io_env s)"
        by (simp add: resource_of_pod_def)
      from named [OF _ this] True False Inr show ?thesis by (simp add: handle_pod_def resolve_cr_name_def wp_rules)
    next
      case empty: True
      let ?l = "ja_list_gs J ?ns (io_env s)"
      let ?u = "s\<lparr>io_env := snd ?l, io_log := ListedGS ?ns # io_log s\<rparr>"
      have run: "wp (handle_pod J req) Q s = wp (case (case fst ?l of
           Inl err \<Rightarrow> Inl (Wrapf ''failed to list GatewaySync CRs'' err) | Inr items \<Rightarrow> single_cr ?ns items) of
             Inl err \<Rightarrow> ret (Denied (err_text err))
           | Inr crName \<Rightarrow> handle_named J ?ns crName (write_cr_name crName p)) Q ?u" for Q
        using True empty Inr by (simp add: handle_pod_def resolve_cr_name_def wp_rules del: wp_case_sum)
      show ?thesis
      proof (cases "fst ?l")
        case l: (Inl err)
        then have "fst (resource_of_pod J ?ns p (io_env s)) = None" using empty by (simp add: resource_of_pod_def)
        from none [OF this] show ?thesis using True Inr by (simp add: run l wp_ret)
      next
        case l: (Inr items)
        show ?thesis
        proof (cases "single_cr ?ns items")
          case c: (Inl err)
          then have "fst (resource_of_pod J ?ns p (io_env s)) = None"
            using empty l single_cr_Inl [OF c] by (simp add: resource_of_pod_def)
          from none [OF this] show ?thesis using True Inr by (simp add: run l c wp_ret)
        next
          case c: (Inr crName)
          then have "resource_of_pod J ?ns p (io_env s) = (Some crName, io_env ?u)"
            using empty l by (simp add: resource_of_pod_def single_cr_iff)
          from named [OF _ this] show ?thesis using True Inr by (simp add: run l c)
        qed
      qed
    qed
  next
    case False
    with Inr show ?thesis by (auto simp: handle_pod_def wp_rules)
  qed
qed

end
