(* ===== verification/InjectProps.thy ===== *)
theory InjectProps
  imports SampleResource WebhookProps ControllerMetadata
begin

section \<open>The injected container against the programs it connects\<close>

text \<open>
  The pod the injector returns: its container, volumes and mounts; and its environment read by the
  agent's own \<open>LoadConfig\<close>.
\<close>

subsection \<open>Volumes and environment\<close>

definition restricted :: "container \<Rightarrow> bool" where
  "restricted c \<longleftrightarrow> (case co_security_context c of None \<Rightarrow> False | Some x \<Rightarrow>
     sx_run_as_non_root x \<and> sx_read_only_root_filesystem x \<and> \<not> sx_allow_privilege_escalation x \<and> ''ALL'' \<in> set (sx_drop x))"

definition mounts_exist :: "pod \<Rightarrow> container \<Rightarrow> bool" where
  "mounts_exist p c \<longleftrightarrow> list_all (\<lambda>m. vm_name m \<in> set (map vo_name (pd_volumes p))) (co_volume_mounts c)"

text \<open>The value of a variable is the value of its last entry; a field reference is the pod's own field.\<close>

definition env_entry :: "pod \<Rightarrow> env_var \<Rightarrow> string" where
  "env_entry p e = (case ev_field_path e of
      None \<Rightarrow> ev_value e
    | Some f \<Rightarrow> if f = ''metadata.name'' then om_name (pd_meta p)
        else if f = ''metadata.namespace'' then om_namespace (pd_meta p) else [])"

definition container_env :: "pod \<Rightarrow> container \<Rightarrow> string \<Rightarrow> string" where
  "container_env p c n = (case find (\<lambda>e. ev_name e = n) (rev (co_env c)) of None \<Rightarrow> [] | Some e \<Rightarrow> env_entry p e)"

definition under_mount :: "container \<Rightarrow> string \<Rightarrow> string \<Rightarrow> string \<Rightarrow> bool" where
  "under_mount c path volName key \<longleftrightarrow>
     list_ex (\<lambda>m. vm_name m = volName \<and> path = vm_mount_path m @ ''/'' @ key) (co_volume_mounts c)"

definition secret_volume :: "pod \<Rightarrow> string \<Rightarrow> string \<Rightarrow> bool" where
  "secret_volume p volName secretName \<longleftrightarrow>
     list_ex (\<lambda>v. vo_name v = volName \<and> vo_source v = SecretVolume secretName secret_mode) (pd_volumes p)"

lemma resolve_data_volume_exists:
  "resolve_data_volume p = (name, path) \<Longrightarrow> name \<noteq> [] \<Longrightarrow> name \<in> set (map vo_name (pd_volumes p))"
  by (auto simp: resolve_data_volume_def split: if_splits)

lemma base_agent_container_mounts [simp]: "co_volume_mounts (base_agent_container getenv p gs) = agent_volume_mounts gs"
  by (simp add: base_agent_container_def)

lemma agent_mounts_exist:
  "m \<in> set (agent_volume_mounts gs) \<Longrightarrow> vm_name m \<in> vo_name ` set (agent_volumes gs)"
  by (auto simp: agent_volume_mounts_def agent_volumes_def mount_def vol_def needs_known_hosts_volume_def
      split: if_splits option.splits)

lemma agent_container_mounts:
  "co_volume_mounts (agent_container getenv p gs) =
    agent_volume_mounts gs @ (case resolve_data_volume p of (name, path) \<Rightarrow> if name = [] then [] else [mount name path False])"
  by (simp add: agent_container_def mount_data_volume_def split: prod.splits)

text \<open>
  C35: injection adds one container in front of the init containers, runs it restricted, and leaves
  everything else of the pod as it was: the containers, the other init containers, the volumes it had, and
  of the metadata all but one annotation and one label, which it sets. Every volume the agent's
  container mounts exists in the patched pod.
\<close>

theorem injection_adds_only:
  "let p' = inject_sidecar getenv p gs; c = agent_container getenv p gs; m' = pd_meta p' in
     p' = p\<lparr>pd_meta := (pd_meta p)\<lparr>om_labels := om_labels m', om_annotations := om_annotations m'\<rparr>,
            pd_init_containers := c # pd_init_containers p, pd_volumes := pd_volumes p @ agent_volumes gs\<rparr> \<and>
     mget (om_annotations m') k = (if k = annotation_injected then Some ''true'' else mget (om_annotations (pd_meta p)) k) \<and>
     mget (om_labels m') k = (if k = label_agent then Some ''true'' else mget (om_labels (pd_meta p)) k) \<and>
     co_name c = ''stoker-agent'' \<and> restricted c \<and> co_restart_policy c = Some ''Always'' \<and> mounts_exist p' c"
proof -
  have "mounts_exist (inject_sidecar getenv p gs) (agent_container getenv p gs)"
  proof -
    obtain name path where d: "resolve_data_volume p = (name, path)" by (rule prod.exhaust)
    from agent_mounts_exist [of _ gs] resolve_data_volume_exists [OF d] show ?thesis
      by (auto simp: mounts_exist_def agent_container_mounts d list_all_iff image_Un mount_def)
  qed
  moreover have "restricted (agent_container getenv p gs)" "co_restart_policy (agent_container getenv p gs) = Some ''Always''"
    by (auto simp: agent_container_def mount_data_volume_def base_agent_container_def restricted_def
        restricted_security_context_def split: prod.splits)
  ultimately show ?thesis
    by (simp add: Let_def agent_container_name_def) (simp add: inject_sidecar_def map_pod_meta_def)
qed

subsection \<open>The environment the agent reads\<close>

lemma find_set_env:
  "find (\<lambda>e. ev_name e = n) (set_env m v es) = (if m = n then map_option (\<lambda>e. e\<lparr>ev_value := v\<rparr>) (find (\<lambda>e. ev_name e = n) es)
    else find (\<lambda>e. ev_name e = n) es)"
  by (induction m v es rule: set_env.induct) auto

lemma find_append: "find P (xs @ ys) = (case find P xs of None \<Rightarrow> find P ys | Some x \<Rightarrow> Some x)"
  by (induction xs) auto

lemma find_rev_distinct:
  "distinct (map ev_name es) \<Longrightarrow> find (\<lambda>e. ev_name e = n) (rev es) = find (\<lambda>e. ev_name e = n) es"
proof (induction es)
  case (Cons e es)
  have "find (\<lambda>e. ev_name e = n) es = None" if "ev_name e = n"
    using Cons.prems that by (auto simp: find_None_iff image_iff)
  with Cons show ?case by (auto simp: find_append split: option.splits)
qed simp

lemma env_var_simps [simp]:
  "ev_name (env_value n v) = n" "ev_name (env_field n f) = n"
  "env_entry p (env_value n v) = v" "env_entry p (env_field n f) = (if f = ''metadata.name'' then om_name (pd_meta p)
     else if f = ''metadata.namespace'' then om_namespace (pd_meta p) else [])"
  "(env_value n v)\<lparr>ev_value := w\<rparr> = env_value n w"
  by (simp_all add: env_value_def env_field_def env_entry_def)

lemma names_set_env [simp]: "map ev_name (set_env n v es) = map ev_name es"
  by (induction n v es rule: set_env.induct) auto

definition credential_names :: "string list" where
  "credential_names = [''GIT_SSH_KEY_FILE'', ''GIT_KNOWN_HOSTS_FILE'', ''GIT_TOKEN_FILE'']"

lemma credential_env_names:
  "set (map ev_name (credential_env gs)) \<subseteq> set credential_names" "distinct (map ev_name (credential_env gs))"
  by (auto simp: credential_env_def credential_names_def split: option.splits)

lemma distinct_env: "distinct (map ev_name (build_env_vars a b c d e gs))"
proof -
  have "\<forall>n \<in> set (map ev_name (credential_env gs)). n \<in> set credential_names" using credential_env_names(1) by blast
  then have "x \<notin> set (map ev_name (credential_env gs))" if "x \<notin> set credential_names" for x using that by blast
  with credential_env_names(2) show ?thesis
    by (simp add: build_env_vars_def credential_names_def del: set_map)
qed

lemma find_credential_None: "n \<notin> set credential_names \<Longrightarrow> find (\<lambda>e. ev_name e = n) (credential_env gs) = None"
  using credential_env_names(1) [of gs] by (auto simp: find_None_iff)

definition data_path :: "pod \<Rightarrow> string" where
  "data_path p = (case resolve_data_volume p of (name, path) \<Rightarrow> if name = [] then mount_ignition_data else path)"

definition base_env :: "pod \<Rightarrow> gateway_sync \<Rightarrow> env_var list" where
  "base_env p gs = build_env_vars (injected_cr_name p gs) (pod_annotation p annotation_gateway_name)
     (pod_annotation p annotation_profile) (injected_port gs) (injected_tls gs) gs"

lemma container_env_agent:
  "container_env q (agent_container getenv p gs) n =
    (case find (\<lambda>e. ev_name e = n) (base_env p gs) of
       None \<Rightarrow> []
     | Some e \<Rightarrow> if n = ''DATA_PATH'' then data_path p else env_entry q e)"
proof -
  have dp: "find (\<lambda>e. ev_name e = ''DATA_PATH'') (base_env p gs) = Some (env_value ''DATA_PATH'' mount_ignition_data)"
    by (simp add: base_env_def build_env_vars_def)
  obtain name path where d: "resolve_data_volume p = (name, path)" by (rule prod.exhaust)
  have env: "co_env (agent_container getenv p gs) = (if name = [] then base_env p gs else set_env ''DATA_PATH'' path (base_env p gs))"
    by (simp add: agent_container_def mount_data_volume_def d base_agent_container_def base_env_def)
  have "distinct (map ev_name (co_env (agent_container getenv p gs)))"
    by (simp add: env) (simp add: base_env_def distinct_env)
  then show ?thesis
    using dp by (auto simp: container_env_def find_rev_distinct env find_set_env data_path_def d split: option.splits)
qed

lemma base_env_values:
  "find (\<lambda>e. ev_name e = ''POD_NAME'') (base_env p gs) = Some (env_field ''POD_NAME'' ''metadata.name'')"
  "find (\<lambda>e. ev_name e = ''POD_NAMESPACE'') (base_env p gs) = Some (env_field ''POD_NAMESPACE'' ''metadata.namespace'')"
  "find (\<lambda>e. ev_name e = ''CR_NAME'') (base_env p gs) = Some (env_value ''CR_NAME'' (injected_cr_name p gs))"
  "find (\<lambda>e. ev_name e = ''CR_NAMESPACE'') (base_env p gs) = Some (env_field ''CR_NAMESPACE'' ''metadata.namespace'')"
  "find (\<lambda>e. ev_name e = ''GATEWAY_NAME'') (base_env p gs) = Some (env_value ''GATEWAY_NAME'' (pod_annotation p annotation_gateway_name))"
  "find (\<lambda>e. ev_name e = ''PROFILE'') (base_env p gs) = Some (env_value ''PROFILE'' (pod_annotation p annotation_profile))"
  "find (\<lambda>e. ev_name e = ''REPO_PATH'') (base_env p gs) = Some (env_value ''REPO_PATH'' mount_repo)"
  "find (\<lambda>e. ev_name e = ''DATA_PATH'') (base_env p gs) = Some (env_value ''DATA_PATH'' mount_ignition_data)"
  "find (\<lambda>e. ev_name e = ''GATEWAY_PORT'') (base_env p gs) = Some (env_value ''GATEWAY_PORT'' (injected_port gs))"
  "find (\<lambda>e. ev_name e = ''GATEWAY_TLS'') (base_env p gs) = Some (env_value ''GATEWAY_TLS'' (injected_tls gs))"
  "find (\<lambda>e. ev_name e = ''API_KEY_FILE'') (base_env p gs) = Some (env_value ''API_KEY_FILE'' (mount_api_key @ ''/'' @ gw_secret_key (ss_gateway (gy_spec gs))))"
  "find (\<lambda>e. ev_name e = ''SYNC_PERIOD'') (base_env p gs) = Some (env_value ''SYNC_PERIOD'' ''30'')"
  by (simp_all add: base_env_def build_env_vars_def find_append find_credential_None credential_names_def)

definition env_agrees :: "pod \<Rightarrow> gateway_sync \<Rightarrow> agent_config \<Rightarrow> bool" where
  "env_agrees p gs c \<longleftrightarrow>
     c_cr_name c = injected_cr_name p gs \<and> c_cr_namespace c = om_namespace (pd_meta p) \<and>
     c_pod_namespace c = om_namespace (pd_meta p) \<and> c_pod_name c = om_name (pd_meta p) \<and>
     c_gateway_name c = or_default (pod_annotation p annotation_gateway_name) (om_name (pd_meta p)) \<and>
     c_profile_name c = pod_annotation p annotation_profile \<and> c_repo_path c = mount_repo \<and>
     c_data_path c = or_default (data_path p) mount_ignition_data \<and>
     c_gateway_port c = injected_port gs \<and> c_gateway_tls c = (gw_tls (ss_gateway (gy_spec gs)) = Some True) \<and>
     c_sync_period c = 30"

lemma inject_meta [simp]:
  "om_name (pd_meta (inject_sidecar getenv p gs)) = om_name (pd_meta p)"
  "om_namespace (pd_meta (inject_sidecar getenv p gs)) = om_namespace (pd_meta p)"
  by (simp_all add: inject_sidecar_def map_pod_meta_def)

lemma itoa_nonempty [simp]: "itoa i \<noteq> []"
  by (simp add: itoa_def)

lemma credential_value:
  assumes "n \<in> set credential_names"
  shows "container_env (inject_sidecar getenv p gs) (agent_container getenv p gs) n =
    (case find (\<lambda>e. ev_name e = n) (credential_env gs) of None \<Rightarrow> [] | Some e \<Rightarrow>
       env_entry (inject_sidecar getenv p gs) e)"
proof -
  have "find (\<lambda>e. ev_name e = n) (base_env p gs) = find (\<lambda>e. ev_name e = n) (credential_env gs)"
  proof -
    from assms consider "n = ''GIT_SSH_KEY_FILE''" | "n = ''GIT_KNOWN_HOSTS_FILE''" | "n = ''GIT_TOKEN_FILE''"
      by (auto simp: credential_names_def)
    then show ?thesis by cases (simp_all add: base_env_def build_env_vars_def find_append, simp_all split: option.split)
  qed
  moreover have "n \<noteq> ''DATA_PATH''" using assms by (auto simp: credential_names_def)
  ultimately show ?thesis by (simp add: container_env_agent cong: option.case_cong)
qed

text \<open>
  The variables of git's credentials, as the agent reads them: a variable that is set is the path of a key
  under the mount of a volume that is a Secret of the specification, or the token Secret the controller
  writes. The SSH key comes before the token, the token before the GitHub App.
\<close>

definition mounted_key :: "pod \<Rightarrow> container \<Rightarrow> string \<Rightarrow> string \<Rightarrow> string \<Rightarrow> string \<Rightarrow> bool" where
  "mounted_key p c path volName secretName key \<longleftrightarrow> under_mount c path volName key \<and> secret_volume p volName secretName"

definition credentials_mounted :: "pod \<Rightarrow> container \<Rightarrow> gateway_sync \<Rightarrow> string \<Rightarrow> bool" where
  "credentials_mounted p c gs tok =
     (let env = container_env p c in
      if resolve_auth_type (gy_auth gs) = ''ssh''
      then (case Option.bind (gy_auth gs) au_ssh_key of
          None \<Rightarrow> False
        | Some ssh \<Rightarrow>
            mounted_key p c (env ''GIT_SSH_KEY_FILE'') volume_git_credentials (sk_name (sa_secret_ref ssh)) (sk_key (sa_secret_ref ssh)) \<and>
            env ''GIT_TOKEN_FILE'' = [] \<and>
            (case sa_known_hosts ssh of
               None \<Rightarrow> env ''GIT_KNOWN_HOSTS_FILE'' = []
             | Some kh \<Rightarrow> mounted_key p c (env ''GIT_KNOWN_HOSTS_FILE'') volume_known_hosts (sk_name kh) (sk_key kh)))
      else env ''GIT_SSH_KEY_FILE'' = [] \<and> env ''GIT_KNOWN_HOSTS_FILE'' = [] \<and>
        (if resolve_auth_type (gy_auth gs) = ''token''
         then (case Option.bind (gy_auth gs) au_token of
             None \<Rightarrow> False
           | Some t \<Rightarrow> mounted_key p c (env ''GIT_TOKEN_FILE'') volume_git_credentials (sk_name t) (sk_key t))
         else if resolve_auth_type (gy_auth gs) = ''githubApp''
         then mounted_key p c (env ''GIT_TOKEN_FILE'') volume_git_token (se_name (new_token_secret gs tok)) ''token'' \<and>
           mget (se_data (new_token_secret gs tok)) ''token'' = Some tok
         else env ''GIT_TOKEN_FILE'' = []))"

lemma agent_credentials_mounted: "credentials_mounted (inject_sidecar getenv p gs) (agent_container getenv p gs) gs tok"
proof -
  note vals = credential_value [of "''GIT_SSH_KEY_FILE''"] credential_value [of "''GIT_TOKEN_FILE''"]
    credential_value [of "''GIT_KNOWN_HOSTS_FILE''"]
  note mounts = mounted_key_def under_mount_def agent_container_mounts agent_volume_mounts_def mount_def secret_volume_def
    agent_volumes_def vol_def needs_git_credential_volume_def needs_known_hosts_volume_def known_hosts_ref_def
    needs_git_hub_token_volume_def git_credential_secret_name_def
  show ?thesis
  proof (cases "gy_auth gs")
    case None
    then show ?thesis
      by (simp add: credentials_mounted_def Let_def resolve_auth_type_def vals credential_names_def credential_env_def)
  next
    case (Some a)
    then have app: "gy_github_app gs = au_github_app a" by (simp add: gy_github_app_def)
    show ?thesis
      by (cases "au_ssh_key a"; cases "au_token a"; cases "au_github_app a")
        (auto simp: credentials_mounted_def Let_def resolve_auth_type_def vals credential_names_def credential_env_def
          Some app mounts new_token_secret_def git_hub_token_secret_name_def github_token_secret_name_def split: option.split)
  qed
qed

text \<open>
  C36: the agent that starts with the environment the injector writes loads a configuration, and it
  is the one of the pod and of the resource: the resource's name, the pod's own name and namespace,
  the gateway's name from the annotation or else the pod's name, the port and TLS of the specification, the
  path where the gateway's data volume is mounted. Its API key file is a key of the mounted Secret of the
  specification, and so are the files of git's credentials: the SSH key and its known hosts, or the token,
  or for a GitHub App the key \<open>token\<close> of the Secret the controller writes for the resource; no other
  credential variable is set.
\<close>

theorem injected_env_loads:
  assumes ns: "om_namespace (pd_meta p) \<noteq> []" and cr: "injected_cr_name p gs \<noteq> []"
  shows "let p' = inject_sidecar getenv p gs; c = agent_container getenv p gs; env = container_env p' c in
     (case load_config env of
         Inl err \<Rightarrow> False
       | Inr cfg \<Rightarrow> env_agrees p gs cfg \<and>
           mounted_key p' c (c_api_key_file cfg) volume_api_key (gw_secret_name (ss_gateway (gy_spec gs)))
             (gw_secret_key (ss_gateway (gy_spec gs)))) \<and>
     credentials_mounted p' c gs tok"
proof -
  let ?p = "inject_sidecar getenv p gs" and ?c = "agent_container getenv p gs"
  have sp: "sync_period_of_env ''30'' = 30" by code_simp
  have tls: "tls_of_env (injected_tls gs) = (gw_tls (ss_gateway (gy_spec gs)) = Some True)"
    by (simp add: tls_of_env_def injected_tls_def parse_bool_def)
  have port: "injected_port gs \<noteq> []" by (simp add: injected_port_def)
  have api: "under_mount ?c (mount_api_key @ CHR ''/'' # k) volume_api_key k" for k
    by (simp add: under_mount_def agent_container_mounts agent_volume_mounts_def mount_def)
  have vol: "secret_volume ?p volume_api_key (gw_secret_name (ss_gateway (gy_spec gs)))"
    by (simp add: secret_volume_def agent_volumes_def vol_def)
  have load: "(case load_config (container_env ?p ?c) of
         Inl err \<Rightarrow> False
       | Inr cfg \<Rightarrow> env_agrees p gs cfg \<and>
           mounted_key ?p ?c (c_api_key_file cfg) volume_api_key (gw_secret_name (ss_gateway (gy_spec gs)))
             (gw_secret_key (ss_gateway (gy_spec gs))))"
    using ns cr by (auto simp: load_config_def Let_def config_defaults_def read_env_def container_env_agent base_env_values
        env_agrees_def or_default_def mounted_key_def sp tls port api vol mount_repo_def mount_ignition_data_def)
  show ?thesis unfolding Let_def using load agent_credentials_mounted by blast
qed

theorem injected_env_loads_witness:
  "(case load_config (container_env (inject_sidecar (\<lambda>_. []) sample_pod sample_app_gs)
        (agent_container (\<lambda>_. []) sample_pod sample_app_gs)) of
      Inl err \<Rightarrow> False
    | Inr cfg \<Rightarrow> c_cr_name cfg = ''cr'' \<and> c_pod_name cfg = ''ign-0'' \<and> c_data_path cfg = ''/data'' \<and> c_gateway_name cfg = ''ign-0'') \<and>
   mounted_key (inject_sidecar (\<lambda>_. []) sample_pod sample_app_gs) (agent_container (\<lambda>_. []) sample_pod sample_app_gs)
     (container_env (inject_sidecar (\<lambda>_. []) sample_pod sample_app_gs)
        (agent_container (\<lambda>_. []) sample_pod sample_app_gs) ''GIT_TOKEN_FILE'') volume_git_token
     ''stoker-github-token-cr'' ''token''"
proof -
  have e: "om_namespace (pd_meta sample_pod) = ''ns''" "om_name (pd_meta sample_pod) = ''ign-0''"
    "injected_cr_name sample_pod sample_app_gs = ''cr''" "data_path sample_pod = ''/data''"
    "pod_annotation sample_pod annotation_gateway_name = []" "resolve_auth_type (gy_auth sample_app_gs) = ''githubApp''"
    "gy_name sample_app_gs = ''cr''"
    by (simp_all add: sample_pod_def sample_app_gs_def sample_gs_def sample_meta_def sample_container_def injected_cr_name_def
        pod_annotation_def annotation_inject_def annotation_cr_name_def data_path_def resolve_data_volume_def
        annotation_gateway_name_def mount_path_of_def resolve_auth_type_def gy_auth_def gy_name_def)
  show ?thesis
    using injected_env_loads [of sample_pod sample_app_gs "\<lambda>_. []" "''t''"]
    by (auto simp: e env_agrees_def or_default_def credentials_mounted_def new_token_secret_def github_token_secret_name_def
        Let_def split: sum.splits)
qed

end
