(* ===== verification/GitNative.thy ===== *)
theory GitNative
  imports GitRemote
begin

section \<open>internal/git: the native git client\<close>

text \<open>
  The agent's git client: \<open>NativeGitClient\<close> of \<open>client.go\<close>. Every command line, every file written
  and every file removed is logged, so the laws can say where a credential ends up. The git binary,
  the environment and the files are the fields of \<open>shell_api\<close>.
\<close>

datatype git_effect =
    RanGit "string list" string "string list"   \<comment> \<open>arguments, working directory, extra environment\<close>
  | WroteFile string string bool                \<comment> \<open>path, contents, whether the write succeeded\<close>
  | RemovedFile string

record 'k shell_api =
  sh_getenv :: "string \<Rightarrow> string"
  sh_read_file :: "string \<Rightarrow> 'k \<Rightarrow> string res \<times> 'k"
  sh_write_file :: "string \<Rightarrow> string \<Rightarrow> nat \<Rightarrow> 'k \<Rightarrow> goerror option \<times> 'k"
  sh_remove :: "string \<Rightarrow> 'k \<Rightarrow> 'k"
  sh_run_git :: "string list \<Rightarrow> string \<Rightarrow> string list \<Rightarrow> 'k \<Rightarrow> (string \<times> goerror option) \<times> 'k"
  sh_stat :: "string \<Rightarrow> 'k \<Rightarrow> goerror option \<times> 'k"

type_synonym ('k, 'a) git_io = "(('k, git_effect) io, 'a) state"

subsection \<open>Redaction\<close>

text \<open>
  \<open>tokenRe\<close> is \<open>://[^@\s]+@\<close>. The class excludes \<open>@\<close>, so a match is the longest run of such
  characters and the \<open>@\<close> after it. \<open>credential s\<close> is what follows a match at the start of \<open>s\<close>.
\<close>

definition cred_char :: "char \<Rightarrow> bool" where
  "cred_char c \<longleftrightarrow> c \<noteq> CHR ''@'' \<and> c \<notin> set [CHR '' '', CHR 0x09, CHR 0x0A, CHR 0x0C, CHR 0x0D]"

definition credential :: "string \<Rightarrow> string option" where
  "credential s =
     (case cut_prefix s ''://'' of
        None \<Rightarrow> None
      | Some rest \<Rightarrow>
          (case dropWhile cred_char rest of
             [] \<Rightarrow> None
           | c # after \<Rightarrow> if takeWhile cred_char rest \<noteq> [] \<and> c = CHR ''@'' then Some after else None))"

lemma credential_length: "credential s = Some after \<Longrightarrow> length after < length s"
proof -
  assume a: "credential s = Some after"
  then obtain rest c where r: "s = ''://'' @ rest" and d: "dropWhile cred_char rest = c # after"
    by (auto simp: credential_def cut_prefix_Some split: option.splits list.splits if_splits)
  have "length (dropWhile cred_char rest) \<le> length rest" by (rule length_dropWhile_le)
  with r d show "length after < length s" by simp
qed

function redact :: "string \<Rightarrow> string" where
  "redact [] = []"
| "redact (c # r) =
     (case credential (c # r) of
        Some after \<Rightarrow> ''://<redacted>@'' @ redact after
      | None \<Rightarrow> c # redact r)"
  by pat_completeness auto
termination
  by (relation "measure length") (auto dest: credential_length)

definition sanitize_output :: "string \<Rightarrow> string" where
  "sanitize_output s = redact (trim_space s)"

subsection \<open>Running git\<close>

definition git_error :: "string \<Rightarrow> goerror \<Rightarrow> goerror" where
  "git_error out err = Errorf (let msg = sanitize_output out in if msg = [] then err_text err else msg)"

definition run_git :: "'k shell_api \<Rightarrow> string list \<Rightarrow> string \<Rightarrow> string list \<Rightarrow> ('k, string res) git_io" where
  "run_git S args dir extraEnv = do {
     emit (RanGit args dir extraEnv);
     r \<leftarrow> call (sh_run_git S args dir extraEnv);
     ret (case r of (out, e) \<Rightarrow>
       (case e of Some err \<Rightarrow> Inl (git_error out err) | None \<Rightarrow> Inr (trim_space out))) }"

text \<open>One command, its error wrapped, then the rest.\<close>

definition then_git :: "'k shell_api \<Rightarrow> string list \<Rightarrow> string \<Rightarrow> string list \<Rightarrow> string \<Rightarrow> ('k, git_result res) git_io \<Rightarrow> ('k, git_result res) git_io" where
  "then_git S args dir extraEnv msg rest = do {
     r \<leftarrow> run_git S args dir extraEnv;
     (case r of Inl err \<Rightarrow> ret (Inl (Wrapf msg err)) | Inr out \<Rightarrow> rest) }"

definition native_rev_parse :: "'k shell_api \<Rightarrow> string \<Rightarrow> string \<Rightarrow> string list \<Rightarrow> ('k, git_result res) git_io" where
  "native_rev_parse S ref path extraEnv = do {
     r \<leftarrow> run_git S [''rev-parse'', ''HEAD''] path extraEnv;
     ret (case r of
        Inl err \<Rightarrow> Inl (Wrapf ''git rev-parse HEAD'' err)
      | Inr commit \<Rightarrow> Inr \<lparr>gr_commit = commit, gr_ref = ref\<rparr>) }"

definition native_fetch_and_checkout :: "'k shell_api \<Rightarrow> string \<Rightarrow> string \<Rightarrow> string \<Rightarrow> string \<Rightarrow> string list \<Rightarrow> ('k, git_result res) git_io" where
  "native_fetch_and_checkout S cleanURL authURL ref path extraEnv =
     then_git S [''remote'', ''set-url'', ''origin'', cleanURL] path extraEnv ''git remote set-url''
      (then_git S [''fetch'', ''--depth=1'', authURL, ref] path extraEnv ''git fetch''
        (then_git S [''checkout'', ''-f'', ''FETCH_HEAD''] path extraEnv ''git checkout''
          (native_rev_parse S ref path extraEnv)))"

definition native_clone_and_checkout :: "'k shell_api \<Rightarrow> string \<Rightarrow> string \<Rightarrow> string \<Rightarrow> string \<Rightarrow> string list \<Rightarrow> ('k, git_result res) git_io" where
  "native_clone_and_checkout S cleanURL authURL ref path extraEnv =
     (if is_hash ref
      then then_git S [''init'', path] [] extraEnv ''git init''
            (then_git S [''remote'', ''add'', ''origin'', cleanURL] path extraEnv ''git remote add''
              (native_fetch_and_checkout S cleanURL authURL ref path extraEnv))
      else then_git S [''clone'', ''--depth=1'', ''--branch'', ref, authURL, path] [] extraEnv (''git clone --branch '' @ ref)
            (then_git S [''remote'', ''set-url'', ''origin'', cleanURL] path extraEnv ''git remote set-url''
              (native_rev_parse S ref path extraEnv)))"

subsection \<open>The environment of the commands\<close>

definition inject_token_into_url :: "string \<Rightarrow> string \<Rightarrow> string" where
  "inject_token_into_url repoURL token =
     (case cut_prefix repoURL ''https://'' of
        Some after \<Rightarrow> ''https://x-access-token:'' @ token @ ''@'' @ after
      | None \<Rightarrow> (case cut_prefix repoURL ''http://'' of
          Some after \<Rightarrow> ''http://x-access-token:'' @ token @ ''@'' @ after
        | None \<Rightarrow> repoURL))"

definition git_base_env :: "string list" where
  "git_base_env = [''HOME=/tmp'', ''GIT_TERMINAL_PROMPT=0'', ''GIT_CONFIG_NOSYSTEM=1'']"

definition git_config_text :: string where
  "git_config_text = ''[safe]'' @ [CHR 0x0A, CHR 0x09] @ ''directory = *'' @ [CHR 0x0A]"

definition ssh_key_path :: string where
  "ssh_key_path = ''/tmp/stoker-ssh-key''"

definition ssh_wrapper_path :: string where
  "ssh_wrapper_path = ''/tmp/stoker-ssh''"

definition host_key_opts :: "string \<Rightarrow> string" where
  "host_key_opts knownHostsFile =
     (if knownHostsFile = [] then ''-o StrictHostKeyChecking=no''
      else ''-o StrictHostKeyChecking=yes -o UserKnownHostsFile='' @ knownHostsFile)"

definition nl :: string where
  "nl = [CHR 0x0A]"

definition dq :: string where
  "dq = [CHR 0x22]"

text \<open>The two \<open>printf\<close> formats: in them a backslash and an \<open>n\<close> are two characters.\<close>

definition ssh_exec :: "string \<Rightarrow> string" where
  "ssh_exec opts = ''  exec ssh -i '' @ ssh_key_path @ '' '' @ opts @
     '' -o BatchMode=yes -o IdentitiesOnly=yes '' @ dq @ ''$@'' @ dq @ nl"

definition ssh_wrapper_text :: "string \<Rightarrow> string" where
  "ssh_wrapper_text opts = ''#!/bin/sh'' @ nl
     @ ''uid=$(id -u); gid=$(id -g)'' @ nl
     @ ''printf '' @ dq @ ''agent:x:%d:%d::/tmp:/sbin/nologin'' @ [CHR 0x5C, CHR ''n''] @ dq @ '' '' @ dq @ ''$uid'' @ dq @ '' '' @ dq @ ''$gid'' @ dq @ '' > /tmp/.nss-passwd'' @ nl
     @ ''printf '' @ dq @ ''agent:x:%d:'' @ [CHR 0x5C, CHR ''n''] @ dq @ '' '' @ dq @ ''$gid'' @ dq @ '' > /tmp/.nss-group'' @ nl
     @ ''_nss=$(ls /usr/lib/libnss_wrapper.so* 2>/dev/null | head -1)'' @ nl
     @ ''if [ -n '' @ dq @ ''$_nss'' @ dq @ '' ]; then'' @ nl
     @ ''  NSS_WRAPPER_PASSWD=/tmp/.nss-passwd NSS_WRAPPER_GROUP=/tmp/.nss-group LD_PRELOAD='' @ dq @ ''$_nss'' @ dq @ '' '' @ [CHR 0x5C] @ nl
     @ ssh_exec opts
     @ ''else'' @ nl
     @ ssh_exec opts
     @ ''fi'' @ nl"

definition write_file :: "'k shell_api \<Rightarrow> string \<Rightarrow> string \<Rightarrow> nat \<Rightarrow> ('k, goerror option) git_io" where
  "write_file S path data mode = do {
     e \<leftarrow> call (sh_write_file S path data mode);
     emit (WroteFile path data (e = None));
     ret e }"

definition remove_file :: "'k shell_api \<Rightarrow> string \<Rightarrow> ('k, unit) git_io" where
  "remove_file S path = do { call (\<lambda>k. ((), sh_remove S path k)); emit (RemovedFile path) }"

text \<open>What \<open>buildGitEnv\<close> returns; the cleanup function is the list of the files it removes.\<close>

record git_env =
  gv_url :: string
  gv_env :: "string list"
  gv_cleanup :: "string list"

definition ssh_env :: "'k shell_api \<Rightarrow> string \<Rightarrow> string \<Rightarrow> ('k, git_env res) git_io" where
  "ssh_env S repoURL keyFile = do {
     r \<leftarrow> call (sh_read_file S keyFile);
     (case r of
        Inl err \<Rightarrow> ret (Inl (Wrapf (''reading SSH key '' @ keyFile) err))
      | Inr keyData \<Rightarrow> do {
          e \<leftarrow> write_file S ssh_key_path keyData 384;
          (case e of
             Some err \<Rightarrow> ret (Inl (Wrapf ''writing SSH key to /tmp'' err))
           | None \<Rightarrow> do {
               w \<leftarrow> write_file S ssh_wrapper_path (ssh_wrapper_text (host_key_opts (sh_getenv S ''GIT_KNOWN_HOSTS_FILE''))) 448;
               (case w of
                  Some err \<Rightarrow> do {
                    remove_file S ssh_key_path;
                    ret (Inl (Wrapf ''writing SSH wrapper'' err)) }
                | None \<Rightarrow> ret (Inr \<lparr>gv_url = repoURL,
                    gv_env = git_base_env @ [''GIT_SSH_COMMAND='' @ ssh_wrapper_path],
                    gv_cleanup = [ssh_key_path, ssh_wrapper_path]\<rparr>)) }) }) }"

definition token_env :: "'k shell_api \<Rightarrow> string \<Rightarrow> string \<Rightarrow> ('k, git_env res) git_io" where
  "token_env S repoURL tokenFile = do {
     r \<leftarrow> call (sh_read_file S tokenFile);
     ret (case r of
        Inl err \<Rightarrow> Inl (Wrapf (''reading token file '' @ tokenFile) err)
      | Inr tokenData \<Rightarrow> Inr \<lparr>gv_url = inject_token_into_url repoURL (trim_space tokenData),
          gv_env = git_base_env, gv_cleanup = []\<rparr>) }"

definition build_git_env :: "'k shell_api \<Rightarrow> string \<Rightarrow> ('k, git_env res) git_io" where
  "build_git_env S repoURL = do {
     ignored \<leftarrow> write_file S ''/tmp/.gitconfig'' git_config_text 420;
     (if sh_getenv S ''GIT_SSH_KEY_FILE'' \<noteq> [] then ssh_env S repoURL (sh_getenv S ''GIT_SSH_KEY_FILE'')
      else if sh_getenv S ''GIT_TOKEN_FILE'' \<noteq> [] then token_env S repoURL (sh_getenv S ''GIT_TOKEN_FILE'')
      else ret (Inr \<lparr>gv_url = repoURL, gv_env = git_base_env, gv_cleanup = []\<rparr>)) }"

fun remove_files :: "'k shell_api \<Rightarrow> string list \<Rightarrow> ('k, unit) git_io" where
  "remove_files S [] = ret ()"
| "remove_files S (p # ps) = do { remove_file S p; remove_files S ps }"

definition native_is_cloned :: "'k shell_api \<Rightarrow> string \<Rightarrow> ('k, bool) git_io" where
  "native_is_cloned S path = do { e \<leftarrow> call (sh_stat S (filepath_join path ''.git'')); ret (e = None) }"

definition native_ls_remote :: "string \<Rightarrow> string \<Rightarrow> git_result res" where
  "native_ls_remote repoURL ref = Inl (Errorf ''NativeGitClient does not support LsRemote'')"

definition native_clone_or_fetch :: "'k shell_api \<Rightarrow> string \<Rightarrow> string \<Rightarrow> string \<Rightarrow> ('k, git_result res) git_io" where
  "native_clone_or_fetch S repoURL ref path = do {
     g \<leftarrow> build_git_env S repoURL;
     (case g of
        Inl err \<Rightarrow> ret (Inl (Wrapf ''setting up git env'' err))
      | Inr ge \<Rightarrow> do {
          c \<leftarrow> native_is_cloned S path;
          r \<leftarrow> (if c then native_fetch_and_checkout S repoURL (gv_url ge) ref path (gv_env ge)
               else native_clone_and_checkout S repoURL (gv_url ge) ref path (gv_env ge));
          remove_files S (gv_cleanup ge);
          ret r }) }"

end
