(* ===== verification/GitProps.thy ===== *)
theory GitProps
  imports GitNative EffectLaws
begin

section \<open>Properties of the native git client\<close>

text \<open>
  The redaction of credentials in git's output, and the order of the commands and files of a clone or
  a fetch.
\<close>

subsection \<open>Redaction\<close>

text \<open>What the credentials in a text are: the run between \<open>://\<close> and the next \<open>@\<close>.\<close>

fun leaks :: "string \<Rightarrow> bool" where
  "leaks [] = False"
| "leaks (c # r) =
     ((case credential (c # r) of None \<Rightarrow> False | Some after \<Rightarrow> (\<not> has_prefix (c # r) ''://<redacted>@'')) \<or> leaks r)"

lemma credential_redacted: "credential (''://<redacted>@'' @ r) = Some r"
  by (simp add: credential_def cut_prefix_def has_prefix_def cred_char_def)

text \<open>The run of credential characters at the start of a text, and what is after it.\<close>

definition cred_run :: "string \<Rightarrow> string option" where
  "cred_run s = (case dropWhile cred_char s of
      [] \<Rightarrow> None | c # after \<Rightarrow> if c = CHR ''@'' then Some after else None)"

lemma cred_run_simps:
  "cred_run [] = None"
  "cred_char c \<Longrightarrow> cred_run (c # r) = cred_run r"
  "\<not> cred_char c \<Longrightarrow> cred_run (c # r) = (if c = CHR ''@'' then Some r else None)"
  by (simp_all add: cred_run_def)

lemma credential_iff:
  "credential s = Some after \<longleftrightarrow> (\<exists>c r. s = ''://'' @ c # r \<and> cred_char c \<and> cred_run (c # r) = Some after)"
proof -
  have stop: "\<exists>x \<in> set l. \<not> cred_char x" if "dropWhile cred_char l = c # ys" for l c ys
    using that by (induction l) (auto split: if_splits)
  have "credential (''://'' @ rest) = (if rest \<noteq> [] \<and> cred_char (hd rest) then cred_run rest else None)" for rest
    by (cases rest; cases "cred_char (hd rest)")
      (simp_all add: credential_def cut_prefix_def has_prefix_def cred_run_def split: list.split, auto dest: stop)
  moreover have "credential s = None" if "\<not> has_prefix s ''://''"
    using that by (simp add: credential_def cut_prefix_def)
  ultimately show ?thesis
    by (cases "has_prefix s ''://''") (auto simp: has_prefix_iff neq_Nil_conv split: if_splits)
qed

text \<open>Redaction keeps whether a run ends in an at sign.\<close>

lemma cred_run_redact: "(cred_run (redact s) \<noteq> None) = (cred_run s \<noteq> None)"
proof (induction s rule: redact.induct)
  case (2 c r)
  show ?case
  proof (cases "credential (c # r)")
    case None
    with 2(1) show ?thesis by (cases "cred_char c") (simp_all add: cred_run_simps)
  next
    case (Some after)
    then obtain d q where d: "c # r = ''://'' @ d # q" "cred_char d" "cred_run (d # q) = Some after"
      by (auto simp: credential_iff)
    then have "cred_run (c # r) \<noteq> None" by (simp add: cred_run_simps cred_char_def)
    moreover have "cred_run (''://<redacted>@'' @ x) \<noteq> None" for x by (simp add: cred_run_def cred_char_def)
    ultimately show ?thesis using Some by simp
  qed
qed (simp add: cred_run_simps)

lemma redact_hd: "s \<noteq> [] \<Longrightarrow> redact s \<noteq> [] \<and> hd (redact s) = hd s"
proof (cases s)
  case (Cons c r)
  show ?thesis
  proof (cases "credential (c # r)")
    case (Some after)
    then have "c = CHR '':''" by (auto simp: credential_iff)
    with Some Cons show ?thesis by simp
  qed (simp add: Cons)
qed simp

text \<open>
  A character that is not the start of a credential is not made one by redacting what follows.
\<close>

lemma redact_no_new:
  assumes "credential (c # r) = None"
  shows "credential (c # redact r) = None"
proof (rule ccontr)
  assume "credential (c # redact r) \<noteq> None"
  then obtain d q after where eq: "c # redact r = ''://'' @ d # q" and dq: "cred_char d" "cred_run (d # q) = Some after"
    by (auto simp: credential_iff)
  then have c: "c = CHR '':''" and red: "redact r = ''//'' @ d # q" by auto
  obtain r1 where r1: "r = CHR ''/'' # r1" "redact r = CHR ''/'' # redact r1"
  proof (cases r)
    case (Cons x r1)
    with red show ?thesis by (cases "credential (x # r1)") (auto intro: that)
  qed (use red in simp)
  then have red1: "redact r1 = CHR ''/'' # d # q" using red by simp
  obtain r2 where r2: "r1 = CHR ''/'' # r2" "redact r1 = CHR ''/'' # redact r2"
  proof (cases r1)
    case (Cons x r2)
    with red1 show ?thesis by (cases "credential (x # r2)") (auto intro: that)
  qed (use red1 in simp)
  then have red2: "redact r2 = d # q" using red1 by simp
  then have r2ne: "r2 \<noteq> []" by auto
  with redact_hd [OF r2ne] red2 dq cred_run_redact [of r2] have "cred_char (hd r2)" "cred_run r2 \<noteq> None" by auto
  with r2ne obtain e p a where "r2 = e # p" "cred_char e" "cred_run (e # p) = Some a" by (cases r2) auto
  then have "credential (c # r) = Some a" by (auto simp: credential_iff c r1 r2)
  with assms show False by simp
qed

lemma no_leak_tail: "\<not> leaks r \<Longrightarrow> \<not> leaks (''://<redacted>@'' @ r)"
proof -
  assume r: "\<not> leaks r"
  have step: "\<not> leaks (c # x)" if "\<not> leaks x" "c \<noteq> CHR '':''" for c x
    using that by (cases "credential (c # x)") (auto simp: credential_iff)
  have "\<not> leaks (''//<redacted>@'' @ r)" by (simp only: append.simps) (intro step r; simp)
  then show "\<not> leaks (''://<redacted>@'' @ r)"
    using credential_redacted [of r] by (simp add: has_prefix_def)
qed

lemma no_leak: "\<not> leaks (redact s)"
proof (induction s rule: redact.induct)
  case (2 c r)
  show ?case
  proof (cases "credential (c # r)")
    case None
    with redact_no_new [OF None] 2(1) show ?thesis by simp
  next
    case (Some after)
    with no_leak_tail [OF 2(2) [OF Some]] show ?thesis by simp
  qed
qed simp

lemma redact_fixed: "\<not> leaks s \<Longrightarrow> redact s = s"
proof (induction s rule: redact.induct)
  case (2 c r)
  show ?case
  proof (cases "credential (c # r)")
    case None
    with 2 show ?thesis by simp
  next
    case (Some after)
    with 2(3) obtain x where x: "c # r = ''://<redacted>@'' @ x" by (auto simp: has_prefix_iff)
    with Some credential_redacted [of x] have "x = after" by simp
    moreover have "\<not> leaks x" if "\<not> leaks (p @ x)" for p using that by (induction p) auto
    ultimately have "\<not> leaks after" using 2(3) x by metis
    with 2(2) [OF Some] x \<open>x = after\<close> Some show ?thesis by simp
  qed
qed simp

text \<open>
  C38: the output of a failed git command that is returned holds no credential: after every \<open>://\<close>
  the text up to the next \<open>@\<close>, if there is one before white space, is the placeholder. A text without
  credentials is only trimmed, and sanitizing twice changes nothing more.
\<close>

theorem sanitize_no_credential:
  "\<not> leaks (sanitize_output out) \<and> redact (sanitize_output out) = sanitize_output out \<and>
   (if leaks (trim_space out) then sanitize_output out \<noteq> trim_space out else sanitize_output out = trim_space out)"
  using no_leak [of "trim_space out"] redact_fixed [of "sanitize_output out"] redact_fixed [of "trim_space out"]
  by (auto simp: sanitize_output_def)

subsection \<open>Commands\<close>

text \<open>The commands of a log, in the order they were run.\<close>

definition command_of :: "git_effect \<Rightarrow> string list list" where
  "command_of e = (case e of RanGit args dir v \<Rightarrow> [args] | _ \<Rightarrow> [])"

definition ran :: "git_effect list \<Rightarrow> string list list" where
  "ran es = concat (map command_of (rev es))"

lemma ran_simps [simp]:
  "ran [] = []" "ran (es @ fs) = ran fs @ ran es" "ran (e # es) = ran es @ command_of e"
  by (simp_all add: ran_def)

lemma command_of_simps [simp]:
  "command_of (RanGit args dir v) = [args]" "command_of (WroteFile p d ok) = []" "command_of (RemovedFile p) = []"
  by (simp_all add: command_of_def)

text \<open>Whether the newest entry about the key file of a log is a successful write.\<close>

definition about_key :: "git_effect \<Rightarrow> bool" where
  "about_key e = (case e of RanGit args dir v \<Rightarrow> False | WroteFile p d ok \<Rightarrow> p = ssh_key_path | RemovedFile p \<Rightarrow> p = ssh_key_path)"

definition key_left :: "git_effect list \<Rightarrow> bool" where
  "key_left es = (case find about_key es of Some (WroteFile p d ok) \<Rightarrow> ok | _ \<Rightarrow> False)"

lemma about_key_simps [simp]:
  "\<not> about_key (RanGit args dir v)" "about_key (WroteFile p d ok) = (p = ssh_key_path)" "about_key (RemovedFile p) = (p = ssh_key_path)"
  by (simp_all add: about_key_def)

lemma key_left_simps:
  "\<not> key_left []" "key_left (RanGit args dir v # es) = key_left es"
  "key_left (WroteFile p d ok # es) = (if p = ssh_key_path then ok else key_left es)"
  "key_left (RemovedFile p # es) = (if p = ssh_key_path then False else key_left es)"
  by (simp_all add: key_left_def)

lemma tmp_paths: "''/tmp/.gitconfig'' \<noteq> ssh_key_path" "ssh_wrapper_path \<noteq> ssh_key_path"
  by (simp_all add: ssh_key_path_def ssh_wrapper_path_def)

lemma key_left_runs: "list_all (\<lambda>e. \<not> about_key e) es \<Longrightarrow> key_left (es @ fs) = key_left fs"
  by (induction es) (simp_all add: key_left_def)

definition fetch_commands :: "string \<Rightarrow> string \<Rightarrow> string \<Rightarrow> string list list" where
  "fetch_commands cleanURL authURL ref =
     [[''remote'', ''set-url'', ''origin'', cleanURL], [''fetch'', ''--depth=1'', authURL, ref],
      [''checkout'', ''-f'', ''FETCH_HEAD''], [''rev-parse'', ''HEAD'']]"

definition clone_commands :: "string \<Rightarrow> string \<Rightarrow> string \<Rightarrow> string \<Rightarrow> string list list" where
  "clone_commands cleanURL authURL ref path =
     (if is_hash ref
      then [[''init'', path], [''remote'', ''add'', ''origin'', cleanURL]] @ fetch_commands cleanURL authURL ref
      else [[''clone'', ''--depth=1'', ''--branch'', ref, authURL, path],
            [''remote'', ''set-url'', ''origin'', cleanURL], [''rev-parse'', ''HEAD'']])"

text \<open>\<open>m\<close> runs a prefix of the commands, all of them when it succeeds, and sends nothing else.\<close>

definition follows :: "string \<Rightarrow> string list list \<Rightarrow> ('k, git_result res) git_io \<Rightarrow> bool" where
  "follows ref cmds m \<longleftrightarrow> (\<forall>s. wp m (\<lambda>r t. \<exists>es. io_log t = es @ io_log s \<and> list_all (\<lambda>e. \<not> about_key e) es \<and>
     prefix (ran es) cmds \<and> (case r of Inl err \<Rightarrow> True | Inr g \<Rightarrow> ran es = cmds \<and> gr_ref g = ref)) s)"

lemma follows_rev_parse: "follows ref [[''rev-parse'', ''HEAD'']] (native_rev_parse S ref path v)"
  unfolding follows_def native_rev_parse_def run_git_def
  by (auto simp: wp_def split: prod.splits option.splits)

lemma follows_then_git: "follows ref cmds (m :: ('a, git_result res) git_io) \<Longrightarrow> follows ref (args # cmds) (then_git S args dir v msg m)"
  unfolding follows_def
proof (intro allI)
  fix s :: "('a, git_effect) io"
  assume m: "\<forall>s. wp m (\<lambda>r t. \<exists>es. io_log t = es @ io_log s \<and> list_all (\<lambda>e. \<not> about_key e) es \<and>
     prefix (ran es) cmds \<and> (case r of Inl err \<Rightarrow> True | Inr g \<Rightarrow> ran es = cmds \<and> gr_ref g = ref)) s"
  obtain out e k where g: "sh_run_git S args dir v (io_env s) = ((out, e), k)" by (rule prod_cases3) (metis surj_pair)
  let ?u = "s\<lparr>io_log := RanGit args dir v # io_log s, io_env := k\<rparr>"
  show "wp (then_git S args dir v msg m) (\<lambda>r t. \<exists>es. io_log t = es @ io_log s \<and> list_all (\<lambda>e. \<not> about_key e) es \<and>
     prefix (ran es) (args # cmds) \<and> (case r of Inl err \<Rightarrow> True | Inr g \<Rightarrow> ran es = args # cmds \<and> gr_ref g = ref)) s"
  proof (cases e)
    case None
    have "\<exists>es. io_log t = es @ io_log s \<and> list_all (\<lambda>e. \<not> about_key e) es \<and> prefix (ran es) (args # cmds) \<and>
        (case r of Inl err \<Rightarrow> True | Inr g \<Rightarrow> ran es = args # cmds \<and> gr_ref g = ref)"
      if run: "run_state m ?u = (r, t)" for r t
    proof -
      from wp_run [OF m [rule_format] run] obtain es where
        "io_log t = es @ RanGit args dir v # io_log s" "list_all (\<lambda>e. \<not> about_key e) es" "prefix (ran es) cmds"
        "case r of Inl err \<Rightarrow> True | Inr g \<Rightarrow> ran es = cmds \<and> gr_ref g = ref" by auto
      then show ?thesis by (intro exI [of _ "es @ [RanGit args dir v]"]) (auto split: sum.splits)
    qed
    then show ?thesis using g None by (auto simp: then_git_def run_git_def wp_def split: prod.splits)
  next
    case (Some err)
    then show ?thesis using g by (auto simp: then_git_def run_git_def wp_def)
  qed
qed

lemma follows_fetch: "follows ref (fetch_commands u a ref) (native_fetch_and_checkout S u a ref path v)"
  unfolding fetch_commands_def native_fetch_and_checkout_def by (intro follows_then_git follows_rev_parse)

lemma follows_clone: "follows ref (clone_commands u a ref path) (native_clone_and_checkout S u a ref path v)"
proof (cases "is_hash ref")
  case True
  then show ?thesis unfolding clone_commands_def native_clone_and_checkout_def
    by (simp only: if_True append.simps) (intro follows_then_git follows_fetch)
next
  case False
  then show ?thesis unfolding clone_commands_def native_clone_and_checkout_def
    by (simp only: if_False) (intro follows_then_git follows_rev_parse)
qed

subsection \<open>The environment\<close>

text \<open>
  The URL a clone or fetch talks to, \<open>None\<close> when no command can be run: with an SSH key file the plain
  one, with a token file the one with the token just read (after the git configuration was written), else
  the plain one. The key file has to be readable and its copies writable.
\<close>

definition after_config :: "'k shell_api \<Rightarrow> 'k \<Rightarrow> 'k" where
  "after_config S k = snd (sh_write_file S ''/tmp/.gitconfig'' git_config_text 420 k)"

definition token_url :: "string \<Rightarrow> string \<Rightarrow> string" where
  "token_url repoURL token =
     (if take 8 repoURL = ''https://'' then ''https://x-access-token:'' @ token @ ''@'' @ drop 8 repoURL
      else if take 7 repoURL = ''http://'' then ''http://x-access-token:'' @ token @ ''@'' @ drop 7 repoURL
      else repoURL)"

definition auth_url :: "'k shell_api \<Rightarrow> string \<Rightarrow> 'k \<Rightarrow> string option" where
  "auth_url S repoURL k =
     (if sh_getenv S ''GIT_SSH_KEY_FILE'' \<noteq> [] then Some repoURL
      else if sh_getenv S ''GIT_TOKEN_FILE'' \<noteq> []
      then (case fst (sh_read_file S (sh_getenv S ''GIT_TOKEN_FILE'') (after_config S k)) of
          Inl err \<Rightarrow> None
        | Inr content \<Rightarrow> Some (token_url repoURL (trim_space content)))
      else Some repoURL)"

lemma inject_token_url: "inject_token_into_url repoURL token = token_url repoURL token"
proof -
  have "has_prefix s p \<longleftrightarrow> take (length p) s = p" for s p :: string
    by (auto simp: has_prefix_iff) (metis append_take_drop_id)
  from this [of repoURL "''https://''"] this [of repoURL "''http://''"]
  have "has_prefix repoURL ''https://'' \<longleftrightarrow> take 8 repoURL = ''https://''" "has_prefix repoURL ''http://'' \<longleftrightarrow> take 7 repoURL = ''http://''"
    by (simp_all add: eval_nat_numeral)
  then show ?thesis by (simp add: inject_token_into_url_def token_url_def cut_prefix_def eval_nat_numeral)
qed

text \<open>What \<open>buildGitEnv\<close> leaves behind: the URL it returns, and the key file only with its cleanup.\<close>

lemma build_git_env_effects:
  "wp (build_git_env S repoURL) (\<lambda>g t. \<exists>es. io_log t = es @ io_log s \<and> ran es = [] \<and>
     (case g of
        Inl err \<Rightarrow> \<not> key_left es
      | Inr ge \<Rightarrow> auth_url S repoURL (io_env s) = Some (gv_url ge) \<and>
          (gv_cleanup ge = [] \<and> \<not> key_left es \<or> gv_cleanup ge = [ssh_key_path, ssh_wrapper_path]))) s"
proof -
  have ssh: "wp (ssh_env S repoURL f) (\<lambda>g t. \<exists>es. io_log t = es @ io_log u \<and> ran es = [] \<and>
      (case g of Inl err \<Rightarrow> \<not> key_left (es @ [w]) | Inr ge \<Rightarrow> gv_url ge = repoURL \<and> gv_cleanup ge = [ssh_key_path, ssh_wrapper_path])) u"
    if "\<not> key_left [w]" for f u w
    using that by (cases "fst (sh_read_file S f (io_env u))")
      (auto simp: ssh_env_def write_file_def remove_file_def wp_rules key_left_simps tmp_paths)
  show ?thesis
    by (auto simp: build_git_env_def token_env_def write_file_def remove_file_def wp_rules key_left_simps tmp_paths
        auth_url_def after_config_def inject_token_url intro!: wp_mono [OF ssh] split: sum.splits)
qed

lemma run_remove_files:
  "\<exists>k. run_state (remove_files S ps) s = ((), s\<lparr>io_env := k, io_log := rev (map RemovedFile ps) @ io_log s\<rparr>)"
proof (induction ps arbitrary: s)
  case Nil
  then show ?case by (simp add: exI [of _ "io_env s"])
next
  case (Cons p ps)
  from Cons.IH [of "s\<lparr>io_env := sh_remove S p (io_env s), io_log := RemovedFile p # io_log s\<rparr>"]
  show ?case by (auto simp: remove_file_def)
qed

text \<open>The commands of a clone or fetch: a fetch exactly when the path has a \<open>.git\<close> already.\<close>

definition is_cloned_at :: "'k shell_api \<Rightarrow> string \<Rightarrow> 'k \<Rightarrow> bool" where
  "is_cloned_at S path k \<longleftrightarrow> fst (sh_stat S (filepath_join path ''.git'') k) = None"

definition git_commands :: "bool \<Rightarrow> string \<Rightarrow> string \<Rightarrow> string \<Rightarrow> string \<Rightarrow> string list list" where
  "git_commands cloned cleanURL authURL ref path =
     (if cloned then fetch_commands cleanURL authURL ref else clone_commands cleanURL authURL ref path)"

lemma native_steps:
  assumes run: "run_state (native_clone_or_fetch S repoURL ref path) s = (r, t)"
    and g: "run_state (build_git_env S repoURL) s = (Inr ge, s1)"
  shows "\<exists>es. io_log t = rev (map RemovedFile (gv_cleanup ge)) @ es @ io_log s1 \<and> list_all (\<lambda>e. \<not> about_key e) es \<and>
    prefix (ran es) (git_commands (is_cloned_at S path (io_env s1)) repoURL (gv_url ge) ref path) \<and>
    (case r of Inl err \<Rightarrow> True
     | Inr g \<Rightarrow> ran es = git_commands (is_cloned_at S path (io_env s1)) repoURL (gv_url ge) ref path \<and> gr_ref g = ref)"
proof -
  define s2 where "s2 = s1\<lparr>io_env := snd (sh_stat S (filepath_join path ''.git'') (io_env s1))\<rparr>"
  define c where "c = (fst (sh_stat S (filepath_join path ''.git'') (io_env s1)) = None)"
  define m where "m = (if c then native_fetch_and_checkout S repoURL (gv_url ge) ref path (gv_env ge)
    else native_clone_and_checkout S repoURL (gv_url ge) ref path (gv_env ge))"
  define cmds where "cmds = git_commands c repoURL (gv_url ge) ref path"
  have fm: "follows ref cmds m" by (simp add: m_def cmds_def git_commands_def follows_fetch follows_clone)
  obtain r3 s3 where m3: "run_state m s2 = (r3, s3)" by (rule prod.exhaust)
  from wp_run [OF fm [unfolded follows_def, rule_format] m3] obtain es where e: "io_log s3 = es @ io_log s1"
    "list_all (\<lambda>e. \<not> about_key e) es" "prefix (ran es) cmds"
    "case r3 of Inl err \<Rightarrow> True | Inr g \<Rightarrow> ran es = cmds \<and> gr_ref g = ref" by (auto simp: s2_def)
  obtain k where k: "run_state (remove_files S (gv_cleanup ge)) s3 =
      ((), s3\<lparr>io_env := k, io_log := rev (map RemovedFile (gv_cleanup ge)) @ io_log s3\<rparr>)"
    by (rule exE [OF run_remove_files])
  from run g m3 k have "r = r3" "io_log t = rev (map RemovedFile (gv_cleanup ge)) @ es @ io_log s1"
    by (simp_all add: native_clone_or_fetch_def native_is_cloned_def flip: m_def c_def s2_def) (auto simp: e)
  with e show ?thesis by (intro exI [of _ es]) (simp add: cmds_def c_def is_cloned_at_def split: sum.splits)
qed

text \<open>
  C37: a clone or fetch runs the commands of its plan in order and stops at the first that fails; the
  plan is a fetch exactly when the repository is there already, else a clone. It succeeds only when all
  were run, and then for the reference asked for. With a token file the URL with the token read from it is
  what \<open>clone\<close> or \<open>fetch\<close> talks to, and of these commands only; every \<open>remote\<close> command, whose URL
  git stores, has the plain one. Without a readable token no command is run. However it ends, an SSH
  key file that was written has been removed again.
\<close>

theorem native_git_commands:
  "wp (native_clone_or_fetch S repoURL ref path) (\<lambda>r t. \<exists>es. io_log t = es @ io_log s \<and> \<not> key_left es \<and>
     (case run_state (build_git_env S repoURL) s of (g, s1) \<Rightarrow>
        (case g of
           Inl err \<Rightarrow> ran es = [] \<and> (case r of Inl e \<Rightarrow> True | Inr g \<Rightarrow> False)
         | Inr ge \<Rightarrow> auth_url S repoURL (io_env s) = Some (gv_url ge) \<and>
             (let cmds = git_commands (is_cloned_at S path (io_env s1)) repoURL (gv_url ge) ref path in
              prefix (ran es) cmds \<and> (case r of Inl err \<Rightarrow> True | Inr g \<Rightarrow> ran es = cmds \<and> gr_ref g = ref))))) s"
proof (rule wpI)
  fix r t assume run: "run_state (native_clone_or_fetch S repoURL ref path) s = (r, t)"
  obtain g s1 where g: "run_state (build_git_env S repoURL) s = (g, s1)" by (rule prod.exhaust)
  from wp_run [OF build_git_env_effects g] obtain es1 where e1: "io_log s1 = es1 @ io_log s" "ran es1 = []"
    and g1: "case g of Inl err \<Rightarrow> \<not> key_left es1
      | Inr ge \<Rightarrow> auth_url S repoURL (io_env s) = Some (gv_url ge) \<and>
          (gv_cleanup ge = [] \<and> \<not> key_left es1 \<or> gv_cleanup ge = [ssh_key_path, ssh_wrapper_path])" by blast
  show "\<exists>es. io_log t = es @ io_log s \<and> \<not> key_left es \<and>
     (case run_state (build_git_env S repoURL) s of (g, s1) \<Rightarrow>
        (case g of
           Inl err \<Rightarrow> ran es = [] \<and> (case r of Inl e \<Rightarrow> True | Inr g \<Rightarrow> False)
         | Inr ge \<Rightarrow> auth_url S repoURL (io_env s) = Some (gv_url ge) \<and>
             (let cmds = git_commands (is_cloned_at S path (io_env s1)) repoURL (gv_url ge) ref path in
              prefix (ran es) cmds \<and> (case r of Inl err \<Rightarrow> True | Inr g \<Rightarrow> ran es = cmds \<and> gr_ref g = ref))))"
  proof (cases g)
    case (Inl err)
    with run g e1 g1 show ?thesis
      by (intro exI [of _ es1]) (auto simp: native_clone_or_fetch_def)
  next
    case (Inr ge)
    from native_steps [OF run g [unfolded Inr]] obtain es2 where
      log: "io_log t = rev (map RemovedFile (gv_cleanup ge)) @ es2 @ io_log s1" and quiet: "list_all (\<lambda>e. \<not> about_key e) es2" and
      cmds: "prefix (ran es2) (git_commands (is_cloned_at S path (io_env s1)) repoURL (gv_url ge) ref path)"
        "case r of Inl err \<Rightarrow> True
         | Inr g \<Rightarrow> ran es2 = git_commands (is_cloned_at S path (io_env s1)) repoURL (gv_url ge) ref path \<and> gr_ref g = ref" by blast
    let ?es = "rev (map RemovedFile (gv_cleanup ge)) @ es2 @ es1"
    have "ran (rev (map RemovedFile ps)) = []" for ps by (induction ps) simp_all
    then have "ran ?es = ran es2" by (simp add: e1(2))
    moreover have "\<not> key_left ?es"
      using g1 quiet by (auto simp: Inr key_left_simps tmp_paths key_left_runs)
    ultimately show ?thesis using log cmds g1
      by (intro exI [of _ ?es]) (auto simp: e1(1) g Inr Let_def simp del: ran_simps split: sum.splits)
  qed
qed

end
