(* ===== verification/ScopeProps.thy ===== *)
theory ScopeProps
  imports ControllerProps CrossProps
begin

section \<open>A reconcile stays with its resource\<close>

text \<open>
  Several resources are reconciled in turn, or by several workers at once, over one cluster and the
  two maps of the reconciler. Here: the objects a reconcile writes are those that carry its resource's
  name, in its namespace, and of the maps it changes its own entries.
\<close>

definition of_resource :: "gateway_sync \<Rightarrow> gateway_sync \<Rightarrow> bool" where
  "of_resource gs g \<longleftrightarrow> gy_namespace g = gy_namespace gs \<and> gy_name g = gy_name gs"

text \<open>Of a deletion the log has the namespace and the name of the object that was fetched and deleted.\<close>

definition in_scope :: "gateway_sync \<Rightarrow> ctrl_effect \<Rightarrow> bool" where
  "in_scope gs e = (case e of
      PatchStatus g ok \<Rightarrow> of_resource gs g
    | UpdateGS g ok \<Rightarrow> of_resource gs g
    | PatchGS g ok \<Rightarrow> of_resource gs g
    | CreateCM cm owner ok \<Rightarrow> cm_namespace cm = gy_namespace gs \<and> cm_name cm = metadata_name gs \<and> owner = gy_name gs
    | UpdateCM cm ok \<Rightarrow> cm_namespace cm = gy_namespace gs \<and> cm_name cm = metadata_name gs
    | DeleteCM ns n ok \<Rightarrow> ns = gy_namespace gs \<and> n \<in> set (owned_config_maps gs)
    | CreateSecret se owner ok \<Rightarrow> se_namespace se = gy_namespace gs \<and> se_name se = github_token_secret_name (gy_name gs) \<and> owner = gy_name gs
    | UpdateSecret se ok \<Rightarrow> se_namespace se = gy_namespace gs \<and> se_name se = github_token_secret_name (gy_name gs)
    | DeleteSecret ns n ok \<Rightarrow> ns = gy_namespace gs \<and> n = github_token_secret_name (gy_name gs)
    | CreateRB rb owner ok \<Rightarrow> rb_namespace rb = gy_namespace gs \<and> rb_name rb = agent_role_binding_name (gy_name gs) \<and> owner = gy_name gs
    | UpdateRB rb ok \<Rightarrow> rb_namespace rb = gy_namespace gs \<and> rb_name rb = agent_role_binding_name (gy_name gs)
    | DeleteRB ns n ok \<Rightarrow> ns = gy_namespace gs \<and> n = agent_role_binding_name (gy_name gs)
    | LsRemote u r \<Rightarrow> u = gt_repo (ss_git (gy_spec gs)) \<and> r = desired_ref gs
    | Exchange key \<Rightarrow> (case gy_github_app gs of None \<Rightarrow> False | Some a \<Rightarrow> key = token_cache_key a)
    | DropSeries m ls \<Rightarrow> ls = gs_labels gs
    | _ \<Rightarrow> True)"

definition writes_object :: "ctrl_effect \<Rightarrow> bool" where
  "writes_object e = (case e of
      Notice t r m \<Rightarrow> False | LsRemote u r \<Rightarrow> False | Exchange k \<Rightarrow> False
    | Series m l v \<Rightarrow> False | Count m l \<Rightarrow> False | Timed m l \<Rightarrow> False | DropSeries m l \<Rightarrow> False | _ \<Rightarrow> True)"

context object_store begin

lemma origin_in_scope:
  assumes "fst (ka_get_gs K req k) = Inr gs" "effect_ok K req gs e"
  shows "in_scope gs e"
proof -
  obtain ns n where req: "req = (ns, n)" by (rule prod.exhaust)
  from get_gs_found assms(1) have gs: "gy_namespace gs = ns" "gy_name gs = n" unfolding req by blast+
  from assms(2) have o1: "effect_origin K req gs e" and s: "status_effect_ok gs e" by (simp_all add: effect_ok_def)
  show ?thesis
  proof (cases e)
    case (PatchGS g ok)
    with o1 obtain k fresh where f: "fst (ka_get_gs K req k) = Inr fresh" "g = cleared_request fresh"
      by (auto simp: effect_origin_def)
    from get_gs_found f(1) have "gy_namespace fresh = ns \<and> gy_name fresh = n" unfolding req by blast
    with f(2) gs PatchGS show ?thesis
      by (simp add: in_scope_def of_resource_def cleared_request_def map_annotations_def gy_namespace_def gy_name_def)
  next
    case (PatchStatus g ok)
    with s show ?thesis by (simp add: in_scope_def of_resource_def same_resource_def gy_namespace_def gy_name_def)
  qed (use o1 in \<open>auto simp: in_scope_def effect_origin_def of_resource_def new_metadata_cm_def new_token_secret_def new_role_binding_def
      dest!: get_cm_found get_secret_found get_rb_found split: option.splits\<close>)
qed

end

lemma scopes_disjoint:
  assumes "gy_name other \<noteq> gy_name gs" "in_scope gs e" "writes_object e"
  shows "\<not> in_scope other e"
  using assms
  by (cases e) (auto simp: in_scope_def of_resource_def writes_object_def metadata_name_def owned_config_maps_def
      github_token_secret_name_def agent_role_binding_name_def)

text \<open>
  C23: a reconcile writes only the objects of its resource: the resource itself, and in its namespace the
  metadata ConfigMap, the token Secret and the role binding that carry its name and are owned by it,
  or on deletion the three ConfigMaps and the Secret. None of these is an object of a resource of another
  name. Only the resource's repository is asked, for the reference it wants. Of the reconciler's maps only
  the failures of this request and the token of the resource's own app change.
\<close>

theorem reconcile_scoped:
  assumes "object_store K"
  shows "wp (reconcile K req) (\<lambda>o1 t.
     mdel (rc_backoff t) req = mdel (rc_backoff s) req \<and>
     (case fst (ka_get_gs K req (io_env s)) of
        Inl err \<Rightarrow> rc_tokens t = rc_tokens s \<and> \<not> list_ex writes_object (sent s t)
      | Inr gs \<Rightarrow> same_tokens gs (rc_tokens s) (rc_tokens t) \<and> list_all (in_scope gs) (sent s t) \<and>
          (if gy_name other = gy_name gs then True
           else \<not> list_ex (\<lambda>e. writes_object e \<and> in_scope other e) (sent s t)))) s"
proof (cases "fst (ka_get_gs K req (io_env s))")
  case (Inl err)
  then show ?thesis
    by (simp add: wp_reconcile_missing Let_def counted_def after_get_def writes_object_def)
next
  case (Inr gs)
  have scoped: "list_all (in_scope gs) (sent s (counted req l t))"
    if "run_state (reconcile_found K req gs) (after_get K req s) = (o1, t)" for o1 t l
    by (rule list.pred_mono_strong [OF reconcile_found_frame(1) [OF that]])
      (rule object_store.origin_in_scope [OF assms Inr])
  have foreign: "\<not> list_ex (\<lambda>e. writes_object e \<and> in_scope other e) es" if "list_all (in_scope gs) es" "gy_name other \<noteq> gy_name gs" for es
    using that scopes_disjoint by (fastforce simp: list_ex_iff list_all_iff)
  show ?thesis unfolding wp_reconcile_found [OF Inr] Inr sum.case
  proof (intro wpI, goal_cases)
    case (1 o1 t)
    with reconcile_found_frame(2,3) [OF 1] scoped [OF 1] foreign [OF scoped [OF 1]] show ?case by simp
  qed
qed

theorem reconcile_scoped_witness:
  "let s = ctrl_start (empty_cluster\<lparr>cl_gs := [sample_gs]\<rparr>);
       t = snd (run_state (reconcile sample_store (''ns'', ''cr'')) s)
   in list_all (in_scope sample_gs) (sent s t) \<and> mdel (rc_backoff t) (''ns'', ''cr'') = [] \<and> rc_tokens t = []"
proof -
  let ?s = "ctrl_start (empty_cluster\<lparr>cl_gs := [sample_gs]\<rparr>)"
  have "object_store sample_store" unfolding sample_store_def by (rule store_objects.object_store_axioms)
  moreover have "fst (ka_get_gs sample_store (''ns'', ''cr'') (io_env ?s)) = Inr sample_gs"
    by (simp add: sample_store_def store_api_def ctrl_start_def empty_cluster_def find_gs_def lookup_in_def is_gs_def
        gy_namespace_def gy_name_def sample_gs_def sample_meta_def)
  moreover have "rc_backoff ?s = []" "rc_tokens ?s = []" "gy_github_app sample_gs = None"
    by (simp_all add: ctrl_start_def gy_github_app_def gy_auth_def sample_gs_def)
  ultimately show ?thesis
    using reconcile_scoped [where K = sample_store and req = "(''ns'', ''cr'')" and other = sample_gs and s = ?s]
    by (simp add: wp_def split_beta Let_def same_tokens_def) (simp add: mdel_def)
qed

subsection \<open>The tokens of GitHub apps\<close>


lemma wp_env: "env.keeps m \<Longrightarrow> (\<And>r k. Q r (u\<lparr>io_env := k\<rparr>)) \<Longrightarrow> wp m Q u"
  by (rule wpI, drule (1) env.keepsD) (auto simp: only_env_def)








end
