(* ===== verification/StatusProps.thy ===== *)
theory StatusProps
  imports CrossProps InjectProps
begin

section \<open>The way of a status from the agent to the controller\<close>

text \<open>
  The agent writes its status under its gateway's name; the controller finds it by the names of the
  pod. The two are the same cluster here; the configuration of the agent is the one its pod gives it.
\<close>

subsection \<open>A write on the store\<close>

definition stored_data :: "string \<Rightarrow> string \<Rightarrow> cluster \<Rightarrow> (string, string) gomap" where
  "stored_data ns n k = (case lookup_in (cl_cms k) (is_cm ns n) n of Inl err \<Rightarrow> [] | Inr cm \<Rightarrow> cm_data cm)"

lemma write_status_stored:
  "case run_state (write_status_config_map store_cm_api J ns cr gw st) s of (r, t) \<Rightarrow>
     r = None \<and> stored_data ns (status_config_map_name cr) (io_env t) =
       mput (stored_data ns (status_config_map_name cr) (io_env s)) gw (json_status J st) \<and>
     (\<exists>cm. lookup_in (cl_cms (io_env t)) (is_cm ns (status_config_map_name cr)) (status_config_map_name cr) = Inr cm)"
proof (cases "lookup_in (cl_cms (io_env s)) (is_cm ns (status_config_map_name cr)) (status_config_map_name cr)")
  case (Inl err)
  have new: "cm_namespace (new_status_cm ns cr gw (json_status J st)) = ns"
    "cm_name (new_status_cm ns cr gw (json_status J st)) = status_config_map_name cr"
    by (simp_all add: new_status_cm_def)
  have "api_is NotFound err" "\<not> api_is Forbidden err" using Inl by (auto simp: lookup_in_Inl not_found_def)
  with Inl store_create_cm_new [OF Inl new] show ?thesis
    by (simp add: write_status_config_map_def eval_nat_numeral run_cm store_cm_api_def Let_def stored_data_def case_prod_beta
        new_status_cm_def mput_def)
next
  case (Inr cm)
  then have "is_cm ns (status_config_map_name cr) cm" by (rule lookup_in_Inr)
  then have new: "cm_namespace (cm\<lparr>cm_data := d\<rparr>) = ns" "cm_name (cm\<lparr>cm_data := d\<rparr>) = status_config_map_name cr" for d
    by (simp_all add: is_cm_def)
  from Inr store_update_cm_found [OF Inr new] show ?thesis
    by (simp add: write_status_config_map_def eval_nat_numeral run_cm store_cm_api_def Let_def stored_data_def case_prod_beta)
qed

subsection \<open>The controller's reading\<close>

definition status_reader :: "(string \<Rightarrow> gateway_status res) \<Rightarrow> (string \<Rightarrow> int option) \<Rightarrow> cluster ctrl_api \<Rightarrow> cluster ctrl_api" where
  "status_reader decode parse K = K\<lparr>ka_decode_status := decode, ka_parse_time := parse\<rparr>"

lemma status_reader_decode [simp]: "ka_decode_status (status_reader decode parse K) = decode"
  by (simp add: status_reader_def)

lemma run_collect:
  "fst (run_state (collect_gateway_status (status_reader decode parse (store_api G enc auto)) gs gws) c) =
     map (enrich (status_reader decode parse (store_api G enc auto))
       (stored_data (gy_namespace gs) (status_config_map_name (gy_name gs)) (io_env c))) gws"
proof -
  have e: "enrich K [] = id" for K :: "cluster ctrl_api"
    by (rule ext) (simp add: enrich_def status_entry_def)
  show ?thesis
    by (auto simp: collect_gateway_status_def status_reader_def store_api_def stored_data_def status_config_map_name_def e [unfolded status_reader_def store_api_def]
        split: sum.splits)
qed

lemma status_entry_other:
  "dg_pod_name g \<noteq> key \<Longrightarrow> dg_name g \<noteq> key \<Longrightarrow> status_entry (mput data key v) g = status_entry data g"
  by (simp add: status_entry_def split: option.split)

text \<open>No other agent uses the pod's name as the name of its gateway.\<close>

definition own_key :: "agent_config \<Rightarrow> gateway_sync \<Rightarrow> pod \<Rightarrow> cluster \<Rightarrow> bool" where
  "own_key cfg gs p k \<longleftrightarrow> c_gateway_name cfg = om_name (pd_meta p) \<or>
     mget (stored_data (gy_namespace gs) (status_config_map_name (gy_name gs)) k) (om_name (pd_meta p)) = None"

text \<open>
  C26: the status an agent writes is the one the controller attributes to its pod, field by field (the
  time of the last sync when it can be parsed), whatever the agent reported before, and also when the pod was
  first discovered without the agent's container (an old entry hides a missing sidecar). The entries of
  other gateways are read as before. The agent has the configuration its pod gives it, and the JSON the
  agent writes is read back.
\<close>

theorem status_reaches_controller:
  assumes cfg: "env_agrees p gs cfg" and pod: "belongs_to gs p" "om_namespace (pd_meta p) = gy_namespace gs"
    and json: "decode (json_status J st) = Inr st" "json_status J st \<noteq> []"
    and key: "own_key cfg gs p (io_env s)"
    and run: "run_state (write_status_config_map store_cm_api J (c_cr_namespace cfg) (c_cr_name cfg) (c_gateway_name cfg) st) s = (r, t)"
    and envs: "io_env c = io_env t" "io_env d = io_env s"
  shows "let K = status_reader decode parse (store_api G enc auto) in
     r = None \<and>
     fst (run_state (collect_gateway_status K gs [gateway_of_pod p]) c) =
       [(gateway_of_pod p)\<lparr>dg_sync_status := gs_sync_status st, dg_last_sync_time :=
            (if gs_last_sync_time st = [] then dg_last_sync_time (gateway_of_pod p)
             else case parse (gs_last_sync_time st) of None \<Rightarrow> dg_last_sync_time (gateway_of_pod p) | Some at \<Rightarrow> Some at),
          dg_last_sync_duration := gs_last_sync_duration st, dg_synced_commit := gs_synced_commit st,
          dg_synced_ref := gs_synced_ref st, dg_agent_version := gs_agent_version st,
          dg_last_scan_result := gs_last_scan_result st, dg_files_changed := gs_files_changed st,
          dg_projects_synced := gs_projects_synced st\<rparr>] \<and>
     (if dg_pod_name g \<noteq> c_gateway_name cfg \<and> dg_name g \<noteq> c_gateway_name cfg
      then fst (run_state (collect_gateway_status K gs [g]) c) = fst (run_state (collect_gateway_status K gs [g]) d) else True)"
proof -
  let ?data = "stored_data (gy_namespace gs) (status_config_map_name (gy_name gs))"
  have n: "c_cr_namespace cfg = gy_namespace gs" "c_cr_name cfg = gy_name gs"
    using cfg pod by (auto simp: env_agrees_def injected_cr_name_def belongs_to_def pod_annotation_def mstr_def)
  have stored: "r = None" "?data (io_env t) = mput (?data (io_env s)) (c_gateway_name cfg) (json_status J st)"
    using write_status_stored [where J = J and ns = "gy_namespace gs" and cr = "gy_name gs" and gw = "c_gateway_name cfg" and st = st and s = s] run by (simp_all add: n)
  have key': "c_gateway_name cfg = om_name (pd_meta p) \<or>
      c_gateway_name cfg = gateway_name_of p \<and> mget (?data (io_env s)) (om_name (pd_meta p)) = None"
    using cfg key by (auto simp: env_agrees_def own_key_def gateway_name_of_def or_default_def)
  have "status_entry (?data (io_env t)) (gateway_of_pod p) = Some (json_status J st)"
    using key' by (auto simp: status_entry_def gateway_of_pod_def stored)
  then show ?thesis
    using json envs by (simp add: run_collect stored(1) enrich_def Let_def) (simp add: stored(2) status_entry_other apply_status_def status_reader_def)
qed

definition pod_cfg :: agent_config where
  "pod_cfg = \<lparr>c_pod_name = ''ign-0'', c_pod_namespace = ''ns'', c_gateway_name = ''ign-0'', c_cr_name = ''cr'',
     c_cr_namespace = ''ns'', c_repo_path = mount_repo, c_data_path = ''/data'', c_gateway_port = injected_port sample_gs,
     c_gateway_tls = False, c_api_key_file = [], c_sync_period = 30, c_profile_name = []\<rparr>"

definition synced_status :: gateway_status where
  "synced_status = empty_status\<lparr>gs_sync_status := sync_status_synced\<rparr>"

theorem status_reaches_controller_witness:
  "let K = status_reader (\<lambda>_. Inr synced_status) (\<lambda>_. None) sample_store;
       J = \<lparr>json_profiles = (\<lambda>_. Inr []), json_status = (\<lambda>_. ''S'')\<rparr>;
       k = io_env (snd (run_state (write_status_config_map store_cm_api J ''ns'' ''cr'' ''ign-0'' synced_status)
             (\<lparr>io_env = empty_cluster, io_log = []\<rparr> :: (cluster, effect) io)))
   in map dg_sync_status (fst (run_state (collect_gateway_status K sample_gs [gateway_of_pod sample_pod]) (ctrl_start k))) = [sync_status_synced]"
proof -
  let ?J = "\<lparr>json_profiles = (\<lambda>_. Inr []), json_status = (\<lambda>_. ''S'')\<rparr> :: json_env"
  let ?s = "\<lparr>io_env = empty_cluster, io_log = []\<rparr> :: (cluster, effect) io"
  let ?t = "snd (run_state (write_status_config_map store_cm_api ?J ''ns'' ''cr'' ''ign-0'' synced_status) ?s)"
  have cfg: "env_agrees sample_pod sample_gs pod_cfg"
    by (simp add: env_agrees_def pod_cfg_def sample_pod_def sample_gs_def sample_meta_def sample_container_def injected_cr_name_def
        pod_annotation_def annotation_inject_def annotation_cr_name_def annotation_gateway_name_def annotation_profile_def
        data_path_def resolve_data_volume_def mount_path_of_def or_default_def)
  have pod: "belongs_to sample_gs sample_pod" "om_namespace (pd_meta sample_pod) = gy_namespace sample_gs"
    by (simp_all add: belongs_to_def sample_pod_def sample_gs_def sample_meta_def gy_name_def gy_namespace_def
        annotation_inject_def annotation_cr_name_def)
  have key: "own_key pod_cfg sample_gs sample_pod (io_env ?s)" by (simp add: own_key_def pod_cfg_def sample_pod_def)
  have n: "c_cr_namespace pod_cfg = ''ns''" "c_cr_name pod_cfg = ''cr''" "c_gateway_name pod_cfg = ''ign-0''"
    by (simp_all add: pod_cfg_def)
  have env: "io_env (ctrl_start k) = k" for k by (simp add: ctrl_start_def)
  have synced_time: "gs_last_sync_time synced_status = []" by (simp add: synced_status_def empty_status_def)
  have "fst (run_state (collect_gateway_status (status_reader (\<lambda>_. Inr synced_status) (\<lambda>_. None) sample_store)
      sample_gs [gateway_of_pod sample_pod]) (ctrl_start (io_env ?t))) =
    [apply_status (status_reader (\<lambda>_. Inr synced_status) (\<lambda>_. None) sample_store) synced_status (gateway_of_pod sample_pod)]"
    unfolding apply_status_def
    unfolding sample_store_def
    using status_reaches_controller [OF cfg pod, where J = ?J and s = ?s and decode = "\<lambda>_. Inr synced_status" and st = synced_status
        and c = "ctrl_start (io_env ?t)" and d = "ctrl_start (io_env ?s)", OF _ _ key surjective_pairing]
    by (simp add: n env Let_def synced_time)
  then show ?thesis by (simp add: Let_def apply_status_def synced_status_def)
qed

end
