(* ===== verification/TriggerProps.thy ===== *)
theory TriggerProps
  imports ScopeProps
begin

section \<open>Which writes of a reconcile start another\<close>

text \<open>
  The controller watches what it writes. Here: the events its own writes cause, against its watches,
  and the pods it discovers against the mapping of theirs.
\<close>








lemma requests_for_simps [simp]:
  "requests_for (Deleted g) = [request_of g]" "requests_for (OwnedChanged ns None) = []"
  "requests_for (OwnedChanged ns (Some n)) = [(ns, n)]"
  by (simp_all add: requests_for_def)




end
