(* ===== verification/MetricsProps.thy ===== *)
theory MetricsProps
  imports AgentSends ControllerProps WebhookProps
begin

section \<open>Every sample fits the declaration of its metric\<close>

text \<open>
  \<open>WithLabelValues\<close> panics when the number of values is not that of the declared labels, and the
  registration panics on a second collector of the same name. The samples of the histograms are in
  the logs with their labels; the durations themselves are left out.
\<close>

definition receiver_metric_ok :: "webhook_effect \<Rightarrow> bool" where
  "receiver_metric_ok e = (case e of CountRequest ls \<Rightarrow> records webhook_metrics MCounter ''requests_total'' ls | _ \<Rightarrow> True)"

definition injector_metric_ok :: "injector_effect \<Rightarrow> bool" where
  "injector_metric_ok e = (case e of CountInjection ls \<Rightarrow> records webhook_metrics MCounter ''injections_total'' ls | _ \<Rightarrow> True)"

lemma webhook_metric_simps [simp]:
  "receiver_metric_ok (CountRequest ls) \<longleftrightarrow> length ls = 2" "receiver_metric_ok (GetGS a b)"
  "receiver_metric_ok (AnnotateGS g ok)" "receiver_metric_ok (Received x y z)"
  "injector_metric_ok (CountInjection ls) \<longleftrightarrow> length ls = 2" "injector_metric_ok (ListedGS a)"
  "injector_metric_ok (LookedUpGS a b)"
  by (simp_all add: receiver_metric_ok_def injector_metric_ok_def)

lemma receiver_metered: "only.keeps receiver_metric_ok (handle_webhook V rv r)"
  unfolding handle_webhook_def apply_request_def Let_def by (intro only_intros) simp_all

lemma injector_metered: "only.keeps injector_metric_ok (handle_pod J req)"
proof -
  have "only.keeps injector_metric_ok (handle_named J ns n p)" for ns n p
    unfolding handle_named_def by (intro only_intros) (auto split: admission_response.splits intro!: only_intros)
  then show ?thesis
    unfolding handle_pod_def resolve_cr_name_def by (intro only_intros) simp_all
qed

lemma metered_reconcile:
  "wp (reconcile K req) (\<lambda>o1 t. list_all ctrl_metric_ok (sent s t) \<and>
     (\<exists>es. sent s t = Count ''reconcile_total'' [snd req, fst req, oc_label o1] #
        Timed ''reconcile_duration_seconds'' [snd req, fst req] # es)) s"
proof (cases "fst (ka_get_gs K req (io_env s))")
  case (Inl err)
  then show ?thesis by (simp add: wp_reconcile_missing Let_def counted_def ctrl_metric_ok_def)
next
  case (Inr gs)
  have "list_all ctrl_metric_ok (sent s (counted req l t)) \<and>
      (\<exists>es. sent s (counted req l t) = Count ''reconcile_total'' [snd req, fst req, l] #
        Timed ''reconcile_duration_seconds'' [snd req, fst req] # es)"
    if run: "run_state (reconcile_found K req gs) (after_get K req s) = (o1, t)" for o1 t l
  proof -
    have "list_all ctrl_metric_ok (sent s (counted req l t))"
      using reconcile_found_ok [OF run] by (auto simp: list_all_iff status_effect_ok_def)
    moreover from reconcile_found_frame(4) [OF run] obtain es where "io_log t = es @ io_log s" by blast
    ultimately show ?thesis by (simp add: counted_def sent_def)
  qed
  with Inr show ?thesis by (simp add: wp_reconcile_found) (rule wpI, simp)
qed

text \<open>
  C39: the collectors of the agent and those of the controller with its webhooks can be registered
  (the latter when the library's default buckets are increasing), and every sample the agent, the
  controller, the webhook receiver and the injector record (counters, gauges and histograms) names a
  declared collector of its kind with as many values as it has labels, so recording never panics. The
  cleanup of a deleted resource drops the series of every collector that is labelled by resource; the
  count and the duration of the reconcile are recorded after it.
\<close>

theorem metrics_fit:
  "registrable defaults (map snd agent_metrics) \<and>
   registrable defaults (controller_metrics @ webhook_metrics) = sorted_wrt (<) defaults \<and>
   set cr_metrics = set (per_resource controller_metrics) \<and>
   wp (run_startup E n) (\<lambda>_ t. list_all agent_metric_ok (sent a t)) a \<and>
   wp (handle_sync_trigger E u) (\<lambda>_ t. list_all agent_metric_ok (sent a t)) a \<and>
   wp (post_commission_poll E g) (\<lambda>_ t. list_all agent_metric_ok (sent a t)) a \<and>
   wp (reconcile K req) (\<lambda>o1 t. list_all ctrl_metric_ok (sent s t) \<and>
     (\<exists>es. sent s t = Count ''reconcile_total'' [snd req, fst req, oc_label o1] #
        Timed ''reconcile_duration_seconds'' [snd req, fst req] # es)) s \<and>
   wp (handle_webhook V rv r) (\<lambda>_ t. list_all receiver_metric_ok (sent v t)) v \<and>
   wp (handle_pod J ar) (\<lambda>_ t. list_all injector_metric_ok (sent j t)) j"
proof -
  have "set cr_metrics = set (per_resource controller_metrics)"
    by (simp add: cr_metrics_def per_resource_def controller_metrics_def metric_defs)
  then show ?thesis
    by (intro conjI registrable_agent registrable_controller only_keeps_wp metered.startup metered.trigger
        metered.post_commission metered_reconcile receiver_metered injector_metered agent_metric_ok_simps)
qed

end
