(* ===== verification/EntryPoints.thy ===== *)
theory EntryPoints
  imports "HOL-Library.Word" AgentHealth AgentConfig WebhookReceiver
begin

section \<open>cmd/agent, cmd/controller: the programs' entry points\<close>

text \<open>
  The two \<open>main\<close> functions as the list of what they set up and run, up to the exit code. Parsing flags and reading certificates is the libraries': the flags are a record, and
  what may fail is a parameter.
\<close>

subsection \<open>cmd/agent/main.go\<close>

record agent_host =
  ah_client_config :: "goerror option"
  ah_new_client :: "goerror option"
  ah_recorder_config :: "goerror option"
  ah_new_clientset :: "goerror option"

datatype main_step = RanAgent agent_config bool | FlushedEvents | Exit nat

definition build_k8s_client :: "agent_host \<Rightarrow> goerror option" where
  "build_k8s_client h = (case ah_client_config h of Some err \<Rightarrow> Some err | None \<Rightarrow> ah_new_client h)"

text \<open>Whether there is a recorder; without one the agent sends no events.\<close>

definition build_event_recorder :: "agent_host \<Rightarrow> bool" where
  "build_event_recorder h \<longleftrightarrow>
     (case ah_recorder_config h of Some err \<Rightarrow> False | None \<Rightarrow>
       (case ah_new_clientset h of Some err \<Rightarrow> False | None \<Rightarrow> True))"

definition agent_main :: "(string \<Rightarrow> string) \<Rightarrow> agent_host \<Rightarrow> (agent_config \<Rightarrow> bool \<Rightarrow> goerror option) \<Rightarrow> main_step list" where
  "agent_main getenv h run =
     (case load_config getenv of
        Inl err \<Rightarrow> [Exit 1]
      | Inr cfg \<Rightarrow> (case build_k8s_client h of
          Some err \<Rightarrow> [Exit 1]
        | None \<Rightarrow> (let recorder = build_event_recorder h in
            [RanAgent cfg recorder] @ (if recorder then [FlushedEvents] else []) @
            (case run cfg recorder of Some err \<Rightarrow> [Exit 1] | None \<Rightarrow> [Exit 0]))))"

subsection \<open>cmd/controller/main.go\<close>

record cert_flags =
  cf_path :: string
  cf_name :: string
  cf_key :: string

record controller_flags =
  fl_metrics_addr :: string
  fl_probe_addr :: string
  fl_leader_elect :: bool
  fl_secure_metrics :: bool
  fl_webhook_cert :: cert_flags
  fl_metrics_cert :: cert_flags
  fl_enable_http2 :: bool
  fl_receiver_port :: int

definition default_flags :: controller_flags where
  "default_flags = (let cert = \<lparr>cf_path = [], cf_name = ''tls.crt'', cf_key = ''tls.key''\<rparr> in
     \<lparr>fl_metrics_addr = ''0'', fl_probe_addr = '':8081'', fl_leader_elect = False, fl_secure_metrics = True,
      fl_webhook_cert = cert, fl_metrics_cert = cert, fl_enable_http2 = False, fl_receiver_port = 9444\<rparr>)"

text \<open>\<open>None\<close> stands for what the library does when the option is not set.\<close>

record server_options =
  so_next_protos :: "string list option"
  so_certificate :: "cert_flags option"

record manager_options =
  mg_webhook :: server_options
  mg_metrics :: server_options
  mg_metrics_addr :: string
  mg_metrics_secure :: bool
  mg_metrics_authenticated :: bool
  mg_probe_addr :: string
  mg_leader_election :: bool
  mg_leader_election_id :: string

definition tls_opts :: "controller_flags \<Rightarrow> string list option" where
  "tls_opts fl = (if \<not> fl_enable_http2 fl then Some [''http/1.1''] else None)"

definition certificate :: "cert_flags \<Rightarrow> cert_flags option" where
  "certificate c = (if cf_path c \<noteq> [] then Some c else None)"

definition manager_options_of :: "controller_flags \<Rightarrow> manager_options" where
  "manager_options_of fl =
     \<lparr>mg_webhook = \<lparr>so_next_protos = tls_opts fl, so_certificate = certificate (fl_webhook_cert fl)\<rparr>,
      mg_metrics = \<lparr>so_next_protos = tls_opts fl, so_certificate = certificate (fl_metrics_cert fl)\<rparr>,
      mg_metrics_addr = fl_metrics_addr fl, mg_metrics_secure = fl_secure_metrics fl,
      mg_metrics_authenticated = fl_secure_metrics fl, mg_probe_addr = fl_probe_addr fl,
      mg_leader_election = fl_leader_elect fl, mg_leader_election_id = ''a86165bb.stoker.io''\<rparr>"

datatype setup_step =
    NewManager manager_options
  | SetupController bool             \<comment> \<open>\<open>AutoBindAgentRBAC\<close>\<close>
  | RegisterInjector string
  | AddReceiver receiver int
  | AddHealthz string
  | AddReadyz string
  | StartManager

definition auto_bind_rbac :: "(string \<Rightarrow> string) \<Rightarrow> bool" where
  "auto_bind_rbac getenv \<longleftrightarrow> getenv ''AUTO_BIND_AGENT_RBAC'' \<noteq> ''false''"

definition receiver_of_env :: "(string \<Rightarrow> string) \<Rightarrow> receiver" where
  "receiver_of_env getenv =
     \<lparr>rv_hmac_secret = getenv ''WEBHOOK_HMAC_SECRET'', rv_bearer_token = getenv ''WEBHOOK_BEARER_TOKEN''\<rparr>"

text \<open>The conversion \<open>int32(webhookReceiverPort)\<close>, which wraps.\<close>

definition to_int32 :: "int \<Rightarrow> int" where
  "to_int32 x = sint (word_of_int x :: 32 word)"

definition setup_steps :: "controller_flags \<Rightarrow> (string \<Rightarrow> string) \<Rightarrow> setup_step list" where
  "setup_steps fl getenv =
     [NewManager (manager_options_of fl), SetupController (auto_bind_rbac getenv), RegisterInjector ''/mutate-v1-pod'']
     @ (if fl_receiver_port fl > 0 then [AddReceiver (receiver_of_env getenv) (to_int32 (fl_receiver_port fl))] else [])
     @ [AddHealthz ''healthz'', AddReadyz ''readyz'', StartManager]"

text \<open>The steps taken and the exit code. Registering a handler returns no error.\<close>

fun run_setup :: "(setup_step \<Rightarrow> bool) \<Rightarrow> setup_step list \<Rightarrow> setup_step list \<times> nat" where
  "run_setup fails [] = ([], 0)"
| "run_setup fails (x # xs) =
     (if fails x \<and> \<not> (case x of RegisterInjector p \<Rightarrow> True | _ \<Rightarrow> False) then ([x], 1)
      else (case run_setup fails xs of (taken, code) \<Rightarrow> (x # taken, code)))"

definition controller_main :: "controller_flags \<Rightarrow> (string \<Rightarrow> string) \<Rightarrow> (setup_step \<Rightarrow> bool) \<Rightarrow> setup_step list \<times> nat" where
  "controller_main fl getenv fails = run_setup fails (setup_steps fl getenv)"

subsection \<open>Properties\<close>

lemma run_setup_prefix: "prefix (fst (run_setup fails xs)) xs \<and> snd (run_setup fails xs) \<in> {0, 1}"
  by (induction xs) (auto split: prod.splits)

lemma run_setup_complete: "snd (run_setup fails xs) = 0 \<Longrightarrow> fst (run_setup fails xs) = xs"
  by (induction xs) (auto split: prod.splits if_splits)

lemma run_setup_last:
  "run_setup fails (xs @ [x]) = (ys, n) \<Longrightarrow> x \<in> set ys \<Longrightarrow> x \<notin> set xs \<Longrightarrow> ys = xs @ [x]"
  by (induction xs arbitrary: ys) (auto split: if_splits prod.splits)

lemma run_setup_started:
  assumes "x \<notin> set xs"
  shows "if x \<in> set (fst (run_setup fails (xs @ [x]))) then fst (run_setup fails (xs @ [x])) = xs @ [x]
         else snd (run_setup fails (xs @ [x])) = 1"
proof (cases "run_setup fails (xs @ [x])")
  case (Pair ys n)
  show ?thesis
  proof (cases "x \<in> set ys")
    case True
    then show ?thesis using run_setup_last [OF Pair _ assms] Pair by simp
  next
    case False
    then have "ys \<noteq> xs @ [x]" by auto
    then have "n \<noteq> 0" using run_setup_complete [of fails "xs @ [x]"] Pair by auto
    then show ?thesis using run_setup_prefix [of fails "xs @ [x]"] Pair False by simp
  qed
qed

definition ends_flushed :: "main_step list \<Rightarrow> bool" where
  "ends_flushed steps \<longleftrightarrow> (\<exists>pre code. steps = pre @ [Exit code] \<and> list_all (\<lambda>x. case x of Exit n \<Rightarrow> False | _ \<Rightarrow> True) pre \<and>
     (if list_ex (\<lambda>x. case x of RanAgent cfg recorder \<Rightarrow> recorder | _ \<Rightarrow> False) pre
      then pre \<noteq> [] \<and> last pre = FlushedEvents else FlushedEvents \<notin> set pre))"

text \<open>
  C40: the agent's process ends with an exit code that is 0 exactly when the configuration loads, the
  client is built and the agent returns no error, and the events of an agent that ran with a recorder are
  flushed between its end and the exit, also after an error. The controller's manager starts only after
  every part is set up; its servers speak HTTP/1.1 only unless HTTP/2 is asked for, the metrics are
  authenticated when served securely, and the receiver runs exactly when it has a port, with the
  credentials of the environment: with neither of them set, it lets every request pass.
\<close>

theorem entry_points:
  "ends_flushed (agent_main getenv h run) \<and>
   (last (agent_main getenv h run) = Exit 0) =
     (case load_config getenv of
        Inl err \<Rightarrow> False
      | Inr cfg \<Rightarrow> build_k8s_client h = None \<and> run cfg (build_event_recorder h) = None) \<and>
   (if StartManager \<in> set (fst (controller_main fl getenv fails))
    then fst (controller_main fl getenv fails) = setup_steps fl getenv else snd (controller_main fl getenv fails) = 1) \<and>
   (so_next_protos (mg_webhook (manager_options_of fl)) = Some [''http/1.1'']) = (\<not> fl_enable_http2 fl) \<and>
   (so_next_protos (mg_metrics (manager_options_of fl)) = Some [''http/1.1'']) = (\<not> fl_enable_http2 fl) \<and>
   mg_metrics_authenticated (manager_options_of fl) = mg_metrics_secure (manager_options_of fl) \<and>
   (AddReceiver rv port \<in> set (setup_steps fl getenv)) =
     (fl_receiver_port fl > 0 \<and> rv = receiver_of_env getenv \<and> port = to_int32 (fl_receiver_port fl)) \<and>
   (if getenv ''WEBHOOK_HMAC_SECRET'' = [] \<and> getenv ''WEBHOOK_BEARER_TOKEN'' = []
    then authorize V (receiver_of_env getenv) r body else True)"
proof -
  have agent: "ends_flushed (agent_main getenv h run)"
    by (auto simp: ends_flushed_def agent_main_def Let_def split: sum.split option.split)
  have code: "(last (agent_main getenv h run) = Exit 0) =
     (case load_config getenv of
        Inl err \<Rightarrow> False
      | Inr cfg \<Rightarrow> build_k8s_client h = None \<and> run cfg (build_event_recorder h) = None)"
    by (auto simp: agent_main_def Let_def split: sum.split option.split)
  obtain init where init: "setup_steps fl getenv = init @ [StartManager]" "StartManager \<notin> set init"
    by (auto simp: setup_steps_def)
  have start: "if StartManager \<in> set (fst (controller_main fl getenv fails))
    then fst (controller_main fl getenv fails) = setup_steps fl getenv else snd (controller_main fl getenv fails) = 1"
    using run_setup_started [OF init(2), of fails] init(1) by (simp add: controller_main_def)
  show ?thesis
    by (intro conjI agent code start)
      (auto simp: manager_options_of_def tls_opts_def setup_steps_def receiver_of_env_def authorize_def)
qed

end
