(* ===== verification/ClusterEvents.thy ===== *)
theory ClusterEvents
  imports ClusterStore AgentStatus
begin

section \<open>A cluster shared by users, agents, webhooks and reconcile workers\<close>

text \<open>
  Everything that may happen to the cluster of \<open>ClusterStore\<close>, as atomic events: what users do to
  resources, what agents and other clients do to ConfigMaps, Secrets and pods, and each write of a
  reconcile worker. A write of a worker has the guard under which the code makes it; the theory
  \<open>SystemProps\<close> proves that a reconcile, whatever happens between its calls, makes only such writes.
\<close>

subsection \<open>The world\<close>

text \<open>The store, and every specification a user gave to a resource, the newest first.\<close>

record world =
  wd_store :: cluster
  wd_specs :: "(namespaced_name \<times> gateway_sync_spec) list"

definition no_world :: world where
  "no_world = \<lparr>wd_store = \<lparr>cl_cms = [], cl_secrets = [], cl_gs = [], cl_pods = [], cl_rbs = [], cl_time = 0, cl_rev = 0\<rparr>, wd_specs = []\<rparr>"

definition metadata_prefix :: string where
  "metadata_prefix = ''stoker-metadata-''"

definition token_prefix :: string where
  "token_prefix = ''stoker-github-token-''"

definition is_metadata_of :: "namespaced_name \<Rightarrow> config_map \<Rightarrow> bool" where
  "is_metadata_of req cm \<longleftrightarrow> cm_namespace cm = fst req \<and> cm_name cm = metadata_prefix @ snd req"

definition is_token_of :: "namespaced_name \<Rightarrow> secret_obj \<Rightarrow> bool" where
  "is_token_of req se \<longleftrightarrow> se_namespace se = fst req \<and> se_name se = token_prefix @ snd req"

text \<open>The resource is there and has the controller's finalizer.\<close>

definition holds :: "cluster \<Rightarrow> namespaced_name \<Rightarrow> bool" where
  "holds k req \<longleftrightarrow> list_ex (\<lambda>g. request_of g = req \<and> has_finalizer g) (cl_gs k)"

text \<open>No metadata and no token of the resource is left.\<close>

definition cleared :: "cluster \<Rightarrow> namespaced_name \<Rightarrow> bool" where
  "cleared k req \<longleftrightarrow> \<not> list_ex (is_metadata_of req) (cl_cms k) \<and> \<not> list_ex (is_token_of req) (cl_secrets k)"

definition version_of :: "gateway_sync \<Rightarrow> string" where
  "version_of g = om_resource_version (gy_meta g)"

text \<open>A stored resource that still has the version of \<open>base\<close> is \<open>base\<close>, but for its status.\<close>

definition tied :: "gateway_sync \<Rightarrow> cluster \<Rightarrow> bool" where
  "tied base k \<longleftrightarrow> list_all (\<lambda>g. if request_of g = request_of base \<and> version_of g = version_of base
     then gy_meta g = gy_meta base \<and> gy_spec g = gy_spec base else True) (cl_gs k)"

definition seen :: "gateway_sync \<Rightarrow> world \<Rightarrow> bool" where
  "seen base wd \<longleftrightarrow> (request_of base, gy_spec base) \<in> set (wd_specs wd)"

subsection \<open>Events\<close>

text \<open>The writes of a worker that reconciles \<open>base\<close>, the resource as it read it.\<close>

datatype worker_write =
    AddFinalizer
  | DropFinalizer
  | WriteStatus gateway_sync
  | ClearAnnotation gateway_sync              \<comment> \<open>the resource as read again\<close>
  | NewMetadata git_result
  | SetMetadata config_map git_result         \<comment> \<open>the ConfigMap as read\<close>
  | DropConfigMap config_map
  | NewToken string
  | SetToken secret_obj "(string, string) gomap"
  | DropToken secret_obj
  | NewBinding "rbac_subject list"
  | SetBinding role_binding "rbac_subject list"
  | DropBinding role_binding

datatype cluster_event =
    UserCreates gateway_sync
  | UserEdits namespaced_name gateway_sync_spec
  | UserDeletes namespaced_name
  | Annotates gateway_sync "(string, string) gomap"   \<comment> \<open>the resource as read, and its new annotations\<close>
  | Reports string string string string               \<comment> \<open>an agent's status: namespace, resource, gateway, JSON\<close>
  | ClientCreatesCM config_map
  | ClientUpdatesCM config_map
  | ClientDeletesCM config_map
  | ClientPutsSecret secret_obj
  | ClientDeletesSecret secret_obj
  | PodsChange "pod list"
  | BindingsChange "role_binding list"
  | TimePasses int
  | Worker gateway_sync worker_write

definition on_store :: "(cluster \<Rightarrow> cluster) \<Rightarrow> world \<Rightarrow> world" where
  "on_store f wd = wd\<lparr>wd_store := f (wd_store wd)\<rparr>"

text \<open>A Secret or ConfigMap that no client but the controller writes.\<close>

definition reserved_cm :: "config_map \<Rightarrow> bool" where
  "reserved_cm cm = has_prefix (cm_name cm) metadata_prefix"

definition reserved_secret :: "secret_obj \<Rightarrow> bool" where
  "reserved_secret se = has_prefix (se_name se) token_prefix"

text \<open>When the code makes a write.\<close>

definition may_write :: "gateway_sync \<Rightarrow> worker_write \<Rightarrow> world \<Rightarrow> bool" where
  "may_write base w wd = (let k = wd_store wd; req = request_of base in case w of
      AddFinalizer \<Rightarrow> tied base k
    | DropFinalizer \<Rightarrow> tied base k \<and> cleared k req
    | WriteStatus gs \<Rightarrow> request_of gs = req
    | ClearAnnotation fresh \<Rightarrow> request_of fresh = req
    | NewMetadata r \<Rightarrow> holds k req \<and> seen base wd
    | SetMetadata cm r \<Rightarrow> is_metadata_of req cm \<and> holds k req \<and> seen base wd
    | NewToken t \<Rightarrow> holds k req
    | SetToken se d \<Rightarrow> is_token_of req se \<and> holds k req
    | _ \<Rightarrow> True)"

definition perform :: "'w ctrl_api \<Rightarrow> gateway_sync \<Rightarrow> worker_write \<Rightarrow> cluster \<Rightarrow> cluster" where
  "perform P base w k = (case w of
      AddFinalizer \<Rightarrow> snd (store_update_gs (add_finalizer base) k)
    | DropFinalizer \<Rightarrow> snd (store_update_gs (remove_finalizer base) k)
    | WriteStatus gs \<Rightarrow> snd (store_patch_status gs base k)
    | ClearAnnotation fresh \<Rightarrow> snd (store_patch_gs (cleared_request fresh) fresh k)
    | NewMetadata r \<Rightarrow> snd (store_create_cm (new_metadata_cm base (metadata_data P base r)) k)
    | SetMetadata cm r \<Rightarrow> snd (store_update_cm (cm\<lparr>cm_data := metadata_data P base r\<rparr>) k)
    | DropConfigMap cm \<Rightarrow> snd (store_delete_cm cm k)
    | NewToken t \<Rightarrow> snd (store_create_secret (new_token_secret base t) k)
    | SetToken se d \<Rightarrow> snd (store_update_secret (se\<lparr>se_data := d\<rparr>) k)
    | DropToken se \<Rightarrow> snd (store_delete_secret se k)
    | NewBinding sbs \<Rightarrow> snd (store_create_rb (new_role_binding base sbs) k)
    | SetBinding rb sbs \<Rightarrow> snd (store_update_rb (rb\<lparr>rb_subjects := sbs\<rparr>) k)
    | DropBinding rb \<Rightarrow> snd (store_delete_rb rb k))"

text \<open>The API server's part in what a user does: a new generation for a new specification, and a deleted
  resource stays as long as it has finalizers.\<close>

definition respecified :: "gateway_sync_spec \<Rightarrow> gateway_sync \<Rightarrow> gateway_sync" where
  "respecified spec g = g\<lparr>gy_spec := spec,
     gy_meta := (gy_meta g)\<lparr>om_generation := om_generation (gy_meta g) + (if gy_spec g = spec then 0 else 1)\<rparr>\<rparr>"

definition marked_deleted :: "int \<Rightarrow> gateway_sync \<Rightarrow> gateway_sync" where
  "marked_deleted now g = g\<lparr>gy_meta := (gy_meta g)\<lparr>om_deletion_timestamp := Some now\<rparr>\<rparr>"

definition fresh_resource :: "nat \<Rightarrow> gateway_sync \<Rightarrow> gateway_sync" where
  "fresh_resource n gs = set_version (revision n) (gs\<lparr>gy_meta := (gy_meta gs)\<lparr>om_deletion_timestamp := None\<rparr>\<rparr>)"

text \<open>An agent's report, as one step: its entry is set, the others stay.\<close>

definition report :: "string \<Rightarrow> string \<Rightarrow> string \<Rightarrow> string \<Rightarrow> cluster \<Rightarrow> cluster" where
  "report ns cr gw json k = (case lookup_in (cl_cms k) (is_cm ns (status_config_map_name cr)) (status_config_map_name cr) of
     Inl e \<Rightarrow> snd (store_create_cm (new_status_cm ns cr gw json) k)
   | Inr cm \<Rightarrow> snd (store_update_cm (cm\<lparr>cm_data := mput (cm_data cm) gw json\<rparr>) k))"

fun act :: "'w ctrl_api \<Rightarrow> cluster_event \<Rightarrow> world \<Rightarrow> world" where
  "act P (UserCreates gs) wd = (case find_gs (wd_store wd) (request_of gs) of
     Inr g \<Rightarrow> wd
   | Inl e \<Rightarrow> (let k = wd_store wd in wd\<lparr>wd_store := k\<lparr>cl_gs := fresh_resource (cl_rev k) gs # cl_gs k, cl_rev := Suc (cl_rev k)\<rparr>,
       wd_specs := (request_of gs, gy_spec gs) # wd_specs wd\<rparr>))"
| "act P (UserEdits req spec) wd = (case find_gs (wd_store wd) req of
     Inl e \<Rightarrow> wd
   | Inr g \<Rightarrow> wd\<lparr>wd_store := put_gs (respecified spec g) (wd_store wd), wd_specs := (req, spec) # wd_specs wd\<rparr>)"
| "act P (UserDeletes req) wd = (case find_gs (wd_store wd) req of
     Inl e \<Rightarrow> wd
   | Inr g \<Rightarrow> if om_deletion_timestamp (gy_meta g) \<noteq> None then wd
       else on_store (\<lambda>k. put_gs (marked_deleted (cl_time k) g) k) wd)"
| "act P (Annotates base m) wd =
     (if tied base (wd_store wd) then on_store (\<lambda>k. snd (store_update_gs (map_annotations (\<lambda>_. m) base) k)) wd else wd)"
| "act P (Reports ns cr gw json) wd = on_store (report ns cr gw json) wd"
| "act P (ClientCreatesCM cm) wd = (if reserved_cm cm then wd else on_store (\<lambda>k. snd (store_create_cm cm k)) wd)"
| "act P (ClientUpdatesCM cm) wd = (if reserved_cm cm then wd else on_store (\<lambda>k. snd (store_update_cm cm k)) wd)"
| "act P (ClientDeletesCM cm) wd = on_store (\<lambda>k. snd (store_delete_cm cm k)) wd"
| "act P (ClientPutsSecret se) wd = (if reserved_secret se then wd
     else on_store (\<lambda>k. k\<lparr>cl_secrets := se # filter (\<lambda>x. \<not> is_secret (se_namespace se) (se_name se) x) (cl_secrets k)\<rparr>) wd)"
| "act P (ClientDeletesSecret se) wd = on_store (\<lambda>k. snd (store_delete_secret se k)) wd"
| "act P (PodsChange ps) wd = on_store (\<lambda>k. k\<lparr>cl_pods := ps\<rparr>) wd"
| "act P (BindingsChange l) wd = on_store (\<lambda>k. k\<lparr>cl_rbs := l\<rparr>) wd"
| "act P (TimePasses now) wd = on_store (\<lambda>k. k\<lparr>cl_time := now\<rparr>) wd"
| "act P (Worker base w) wd = (if may_write base w wd then on_store (perform P base w) wd else wd)"

definition run_events :: "'w ctrl_api \<Rightarrow> cluster_event list \<Rightarrow> world \<Rightarrow> world" where
  "run_events P es wd = fold (act P) es wd"

lemma run_events_simps [simp]:
  "run_events P [] wd = wd" "run_events P (e # es) wd = run_events P es (act P e wd)"
  "run_events P (xs @ ys) wd = run_events P ys (run_events P xs wd)"
  by (simp_all add: run_events_def)

end
