(* ===== verification/ClusterInvariant.thy ===== *)
theory ClusterInvariant
  imports ClusterEvents
begin

section \<open>What every event keeps of the cluster\<close>

text \<open>
  \<open>sound\<close> is the invariant of the shared cluster, \<open>pinned\<close> what a worker may rely on about the
  resource it read while others act. Both are proved for the few kinds of \<open>change\<close> an event can make.
\<close>

subsection \<open>Versions\<close>

definition old_version :: "nat \<Rightarrow> string \<Rightarrow> bool" where
  "old_version n v \<longleftrightarrow> (\<exists>r<n. v = revision r)"

lemma revision_inject [simp]: "revision m = revision n \<longleftrightarrow> m = n"
proof
  assume "revision m = revision n"
  then have "length (revision m) = length (revision n)" by simp
  then show "m = n" by (simp add: revision_def)
qed simp

lemma old_version_mono: "old_version n v \<Longrightarrow> n \<le> m \<Longrightarrow> old_version m v"
  by (force simp: old_version_def)

lemma old_version_new [simp]: "old_version (Suc n) (revision n)" "\<not> old_version n (revision n)"
  by (auto simp: old_version_def)

lemma old_version_Suc: "old_version n v \<Longrightarrow> old_version (Suc n) v"
  by (erule old_version_mono) simp

lemma old_version_neq: "old_version n v \<Longrightarrow> v \<noteq> revision n" "old_version n v \<Longrightarrow> revision n \<noteq> v"
  using old_version_new(2) by auto

lemma old_version_nonempty: "old_version n v \<Longrightarrow> v \<noteq> []"
  by (auto simp: old_version_def revision_def)

subsection \<open>Resources by name\<close>

lemma is_gs_request [simp]: "is_gs (gy_namespace g) (gy_name g) y \<longleftrightarrow> request_of y = request_of g"
  by (auto simp: is_gs_def request_of_def)

lemma request_of_simps [simp]:
  "request_of (set_version v g) = request_of g" "request_of (map_annotations f g) = request_of g"
  "request_of (map_finalizers h g) = request_of g" "request_of (g\<lparr>gy_status := st\<rparr>) = request_of g"
  "request_of (respecified spec g) = request_of g" "request_of (marked_deleted now g) = request_of g"
  "request_of (cleared_request g) = request_of g"
  by (simp_all add: request_of_def gy_name_def gy_namespace_def set_version_def map_annotations_def map_finalizers_def
      respecified_def marked_deleted_def cleared_request_def)

lemma find_gs_Inr: "find_gs k req = Inr g \<Longrightarrow> g \<in> set (cl_gs k) \<and> request_of g = req"
proof -
  assume a: "find_gs k req = Inr g"
  then have "find (is_gs (fst req) (snd req)) (cl_gs k) = Some g" by (auto simp: find_gs_def lookup_in_def split: option.splits)
  with find_gs_found [OF a] show ?thesis by (auto simp: find_Some_iff request_of_def)
qed

lemma find_gs_Inl: "find_gs k req = Inl e \<Longrightarrow> g \<in> set (cl_gs k) \<Longrightarrow> request_of g \<noteq> req"
  by (auto simp: find_gs_def lookup_in_Inl list_ex_iff is_gs_def request_of_def)

lemma find_gs_request: "find_gs k (gy_namespace g, gy_name g) = find_gs k (request_of g)"
  by (simp add: request_of_def)

text \<open>What \<open>put_gs\<close> leaves in the store: every other resource as it was, and of the name the new one.\<close>

lemma put_gs_cases:
  assumes "x \<in> set (cl_gs (put_gs g k))"
  shows "x \<in> set (cl_gs k) \<and> request_of x \<noteq> request_of g \<or> x = set_version (revision (cl_rev k)) g \<and> \<not> finished g"
  using assms by (auto simp: put_gs_def Let_def split: if_splits)

lemma put_gs_rev [simp]: "cl_rev (put_gs g k) = Suc (cl_rev k)"
  by (simp add: put_gs_def Let_def)

lemma put_gs_other: "x \<in> set (cl_gs k) \<Longrightarrow> request_of x \<noteq> request_of g \<Longrightarrow> x \<in> set (cl_gs (put_gs g k))"
  by (auto simp: put_gs_def Let_def)

lemma put_gs_new:
  "find_gs k (request_of g) = Inr cur \<Longrightarrow> \<not> finished g \<Longrightarrow> set_version (revision (cl_rev k)) g \<in> set (cl_gs (put_gs g k))"
  by (drule find_gs_Inr) (force simp: put_gs_def Let_def)

lemma put_gs_distinct:
  assumes "distinct (map request_of (cl_gs k))"
  shows "distinct (map request_of (cl_gs (put_gs g k)))"
proof -
  have "request_of \<circ> (\<lambda>y. if request_of y = request_of g then set_version v g else y) = request_of" for v
    by (rule ext) simp
  with assms show ?thesis by (simp add: put_gs_def Let_def distinct_map_filter)
qed

lemma set_version_simps [simp]:
  "gy_spec (set_version v g) = gy_spec g" "gy_status (set_version v g) = gy_status g" "version_of (set_version v g) = v"
  "has_finalizer (set_version v g) = has_finalizer g"
  by (simp_all add: set_version_def version_of_def has_finalizer_def)

lemma finished_no_finalizer: "finished g \<Longrightarrow> \<not> has_finalizer g"
  by (simp add: finished_def has_finalizer_def)

lemma holds_put_gs:
  assumes "holds k req" "find_gs k (request_of g) = Inr cur" "req = request_of g \<Longrightarrow> has_finalizer g"
  shows "holds (put_gs g k) req"
proof (cases "req = request_of g")
  case True
  then have g: "has_finalizer g" by (rule assms(3))
  with finished_no_finalizer have "\<not> finished g" by blast
  from put_gs_new [OF assms(2) this] g True show ?thesis
    unfolding holds_def list_ex_iff by (intro bexI) simp_all
next
  case False
  with assms(1) show ?thesis unfolding holds_def list_ex_iff by (blast intro: put_gs_other)
qed

lemma holds_unique:
  assumes "distinct (map request_of (cl_gs k))" "find_gs k req = Inr cur" "holds k req"
  shows "has_finalizer cur"
proof -
  from assms(3) obtain g where g: "g \<in> set (cl_gs k)" "request_of g = req" "has_finalizer g" by (auto simp: holds_def list_ex_iff)
  from find_gs_Inr [OF assms(2)] g assms(1) have "g = cur" by (auto simp: distinct_map dest: inj_onD)
  with g show ?thesis by simp
qed

lemma find_holds: "find_gs k req = Inr g \<Longrightarrow> has_finalizer g \<Longrightarrow> holds k req"
  by (drule find_gs_Inr) (auto simp: holds_def list_ex_iff)

subsection \<open>The invariant\<close>

definition cm_key :: "config_map \<Rightarrow> string \<times> string" where
  "cm_key cm = (cm_namespace cm, cm_name cm)"

lemma cm_key_simps [simp]: "cm_key (cm\<lparr>cm_data := d\<rparr>) = cm_key cm" "cm_key (stamped k cm) = cm_key cm"
  by (simp_all add: cm_key_def)

text \<open>
  A metadata ConfigMap is what the controller computes from a specification a user gave to its resource,
  and that resource is there and has the finalizer.
\<close>

definition backed :: "'w ctrl_api \<Rightarrow> world \<Rightarrow> config_map \<Rightarrow> bool" where
  "backed P wd cm \<longleftrightarrow> (\<forall>req. is_metadata_of req cm \<longrightarrow> holds (wd_store wd) req \<and>
     (\<exists>gs r. request_of gs = req \<and> seen gs wd \<and> cm_data cm = metadata_data P gs r))"

lemma backedD:
  "backed P wd cm \<Longrightarrow> is_metadata_of req cm \<Longrightarrow>
     holds (wd_store wd) req \<and> (\<exists>gs r. request_of gs = req \<and> seen gs wd \<and> cm_data cm = metadata_data P gs r)"
  unfolding backed_def by blast

definition backed_token :: "cluster \<Rightarrow> secret_obj \<Rightarrow> bool" where
  "backed_token k se \<longleftrightarrow> (\<forall>req. is_token_of req se \<longrightarrow> holds k req)"

definition sound_versions :: "cluster \<Rightarrow> bool" where
  "sound_versions k \<longleftrightarrow> distinct (map request_of (cl_gs k)) \<and> distinct (map cm_key (cl_cms k)) \<and>
     (\<forall>g \<in> set (cl_gs k). old_version (cl_rev k) (version_of g)) \<and>
     (\<forall>cm \<in> set (cl_cms k). old_version (cl_rev k) (cm_resource_version cm))"

text \<open>Every resource has the specification its user gave it last.\<close>

definition latest_specs :: "world \<Rightarrow> bool" where
  "latest_specs wd \<longleftrightarrow> (\<forall>g \<in> set (cl_gs (wd_store wd)). mget (wd_specs wd) (request_of g) = Some (gy_spec g))"

definition sound :: "'w ctrl_api \<Rightarrow> world \<Rightarrow> bool" where
  "sound P wd \<longleftrightarrow> sound_versions (wd_store wd) \<and> latest_specs wd \<and>
     (\<forall>cm \<in> set (cl_cms (wd_store wd)). backed P wd cm) \<and> (\<forall>se \<in> set (cl_secrets (wd_store wd)). backed_token (wd_store wd) se)"

text \<open>What a worker that read \<open>base\<close> relies on.\<close>

definition pinned :: "gateway_sync \<Rightarrow> world \<Rightarrow> bool" where
  "pinned base wd \<longleftrightarrow> tied base (wd_store wd) \<and> seen base wd \<and> old_version (cl_rev (wd_store wd)) (version_of base) \<and>
     (has_finalizer base \<longrightarrow> holds (wd_store wd) (request_of base))"

lemma sound_no_world: "sound P no_world"
  by (simp add: sound_def sound_versions_def latest_specs_def no_world_def)

text \<open>What was read from the cluster is pinned.\<close>

lemma pinned_found:
  assumes "sound P wd" "find_gs (wd_store wd) req = Inr gs"
  shows "pinned gs wd"
proof -
  from find_gs_Inr [OF assms(2)] have gs: "gs \<in> set (cl_gs (wd_store wd))" "request_of gs = req" by auto
  from assms(1) have d: "distinct (map request_of (cl_gs (wd_store wd)))" and
    old: "old_version (cl_rev (wd_store wd)) (version_of gs)" and
    spec: "mget (wd_specs wd) (request_of gs) = Some (gy_spec gs)"
    using gs by (auto simp: sound_def sound_versions_def latest_specs_def)
  have "tied gs (wd_store wd)" using d gs by (auto simp: tied_def list_all_iff distinct_map dest: inj_onD)
  moreover have "seen gs wd" using spec by (auto simp: seen_def mget_def dest: map_of_SomeD)
  ultimately show ?thesis using old find_holds [OF assms(2)] gs(2) by (auto simp: pinned_def)
qed

subsection \<open>The kinds of change\<close>

text \<open>\<open>keep\<close> says of which resources the finalizer stays.\<close>

inductive change :: "'w ctrl_api \<Rightarrow> (namespaced_name \<Rightarrow> bool) \<Rightarrow> world \<Rightarrow> world \<Rightarrow> bool" for P keep wd where
  idle: "change P keep wd wd"
| puts: "change P keep wd (wd\<lparr>wd_store := put_gs g (wd_store wd), wd_specs := specs\<rparr>)"
    if "find_gs (wd_store wd) (request_of g) = Inr cur"
      "specs = wd_specs wd \<and> gy_spec g = gy_spec cur \<or> specs = (request_of g, gy_spec g) # wd_specs wd"
      "has_finalizer cur \<Longrightarrow> has_finalizer g \<or> \<not> keep (request_of g) \<and> cleared (wd_store wd) (request_of g)"
| adds: "change P keep wd (wd\<lparr>wd_store := k\<lparr>cl_gs := fresh_resource (cl_rev k) g # cl_gs k, cl_rev := Suc (cl_rev k)\<rparr>,
      wd_specs := (request_of g, gy_spec g) # wd_specs wd\<rparr>)"
    if "find_gs k (request_of g) = Inl err" "k = wd_store wd"
| creates: "change P keep wd (on_store (\<lambda>k. snd (store_create_cm cm k)) wd)" if "backed P wd cm"
| updates: "change P keep wd (on_store (\<lambda>k. snd (store_update_cm cm k)) wd)" if "backed P wd cm"
| deletes: "change P keep wd (on_store (\<lambda>k. snd (store_delete_cm cm k)) wd)"
| secrets: "change P keep wd (on_store (\<lambda>k. k\<lparr>cl_secrets := l\<rparr>) wd)"
    if "\<And>se. se \<in> set l \<Longrightarrow> se \<in> set (cl_secrets (wd_store wd)) \<or> backed_token (wd_store wd) se"
| others: "change P keep wd (on_store (\<lambda>k. k\<lparr>cl_pods := ps, cl_rbs := bs, cl_time := now\<rparr>) wd)"

lemma on_store_simps [simp]: "wd_store (on_store f wd) = f (wd_store wd)" "wd_specs (on_store f wd) = wd_specs wd"
  by (simp_all add: on_store_def)

text \<open>More is seen and nothing let go: what is backed stays backed.\<close>

definition grows :: "world \<Rightarrow> world \<Rightarrow> bool" where
  "grows wd wd' \<longleftrightarrow> set (wd_specs wd) \<subseteq> set (wd_specs wd') \<and> (\<forall>req. holds (wd_store wd) req \<longrightarrow> holds (wd_store wd') req)"

lemma backed_grows: "backed P wd cm \<Longrightarrow> grows wd wd' \<Longrightarrow> backed P wd' cm"
  by (fastforce simp: backed_def grows_def seen_def)

lemma backed_token_grows: "backed_token (wd_store wd) se \<Longrightarrow> grows wd wd' \<Longrightarrow> backed_token (wd_store wd') se"
  by (auto simp: backed_token_def grows_def)

lemma is_metadata_of_unique: "is_metadata_of req cm \<Longrightarrow> is_metadata_of req' cm \<Longrightarrow> req = req'"
  by (auto simp: is_metadata_of_def prod_eq_iff)

lemma is_token_of_unique: "is_token_of req se \<Longrightarrow> is_token_of req' se \<Longrightarrow> req = req'"
  by (auto simp: is_token_of_def prod_eq_iff)

subsubsection \<open>A resource is written\<close>

lemma sound_puts:
  assumes s: "sound P wd" and cur: "find_gs (wd_store wd) (request_of g) = Inr cur"
    and specs: "specs = wd_specs wd \<and> gy_spec g = gy_spec cur \<or> specs = (request_of g, gy_spec g) # wd_specs wd"
    and fin: "has_finalizer cur \<Longrightarrow> has_finalizer g \<or> cleared (wd_store wd) (request_of g)"
  shows "sound P (wd\<lparr>wd_store := put_gs g (wd_store wd), wd_specs := specs\<rparr>)"
proof -
  let ?k = "wd_store wd"
  let ?wd = "wd\<lparr>wd_store := put_gs g ?k, wd_specs := specs\<rparr>"
  note sv = s [unfolded sound_def sound_versions_def]
  have versions: "sound_versions (put_gs g ?k)"
    using sv by (auto simp: sound_versions_def put_gs_distinct dest!: put_gs_cases intro: old_version_Suc)
  have cur_spec: "mget (wd_specs wd) (request_of g) = Some (gy_spec cur)"
    using find_gs_Inr [OF cur] s by (auto simp: sound_def latest_specs_def)
  have latest: "latest_specs ?wd"
    using s specs cur_spec by (auto simp: sound_def latest_specs_def dest!: put_gs_cases)
  have sub: "set (wd_specs wd) \<subseteq> set specs" using specs by auto
  have keeps: "holds (put_gs g ?k) req" if "holds ?k req" "req \<noteq> request_of g \<or> has_finalizer g" for req
    using holds_put_gs [OF that(1) cur] that(2) by blast
  have fin': "holds ?k (request_of g) \<Longrightarrow> has_finalizer g \<or> cleared ?k (request_of g)"
    using fin holds_unique [OF _ cur] sv by blast
  have "backed P ?wd cm" if "cm \<in> set (cl_cms ?k)" for cm
    unfolding backed_def
  proof (intro allI impI)
    fix req assume m: "is_metadata_of req cm"
    have "backed P wd cm" using s that by (simp add: sound_def)
    from backedD [OF this m] have b: "holds ?k req" "\<exists>gs r. request_of gs = req \<and> seen gs wd \<and> cm_data cm = metadata_data P gs r"
      by simp_all
    have "req \<noteq> request_of g \<or> has_finalizer g" using fin' b(1) m that by (auto simp: cleared_def list_ex_iff)
    with keeps [OF b(1)] b(2) sub show "holds (wd_store ?wd) req \<and> (\<exists>gs r. request_of gs = req \<and> seen gs ?wd \<and> cm_data cm = metadata_data P gs r)"
      by (auto simp: seen_def)
  qed
  moreover have "backed_token (put_gs g ?k) se" if "se \<in> set (cl_secrets ?k)" for se
    unfolding backed_token_def
  proof (intro allI impI)
    fix req assume m: "is_token_of req se"
    have "backed_token ?k se" using s that by (simp add: sound_def)
    with m have b: "holds ?k req" unfolding backed_token_def by blast
    have "req \<noteq> request_of g \<or> has_finalizer g" using fin' b m that by (auto simp: cleared_def list_ex_iff)
    with keeps [OF b] show "holds (put_gs g ?k) req" by simp
  qed
  ultimately show ?thesis using versions latest by (simp add: sound_def)
qed

lemma pinned_puts:
  assumes p: "pinned base wd" and cur: "find_gs (wd_store wd) (request_of g) = Inr cur" and s: "sound P wd"
    and specs: "set (wd_specs wd) \<subseteq> set specs"
    and fin: "request_of g = request_of base \<Longrightarrow> has_finalizer cur \<Longrightarrow> has_finalizer g"
  shows "pinned base (wd\<lparr>wd_store := put_gs g (wd_store wd), wd_specs := specs\<rparr>)"
proof -
  let ?k = "wd_store wd"
  have "tied base (put_gs g ?k)"
    using p by (auto simp: pinned_def tied_def list_all_iff dest!: put_gs_cases dest: old_version_neq)
  moreover have "holds (put_gs g ?k) (request_of base)" if "has_finalizer base"
    using p that holds_put_gs [OF _ cur] fin holds_unique [OF _ cur] s
    by (auto simp: pinned_def sound_def sound_versions_def)
  ultimately show ?thesis using p specs by (auto simp: pinned_def seen_def intro: old_version_Suc)
qed

subsubsection \<open>A resource is added\<close>

lemma fresh_resource_simps [simp]:
  "request_of (fresh_resource n gs) = request_of gs" "gy_spec (fresh_resource n gs) = gy_spec gs"
  "version_of (fresh_resource n gs) = revision n"
  by (simp_all add: fresh_resource_def) (simp add: request_of_def gy_name_def gy_namespace_def)

lemma grows_adds:
  "grows wd (wd\<lparr>wd_store := (wd_store wd)\<lparr>cl_gs := g # cl_gs (wd_store wd), cl_rev := r\<rparr>, wd_specs := x # wd_specs wd\<rparr>)"
  by (auto simp: grows_def holds_def)

lemma sound_adds:
  assumes "sound P wd" "find_gs (wd_store wd) (request_of g) = Inl err"
  shows "sound P (wd\<lparr>wd_store := (wd_store wd)\<lparr>cl_gs := fresh_resource (cl_rev (wd_store wd)) g # cl_gs (wd_store wd),
    cl_rev := Suc (cl_rev (wd_store wd))\<rparr>, wd_specs := (request_of g, gy_spec g) # wd_specs wd\<rparr>)" (is "sound P ?wd")
proof -
  have new: "request_of g \<notin> request_of ` set (cl_gs (wd_store wd))" using find_gs_Inl [OF assms(2)] by force
  have g: "grows wd ?wd" by (rule grows_adds)
  have "sound_versions (wd_store ?wd)" using assms(1) new
    by (auto simp: sound_def sound_versions_def intro: old_version_Suc)
  moreover have "latest_specs ?wd" using assms(1) find_gs_Inl [OF assms(2)] by (auto simp: sound_def latest_specs_def)
  ultimately show ?thesis using assms(1) backed_grows [OF _ g] backed_token_grows [OF _ g] by (auto simp: sound_def)
qed

lemma pinned_adds:
  assumes "pinned base wd"
  shows "pinned base (wd\<lparr>wd_store := (wd_store wd)\<lparr>cl_gs := fresh_resource (cl_rev (wd_store wd)) g # cl_gs (wd_store wd),
    cl_rev := Suc (cl_rev (wd_store wd))\<rparr>, wd_specs := x # wd_specs wd\<rparr>)"
  using assms by (auto simp: pinned_def tied_def seen_def holds_def dest: old_version_neq intro: old_version_Suc)

subsubsection \<open>An object is written\<close>

text \<open>The resources stay, the versions may only go on.\<close>

definition same_resources :: "cluster \<Rightarrow> cluster \<Rightarrow> bool" where
  "same_resources k k' \<longleftrightarrow> cl_gs k' = cl_gs k \<and> cl_rev k \<le> cl_rev k'"

lemma pinned_same_resources:
  "pinned base wd \<Longrightarrow> same_resources (wd_store wd) (f (wd_store wd)) \<Longrightarrow> pinned base (on_store f wd)"
  by (auto simp: pinned_def tied_def seen_def holds_def same_resources_def intro: old_version_mono)

lemma sound_objects:
  assumes s: "sound P wd" and r: "same_resources (wd_store wd) (f (wd_store wd))"
    and d: "distinct (map cm_key (cl_cms (f (wd_store wd))))"
    and cms: "\<And>cm. cm \<in> set (cl_cms (f (wd_store wd))) \<Longrightarrow> old_version (cl_rev (f (wd_store wd))) (cm_resource_version cm) \<and> backed P wd cm"
    and ses: "\<And>se. se \<in> set (cl_secrets (f (wd_store wd))) \<Longrightarrow> backed_token (wd_store wd) se"
  shows "sound P (on_store f wd)"
proof -
  have g: "grows wd (on_store f wd)" using r by (auto simp: grows_def holds_def same_resources_def)
  have "sound_versions (f (wd_store wd))" using s r d cms
    by (auto simp: sound_def sound_versions_def same_resources_def intro: old_version_mono)
  moreover have "latest_specs (on_store f wd)" using s r by (simp add: sound_def latest_specs_def same_resources_def)
  ultimately show ?thesis using cms backed_grows [OF _ g] ses backed_token_grows [OF _ g] by (auto simp: sound_def)
qed

lemma backed_stamped: "backed P wd (stamped k cm) = backed P wd cm"
  by (simp add: backed_def is_metadata_of_def)

lemma is_cm_key: "is_cm (cm_namespace cm) (cm_name cm) x \<longleftrightarrow> cm_key x = cm_key cm"
  by (auto simp: is_cm_def cm_key_def)

lemma store_create_cm_cms:
  "cl_cms (snd (store_create_cm cm k)) = (if cm_key cm \<in> cm_key ` set (cl_cms k) then cl_cms k else stamped k cm # cl_cms k)"
  by (auto simp: store_create_cm_def create_in_def list_ex_iff is_cm_key image_iff split: if_splits) metis

lemma store_update_cm_cms:
  "cl_cms (snd (store_update_cm cm k)) = cl_cms k \<or>
   cl_cms (snd (store_update_cm cm k)) = map (\<lambda>y. if cm_key y = cm_key cm then stamped k cm else y) (cl_cms k) \<and>
     cl_rev (snd (store_update_cm cm k)) = Suc (cl_rev k)"
  by (simp add: store_update_cm_def update_in_def is_cm_key split: sum.split)

lemma same_resources_cms:
  "same_resources k (snd (store_create_cm cm k))" "same_resources k (snd (store_update_cm cm k))"
  "same_resources k (snd (store_delete_cm cm k))"
  by (simp_all add: same_resources_def store_create_cm_def store_update_cm_def store_delete_cm_def split: prod.split sum.split option.split)

lemma cms_secrets [simp]:
  "cl_secrets (snd (store_create_cm cm k)) = cl_secrets k" "cl_secrets (snd (store_update_cm cm k)) = cl_secrets k"
  "cl_secrets (snd (store_delete_cm cm k)) = cl_secrets k"
  by (simp_all add: store_create_cm_def store_update_cm_def store_delete_cm_def split: prod.split sum.split option.split)

lemma store_create_cm_rev:
  "cl_rev (snd (store_create_cm cm k)) = (if cm_key cm \<in> cm_key ` set (cl_cms k) then cl_rev k else Suc (cl_rev k))"
  by (auto simp: store_create_cm_def create_in_def list_ex_iff is_cm_key image_iff split: if_splits) metis

lemma distinct_map_replace:
  "distinct (map f xs) \<Longrightarrow> f x = c \<Longrightarrow> distinct (map f (map (\<lambda>y. if f y = c then x else y) xs))"
proof -
  assume "distinct (map f xs)" "f x = c"
  then have "f \<circ> (\<lambda>y. if f y = c then x else y) = f" by (auto simp: fun_eq_iff)
  with \<open>distinct (map f xs)\<close> show ?thesis by simp
qed

lemma sound_creates:
  assumes "sound P wd" "backed P wd cm"
  shows "sound P (on_store (\<lambda>k. snd (store_create_cm cm k)) wd)"
  by (rule sound_objects [where f = "\<lambda>k. snd (store_create_cm cm k)", OF assms(1) same_resources_cms(1)])
    (use assms in \<open>auto simp: store_create_cm_cms store_create_cm_rev sound_def sound_versions_def backed_stamped intro: old_version_Suc split: if_splits\<close>)

lemma sound_updates:
  assumes "sound P wd" "backed P wd cm"
  shows "sound P (on_store (\<lambda>k. snd (store_update_cm cm k)) wd)"
proof (rule sound_objects [where f = "\<lambda>k. snd (store_update_cm cm k)", OF assms(1) same_resources_cms(2)], goal_cases)
  case 1
  from assms(1) have d: "distinct (map cm_key (cl_cms (wd_store wd)))" by (simp add: sound_def sound_versions_def)
  then show ?case using store_update_cm_cms [of cm "wd_store wd"]
      distinct_map_replace [OF d, of "stamped (wd_store wd) cm" "cm_key cm"] by (elim disjE conjE) simp_all
next
  case (2 x)
  have rev: "cl_rev (wd_store wd) \<le> cl_rev (snd (store_update_cm cm (wd_store wd)))"
    using same_resources_cms(2) [of "wd_store wd" cm] by (simp add: same_resources_def)
  have old: "old_version (cl_rev (snd (store_update_cm cm (wd_store wd)))) (cm_resource_version c)" "backed P wd c"
    if "c \<in> set (cl_cms (wd_store wd))" for c
    using assms(1) that old_version_mono [OF _ rev] by (auto simp: sound_def sound_versions_def)
  from 2 store_update_cm_cms [of cm "wd_store wd"] assms(2) old show ?case
    by (auto simp: backed_stamped)
next
  case (3 se)
  with assms show ?case by (simp add: sound_def)
qed

lemma set_delete_from: "set (snd (delete_from xs Q n)) \<subseteq> set xs" "distinct (map f xs) \<Longrightarrow> distinct (map f (snd (delete_from xs Q n)))"
  by (auto simp: delete_from_def distinct_map_filter)

lemma sound_deletes: "sound P wd \<Longrightarrow> sound P (on_store (\<lambda>k. snd (store_delete_cm cm k)) wd)"
proof (rule sound_objects [where f = "\<lambda>k. snd (store_delete_cm cm k)", OF _ same_resources_cms(3)], assumption, goal_cases)
  case 1
  then show ?case by (auto simp: store_delete_cm_def sound_def sound_versions_def split_beta intro: set_delete_from(2))
next
  case (2 x)
  then have "x \<in> set (cl_cms (wd_store wd))"
    by (auto simp: store_delete_cm_def split_beta dest: subsetD [OF set_delete_from(1)])
  with 2 show ?case by (simp add: sound_def sound_versions_def store_delete_cm_def split_beta)
qed (simp add: sound_def)

subsection \<open>Every change\<close>

lemma change_sound: "change P keep wd wd' \<Longrightarrow> sound P wd \<Longrightarrow> sound P wd'"
proof (induction rule: change.induct)
  case (puts g cur specs)
  then show ?case by (intro sound_puts) auto
next
  case (adds k g err)
  then show ?case by (simp add: sound_adds)
next
  case (secrets l)
  have "sound P (on_store (\<lambda>k. k\<lparr>cl_secrets := l\<rparr>) wd)"
    by (rule sound_objects [where f = "\<lambda>k. k\<lparr>cl_secrets := l\<rparr>", OF secrets.prems]) (use secrets in \<open>fastforce simp: same_resources_def sound_def sound_versions_def\<close>)+
  then show ?case .
next
  case (others now bs ps)
  have "sound P (on_store (\<lambda>k. k\<lparr>cl_pods := ps, cl_rbs := bs, cl_time := now\<rparr>) wd)"
    by (rule sound_objects [where f = "\<lambda>k. k\<lparr>cl_pods := ps, cl_rbs := bs, cl_time := now\<rparr>", OF others.prems]) (use others in \<open>auto simp: same_resources_def sound_def sound_versions_def\<close>)
  then show ?case .
qed (auto intro: sound_creates sound_updates sound_deletes)

lemma change_pinned: "change P keep wd wd' \<Longrightarrow> keep (request_of base) \<Longrightarrow> sound P wd \<Longrightarrow> pinned base wd \<Longrightarrow> pinned base wd'"
proof (induction rule: change.induct)
  case (puts g cur specs)
  show ?case by (rule pinned_puts [OF puts.prems(3) puts.hyps(1) puts.prems(2)]) (use puts in auto)
next
  case (adds k g err)
  then show ?case by (simp add: pinned_adds)
qed (auto intro!: pinned_same_resources same_resources_cms simp: same_resources_def)

lemma change_mono: "change P keep wd wd' \<Longrightarrow> (\<And>r. keep' r \<Longrightarrow> keep r) \<Longrightarrow> change P keep' wd wd'"
  by (induction rule: change.induct) (blast intro: change.intros)+

end
