(* ===== verification/ClusterEventLaws.thy ===== *)
theory ClusterEventLaws
  imports ClusterInvariant
begin

section \<open>Every event is a change\<close>

text \<open>So the invariant holds after every sequence of events, and a worker can rely on what it read.\<close>

subsection \<open>Writes of resources\<close>

lemma change_put:
  assumes "find_gs (wd_store wd) (request_of g) = Inr cur" "gy_spec g = gy_spec cur"
    "has_finalizer cur \<Longrightarrow> has_finalizer g \<or> \<not> keep (request_of g) \<and> cleared (wd_store wd) (request_of g)"
    "f (wd_store wd) = put_gs g (wd_store wd)"
  shows "change P keep wd (on_store f wd)"
  using puts [where specs = "wd_specs wd" and P = P and keep = keep, OF assms(1) _ assms(3)] assms(2,4) by (simp add: on_store_def)

lemma change_same: "f (wd_store wd) = wd_store wd \<Longrightarrow> change P keep wd (on_store f wd)"
  using idle [of P keep wd] by (simp add: on_store_def)

lemma store_update_gs_cases:
  obtains "snd (store_update_gs g k) = k"
  | cur where "find_gs k (request_of g) = Inr cur" "version_of g = version_of cur"
      "snd (store_update_gs g k) = put_gs (g\<lparr>gy_status := gy_status cur\<rparr>) k"
proof (cases "find_gs k (request_of g)")
  case (Inl e)
  then show ?thesis by (intro that(1)) (simp add: store_update_gs_def find_gs_request)
next
  case (Inr cur)
  show ?thesis
  proof (cases "version_of g = version_of cur")
    case True
    with Inr show ?thesis by (intro that(2) [of cur]) (simp_all add: store_update_gs_def find_gs_request version_of_def)
  next
    case False
    with Inr show ?thesis by (intro that(1)) (simp add: store_update_gs_def find_gs_request version_of_def)
  qed
qed

lemma store_patch_gs_cases:
  obtains "snd (store_patch_gs g b k) = k"
  | cur f where "find_gs k (request_of cur) = Inr cur" "snd (store_patch_gs g b k) = put_gs (map_annotations f cur) k"
proof (cases "find_gs k (request_of g)")
  case (Inr cur)
  with find_gs_Inr [OF Inr] show ?thesis by (intro that(2) [of cur]) (auto simp: store_patch_gs_def find_gs_request)
qed (auto simp: store_patch_gs_def find_gs_request intro: that(1))

lemma store_patch_status_cases:
  obtains "snd (store_patch_status g b k) = k"
  | cur st where "find_gs k (request_of cur) = Inr cur" "snd (store_patch_status g b k) = put_gs (cur\<lparr>gy_status := st\<rparr>) k"
proof (cases "find_gs k (request_of g)")
  case (Inr cur)
  with find_gs_Inr [OF Inr] show ?thesis by (intro that(2) [of cur]) (auto simp: store_patch_status_def find_gs_request Let_def)
qed (auto simp: store_patch_status_def find_gs_request intro: that(1))

lemma has_finalizer_simps [simp]:
  "has_finalizer (g\<lparr>gy_status := st\<rparr>) = has_finalizer g" "has_finalizer (map_annotations f g) = has_finalizer g"
  "has_finalizer (respecified spec g) = has_finalizer g" "has_finalizer (marked_deleted now g) = has_finalizer g"
  "has_finalizer (add_finalizer g)"
  by (simp_all add: has_finalizer_def map_annotations_def respecified_def marked_deleted_def add_finalizer_def map_finalizers_def)

lemma gy_spec_simps [simp]:
  "gy_spec (map_annotations f g) = gy_spec g" "gy_spec (map_finalizers h g) = gy_spec g"
  "gy_spec (respecified spec g) = spec" "gy_spec (marked_deleted now g) = gy_spec g"
  by (simp_all add: map_annotations_def map_finalizers_def respecified_def marked_deleted_def)

lemma version_of_simps [simp]:
  "version_of (map_annotations f g) = version_of g" "version_of (map_finalizers h g) = version_of g"
  by (simp_all add: version_of_def map_annotations_def map_finalizers_def)

lemma finalizer_requests [simp]:
  "request_of (add_finalizer g) = request_of g" "request_of (remove_finalizer g) = request_of g"
  "version_of (add_finalizer g) = version_of g" "version_of (remove_finalizer g) = version_of g"
  "gy_spec (add_finalizer g) = gy_spec g" "gy_spec (remove_finalizer g) = gy_spec g"
  by (simp_all add: add_finalizer_def remove_finalizer_def)

lemma tied_found:
  assumes "tied base k" "find_gs k (request_of base) = Inr cur" "version_of base = version_of cur"
  shows "gy_meta cur = gy_meta base" "gy_spec cur = gy_spec base"
  using assms find_gs_Inr [OF assms(2)] by (auto simp: tied_def list_all_iff split: if_splits)

text \<open>An update with the version of what was read loses nothing of what users did meanwhile.\<close>

lemma change_update:
  assumes "tied base (wd_store wd)" "request_of g = request_of base" "version_of g = version_of base" "gy_spec g = gy_spec base"
    and "has_finalizer base \<Longrightarrow> has_finalizer g \<or> \<not> keep (request_of g) \<and> cleared (wd_store wd) (request_of g)"
  shows "change P keep wd (on_store (\<lambda>k. snd (store_update_gs g k)) wd)"
proof (cases rule: store_update_gs_cases [of g "wd_store wd"])
  case 1
  then show ?thesis by (rule change_same)
next
  case (2 cur)
  with assms have t: "gy_meta cur = gy_meta base" "gy_spec cur = gy_spec base" using tied_found [OF assms(1), of cur] by auto
  then have "has_finalizer cur = has_finalizer base" by (simp add: has_finalizer_def)
  with 2 t assms show ?thesis
    by (intro change_put [where g = "g\<lparr>gy_status := gy_status cur\<rparr>" and cur = cur]) auto
qed

subsection \<open>Writes of objects\<close>

lemma backed_client: "\<not> reserved_cm cm \<Longrightarrow> backed P wd cm"
  by (auto simp: backed_def reserved_cm_def is_metadata_of_def has_prefix_def)

lemma backed_status: "cm_name cm = status_config_map_name n \<Longrightarrow> backed P wd cm"
  by (auto simp: backed_def is_metadata_of_def metadata_prefix_def status_config_map_name_def)

lemma backed_metadata:
  assumes "is_metadata_of (request_of base) cm" "holds (wd_store wd) (request_of base)" "seen base wd" "cm_data cm = metadata_data P base r"
  shows "backed P wd cm"
  unfolding backed_def
proof (intro allI impI)
  fix req assume "is_metadata_of req cm"
  with assms(1) have "req = request_of base" by (rule is_metadata_of_unique [rotated])
  with assms show "holds (wd_store wd) req \<and> (\<exists>gs r. request_of gs = req \<and> seen gs wd \<and> cm_data cm = metadata_data P gs r)" by blast
qed

lemma is_metadata_new [simp]: "is_metadata_of (request_of base) (new_metadata_cm base d)"
  by (simp add: is_metadata_of_def new_metadata_cm_def metadata_name_def metadata_prefix_def request_of_def)

lemma is_metadata_data [simp]: "is_metadata_of req (cm\<lparr>cm_data := d\<rparr>) = is_metadata_of req cm"
  by (simp add: is_metadata_of_def)

lemma new_metadata_cm_data [simp]: "cm_data (new_metadata_cm base d) = d"
  by (simp add: new_metadata_cm_def)

lemma backed_token_of:
  assumes "is_token_of req se" "holds k req"
  shows "backed_token k se"
  unfolding backed_token_def using assms is_token_of_unique by blast

lemma is_token_new [simp]: "is_token_of (request_of base) (new_token_secret base t)"
  by (simp add: is_token_of_def new_token_secret_def github_token_secret_name_def token_prefix_def request_of_def)

lemma is_token_data [simp]: "is_token_of req (se\<lparr>se_data := d\<rparr>) = is_token_of req se"
  by (simp add: is_token_of_def)

lemma backed_token_client: "\<not> reserved_secret se \<Longrightarrow> backed_token k se"
  by (auto simp: backed_token_def reserved_secret_def is_token_of_def has_prefix_def)

text \<open>A Secret in the store after a write was there or was written.\<close>

lemma change_secrets:
  assumes "\<And>k. \<exists>l. f k = k\<lparr>cl_secrets := l\<rparr> \<and> set l \<subseteq> set (cl_secrets k) \<union> S" "\<And>se. se \<in> S \<Longrightarrow> backed_token (wd_store wd) se"
  shows "change P keep wd (on_store f wd)"
proof -
  from assms(1) [of "wd_store wd"] obtain l where l: "f (wd_store wd) = (wd_store wd)\<lparr>cl_secrets := l\<rparr>"
    "set l \<subseteq> set (cl_secrets (wd_store wd)) \<union> S" by blast
  have "change P keep wd (on_store (\<lambda>k. k\<lparr>cl_secrets := l\<rparr>) wd)" by (rule secrets) (use l(2) assms(2) in blast)
  with l(1) show ?thesis by (simp add: on_store_def)
qed

lemma set_create_in: "set (snd (create_in xs Q n x)) \<subseteq> set xs \<union> {x}"
  by (auto simp: create_in_def)

lemma set_update_in: "set (snd (update_in xs Q n x)) \<subseteq> set xs \<union> {x}"
  by (auto simp: update_in_def)

lemma change_create_secret: "backed_token (wd_store wd) se \<Longrightarrow> change P keep wd (on_store (\<lambda>k. snd (store_create_secret se k)) wd)"
  by (rule change_secrets [where S = "{se}"])
    (auto simp: store_create_secret_def split_beta dest: subsetD [OF set_create_in] intro!: exI)

lemma change_update_secret: "backed_token (wd_store wd) se \<Longrightarrow> change P keep wd (on_store (\<lambda>k. snd (store_update_secret se k)) wd)"
  by (rule change_secrets [where S = "{se}"])
    (auto simp: store_update_secret_def split_beta dest: subsetD [OF set_update_in] intro!: exI)

lemma change_delete_secret: "change P keep wd (on_store (\<lambda>k. snd (store_delete_secret se k)) wd)"
  by (rule change_secrets [where S = "{}"])
    (auto simp: store_delete_secret_def split_beta dest: subsetD [OF set_delete_from(1)] intro!: exI)

lemma change_others:
  assumes "f (wd_store wd) = (wd_store wd)\<lparr>cl_pods := ps, cl_rbs := bs, cl_time := now\<rparr>"
  shows "change P keep wd (on_store f wd)"
  using others [where ps = ps and bs = bs and now = now and P = P and keep = keep and wd = wd] assms by (simp add: on_store_def)

lemma change_bindings:
  "change P keep wd (on_store (\<lambda>k. snd (store_create_rb rb k)) wd)" "change P keep wd (on_store (\<lambda>k. snd (store_update_rb rb k)) wd)"
  "change P keep wd (on_store (\<lambda>k. snd (store_delete_rb rb k)) wd)"
  by (rule change_others [where ps = "cl_pods (wd_store wd)" and now = "cl_time (wd_store wd)"],
      simp add: store_create_rb_def store_update_rb_def store_delete_rb_def split_beta)+

subsection \<open>The events\<close>

text \<open>The event that lets a resource go.\<close>

definition lets_go :: "cluster_event \<Rightarrow> namespaced_name \<Rightarrow> bool" where
  "lets_go e req = (case e of Worker base w \<Rightarrow> w = DropFinalizer \<and> request_of base = req | _ \<Rightarrow> False)"

lemma change_worker:
  assumes "may_write base w wd"
  shows "change P (\<lambda>r. \<not> lets_go (Worker base w) r) wd (on_store (perform P base w) wd)"
proof (cases w)
  case AddFinalizer
  with assms show ?thesis
    by (simp add: may_write_def perform_def [abs_def] Let_def change_update [where base = base])
next
  case DropFinalizer
  with assms show ?thesis
    by (simp add: may_write_def perform_def [abs_def] Let_def change_update [where base = base] lets_go_def)
next
  case (WriteStatus gs)
  have "change P keep wd (on_store (\<lambda>k. snd (store_patch_status gs base k)) wd)" for keep
  proof (cases rule: store_patch_status_cases [of gs base "wd_store wd"])
    case 1
    then show ?thesis by (rule change_same)
  next
    case (2 cur st)
    then show ?thesis by (intro change_put [where g = "cur\<lparr>gy_status := st\<rparr>" and cur = cur]) auto
  qed
  with WriteStatus show ?thesis by (simp add: perform_def [abs_def])
next
  case (ClearAnnotation gs)
  have "change P keep wd (on_store (\<lambda>k. snd (store_patch_gs (cleared_request gs) gs k)) wd)" for keep
  proof (cases rule: store_patch_gs_cases [of "cleared_request gs" gs "wd_store wd"])
    case 1
    then show ?thesis by (rule change_same)
  next
    case (2 cur f)
    then show ?thesis by (intro change_put [where g = "map_annotations f cur" and cur = cur]) auto
  qed
  with ClearAnnotation show ?thesis by (simp add: perform_def [abs_def])
next
  case (NewMetadata r)
  with assms show ?thesis
    by (auto simp: may_write_def perform_def [abs_def] Let_def intro!: creates backed_metadata)
next
  case (SetMetadata cm r)
  with assms show ?thesis
    by (auto simp: may_write_def perform_def [abs_def] Let_def intro!: updates backed_metadata [where base = base])
next
  case (NewToken t)
  with assms show ?thesis
    by (auto simp: may_write_def perform_def [abs_def] Let_def intro!: change_create_secret backed_token_of)
next
  case (SetToken se d)
  with assms show ?thesis
    by (auto simp: may_write_def perform_def [abs_def] Let_def intro!: change_update_secret backed_token_of [where req = "request_of base"])
qed (simp_all add: perform_def [abs_def] deletes change_delete_secret change_bindings)

lemma change_report: "change P keep wd (on_store (report ns cr gw json) wd)"
proof (cases "lookup_in (cl_cms (wd_store wd)) (is_cm ns (status_config_map_name cr)) (status_config_map_name cr)")
  case (Inl e)
  have "backed P wd (new_status_cm ns cr gw json)" by (rule backed_status) (simp add: new_status_cm_def)
  from creates [OF this, of keep] Inl show ?thesis by (simp add: report_def on_store_def)
next
  case (Inr cm)
  then have "cm_name (cm\<lparr>cm_data := d\<rparr>) = status_config_map_name cr" for d by (auto dest!: lookup_in_Inr simp: is_cm_def)
  then have "backed P wd (cm\<lparr>cm_data := d\<rparr>)" for d by (rule backed_status)
  from updates [OF this, of keep] Inr show ?thesis by (simp add: report_def on_store_def)
qed

lemma act_change: "change P (\<lambda>r. \<not> lets_go e r) wd (act P e wd)"
proof (cases e)
  case (UserCreates gs)
  then show ?thesis by (auto simp: Let_def intro: idle adds split: sum.split)
next
  case (UserEdits req spec)
  have "change P (\<lambda>r. \<not> lets_go e r) wd (wd\<lparr>wd_store := put_gs (respecified spec g) (wd_store wd), wd_specs := (req, spec) # wd_specs wd\<rparr>)"
    if "find_gs (wd_store wd) req = Inr g" for g
    by (rule puts [where cur = g]) (use that find_gs_Inr [OF that] in auto)
  with UserEdits show ?thesis by (auto intro: idle split: sum.split)
next
  case (UserDeletes req)
  have "change P (\<lambda>r. \<not> lets_go e r) wd (on_store (\<lambda>k. put_gs (marked_deleted (cl_time k) g) k) wd)"
    if "find_gs (wd_store wd) req = Inr g" for g
    by (rule change_put [where cur = g and g = "marked_deleted (cl_time (wd_store wd)) g"]) (use that find_gs_Inr [OF that] in auto)
  with UserDeletes show ?thesis by (auto intro: idle split: sum.split)
next
  case (Annotates base m)
  then show ?thesis by (auto intro: idle change_update)
next
  case (ClientPutsSecret se)
  then show ?thesis by (auto intro!: idle change_secrets [where S = "{se}"] backed_token_client exI)
next
  case (Worker base w)
  then show ?thesis by (auto intro: idle change_worker)
qed (auto intro: idle creates updates deletes change_report backed_client change_delete_secret
    change_others [where ps = ps for ps] change_others [where bs = "cl_rbs (wd_store wd)" and now = "cl_time (wd_store wd)"]
    change_others [where ps = "cl_pods (wd_store wd)" and now = "cl_time (wd_store wd)"]
    change_others [where ps = "cl_pods (wd_store wd)" and bs = "cl_rbs (wd_store wd)"])

lemma act_sound: "sound P wd \<Longrightarrow> sound P (act P e wd)"
  by (rule change_sound [OF act_change])

lemma act_pinned: "sound P wd \<Longrightarrow> pinned base wd \<Longrightarrow> \<not> lets_go e (request_of base) \<Longrightarrow> pinned base (act P e wd)"
  by (rule change_pinned [OF act_change]) simp_all

lemma run_events_sound: "sound P wd \<Longrightarrow> sound P (run_events P es wd)"
  by (induction es arbitrary: wd) (simp_all add: act_sound)

lemma run_events_pinned:
  "sound P wd \<Longrightarrow> pinned base wd \<Longrightarrow> \<not> list_ex (\<lambda>e. lets_go e (request_of base)) es \<Longrightarrow> pinned base (run_events P es wd)"
  by (induction es arbitrary: wd) (simp_all add: act_sound act_pinned)

end
