(* ===== verification/Interference.thy ===== *)
theory Interference
  imports ClusterEventLaws
begin

section \<open>A program whose calls are interleaved with the events of others\<close>

text \<open>
  \<open>amid mine f\<close> is the call \<open>f\<close> on the shared cluster, before which the next list of scheduled events
  happens. The schedule is any list of lists of events; those that are \<open>mine\<close>, which only the program
  itself could cause, are left out of it.
\<close>

record 'w system =
  sy_world :: world
  sy_sched :: "cluster_event list list"
  sy_remote :: 'w

definition meanwhile :: "'w ctrl_api \<Rightarrow> (cluster_event \<Rightarrow> bool) \<Rightarrow> 'w system \<Rightarrow> 'w system" where
  "meanwhile P mine sy = (case sy_sched sy of
      [] \<Rightarrow> sy
    | es # rest \<Rightarrow> sy\<lparr>sy_world := run_events P (filter (\<lambda>e. \<not> mine e) es) (sy_world sy), sy_sched := rest\<rparr>)"

definition amid :: "'w ctrl_api \<Rightarrow> (cluster_event \<Rightarrow> bool) \<Rightarrow> (cluster \<Rightarrow> 'a \<times> cluster) \<Rightarrow> 'w system \<Rightarrow> 'a \<times> 'w system" where
  "amid P mine f sy = (let sy' = meanwhile P mine sy; (r, k) = f (wd_store (sy_world sy')) in (r, sy'\<lparr>sy_world := (sy_world sy')\<lparr>wd_store := k\<rparr>\<rparr>))"

text \<open>A call to the git remote does not touch the cluster.\<close>

definition amid_remote :: "'w ctrl_api \<Rightarrow> (cluster_event \<Rightarrow> bool) \<Rightarrow> ('w \<Rightarrow> 'a \<times> 'w) \<Rightarrow> 'w system \<Rightarrow> 'a \<times> 'w system" where
  "amid_remote P mine f sy = (let sy' = meanwhile P mine sy; (r, w) = f (sy_remote sy') in (r, sy'\<lparr>sy_remote := w\<rparr>))"

definition amid_git :: "'w ctrl_api \<Rightarrow> (cluster_event \<Rightarrow> bool) \<Rightarrow> 'w system git_api" where
  "amid_git P mine = (let G = ka_git P in \<lparr>
     gi_now = amid_remote P mine (gi_now G), gi_parse_endpoint = gi_parse_endpoint G, gi_new_transport = gi_new_transport G,
     gi_open_session = (\<lambda>u a. amid_remote P mine (gi_open_session G u a)),
     gi_advertised = (\<lambda>u a. amid_remote P mine (gi_advertised G u a)),
     gi_parse_ssh_key = gi_parse_ssh_key G, gi_new_known_hosts = (\<lambda>d. amid_remote P mine (gi_new_known_hosts G d)),
     gi_pem_decode = gi_pem_decode G, gi_parse_pkcs1 = gi_parse_pkcs1 G, gi_parse_pkcs8 = gi_parse_pkcs8 G,
     gi_sign_jwt = gi_sign_jwt G, gi_new_request = gi_new_request G,
     gi_http_do = (\<lambda>r. amid_remote P mine (gi_http_do G r)), gi_decode_token = gi_decode_token G,
     gi_plain_clone = (\<lambda>p u a d. amid_remote P mine (gi_plain_clone G p u a d)), gi_plain_open = (\<lambda>p. amid_remote P mine (gi_plain_open G p)),
     gi_remote_urls = (\<lambda>p r. amid_remote P mine (gi_remote_urls G p r)), gi_delete_remote = (\<lambda>p r. amid_remote P mine (gi_delete_remote G p r)),
     gi_create_remote = (\<lambda>p r us. amid_remote P mine (gi_create_remote G p r us)), gi_fetch = (\<lambda>p a. amid_remote P mine (gi_fetch G p a)),
     gi_already_up_to_date = gi_already_up_to_date G, gi_worktree = (\<lambda>p. amid_remote P mine (gi_worktree G p)),
     gi_tag = (\<lambda>p t. amid_remote P mine (gi_tag G p t)), gi_resolve_revision = (\<lambda>p r. amid_remote P mine (gi_resolve_revision G p r)),
     gi_checkout = (\<lambda>p h. amid_remote P mine (gi_checkout G p h)), gi_stat = (\<lambda>p. amid_remote P mine (gi_stat G p))\<rparr>)"

text \<open>
  The controller's API on the shared cluster, for a worker that reconciles \<open>req\<close>: the work queue gives a
  resource to one worker at a time, so no other worker writes for \<open>req\<close> meanwhile. What is outside the
  cluster (the remote, formats, the JSON encoder) is that of \<open>P\<close>; the clock moves by events only.
\<close>

definition of_worker :: "namespaced_name \<Rightarrow> cluster_event \<Rightarrow> bool" where
  "of_worker req e = (case e of Worker base w \<Rightarrow> request_of base = req | _ \<Rightarrow> False)"

definition shared_api :: "'w ctrl_api \<Rightarrow> namespaced_name \<Rightarrow> 'w system ctrl_api" where
  "shared_api P req = (let mine = of_worker req in \<lparr>
     ka_get_gs = (\<lambda>r. amid P mine (\<lambda>k. (find_gs k r, k))),
     ka_update_gs = (\<lambda>g. amid P mine (store_update_gs g)),
     ka_patch_gs = (\<lambda>g b. amid P mine (store_patch_gs g b)),
     ka_patch_status = (\<lambda>g b. amid P mine (store_patch_status g b)),
     ka_set_owner = ka_set_owner P,
     ka_get_cm = (\<lambda>ns n. amid P mine (\<lambda>k. (lookup_in (cl_cms k) (is_cm ns n) n, k))),
     ka_create_cm = (\<lambda>cm. amid P mine (store_create_cm cm)),
     ka_update_cm = (\<lambda>cm. amid P mine (store_update_cm cm)),
     ka_delete_cm = (\<lambda>cm. amid P mine (store_delete_cm cm)),
     ka_get_secret = (\<lambda>ns n. amid P mine (\<lambda>k. (lookup_in (cl_secrets k) (is_secret ns n) n, k))),
     ka_create_secret = (\<lambda>se. amid P mine (store_create_secret se)),
     ka_update_secret = (\<lambda>se. amid P mine (store_update_secret se)),
     ka_delete_secret = (\<lambda>se. amid P mine (store_delete_secret se)),
     ka_list_pods = (\<lambda>ns. amid P mine (\<lambda>k. (Inr (filter (\<lambda>p. om_namespace (pd_meta p) = ns) (cl_pods k)), k))),
     ka_get_rb = (\<lambda>ns n. amid P mine (\<lambda>k. (lookup_in (cl_rbs k) (is_rb ns n) n, k))),
     ka_create_rb = (\<lambda>rb. amid P mine (store_create_rb rb)),
     ka_update_rb = (\<lambda>rb. amid P mine (store_update_rb rb)),
     ka_delete_rb = (\<lambda>rb. amid P mine (store_delete_rb rb)),
     ka_git = amid_git P mine,
     ka_now = amid P mine (\<lambda>k. (cl_time k, k)),
     ka_parse_duration = ka_parse_duration P, ka_format_duration = ka_format_duration P, ka_parse_time = ka_parse_time P,
     ka_encode_profiles = ka_encode_profiles P, ka_decode_status = ka_decode_status P, ka_auto_bind_rbac = ka_auto_bind_rbac P\<rparr>)"

text \<open>The agent's API on the shared cluster.\<close>

definition shared_cm_api :: "'w ctrl_api \<Rightarrow> 'w system cm_api" where
  "shared_cm_api P = \<lparr>
     k_get_cm = (\<lambda>ns n. amid P (\<lambda>_. False) (\<lambda>k. (lookup_in (cl_cms k) (is_cm ns n) n, k))),
     k_create_cm = (\<lambda>cm. amid P (\<lambda>_. False) (store_create_cm cm)),
     k_update_cm = (\<lambda>cm. amid P (\<lambda>_. False) (store_update_cm cm))\<rparr>"

subsection \<open>Runs as sequences of events\<close>

text \<open>
  What a run did to the cluster, as a sequence of events marked with whose they are: the others' are
  the scheduled ones, in their order, and its own satisfy \<open>ok\<close>.
\<close>

type_synonym trace = "(bool \<times> cluster_event) list"   \<comment> \<open>whether it is the program's own\<close>

definition own :: "trace \<Rightarrow> cluster_event list" where
  "own tr = map snd (filter fst tr)"

definition foreign :: "trace \<Rightarrow> cluster_event list" where
  "foreign tr = map snd (filter (\<lambda>x. \<not> fst x) tr)"

definition traced :: "'w ctrl_api \<Rightarrow> (cluster_event \<Rightarrow> bool) \<Rightarrow> trace \<Rightarrow> 'w system \<Rightarrow> 'w system \<Rightarrow> bool" where
  "traced P mine tr sy sy' \<longleftrightarrow> sy_world sy' = run_events P (map snd tr) (sy_world sy) \<and>
     (\<exists>used. sy_sched sy = used @ sy_sched sy' \<and> foreign tr = filter (\<lambda>e. \<not> mine e) (concat used))"

lemma trace_simps [simp]:
  "own [] = []" "foreign [] = []" "own (s @ t) = own s @ own t" "foreign (s @ t) = foreign s @ foreign t"
  "own ((b, e) # t) = (if b then e # own t else own t)" "foreign ((b, e) # t) = (if b then foreign t else e # foreign t)"
  by (simp_all add: own_def foreign_def)

lemma map_snd_others [simp]: "map snd (map (Pair b) es) = es" "own (map (Pair False) es) = []" "foreign (map (Pair False) es) = es"
  by (induction es) simp_all

lemma snd_Pair [simp]: "snd \<circ> Pair b = id"
  by (rule ext) simp

lemma traced_refl: "traced P mine [] sy sy"
  by (simp add: traced_def)

lemma traced_trans: "traced P mine s a b \<Longrightarrow> traced P mine t b c \<Longrightarrow> traced P mine (s @ t) a c"
  unfolding traced_def
proof (elim conjE exE, intro conjI, goal_cases)
  case (2 u v)
  then show ?case by (intro exI [of _ "u @ v"]) simp
qed simp

lemma meanwhile_traced: "\<exists>es. traced P mine (map (Pair False) (filter (\<lambda>e. \<not> mine e) es)) sy (meanwhile P mine sy)"
proof (cases "sy_sched sy")
  case Nil
  then have "traced P mine (map (Pair False) (filter (\<lambda>e. \<not> mine e) [])) sy (meanwhile P mine sy)"
    by (simp add: meanwhile_def traced_def)
  then show ?thesis by blast
next
  case (Cons es rest)
  then have "traced P mine (map (Pair False) (filter (\<lambda>e. \<not> mine e) es)) sy (meanwhile P mine sy)"
    by (auto simp: meanwhile_def traced_def intro!: exI [of _ "[es]"])
  then show ?thesis by blast
qed

end
