(* ===== verification/SharedReconcile.thy ===== *)
theory SharedReconcile
  imports Interference ControllerProps
begin

section \<open>A reconcile on the shared cluster\<close>

text \<open>
  Every write of a reconcile, whatever others do between its calls, is one of the worker's events, made
  under its guard. \<open>worker_frame\<close> is the relation its steps keep; the laws of \<open>reconcile_steps\<close> are
  proved for it call by call.
\<close>

subsection \<open>Calls\<close>

lemma amid_fst: "fst (amid P mine f sy) = fst (f (wd_store (sy_world (meanwhile P mine sy))))"
  by (simp add: amid_def Let_def split_beta)

lemma amid_read: "(\<And>k. snd (f k) = k) \<Longrightarrow> snd (amid P mine f sy) = meanwhile P mine sy"
  by (simp add: amid_def Let_def split_beta)

lemma amid_world: "sy_world (snd (amid P mine f sy)) = on_store (\<lambda>k. snd (f k)) (sy_world (meanwhile P mine sy))"
  by (simp add: amid_def Let_def split_beta on_store_def)

lemma amid_sched: "sy_sched (snd (amid P mine f sy)) = sy_sched (meanwhile P mine sy)"
  by (simp add: amid_def Let_def split_beta)

lemma not_mine_keeps: "\<not> of_worker req e \<Longrightarrow> \<not> lets_go e req"
  by (auto simp: of_worker_def lets_go_def split: cluster_event.splits)

lemma meanwhile_world:
  obtains es where "sy_world (meanwhile P mine sy) = run_events P (filter (\<lambda>e. \<not> mine e) es) (sy_world sy)"
  using meanwhile_traced [of P mine sy] by (auto simp: traced_def)

lemma meanwhile_sound: "sound P (sy_world sy) \<Longrightarrow> sound P (sy_world (meanwhile P mine sy))"
  by (cases rule: meanwhile_world [of P mine sy]) (simp add: run_events_sound)

lemma meanwhile_pinned:
  "sound P (sy_world sy) \<Longrightarrow> pinned base (sy_world sy) \<Longrightarrow> pinned base (sy_world (meanwhile P (of_worker (request_of base)) sy))"
  by (cases rule: meanwhile_world [of P "of_worker (request_of base)" sy])
    (auto intro!: run_events_pinned simp: list_ex_iff dest: not_mine_keeps)

text \<open>A write is the event it performs.\<close>

lemma amid_event:
  assumes "\<And>k. snd (f k) = perform P base w k" "may_write base w (sy_world (meanwhile P mine sy))"
  shows "sy_world (snd (amid P mine f sy)) = act P (Worker base w) (sy_world (meanwhile P mine sy))"
    "\<exists>es. traced P mine (map (Pair False) es @ [(True, Worker base w)]) sy (snd (amid P mine f sy))"
proof -
  show w: "sy_world (snd (amid P mine f sy)) = act P (Worker base w) (sy_world (meanwhile P mine sy))"
    using assms by (simp add: amid_world)
  obtain es where tr: "traced P mine (map (Pair False) es) sy (meanwhile P mine sy)" using meanwhile_traced by blast
  have "traced P mine (map (Pair False) es @ [(True, Worker base w)]) sy (snd (amid P mine f sy))"
    using tr by (simp add: traced_def w amid_sched)
  then show "\<exists>es. traced P mine (map (Pair False) es @ [(True, Worker base w)]) sy (snd (amid P mine f sy))" by blast
qed

subsection \<open>The relation\<close>

definition worker_event :: "gateway_sync \<Rightarrow> cluster_event \<Rightarrow> bool" where
  "worker_event base e = (case e of Worker b w \<Rightarrow> b = base | _ \<Rightarrow> False)"

definition relies :: "'w ctrl_api \<Rightarrow> gateway_sync \<Rightarrow> world \<Rightarrow> bool" where
  "relies P base wd \<longleftrightarrow> has_finalizer base \<and> sound P wd \<and> pinned base wd"

definition worker_trace :: "'w ctrl_api \<Rightarrow> gateway_sync \<Rightarrow> 'w system \<Rightarrow> 'w system \<Rightarrow> bool" where
  "worker_trace P base sy sy' \<longleftrightarrow>
     (\<exists>tr. traced P (of_worker (request_of base)) tr sy sy' \<and> list_all (worker_event base) (own tr))"

definition worker_frame :: "'w ctrl_api \<Rightarrow> gateway_sync \<Rightarrow> 'w system ctrl_state \<Rightarrow> 'w system ctrl_state \<Rightarrow> bool" where
  "worker_frame P base s t \<longleftrightarrow> (relies P base (sy_world (io_env s)) \<longrightarrow>
     relies P base (sy_world (io_env t)) \<and> worker_trace P base (io_env s) (io_env t))"

lemma worker_trace_refl: "worker_trace P base sy sy"
  unfolding worker_trace_def using traced_refl by fastforce

lemma worker_trace_trans: "worker_trace P base a b \<Longrightarrow> worker_trace P base b c \<Longrightarrow> worker_trace P base a c"
  unfolding worker_trace_def by (elim exE conjE) (rule exI, rule conjI, erule (1) traced_trans, simp)

interpretation guarded: step_order "worker_frame P base" for P base
  by unfold_locales (auto simp: worker_frame_def worker_trace_refl intro: worker_trace_trans)

lemma guarded_local: "(\<And>s. io_env (snd (run_state m s)) = io_env s) \<Longrightarrow> guarded.keeps P base m"
proof (rule guarded.keepsI)
  fix s r t assume "\<And>s. io_env (snd (run_state m s)) = io_env s" "run_state m s = (r, t)"
  from this(1) [of s] this(2) show "worker_frame P base s t" by (simp add: worker_frame_def worker_trace_refl)
qed

lemma guarded_call:
  assumes "\<And>sy. relies P base (sy_world sy) \<Longrightarrow> relies P base (sy_world (snd (f sy))) \<and> worker_trace P base sy (snd (f sy))"
  shows "guarded.keeps P base (call f)"
  by (rule guarded.keepsI) (use assms in \<open>auto simp: worker_frame_def\<close>)

lemma meanwhile_relies:
  "relies P base (sy_world sy) \<Longrightarrow> relies P base (sy_world (meanwhile P (of_worker (request_of base)) sy)) \<and>
     worker_trace P base sy (meanwhile P (of_worker (request_of base)) sy)"
proof
  show "worker_trace P base sy (meanwhile P (of_worker (request_of base)) sy)"
    using meanwhile_traced [of P "of_worker (request_of base)" sy] unfolding worker_trace_def
    by (elim exE) (rule exI, erule conjI, simp)
qed (auto simp: relies_def meanwhile_sound meanwhile_pinned)

lemma guarded_read:
  "(\<And>k. snd (f k) = k) \<Longrightarrow> guarded.keeps P base (call (amid P (of_worker (request_of base)) f))"
  by (rule guarded_call) (simp add: amid_read meanwhile_relies)

lemma guarded_remote:
  fixes P :: "'w ctrl_api"
  shows "guarded.keeps P base (call (amid_remote P (of_worker (request_of base)) f))"
proof (rule guarded_call)
  fix sy :: "'w system" assume "relies P base (sy_world sy)"
  from meanwhile_relies [OF this] show "relies P base (sy_world (snd (amid_remote P (of_worker (request_of base)) f sy))) \<and>
      worker_trace P base sy (snd (amid_remote P (of_worker (request_of base)) f sy))"
    by (auto simp: amid_remote_def Let_def split_beta worker_trace_def traced_def)
qed

lemma guarded_write:
  fixes P :: "'w ctrl_api"
  assumes "\<And>k. snd (f k) = perform P base w k" "w \<noteq> DropFinalizer" "\<And>wd. relies P base wd \<Longrightarrow> may_write base w wd"
  shows "guarded.keeps P base (call (amid P (of_worker (request_of base)) f))"
proof (rule guarded_call)
  fix sy :: "'w system" assume r: "relies P base (sy_world sy)"
  let ?mine = "of_worker (request_of base)"
  from meanwhile_relies [OF r] have mid: "relies P base (sy_world (meanwhile P ?mine sy))" by blast
  note ev = amid_event [where f = f and P = P and base = base and w = w and mine = ?mine and sy = sy, OF assms(1) assms(3) [OF mid]]
  have "\<not> lets_go (Worker base w) (request_of base)" using assms(2) by (simp add: lets_go_def)
  then have "relies P base (sy_world (snd (amid P ?mine f sy)))"
    using mid act_sound act_pinned unfolding ev(1) relies_def by blast
  moreover have "worker_trace P base sy (snd (amid P ?mine f sy))"
    using ev(2) unfolding worker_trace_def by (elim exE) (rule exI, erule conjI, simp add: worker_event_def)
  ultimately show "relies P base (sy_world (snd (amid P (of_worker (request_of base)) f sy))) \<and>
      worker_trace P base sy (snd (amid P (of_worker (request_of base)) f sy))" by blast
qed

lemma metadata_data_shared: "metadata_data (shared_api P req) gs r = metadata_data P gs r"
  by (simp add: metadata_data_def shared_api_def Let_def)

lemma shared_fields:
  "ka_get_gs (shared_api P req) = (\<lambda>r. amid P (of_worker req) (\<lambda>k. (find_gs k r, k)))"
  "ka_get_cm (shared_api P req) = (\<lambda>ns n. amid P (of_worker req) (\<lambda>k. (lookup_in (cl_cms k) (is_cm ns n) n, k)))"
  "ka_get_secret (shared_api P req) = (\<lambda>ns n. amid P (of_worker req) (\<lambda>k. (lookup_in (cl_secrets k) (is_secret ns n) n, k)))"
  "ka_get_rb (shared_api P req) = (\<lambda>ns n. amid P (of_worker req) (\<lambda>k. (lookup_in (cl_rbs k) (is_rb ns n) n, k)))"
  "ka_list_pods (shared_api P req) = (\<lambda>ns. amid P (of_worker req) (\<lambda>k. (Inr (filter (\<lambda>p. om_namespace (pd_meta p) = ns) (cl_pods k)), k)))"
  "ka_now (shared_api P req) = (amid P (of_worker req) (\<lambda>k. (cl_time k, k)))"
  "ka_update_gs (shared_api P req) = (\<lambda>x. amid P (of_worker req) (store_update_gs x))"
  "ka_create_cm (shared_api P req) = (\<lambda>x. amid P (of_worker req) (store_create_cm x))"
  "ka_update_cm (shared_api P req) = (\<lambda>x. amid P (of_worker req) (store_update_cm x))"
  "ka_delete_cm (shared_api P req) = (\<lambda>x. amid P (of_worker req) (store_delete_cm x))"
  "ka_create_secret (shared_api P req) = (\<lambda>x. amid P (of_worker req) (store_create_secret x))"
  "ka_update_secret (shared_api P req) = (\<lambda>x. amid P (of_worker req) (store_update_secret x))"
  "ka_delete_secret (shared_api P req) = (\<lambda>x. amid P (of_worker req) (store_delete_secret x))"
  "ka_create_rb (shared_api P req) = (\<lambda>x. amid P (of_worker req) (store_create_rb x))"
  "ka_update_rb (shared_api P req) = (\<lambda>x. amid P (of_worker req) (store_update_rb x))"
  "ka_delete_rb (shared_api P req) = (\<lambda>x. amid P (of_worker req) (store_delete_rb x))"
  "ka_patch_gs (shared_api P req) = (\<lambda>g b. amid P (of_worker req) (store_patch_gs g b))"
  "ka_patch_status (shared_api P req) = (\<lambda>g b. amid P (of_worker req) (store_patch_status g b))"
  "ka_git (shared_api P req) = (amid_git P (of_worker req))"
  unfolding shared_api_def Let_def by (rule ctrl_api.select_convs)+

lemma git_fields:
  "gi_now (amid_git P mine) = (amid_remote P mine (gi_now (ka_git P)))"
  "gi_open_session (amid_git P mine) = (\<lambda>u a. amid_remote P mine (gi_open_session (ka_git P) u a))"
  "gi_advertised (amid_git P mine) = (\<lambda>u a. amid_remote P mine (gi_advertised (ka_git P) u a))"
  "gi_new_known_hosts (amid_git P mine) = (\<lambda>d. amid_remote P mine (gi_new_known_hosts (ka_git P) d))"
  "gi_http_do (amid_git P mine) = (\<lambda>r. amid_remote P mine (gi_http_do (ka_git P) r))"
  unfolding amid_git_def Let_def by (rule git_api.select_convs)+

lemmas shared_calls = shared_fields git_fields

interpretation guarded: reconcile_steps "worker_frame P base" "shared_api P (request_of base)" "request_of base" base for P base
proof (unfold_locales, goal_cases)
  case (12 e)
  show ?case by (rule guarded_local) simp
next
  case 13
  show ?case by (rule guarded_local) (simp add: reset_failures_def)
next
  case (14 now)
  show ?case by (rule guarded_local) simp
next
  case (15 a v)
  show ?case by (rule guarded_local) (simp add: store_github_token_def)
next
  case (16 gs b)
  then have "request_of gs = request_of base" by (simp add: request_of_def same_resource_eqs)
  then show ?case unfolding shared_fields
    by (intro guarded_write [where w = "WriteStatus gs"])
      (auto simp: perform_def store_patch_status_def may_write_def Let_def)
next
  case (17 k fresh)
  then have "request_of fresh = request_of base" by (auto simp: shared_fields amid_fst dest: find_gs_Inr)
  then show ?case unfolding shared_fields
    by (intro guarded_write [where w = "ClearAnnotation fresh"]) (auto simp: perform_def may_write_def Let_def)
next
  case (18 r)
  show ?case unfolding shared_fields metadata_data_shared
    by (rule guarded_write [where w = "NewMetadata r"]) (auto simp: perform_def may_write_def Let_def relies_def pinned_def)
next
  case (19 k cm r)
  then have "is_metadata_of (request_of base) cm"
    by (auto simp: shared_fields amid_fst is_cm_def is_metadata_of_def metadata_name_def metadata_prefix_def request_of_def dest!: lookup_in_Inr)
  then show ?case unfolding shared_fields metadata_data_shared
    by (intro guarded_write [where w = "SetMetadata cm r"]) (auto simp: perform_def may_write_def Let_def relies_def pinned_def)
next
  case (20 n k cm)
  show ?case unfolding shared_fields
    by (rule guarded_write [where w = "DropConfigMap cm"]) (auto simp: perform_def may_write_def Let_def)
next
  case (21 t)
  show ?case unfolding shared_fields
    by (rule guarded_write [where w = "NewToken t"]) (auto simp: perform_def may_write_def Let_def relies_def pinned_def)
next
  case (22 k se d)
  then have "is_token_of (request_of base) se"
    by (auto simp: shared_fields amid_fst is_secret_def is_token_of_def github_token_secret_name_def token_prefix_def request_of_def
        dest!: lookup_in_Inr)
  then show ?case unfolding shared_fields
    by (intro guarded_write [where w = "SetToken se d"]) (auto simp: perform_def may_write_def Let_def relies_def pinned_def)
next
  case (23 k se)
  show ?case unfolding shared_fields
    by (rule guarded_write [where w = "DropToken se"]) (auto simp: perform_def may_write_def Let_def)
next
  case (24 sbs)
  show ?case unfolding shared_fields
    by (rule guarded_write [where w = "NewBinding sbs"]) (auto simp: perform_def may_write_def Let_def)
next
  case (25 k rb sbs)
  show ?case unfolding shared_fields
    by (rule guarded_write [where w = "SetBinding rb sbs"]) (auto simp: perform_def may_write_def Let_def)
next
  case (26 k rb)
  show ?case unfolding shared_fields
    by (rule guarded_write [where w = "DropBinding rb"]) (auto simp: perform_def may_write_def Let_def)
qed (simp_all add: shared_calls guarded_read guarded_remote)

end
