(* ===== verification/SharedCleanup.thy ===== *)
theory SharedCleanup
  imports SharedReconcile
begin

section \<open>Deletion on the shared cluster\<close>

text \<open>
  The laws of \<open>cluster_laws\<close> on the shared cluster, for the metadata ConfigMap and the token Secret
  of one resource: nobody but its worker creates them. So the cleanup leaves neither, and none comes back
  before the finalizer is dropped.
\<close>

subsection \<open>Nobody else writes these objects\<close>

lemma set_store_cms:
  "x \<in> set (cl_cms (snd (store_create_cm cm k))) \<Longrightarrow> x \<in> set (cl_cms k) \<or> x = stamped k cm"
  "x \<in> set (cl_cms (snd (store_update_cm cm k))) \<Longrightarrow> x \<in> set (cl_cms k) \<or> x = stamped k cm"
  "x \<in> set (cl_cms (snd (store_delete_cm cm k))) \<Longrightarrow> x \<in> set (cl_cms k)"
  using store_update_cm_cms [of cm k]
  by (auto simp: store_create_cm_cms store_delete_cm_def split_beta dest: subsetD [OF set_delete_from(1)] split: if_splits)

lemma set_store_secrets:
  "x \<in> set (cl_secrets (snd (store_create_secret se k))) \<Longrightarrow> x \<in> set (cl_secrets k) \<or> x = se"
  "x \<in> set (cl_secrets (snd (store_update_secret se k))) \<Longrightarrow> x \<in> set (cl_secrets k) \<or> x = se"
  "x \<in> set (cl_secrets (snd (store_delete_secret se k))) \<Longrightarrow> x \<in> set (cl_secrets k)"
  by (auto simp: store_create_secret_def store_update_secret_def store_delete_secret_def split_beta
      dest: subsetD [OF set_create_in] subsetD [OF set_update_in] subsetD [OF set_delete_from(1)])

lemma resource_writes_keep [simp]:
  "cl_cms (snd (store_patch_gs g b k)) = cl_cms k" "cl_secrets (snd (store_patch_gs g b k)) = cl_secrets k"
  "cl_cms (snd (store_patch_status g b k)) = cl_cms k" "cl_secrets (snd (store_patch_status g b k)) = cl_secrets k"
  "cl_cms (snd (store_create_rb rb k)) = cl_cms k" "cl_secrets (snd (store_create_rb rb k)) = cl_secrets k"
  "cl_cms (snd (store_update_rb rb k)) = cl_cms k" "cl_secrets (snd (store_update_rb rb k)) = cl_secrets k"
  "cl_cms (snd (store_delete_rb rb k)) = cl_cms k" "cl_secrets (snd (store_delete_rb rb k)) = cl_secrets k"
  "cl_cms (snd (store_create_secret se k)) = cl_cms k" "cl_cms (snd (store_update_secret se k)) = cl_cms k"
  "cl_cms (snd (store_delete_secret se k)) = cl_cms k"
  by (simp_all add: store_patch_gs_def store_patch_status_def store_object_defs Let_def split: sum.split prod.split)

lemma is_metadata_of_stamped [simp]: "is_metadata_of req (stamped k cm) = is_metadata_of req cm"
  by (simp add: is_metadata_of_def)

definition has_metadata :: "namespaced_name \<Rightarrow> cluster \<Rightarrow> bool" where
  "has_metadata req k \<longleftrightarrow> list_ex (is_metadata_of req) (cl_cms k)"

definition has_token :: "namespaced_name \<Rightarrow> cluster \<Rightarrow> bool" where
  "has_token req k \<longleftrightarrow> list_ex (is_token_of req) (cl_secrets k)"

lemma cleared_iff: "cleared k req \<longleftrightarrow> \<not> has_metadata req k \<and> \<not> has_token req k"
  by (simp add: cleared_def has_metadata_def has_token_def)

lemma foreign_metadata:
  "\<not> reserved_cm cm \<Longrightarrow> \<not> is_metadata_of req cm" "\<not> is_metadata_of req (new_status_cm ns cr gw json)"
  "is_cm ns (status_config_map_name cr) cm \<Longrightarrow> \<not> is_metadata_of req cm"
  by (auto simp: reserved_cm_def is_metadata_of_def has_prefix_def new_status_cm_def is_cm_def status_config_map_name_def metadata_prefix_def)

lemma report_metadata: "has_metadata req (report ns cr gw json k) \<Longrightarrow> has_metadata req k"
  using foreign_metadata(2) [of req ns cr gw json] foreign_metadata(3) [of ns cr _ req]
  by (auto simp: report_def has_metadata_def list_ex_iff dest!: set_store_cms(1,2) lookup_in_Inr split: sum.splits)

lemma worker_objects:
  assumes "request_of base \<noteq> req" "may_write base w wd"
  shows "has_metadata req (perform P base w (wd_store wd)) \<Longrightarrow> has_metadata req (wd_store wd)"
    "has_token req (perform P base w (wd_store wd)) \<Longrightarrow> has_token req (wd_store wd)"
proof -
  have m: "\<not> is_metadata_of req cm" if "is_metadata_of (request_of base) cm" for cm
    using that is_metadata_of_unique assms(1) by blast
  have t: "\<not> is_token_of req se" if "is_token_of (request_of base) se" for se
    using that is_token_of_unique assms(1) by blast
  show "has_metadata req (perform P base w (wd_store wd)) \<Longrightarrow> has_metadata req (wd_store wd)"
    using assms(2) m by (cases w) (auto simp: perform_def has_metadata_def list_ex_iff may_write_def Let_def dest!: set_store_cms)
  show "has_token req (perform P base w (wd_store wd)) \<Longrightarrow> has_token req (wd_store wd)"
    using assms(2) t by (cases w) (auto simp: perform_def has_token_def list_ex_iff may_write_def Let_def dest!: set_store_secrets)
qed

lemma resource_events_objects [simp]:
  "has_metadata req (put_gs g k) = has_metadata req k" "has_token req (put_gs g k) = has_token req k"
  "has_metadata req (snd (store_update_gs g k)) = has_metadata req k" "has_token req (snd (store_update_gs g k)) = has_token req k"
  "has_metadata req (k\<lparr>cl_gs := gs, cl_rev := r\<rparr>) = has_metadata req k" "has_token req (k\<lparr>cl_gs := gs, cl_rev := r\<rparr>) = has_token req k"
  "has_metadata req (k\<lparr>cl_secrets := l\<rparr>) = has_metadata req k" "has_metadata req (snd (store_delete_secret se k)) = has_metadata req k"
  "has_token req (snd (store_create_cm cm k)) = has_token req k" "has_token req (snd (store_update_cm cm k)) = has_token req k"
  "has_token req (snd (store_delete_cm cm k)) = has_token req k" "has_token req (report ns cr gw json k) = has_token req k"
  "has_metadata req (k\<lparr>cl_pods := ps\<rparr>) = has_metadata req k" "has_token req (k\<lparr>cl_pods := ps\<rparr>) = has_token req k"
  "has_metadata req (k\<lparr>cl_rbs := bs\<rparr>) = has_metadata req k" "has_token req (k\<lparr>cl_rbs := bs\<rparr>) = has_token req k"
  "has_metadata req (k\<lparr>cl_time := now\<rparr>) = has_metadata req k" "has_token req (k\<lparr>cl_time := now\<rparr>) = has_token req k"
  by (simp_all add: has_metadata_def has_token_def report_def split: sum.split)

lemma client_objects:
  "\<not> reserved_cm cm \<Longrightarrow> has_metadata req (snd (store_create_cm cm k)) \<Longrightarrow> has_metadata req k"
  "\<not> reserved_cm cm \<Longrightarrow> has_metadata req (snd (store_update_cm cm k)) \<Longrightarrow> has_metadata req k"
  "has_metadata req (snd (store_delete_cm cm k)) \<Longrightarrow> has_metadata req k"
  "has_token req (snd (store_delete_secret se k)) \<Longrightarrow> has_token req k"
  "\<not> reserved_secret se \<Longrightarrow> has_token req (k\<lparr>cl_secrets := se # filter Q (cl_secrets k)\<rparr>) \<Longrightarrow> has_token req k"
  using foreign_metadata(1) [of cm req]
  by (auto simp: has_metadata_def has_token_def list_ex_iff reserved_secret_def is_token_of_def has_prefix_def
      dest!: set_store_cms set_store_secrets)

text \<open>Neither of the two objects is there that was not before.\<close>

definition fewer :: "namespaced_name \<Rightarrow> cluster \<Rightarrow> cluster \<Rightarrow> bool" where
  "fewer req k k' \<longleftrightarrow> (has_metadata req k' \<longrightarrow> has_metadata req k) \<and> (has_token req k' \<longrightarrow> has_token req k)"

lemma fewer_refl [simp]: "fewer req k k"
  by (simp add: fewer_def)

lemma fewer_trans: "fewer req a b \<Longrightarrow> fewer req b c \<Longrightarrow> fewer req a c"
  by (auto simp: fewer_def)

lemma fewer_ops:
  "fewer req k (put_gs g k)" "fewer req k (snd (store_update_gs g k))" "fewer req k (k\<lparr>cl_gs := gs, cl_rev := r\<rparr>)"
  "fewer req k (report ns cr gw json k)" "fewer req k (snd (store_delete_cm cm k))" "fewer req k (snd (store_delete_secret se k))"
  "fewer req k (k\<lparr>cl_pods := ps\<rparr>)" "fewer req k (k\<lparr>cl_rbs := bs\<rparr>)" "fewer req k (k\<lparr>cl_time := now\<rparr>)"
  "\<not> reserved_cm cm \<Longrightarrow> fewer req k (snd (store_create_cm cm k))" "\<not> reserved_cm cm \<Longrightarrow> fewer req k (snd (store_update_cm cm k))"
  "\<not> reserved_secret se \<Longrightarrow> fewer req k (k\<lparr>cl_secrets := se # filter Q (cl_secrets k)\<rparr>)"
  by (simp_all add: fewer_def) (blast intro: client_objects report_metadata)+

lemma act_objects:
  assumes "\<not> of_worker req e"
  shows "fewer req (wd_store wd) (wd_store (act P e wd))"
proof (cases e)
  case (Worker base w)
  with assms have "request_of base \<noteq> req" by (simp add: of_worker_def)
  from worker_objects [OF this, of w wd P] Worker show ?thesis by (simp add: fewer_def)
qed (simp_all add: fewer_ops Let_def split: sum.split)

lemma run_events_objects:
  "\<not> list_ex (of_worker req) es \<Longrightarrow> fewer req (wd_store wd) (wd_store (run_events P es wd))"
proof (induction es arbitrary: wd)
  case (Cons e es)
  then have "fewer req (wd_store wd) (wd_store (act P e wd))" by (intro act_objects) simp
  then show ?case using Cons by (auto intro: fewer_trans)
qed simp

lemma meanwhile_objects: "fewer req (wd_store (sy_world sy)) (wd_store (sy_world (meanwhile P (of_worker req) sy)))"
proof -
  obtain es where es: "sy_world (meanwhile P (of_worker req) sy) = run_events P (filter (\<lambda>e. \<not> of_worker req e) es) (sy_world sy)"
    by (rule meanwhile_world)
  show ?thesis unfolding es by (rule run_events_objects) (auto simp: list_ex_iff)
qed

subsection \<open>The laws of the cleanup\<close>

definition metadata_exists :: "namespaced_name \<Rightarrow> 'w system \<Rightarrow> string \<Rightarrow> string \<Rightarrow> bool" where
  "metadata_exists req sy ns n \<longleftrightarrow> (ns, n) = (fst req, metadata_prefix @ snd req) \<and> has_metadata req (wd_store (sy_world sy))"

definition token_exists :: "namespaced_name \<Rightarrow> 'w system \<Rightarrow> string \<Rightarrow> string \<Rightarrow> bool" where
  "token_exists req sy ns n \<longleftrightarrow> (ns, n) = (fst req, token_prefix @ snd req) \<and> has_token req (wd_store (sy_world sy))"

abbreviation shrinks_for :: "namespaced_name \<Rightarrow> 'w system \<Rightarrow> 'w system \<Rightarrow> bool" where
  "shrinks_for req \<equiv> shrinks (metadata_exists req) (token_exists req)"

lemma shrinks_fewer: "fewer req (wd_store (sy_world a)) (wd_store (sy_world b)) \<Longrightarrow> shrinks_for req a b"
  by (auto simp: shrinks_def metadata_exists_def token_exists_def fewer_def)

lemma amid_fewer:
  assumes "\<And>k. fewer req k (snd (f k))"
  shows "shrinks_for req sy (snd (amid P (of_worker req) f sy))"
  using fewer_trans [OF meanwhile_objects assms] by (intro shrinks_fewer) (simp add: amid_world)

lemma is_metadata_is_cm: "is_metadata_of (ns, n) = is_cm ns (metadata_prefix @ n)"
  by (auto simp: is_metadata_of_def is_cm_def fun_eq_iff)

lemma is_token_is_secret: "is_token_of (ns, n) = is_secret ns (token_prefix @ n)"
  by (auto simp: is_token_of_def is_secret_def fun_eq_iff)

lemma gone_after_delete:
  "cm_namespace cm = ns \<Longrightarrow> cm_name cm = metadata_prefix @ n \<Longrightarrow> \<not> has_metadata (ns, n) (snd (store_delete_cm cm k))"
  "se_namespace se = ns \<Longrightarrow> se_name se = token_prefix @ n \<Longrightarrow> \<not> has_token (ns, n) (snd (store_delete_secret se k))"
  by (simp_all add: has_metadata_def has_token_def is_metadata_is_cm is_token_is_secret store_object_defs split_beta)

interpretation shared_objects: object_store "shared_api P req" for P req
  by unfold_locales (auto simp: shared_fields amid_fst is_cm_def is_secret_def is_rb_def dest!: lookup_in_Inr find_gs_found)

interpretation shared: cluster_laws "shared_api P req" "metadata_exists req" "token_exists req" for P req
proof (unfold_locales, goal_cases)
  case (6 ns n sy e)
  then show ?case
    by (cases req) (auto simp: shared_fields amid_fst amid_read metadata_exists_def has_metadata_def is_metadata_is_cm lookup_in_Inl)
next
  case (7 ns n sy e)
  then show ?case
    by (cases req) (auto simp: shared_fields amid_fst amid_read token_exists_def has_token_def is_token_is_secret lookup_in_Inl)
next
  case (8 cm sy)
  then show ?case
    by (cases req) (auto simp: shared_fields metadata_exists_def amid_world gone_after_delete)
next
  case (9 se sy)
  then show ?case
    by (cases req) (auto simp: shared_fields token_exists_def amid_world gone_after_delete)
qed (auto simp: shared_fields intro!: amid_fewer fewer_ops)

subsection \<open>A reconcile of a deleted resource\<close>

lemma nothing_left_cleared: "nothing_left (metadata_exists (request_of gs)) (token_exists (request_of gs)) gs sy \<Longrightarrow> cleared (wd_store (sy_world sy)) (request_of gs)"
  by (auto simp: nothing_left_def cleared_iff metadata_exists_def token_exists_def owned_config_maps_def request_of_def
      metadata_prefix_def token_prefix_def github_token_secret_name_def)

text \<open>The update that drops the finalizer is sent when the resource is cleared, and then makes the event.\<close>

lemma deleted_trace:
  assumes "relies P gs (sy_world (io_env s))"
    and run: "run_state (reconcile_deleted (shared_api P (request_of gs)) (request_of gs) gs) s = (o1, t)"
  shows "sound P (sy_world (io_env t)) \<and> worker_trace P gs (io_env s) (io_env t)"
proof -
  let ?K = "shared_api P (request_of gs)"
  let ?mine = "of_worker (request_of gs)"
  from assms(1) have fin: "has_finalizer gs" by (simp add: relies_def)
  obtain e u where e: "run_state (cleanup_owned_resources ?K gs) s = (e, u)" by (rule prod.exhaust)
  from guarded.keepsD [OF guarded.does_cleanup [OF same_resource_refl] e] assms(1)
  have u: "relies P gs (sy_world (io_env u))" "worker_trace P gs (io_env s) (io_env u)" by (simp_all add: worker_frame_def)
  show ?thesis
  proof (cases e)
    case (Some err)
    with run e fin have "t = u" by (simp add: reconcile_deleted_def)
    with u show ?thesis by (simp add: relies_def)
  next
    case None
    let ?mid = "meanwhile P ?mine (io_env u)"
    let ?f = "store_update_gs (remove_finalizer gs)"
    from e None have "cleared (wd_store (sy_world (io_env u))) (request_of gs)"
      by (intro nothing_left_cleared shared.cleanup_leaves_nothing) simp
    with meanwhile_objects [of "request_of gs" "io_env u" P] have "cleared (wd_store (sy_world ?mid)) (request_of gs)"
      by (auto simp: cleared_iff fewer_def)
    moreover from meanwhile_relies [OF u(1)] have mid: "relies P gs (sy_world ?mid)" by blast
    ultimately have may: "may_write gs DropFinalizer (sy_world ?mid)" by (simp add: may_write_def relies_def pinned_def)
    have perf: "snd (?f k) = perform P gs DropFinalizer k" for k by (simp add: perform_def)
    note ev = amid_event [where f = ?f and P = P and mine = ?mine and sy = "io_env u", OF perf may]
    from run e None fin have t: "io_env t = snd (amid P ?mine ?f (io_env u))"
      by (auto simp: reconcile_deleted_def reset_failures_def update_gs_def logged_def shared_fields)
    have "sound P (sy_world (io_env t))" using mid act_sound unfolding t ev(1) relies_def by blast
    moreover have "worker_trace P gs (io_env u) (io_env t)"
      using ev(2) unfolding worker_trace_def t by (elim exE) (rule exI, erule conjI, simp add: worker_event_def)
    ultimately show ?thesis using worker_trace_trans [OF u(2)] by blast
  qed
qed

end
