(* ===== verification/SharedStatus.thy ===== *)
theory SharedStatus
  imports SharedCleanup CrossProps
begin

section \<open>A status write on the shared cluster\<close>

text \<open>
  \<open>WriteStatusConfigMap\<close> reads, changes and writes back, and tries again after a conflict; on the shared
  cluster it is one atomic event or none.
\<close>

subsection \<open>A ConfigMap with the version that was read\<close>

definition tied_cm :: "config_map \<Rightarrow> cluster \<Rightarrow> bool" where
  "tied_cm cm k \<longleftrightarrow> old_version (cl_rev k) (cm_resource_version cm) \<and>
     (\<forall>c \<in> set (cl_cms k). cm_key c = cm_key cm \<longrightarrow> cm_resource_version c = cm_resource_version cm \<longrightarrow> c = cm)"

lemma tied_cm_same: "tied_cm cm k \<Longrightarrow> set (cl_cms k') \<subseteq> set (cl_cms k) \<Longrightarrow> cl_rev k \<le> cl_rev k' \<Longrightarrow> tied_cm cm k'"
  by (auto simp: tied_cm_def intro: old_version_mono)

lemma tied_cm_create: "tied_cm cm k \<Longrightarrow> tied_cm cm (snd (store_create_cm c k))"
  by (auto simp: tied_cm_def store_create_cm_cms store_create_cm_rev dest: old_version_neq intro: old_version_Suc)

lemma tied_cm_update: "tied_cm cm k \<Longrightarrow> tied_cm cm (snd (store_update_cm c k))"
proof -
  assume t: "tied_cm cm k"
  have le: "cl_rev k \<le> cl_rev (snd (store_update_cm c k))" using same_resources_cms(2) [of k c] by (simp add: same_resources_def)
  from store_update_cm_cms [of c k] show ?thesis
  proof (elim disjE conjE)
    assume "cl_cms (snd (store_update_cm c k)) = cl_cms k"
    with t le show ?thesis by (auto intro: tied_cm_same)
  next
    assume m: "cl_cms (snd (store_update_cm c k)) = map (\<lambda>y. if cm_key y = cm_key c then stamped k c else y) (cl_cms k)"
      "cl_rev (snd (store_update_cm c k)) = Suc (cl_rev k)"
    with t show ?thesis by (auto simp: tied_cm_def dest: old_version_neq intro: old_version_Suc)
  qed
qed

lemma change_tied_cm: "change P keep wd wd' \<Longrightarrow> tied_cm cm (wd_store wd) \<Longrightarrow> tied_cm cm (wd_store wd')"
proof (induction rule: change.induct)
  case (deletes c)
  then show ?case
    by (auto simp: store_delete_cm_def split_beta dest: subsetD [OF set_delete_from(1)] intro!: tied_cm_same [OF deletes.prems])
qed (auto simp: tied_cm_create tied_cm_update elim: tied_cm_same)

lemma run_events_tied_cm: "tied_cm cm (wd_store wd) \<Longrightarrow> tied_cm cm (wd_store (run_events P es wd))"
  by (induction es arbitrary: wd) (auto intro: change_tied_cm [OF act_change])

lemma meanwhile_tied_cm: "tied_cm cm (wd_store (sy_world sy)) \<Longrightarrow> tied_cm cm (wd_store (sy_world (meanwhile P mine sy)))"
  by (cases rule: meanwhile_world [of P mine sy]) (simp add: run_events_tied_cm)

lemma cm_unique:
  assumes "sound_versions k" "c \<in> set (cl_cms k)" "d \<in> set (cl_cms k)" "cm_key c = cm_key d"
  shows "c = d"
  using assms by (auto simp: sound_versions_def distinct_map dest: inj_onD)

lemma lookup_cm:
  assumes "lookup_in (cl_cms k) (is_cm ns n) n = Inr cm"
  shows "cm \<in> set (cl_cms k)" "cm_namespace cm = ns" "cm_name cm = n"
  using assms by (auto simp: lookup_in_def find_Some_iff is_cm_def split: option.splits)

lemma found_tied_cm:
  assumes "sound_versions k" "lookup_in (cl_cms k) (is_cm ns n) n = Inr cm"
  shows "tied_cm cm k"
  using assms(1) lookup_cm [OF assms(2)] cm_unique [OF assms(1)] by (auto simp: tied_cm_def sound_versions_def)

subsection \<open>One attempt\<close>

lemma create_report:
  assumes "fst (store_create_cm (new_status_cm ns cr gw json) k) = None"
  shows "snd (store_create_cm (new_status_cm ns cr gw json) k) = report ns cr gw json k"
proof -
  have "\<not> list_ex (is_cm ns (status_config_map_name cr)) (cl_cms k)"
    using assms by (auto simp: store_create_cm_def create_in_def new_status_cm_def split: if_splits)
  then have "lookup_in (cl_cms k) (is_cm ns (status_config_map_name cr)) (status_config_map_name cr) = Inl (not_found (status_config_map_name cr))"
    by (simp add: lookup_in_Inl)
  then show ?thesis by (simp add: report_def)
qed

lemma failed_create: "fst (store_create_cm cm k) = Some e \<Longrightarrow> snd (store_create_cm cm k) = k"
  by (auto simp: store_create_cm_def split: prod.splits option.splits)

lemma failed_update: "fst (store_update_cm cm k) = Some e \<Longrightarrow> snd (store_update_cm cm k) = k"
  by (auto simp: store_update_cm_def update_in_def split: sum.splits if_splits dest: lookup_in_ex)

lemma update_report:
  assumes "sound_versions k" "tied_cm cm k" "cm_namespace cm = ns" "cm_name cm = status_config_map_name cr"
    and "fst (store_update_cm (cm\<lparr>cm_data := mput (cm_data cm) gw json\<rparr>) k) = None"
  shows "snd (store_update_cm (cm\<lparr>cm_data := mput (cm_data cm) gw json\<rparr>) k) = report ns cr gw json k"
proof -
  let ?n = "status_config_map_name cr"
  have "cm_resource_version cm \<noteq> []" using assms(2) old_version_nonempty by (auto simp: tied_cm_def)
  with assms(3-5) obtain old where old: "lookup_in (cl_cms k) (is_cm ns ?n) ?n = Inr old" "cm_resource_version old = cm_resource_version cm"
    by (auto simp: store_update_cm_def split: sum.splits if_splits)
  with lookup_cm [OF old(1)] assms(2-4) have "old = cm" by (auto simp: tied_cm_def cm_key_def)
  with old(1) show ?thesis by (simp add: report_def)
qed

subsection \<open>All attempts\<close>

abbreviation nobody :: "cluster_event \<Rightarrow> bool" where
  "nobody \<equiv> \<lambda>_. False"

lemma amid_unchanged:
  assumes "snd (f (wd_store (sy_world (meanwhile P mine sy)))) = wd_store (sy_world (meanwhile P mine sy))"
  shows "snd (amid P mine f sy) = meanwhile P mine sy"
  using assms by (simp add: amid_def Let_def split_beta)

lemma amid_reports:
  assumes "snd (f (wd_store (sy_world (meanwhile P mine sy)))) = report ns cr gw json (wd_store (sy_world (meanwhile P mine sy)))"
  shows "\<exists>es. traced P mine (map (Pair False) es @ [(True, Reports ns cr gw json)]) sy (snd (amid P mine f sy))"
proof -
  obtain es where tr: "traced P mine (map (Pair False) es) sy (meanwhile P mine sy)" using meanwhile_traced by blast
  have "sy_world (snd (amid P mine f sy)) = act P (Reports ns cr gw json) (sy_world (meanwhile P mine sy))"
    using assms by (simp add: amid_world on_store_def)
  with tr have "traced P mine (map (Pair False) es @ [(True, Reports ns cr gw json)]) sy (snd (amid P mine f sy))"
    by (simp add: traced_def amid_sched)
  then show ?thesis by blast
qed

definition report_trace :: "'w ctrl_api \<Rightarrow> cluster_event list \<Rightarrow> 'w system \<Rightarrow> 'w system \<Rightarrow> bool" where
  "report_trace P evs sy sy' \<longleftrightarrow> (\<exists>tr. traced P nobody tr sy sy' \<and> own tr = evs)"

lemma report_trace_trans: "report_trace P [] a b \<Longrightarrow> report_trace P evs b c \<Longrightarrow> report_trace P evs a c"
  unfolding report_trace_def by (elim exE conjE) (rule exI, rule conjI, erule (1) traced_trans, simp)

lemma report_trace_meanwhile: "report_trace P [] sy (meanwhile P nobody sy)"
  using meanwhile_traced [of P nobody sy] unfolding report_trace_def by (elim exE) (rule exI, erule conjI, simp)

lemma report_trace_reports:
  "snd (f (wd_store (sy_world (meanwhile P nobody sy)))) = report ns cr gw json (wd_store (sy_world (meanwhile P nobody sy))) \<Longrightarrow>
   report_trace P [Reports ns cr gw json] sy (snd (amid P nobody f sy))"
  unfolding report_trace_def
  by (drule amid_reports, elim exE) (rule exI, erule conjI, simp)

lemma report_trace_unchanged:
  "snd (f (wd_store (sy_world (meanwhile P nobody sy)))) = wd_store (sy_world (meanwhile P nobody sy)) \<Longrightarrow>
   report_trace P [] sy (snd (amid P nobody f sy))"
  by (simp add: amid_unchanged report_trace_meanwhile)

lemma shared_cm_fields:
  "k_create_cm (shared_cm_api P) cm = amid P nobody (store_create_cm cm)"
  "k_update_cm (shared_cm_api P) cm = amid P nobody (store_update_cm cm)"
  by (simp_all add: shared_cm_api_def)

definition reported :: "string \<Rightarrow> string \<Rightarrow> string \<Rightarrow> string \<Rightarrow> goerror option \<Rightarrow> cluster_event list" where
  "reported ns cr gw json r = (if r = None then [Reports ns cr gw json] else [])"

lemma amid_sound: "snd (f (wd_store (sy_world (meanwhile P mine sy)))) = wd_store (sy_world (meanwhile P mine sy)) \<Longrightarrow>
   sound P (sy_world sy) \<Longrightarrow> sound P (sy_world (snd (amid P mine f sy)))"
  by (simp add: amid_unchanged meanwhile_sound)

lemma attempts_trace:
  assumes "sound P (sy_world (io_env s))"
    and "run_state (write_status_attempts (shared_cm_api P) ns cr gw json n) s = (r, t)"
  shows "report_trace P (reported ns cr gw json r) (io_env s) (io_env t)"
  using assms
proof (induction n arbitrary: s)
  case 0
  then show ?case using traced_refl by (fastforce simp: reported_def report_trace_def)
next
  case (Suc n)
  let ?n = "status_config_map_name cr"
  let ?mid = "meanwhile P nobody (io_env s)"
  let ?look = "lookup_in (cl_cms (wd_store (sy_world ?mid))) (is_cm ns ?n) ?n"
  have mid: "sound P (sy_world ?mid)" using Suc.prems(1) by (rule meanwhile_sound)
  then have sv: "sound_versions (wd_store (sy_world ?mid))" by (simp add: sound_def)
  have get: "k_get_cm (shared_cm_api P) ns ?n (io_env s) = (?look, ?mid)"
    by (rule prod_eqI) (simp_all add: shared_cm_api_def amid_fst amid_read)
  note tm = report_trace_meanwhile [of P "io_env s"]
  let ?s1 = "s\<lparr>io_env := ?mid, io_log := CmRead ?n (option_of_res ?look) # io_log s\<rparr>"
  show ?case
  proof (cases ?look)
    case (Inl err)
    then have err: "err = not_found ?n" by (simp add: lookup_in_Inl)
    let ?cm = "new_status_cm ns cr gw json"
    let ?f = "store_create_cm ?cm"
    let ?c = "amid P nobody ?f ?mid"
    let ?s2 = "?s1\<lparr>io_env := snd ?c, io_log := CmCreate ?cm (fst ?c = None) # io_log ?s1\<rparr>"
    have run: "run_state (case fst ?c of None \<Rightarrow> ret None
        | Some createErr \<Rightarrow> if api_is AlreadyExists createErr then write_status_attempts (shared_cm_api P) ns cr gw json n
            else ret (Some (Wrapf ''creating status ConfigMap'' createErr))) ?s2 = (r, t)"
      using Suc.prems(2) Inl err get
      by (simp add: run_cm Let_def not_found_def shared_cm_fields)
    show ?thesis
    proof (cases "fst ?c")
      case None
      then have "report_trace P [Reports ns cr gw json] ?mid (snd ?c)"
        by (intro report_trace_reports create_report) (simp add: amid_fst)
      with None run report_trace_trans [OF tm] show ?thesis by (auto simp: reported_def)
    next
      case (Some e)
      then have un: "snd (store_create_cm ?cm (wd_store (sy_world (meanwhile P nobody ?mid)))) = wd_store (sy_world (meanwhile P nobody ?mid))"
        by (intro failed_create) (simp add: amid_fst)
      from report_trace_trans [OF tm report_trace_unchanged [where f = ?f, OF un]] have tr: "report_trace P [] (io_env s) (snd ?c)" .
      show ?thesis
      proof (cases "api_is AlreadyExists e")
        case True
        with Some run have "run_state (write_status_attempts (shared_cm_api P) ns cr gw json n) ?s2 = (r, t)" by simp
        from Suc.IH [OF _ this] amid_sound [where f = ?f, OF un mid] have "report_trace P (reported ns cr gw json r) (snd ?c) (io_env t)" by simp
        with tr show ?thesis by (rule report_trace_trans)
      next
        case False
        with Some run tr show ?thesis by (auto simp: reported_def)
      qed
    qed
  next
    case (Inr cm)
    let ?cm = "cm\<lparr>cm_data := mput (cm_data cm) gw json\<rparr>"
    let ?f = "store_update_cm ?cm"
    let ?c = "amid P nobody ?f ?mid"
    let ?mid2 = "meanwhile P nobody ?mid"
    let ?s2 = "?s1\<lparr>io_env := snd ?c, io_log := CmUpdate ?cm (fst ?c = None) # io_log ?s1\<rparr>"
    have run: "run_state (case fst ?c of None \<Rightarrow> ret None
        | Some updateErr \<Rightarrow> if api_is Conflict updateErr then write_status_attempts (shared_cm_api P) ns cr gw json n
            else ret (Some (Wrapf ''updating status ConfigMap'' updateErr))) ?s2 = (r, t)"
      using Suc.prems(2) Inr get
      by (simp add: run_cm Let_def shared_cm_fields)
    have mid2: "sound_versions (wd_store (sy_world ?mid2))" using meanwhile_sound [OF mid] by (simp add: sound_def)
    have tied: "tied_cm cm (wd_store (sy_world ?mid2))" by (rule meanwhile_tied_cm [OF found_tied_cm [OF sv Inr]])
    show ?thesis
    proof (cases "fst ?c")
      case None
      then have "report_trace P [Reports ns cr gw json] ?mid (snd ?c)"
        by (intro report_trace_reports update_report [OF mid2 tied lookup_cm(2,3) [OF Inr]]) (simp add: amid_fst)
      with None run report_trace_trans [OF tm] show ?thesis by (auto simp: reported_def)
    next
      case (Some e)
      then have un: "snd (store_update_cm ?cm (wd_store (sy_world ?mid2))) = wd_store (sy_world ?mid2)"
        by (intro failed_update) (simp add: amid_fst)
      from report_trace_trans [OF tm report_trace_unchanged [where f = ?f, OF un]] have tr: "report_trace P [] (io_env s) (snd ?c)" .
      show ?thesis
      proof (cases "api_is Conflict e")
        case True
        with Some run have "run_state (write_status_attempts (shared_cm_api P) ns cr gw json n) ?s2 = (r, t)" by simp
        from Suc.IH [OF _ this] amid_sound [where f = ?f, OF un mid] have "report_trace P (reported ns cr gw json r) (snd ?c) (io_env t)" by simp
        with tr show ?thesis by (rule report_trace_trans)
      next
        case False
        with Some run tr show ?thesis by (auto simp: reported_def)
      qed
    qed
  qed
qed

end
