(* ===== verification/SharedWebhook.thy ===== *)
theory SharedWebhook
  imports SharedReconcile WebhookReceiver
begin

section \<open>A webhook request on the shared cluster\<close>

text \<open>The receiver gets the resource, changes its annotations and writes the whole object back.\<close>

definition shared_receiver :: "'w ctrl_api \<Rightarrow> 'w receiver_api \<Rightarrow> 'w system receiver_api" where
  "shared_receiver P V = \<lparr>
     va_hmac_sha256 = va_hmac_sha256 V, va_sha256 = va_sha256 V, va_parse_json = va_parse_json V, va_format_time = va_format_time V,
     va_now = amid_remote P (\<lambda>_. False) (va_now V),
     va_get_gs = (\<lambda>ns n. amid P (\<lambda>_. False) (\<lambda>k. (find_gs k (ns, n), k))),
     va_update_gs = (\<lambda>g. amid P (\<lambda>_. False) (store_update_gs g))\<rparr>"

lemma shared_receiver_fields [simp]:
  "va_parse_json (shared_receiver P V) = va_parse_json V" "va_now (shared_receiver P V) = amid_remote P (\<lambda>_. False) (va_now V)"
  "va_get_gs (shared_receiver P V) ns n = amid P (\<lambda>_. False) (\<lambda>k. (find_gs k (ns, n), k))"
  "va_update_gs (shared_receiver P V) g = amid P (\<lambda>_. False) (store_update_gs g)"
  by (simp_all add: shared_receiver_def)

definition requested :: "string \<Rightarrow> string \<Rightarrow> string \<Rightarrow> gateway_sync \<Rightarrow> (string, string) gomap" where
  "requested ref at source gs = mput (mput (mput (om_annotations (gy_meta gs)) annotation_requested_ref ref)
     annotation_requested_at at) annotation_requested_by source"

lemma annotate_request_map: "annotate_request ref at source gs = map_annotations (\<lambda>_. requested ref at source gs) gs"
  by (simp add: annotate_request_def map_annotations_def requested_def)

subsection \<open>The resource stays tied to what was read\<close>

lemma change_tied:
  "change P keep wd wd' \<Longrightarrow> tied base (wd_store wd) \<and> old_version (cl_rev (wd_store wd)) (version_of base) \<Longrightarrow>
   tied base (wd_store wd') \<and> old_version (cl_rev (wd_store wd')) (version_of base)"
proof (induction rule: change.induct)
  case (puts g cur specs)
  then show ?case
    by (auto simp: tied_def list_all_iff dest!: put_gs_cases dest: old_version_neq intro: old_version_Suc)
next
  case (adds k g err)
  then show ?case by (auto simp: tied_def dest: old_version_neq intro: old_version_Suc)
qed (use same_resources_cms in \<open>auto simp: tied_def same_resources_def intro: old_version_mono\<close>)

lemma meanwhile_tied:
  assumes "tied base (wd_store (sy_world sy))" "old_version (cl_rev (wd_store (sy_world sy))) (version_of base)"
  shows "tied base (wd_store (sy_world (meanwhile P mine sy)))"
    "old_version (cl_rev (wd_store (sy_world (meanwhile P mine sy)))) (version_of base)"
proof -
  have "tied base (wd_store (run_events P es wd)) \<and> old_version (cl_rev (wd_store (run_events P es wd))) (version_of base)"
    if "tied base (wd_store wd) \<and> old_version (cl_rev (wd_store wd)) (version_of base)" for es wd
    using that
  proof (induction es arbitrary: wd)
    case (Cons e es)
    from Cons.IH [OF change_tied [OF act_change Cons.prems, of P e]] show ?case by simp
  qed simp
  with assms show "tied base (wd_store (sy_world (meanwhile P mine sy)))"
    "old_version (cl_rev (wd_store (sy_world (meanwhile P mine sy)))) (version_of base)"
    by (cases rule: meanwhile_world [of P mine sy]; simp)+
qed

lemma amid_annotates:
  assumes "tied gs (wd_store (sy_world (meanwhile P mine sy)))"
  shows "\<exists>es. traced P mine (map (Pair False) es @ [(True, Annotates gs m)]) sy (snd (amid P mine (store_update_gs (map_annotations (\<lambda>_. m) gs)) sy))"
proof -
  obtain es where tr: "traced P mine (map (Pair False) es) sy (meanwhile P mine sy)" using meanwhile_traced by blast
  have "sy_world (snd (amid P mine (store_update_gs (map_annotations (\<lambda>_. m) gs)) sy)) = act P (Annotates gs m) (sy_world (meanwhile P mine sy))"
    using assms by (simp add: amid_world)
  with tr have "traced P mine (map (Pair False) es @ [(True, Annotates gs m)]) sy
      (snd (amid P mine (store_update_gs (map_annotations (\<lambda>_. m) gs)) sy))"
    by (simp add: traced_def amid_sched)
  then show ?thesis by blast
qed

definition webhook_trace :: "'w ctrl_api \<Rightarrow> namespaced_name \<Rightarrow> 'w system \<Rightarrow> 'w system \<Rightarrow> bool" where
  "webhook_trace P req sy sy' \<longleftrightarrow> (\<exists>tr. traced P (\<lambda>_. False) tr sy sy' \<and>
     (own tr = [] \<or> (\<exists>gs ref at source. request_of gs = req \<and> own tr = [Annotates gs (requested ref at source gs)])))"

lemma webhook_trace_quiet: "traced P (\<lambda>_. False) (map (Pair False) es) sy sy' \<Longrightarrow> webhook_trace P req sy sy'"
  unfolding webhook_trace_def by (rule exI, erule conjI) simp

lemma webhook_trace_then: "traced P (\<lambda>_. False) (map (Pair False) es) a b \<Longrightarrow> webhook_trace P req b c \<Longrightarrow> webhook_trace P req a c"
  unfolding webhook_trace_def by (elim exE conjE) (rule exI, rule conjI, erule (1) traced_trans, simp)

lemma webhook_runs:
  assumes "sound P (sy_world (io_env s))"
    and "run_state (apply_request (shared_receiver P V) r ref source) s = (rep, t)"
  shows "webhook_trace P (wr_namespace r, wr_cr_name r) (io_env s) (io_env t)"
proof -
  let ?req = "(wr_namespace r, wr_cr_name r)"
  let ?mid = "meanwhile P (\<lambda>_. False) (io_env s)"
  let ?find = "find_gs (wd_store (sy_world ?mid)) ?req"
  obtain es where tr: "traced P (\<lambda>_. False) (map (Pair False) es) (io_env s) ?mid" using meanwhile_traced by blast
  have get: "amid P (\<lambda>_. False) (\<lambda>k. (find_gs k ?req, k)) (io_env s) = (?find, ?mid)"
    by (rule prod_eqI) (simp_all add: amid_fst amid_read)
  show ?thesis
  proof (cases ?find)
    case (Inl err)
    with assms(2) get have "io_env t = ?mid" by (auto simp: apply_request_def)
    with webhook_trace_quiet [OF tr] show ?thesis by simp
  next
    case (Inr gs)
    from find_gs_Inr [OF Inr] have req: "request_of gs = ?req" by simp
    from pinned_found [OF meanwhile_sound [OF assms(1)] Inr]
    have tied: "tied gs (wd_store (sy_world ?mid))" "old_version (cl_rev (wd_store (sy_world ?mid))) (version_of gs)"
      by (simp_all add: pinned_def)
    let ?n = "amid_remote P (\<lambda>_. False) (va_now V) ?mid"
    let ?mid2 = "meanwhile P (\<lambda>_. False) ?mid"
    obtain es2 where tr2: "traced P (\<lambda>_. False) (map (Pair False) es2) ?mid ?mid2" using meanwhile_traced by blast
    have n: "sy_world (snd ?n) = sy_world ?mid2" "sy_sched (snd ?n) = sy_sched ?mid2"
      by (simp_all add: amid_remote_def Let_def split_beta)
    with tr2 have tr2': "traced P (\<lambda>_. False) (map (Pair False) es2) ?mid (snd ?n)" by (simp add: traced_def)
    let ?m = "requested ref (va_format_time (shared_receiver P V) (fst ?n)) source gs"
    have "tied gs (wd_store (sy_world (meanwhile P (\<lambda>_. False) (snd ?n))))"
      using meanwhile_tied [OF tied] by (intro meanwhile_tied(1)) (simp_all add: n)
    from amid_annotates [OF this, of ?m]
    obtain es3 where tr3: "traced P (\<lambda>_. False) (map (Pair False) es3 @ [(True, Annotates gs ?m)]) (snd ?n)
        (snd (amid P (\<lambda>_. False) (store_update_gs (map_annotations (\<lambda>_. ?m) gs)) (snd ?n)))" by blast
    have w: "webhook_trace P ?req (snd ?n) (snd (amid P (\<lambda>_. False) (store_update_gs (map_annotations (\<lambda>_. ?m) gs)) (snd ?n)))"
      unfolding webhook_trace_def by (intro exI conjI disjI2, rule tr3, rule req) simp
    from assms(2) Inr get have "io_env t = ?mid \<or> io_env t = snd (amid P (\<lambda>_. False) (store_update_gs (map_annotations (\<lambda>_. ?m) gs)) (snd ?n))"
      by (auto simp: apply_request_def annotate_request_map Let_def split_beta split: if_splits option.splits)
    with webhook_trace_quiet [OF tr] webhook_trace_then [OF tr webhook_trace_then [OF tr2' w]] show ?thesis by auto
  qed
qed

end
