(* ===== verification/SystemProps.thy ===== *)
theory SystemProps
  imports SharedStatus SharedWebhook StatusProps
begin

section \<open>Properties of the shared cluster\<close>

text \<open>
  A reconcile is a sequence of guarded atomic writes whatever happens between its calls; so what holds
  after every sequence of events holds of the running system.
\<close>

subsection \<open>A reconcile under interference\<close>

lemma worker_trace_read:
  assumes "worker_trace P gs (meanwhile P (of_worker (request_of gs)) sy) sy'"
  shows "worker_trace P gs sy sy'"
proof (rule worker_trace_trans [OF _ assms])
  show "worker_trace P gs sy (meanwhile P (of_worker (request_of gs)) sy)"
    using meanwhile_traced [of P "of_worker (request_of gs)" sy] unfolding worker_trace_def
    by (elim exE) (rule exI, erule conjI, simp)
qed

text \<open>One update that adds the finalizer.\<close>

lemma finalizer_trace:
  assumes "sound P (sy_world sy)" "pinned gs (sy_world sy)"
  shows "sound P (sy_world (snd (ka_update_gs (shared_api P (request_of gs)) (add_finalizer gs) sy))) \<and>
    worker_trace P gs sy (snd (ka_update_gs (shared_api P (request_of gs)) (add_finalizer gs) sy))"
proof -
  let ?mid = "meanwhile P (of_worker (request_of gs)) sy"
  from meanwhile_pinned [OF assms] have may: "may_write gs AddFinalizer (sy_world ?mid)"
    by (simp add: may_write_def pinned_def)
  have perf: "snd (store_update_gs (add_finalizer gs) k) = perform P gs AddFinalizer k" for k by (simp add: perform_def)
  note ev = amid_event [where f = "store_update_gs (add_finalizer gs)" and P = P and mine = "of_worker (request_of gs)" and sy = sy, OF perf may]
  from ev(2) have "worker_trace P gs sy (snd (amid P (of_worker (request_of gs)) (store_update_gs (add_finalizer gs)) sy))"
    unfolding worker_trace_def by (elim exE) (rule exI, erule conjI, simp add: worker_event_def)
  moreover have "sound P (sy_world (snd (amid P (of_worker (request_of gs)) (store_update_gs (add_finalizer gs)) sy)))"
    unfolding ev(1) by (rule act_sound, rule meanwhile_sound, rule assms(1))
  ultimately show ?thesis by (simp add: shared_fields)
qed

lemma found_trace:
  assumes "sound P (sy_world (io_env s))" "pinned gs (sy_world (io_env s))"
    and run: "run_state (reconcile_found (shared_api P (request_of gs)) (request_of gs) gs) s = (o1, t)"
  shows "sound P (sy_world (io_env t)) \<and> worker_trace P gs (io_env s) (io_env t)"
proof -
  let ?K = "shared_api P (request_of gs)"
  let ?u = "if requested_ref gs \<noteq> [] then s\<lparr>rc_backoff := reset_backoff (request_of gs) (rc_backoff s)\<rparr> else s"
  have envs: "io_env ?u = io_env s" by simp
  have body: "run_state (if om_deletion_timestamp (gy_meta gs) \<noteq> None then reconcile_deleted ?K (request_of gs) gs
      else if \<not> has_finalizer gs then do { u \<leftarrow> update_gs ?K (add_finalizer gs); ret (success u) }
      else if ss_paused (gy_spec gs) then reconcile_paused ?K gs gs else reconcile_active ?K (request_of gs) gs) ?u = (o1, t)"
    using run by (simp add: reconcile_found_def reset_failures_def split: if_splits)
  obtain u where u: "io_env u = io_env s" "run_state (if om_deletion_timestamp (gy_meta gs) \<noteq> None then reconcile_deleted ?K (request_of gs) gs
      else if \<not> has_finalizer gs then do { u \<leftarrow> update_gs ?K (add_finalizer gs); ret (success u) }
      else if ss_paused (gy_spec gs) then reconcile_paused ?K gs gs else reconcile_active ?K (request_of gs) gs) u = (o1, t)"
    using that [OF envs body] .
  show ?thesis
  proof (cases "has_finalizer gs")
    case True
    with assms u(1) have r: "relies P gs (sy_world (io_env u))" by (simp add: relies_def)
    have kept: ?thesis if "guarded.keeps P gs m" "run_state m u = (o1, t)" for m
      using guarded.keepsD [OF that] r u(1) by (simp add: worker_frame_def relies_def)
    show ?thesis
    proof (cases "om_deletion_timestamp (gy_meta gs) = None")
      case True
      with u(2) \<open>has_finalizer gs\<close> kept [OF guarded.does_reconcile_paused [OF same_resource_refl]]
        kept [OF guarded.does_reconcile_active [OF same_resource_refl]] show ?thesis
        by (cases "ss_paused (gy_spec gs)") simp_all
    next
      case False
      with u deleted_trace [OF r, of o1 t] show ?thesis by simp
    qed
  next
    case False
    show ?thesis
    proof (cases "om_deletion_timestamp (gy_meta gs) = None")
      case True
      with u False have "io_env t = snd (ka_update_gs ?K (add_finalizer gs) (io_env s))"
        by (auto simp: update_gs_def logged_def)
      with finalizer_trace [OF assms(1,2)] show ?thesis by simp
    next
      case del: False
      with u False have "t = u" by (simp add: reconcile_deleted_def)
      with u assms(1) show ?thesis by (simp add: worker_trace_refl)
    qed
  qed
qed

definition shared_start :: "'w ctrl_api \<Rightarrow> cluster_event list \<Rightarrow> cluster_event list list \<Rightarrow> 'w \<Rightarrow> 'w system" where
  "shared_start P es sched w = \<lparr>sy_world = run_events P es no_world, sy_sched = sched, sy_remote = w\<rparr>"

lemma start_sound: "sound P (sy_world (shared_start P es sched w))"
  by (simp add: shared_start_def run_events_sound sound_no_world)

lemma counted_env: "io_env (counted req l t) = io_env t"
  by (simp add: counted_def)

lemma reconcile_shared:
  "wp (reconcile (shared_api P req) req) (\<lambda>o1 t. sound P (sy_world (io_env t)) \<and>
     (\<exists>tr. traced P (of_worker req) tr (shared_start P es sched w) (io_env t) \<and>
       (case fst (ka_get_gs (shared_api P req) req (shared_start P es sched w)) of
          Inl err \<Rightarrow> own tr = []
        | Inr gs \<Rightarrow> request_of gs = req \<and> list_all (worker_event gs) (own tr)))) (s\<lparr>io_env := shared_start P es sched w\<rparr>)"
proof -
  let ?sy = "shared_start P es sched w"
  let ?K = "shared_api P req"
  let ?mid = "meanwhile P (of_worker req) ?sy"
  have env: "io_env (s\<lparr>io_env := ?sy\<rparr>) = ?sy" by simp
  have mid: "sound P (sy_world ?mid)" by (rule meanwhile_sound [OF start_sound])
  have get: "fst (ka_get_gs ?K req ?sy) = find_gs (wd_store (sy_world ?mid)) req" "snd (ka_get_gs ?K req ?sy) = ?mid"
    by (simp_all add: shared_fields amid_fst amid_read)
  show ?thesis
  proof (cases "fst (ka_get_gs ?K req ?sy)")
    case (Inl err)
    then have Inl': "fst (ka_get_gs ?K req (io_env (s\<lparr>io_env := ?sy\<rparr>))) = Inl err" by simp
    obtain es' where "traced P (of_worker req) (map (Pair False) es') ?sy ?mid" using meanwhile_traced by blast
    moreover have "own (map (Pair False) es') = []" by simp
    ultimately have "\<exists>tr. traced P (of_worker req) tr ?sy ?mid \<and> own tr = []" by blast
    with Inl Inl' get(2) mid show ?thesis by (simp add: wp_reconcile_missing Let_def counted_def after_get_def)
  next
    case (Inr gs)
    with get have found: "find_gs (wd_store (sy_world ?mid)) req = Inr gs" by simp
    from find_gs_Inr [OF found] have req: "request_of gs = req" by simp
    from Inr have Inr': "fst (ka_get_gs ?K req (io_env (s\<lparr>io_env := ?sy\<rparr>))) = Inr gs" by simp
    have ag: "io_env (after_get ?K req (s\<lparr>io_env := ?sy\<rparr>)) = ?mid" by (simp add: after_get_def get(2))
    show ?thesis unfolding wp_reconcile_found [OF Inr']
    proof (rule wpI)
      fix o1 t assume run: "run_state (reconcile_found ?K req gs) (after_get ?K req (s\<lparr>io_env := ?sy\<rparr>)) = (o1, t)"
      have ft: "sound P (sy_world (io_env t)) \<and> worker_trace P gs ?mid (io_env t)"
        using found_trace [where P = P and s = "after_get ?K req (s\<lparr>io_env := ?sy\<rparr>)" and gs = gs, unfolded ag req,
          OF mid pinned_found [OF mid found] run] .
      from worker_trace_read [where gs = gs, unfolded req, OF conjunct2 [OF ft]] have "worker_trace P gs ?sy (io_env t)" .
      with ft req show "sound P (sy_world (io_env (counted req (oc_label o1) t))) \<and>
          (\<exists>tr. traced P (of_worker req) tr ?sy (io_env (counted req (oc_label o1) t)) \<and>
            (case fst (ka_get_gs ?K req ?sy) of Inl err \<Rightarrow> own tr = []
             | Inr gs \<Rightarrow> request_of gs = req \<and> list_all (worker_event gs) (own tr)))"
        by (simp only: Inr sum.case worker_trace_def counted_env simp_thms)
    qed
  qed
qed

text \<open>
  C3: a reconcile of a resource, from any state of the cluster that users, agents, clients and workers can
  reach and whatever they do between its calls, does to the cluster what a sequence of atomic events does:
  the scheduled events of the others, in their order, and writes of this worker for the resource as it
  read it first, each under its guard (the finalizer is dropped only when no metadata and no token of
  the resource is left, and these are written only while the resource has the finalizer). When the
  resource was not found it writes nothing.
\<close>

theorem reconcile_atomic:
  "wp (reconcile (shared_api P req) req) (\<lambda>o1 t.
     \<exists>tr. traced P (of_worker req) tr (shared_start P es sched w) (io_env t) \<and>
       (case fst (ka_get_gs (shared_api P req) req (shared_start P es sched w)) of
          Inl err \<Rightarrow> own tr = []
        | Inr gs \<Rightarrow> request_of gs = req \<and> list_all (worker_event gs) (own tr))) (s\<lparr>io_env := shared_start P es sched w\<rparr>)"
  by (rule wp_mono [OF reconcile_shared]) blast

subsection \<open>Agents and webhooks under interference\<close>

lemma report_entries:
  "mget (stored_data ns (status_config_map_name cr) (report ns cr gw json k)) g =
     (if g = gw then Some json else mget (stored_data ns (status_config_map_name cr) k) g)"
  "lookup_in (cl_cms (report ns cr gw json k)) (is_cm ns (status_config_map_name cr)) (status_config_map_name cr) \<noteq> Inl e"
proof -
  let ?n = "status_config_map_name cr"
  have "mget (stored_data ns ?n (report ns cr gw json k)) g = (if g = gw then Some json else mget (stored_data ns ?n k) g) \<and>
    lookup_in (cl_cms (report ns cr gw json k)) (is_cm ns ?n) ?n \<noteq> Inl e"
  proof (cases "lookup_in (cl_cms k) (is_cm ns ?n) ?n")
    case (Inl err)
    have "cm_namespace (new_status_cm ns cr gw json) = ns" "cm_name (new_status_cm ns cr gw json) = ?n"
      "cm_data (new_status_cm ns cr gw json) = [(gw, json)]"
      by (simp_all add: new_status_cm_def)
    with store_create_cm_new(2) [OF Inl this(1,2)] Inl show ?thesis by (simp add: report_def stored_data_def)
  next
    case (Inr cm)
    then have "cm_namespace (cm\<lparr>cm_data := d\<rparr>) = ns" "cm_name (cm\<lparr>cm_data := d\<rparr>) = ?n" for d
      using lookup_cm [OF Inr] by simp_all
    from store_update_cm_found(2) [OF Inr this] Inr show ?thesis by (simp add: report_def stored_data_def)
  qed
  then show "mget (stored_data ns ?n (report ns cr gw json k)) g = (if g = gw then Some json else mget (stored_data ns ?n k) g)"
    "lookup_in (cl_cms (report ns cr gw json k)) (is_cm ns ?n) ?n \<noteq> Inl e" by simp_all
qed

text \<open>
  C7: however many agents, users and workers act between its calls, a status write of an agent does
  exactly one atomic report when it succeeds and nothing when it fails, whatever conflicts it met: the
  report sets the agent's own entry, creating the ConfigMap when it is missing, and keeps the entries that
  other agents have written by then.
\<close>

theorem status_write_atomic:
  "(case run_state (write_status_config_map (shared_cm_api P) J ns cr gw st) (s\<lparr>io_env := shared_start P es sched w\<rparr>) of (r, t) \<Rightarrow>
     \<exists>tr. traced P (\<lambda>_. False) tr (shared_start P es sched w) (io_env t) \<and>
       own tr = (if r = None then [Reports ns cr gw (json_status J st)] else [])) \<and>
   mget (stored_data ns (status_config_map_name cr) (wd_store (act P (Reports ns cr gw json) wd))) g =
     (if g = gw then Some json else mget (stored_data ns (status_config_map_name cr) (wd_store wd)) g)"
proof
  obtain r t where run: "run_state (write_status_config_map (shared_cm_api P) J ns cr gw st) (s\<lparr>io_env := shared_start P es sched w\<rparr>) = (r, t)"
    by (rule prod.exhaust)
  have "report_trace P (reported ns cr gw (json_status J st) r) (shared_start P es sched w) (io_env t)"
    using attempts_trace [OF _ run [unfolded write_status_config_map_def]] by (simp add: start_sound)
  then show "case run_state (write_status_config_map (shared_cm_api P) J ns cr gw st) (s\<lparr>io_env := shared_start P es sched w\<rparr>) of (r, t) \<Rightarrow>
     \<exists>tr. traced P (\<lambda>_. False) tr (shared_start P es sched w) (io_env t) \<and>
       own tr = (if r = None then [Reports ns cr gw (json_status J st)] else [])"
    by (simp add: run report_trace_def reported_def)
next
  show "mget (stored_data ns (status_config_map_name cr) (wd_store (act P (Reports ns cr gw json) wd))) g =
     (if g = gw then Some json else mget (stored_data ns (status_config_map_name cr) (wd_store wd)) g)"
    by (simp add: report_entries(1))
qed

text \<open>
  A report that comes after the deletion of its resource is kept: it creates the status ConfigMap, which
  no owner reference ties to anything, and a worker writes nothing for a resource that is gone.
\<close>

lemma late_report_stays:
  assumes "find_gs (wd_store wd) (ns, cr) = Inl e"
  shows "has_cm (wd_store (act P (Reports ns cr gw json) wd)) ns (status_config_map_name cr)"
    "find_gs (wd_store (act P (Reports ns cr gw json) wd)) (ns, cr) = Inl e"
proof -
  show "has_cm (wd_store (act P (Reports ns cr gw json) wd)) ns (status_config_map_name cr)"
    using report_entries(2) [of ns cr gw json "wd_store wd"] by (auto simp: has_cm_def lookup_in_Inl)
  have "cl_gs (report ns cr gw json k) = cl_gs k" for k
    using same_resources_cms [of k] by (auto simp: report_def same_resources_def split: sum.split)
  with assms show "find_gs (wd_store (act P (Reports ns cr gw json) wd)) (ns, cr) = Inl e" by (simp add: find_gs_def)
qed

text \<open>
  C8: a webhook request, whatever happens between its calls, changes the cluster by at most one atomic
  event: the three annotations of the request are set on the resource as it was read, when nobody has
  changed the resource since, and nothing else of it is touched; a rejected request changes nothing.
\<close>

theorem webhook_atomic:
  "wp (handle_webhook (shared_receiver P V) rv r) (\<lambda>rep t.
     \<exists>tr. traced P (\<lambda>_. False) tr (shared_start P es sched w) (io_env t) \<and>
       (if own tr = [] then True
        else (\<exists>gs ref at source. request_of gs = (wr_namespace r, wr_cr_name r) \<and> own tr = [Annotates gs (requested ref at source gs)])) \<and>
       (if wp_status rep \<in> {400, 401} then tr = [] else True)) (s\<lparr>io_env := shared_start P es sched w\<rparr>)"
proof (rule wpI)
  let ?sy = "shared_start P es sched w"
  let ?req = "(wr_namespace r, wr_cr_name r)"
  fix rep t
  assume run: "run_state (handle_webhook (shared_receiver P V) rv r) (s\<lparr>io_env := ?sy\<rparr>) = (rep, t)"
  have status: "wp_status a \<notin> {400, 401}" if "run_state (apply_request (shared_receiver P V) r ref source) u = (a, b)" for ref source u a b
    using that by (auto simp: apply_request_def reply_def split_beta Let_def split: sum.splits if_splits option.splits)
  have cases: "io_env t = ?sy \<or> (\<exists>ref source. run_state (apply_request (shared_receiver P V) r ref source) (s\<lparr>io_env := ?sy\<rparr>) = (rep, t))"
    using run by (auto simp: handle_webhook_def Let_def split: sum.splits if_splits prod.splits)
  then show "\<exists>tr. traced P (\<lambda>_. False) tr ?sy (io_env t) \<and>
       (if own tr = [] then True
        else (\<exists>gs ref at source. request_of gs = ?req \<and> own tr = [Annotates gs (requested ref at source gs)])) \<and>
       (if wp_status rep \<in> {400, 401} then tr = [] else True)"
  proof (elim disjE exE)
    assume "io_env t = ?sy"
    then show ?thesis by (intro exI [of _ "[]"]) (simp add: traced_refl)
  next
    fix ref source
    assume a: "run_state (apply_request (shared_receiver P V) r ref source) (s\<lparr>io_env := ?sy\<rparr>) = (rep, t)"
    have "webhook_trace P ?req ?sy (io_env t)" using webhook_runs [OF _ a] by (simp add: start_sound)
    then obtain tr where tr: "traced P (\<lambda>_. False) tr ?sy (io_env t)"
      "own tr = [] \<or> (\<exists>gs ref at source. request_of gs = ?req \<and> own tr = [Annotates gs (requested ref at source gs)])"
      unfolding webhook_trace_def by blast
    from tr(2) have c: "if own tr = [] then True
      else (\<exists>gs ref at source. request_of gs = ?req \<and> own tr = [Annotates gs (requested ref at source gs)])"
      by (cases "own tr = []") simp_all
    show ?thesis by (intro exI [of _ tr] conjI, rule tr(1), rule c) (use status [OF a] in simp)
  qed
qed

subsection \<open>What every state of the system satisfies\<close>

definition metadata_owner :: "config_map \<Rightarrow> namespaced_name option" where
  "metadata_owner cm = (if has_prefix (cm_name cm) metadata_prefix then Some (cm_namespace cm, drop (length metadata_prefix) (cm_name cm)) else None)"

definition token_owner :: "secret_obj \<Rightarrow> namespaced_name option" where
  "token_owner se = (if has_prefix (se_name se) token_prefix then Some (se_namespace se, drop (length token_prefix) (se_name se)) else None)"

lemma metadata_owner_Some: "metadata_owner cm = Some req \<Longrightarrow> is_metadata_of req cm"
  by (auto simp: metadata_owner_def is_metadata_of_def has_prefix_def prefix_def split: if_splits)

lemma token_owner_Some: "token_owner se = Some req \<Longrightarrow> is_token_of req se"
  by (auto simp: token_owner_def is_token_of_def has_prefix_def prefix_def split: if_splits)

definition backed_objects :: "cluster \<Rightarrow> bool" where
  "backed_objects k \<longleftrightarrow>
     list_all (\<lambda>cm. case metadata_owner cm of None \<Rightarrow> True | Some req \<Rightarrow> holds k req) (cl_cms k) \<and>
     list_all (\<lambda>se. case token_owner se of None \<Rightarrow> True | Some req \<Rightarrow> holds k req) (cl_secrets k)"

lemma sound_backed_objects:
  assumes "sound P wd"
  shows "backed_objects (wd_store wd)"
proof -
  have "holds (wd_store wd) req" if "cm \<in> set (cl_cms (wd_store wd))" "metadata_owner cm = Some req" for cm req
  proof -
    have "backed P wd cm" using assms that(1) by (simp add: sound_def)
    from backedD [OF this metadata_owner_Some [OF that(2)]] show ?thesis by blast
  qed
  moreover have "holds (wd_store wd) req" if "se \<in> set (cl_secrets (wd_store wd))" "token_owner se = Some req" for se req
    using assms that token_owner_Some [of se req] unfolding sound_def backed_token_def by blast
  ultimately show ?thesis by (auto simp: backed_objects_def list_all_iff split: option.split)
qed

text \<open>
  C4: after a reconcile, begun in any state the system can reach and interleaved with anything, every
  metadata ConfigMap and every token Secret belongs to a resource that exists and has the finalizer:
  neither is left over when its resource is gone, and the resource cannot go before they are removed.
\<close>

theorem no_orphans:
  "wp (reconcile (shared_api P req) req) (\<lambda>o1 t. backed_objects (wd_store (sy_world (io_env t))))
     (s\<lparr>io_env := shared_start P es sched w\<rparr>)"
  by (rule wp_mono [OF reconcile_shared]) (blast intro: sound_backed_objects)

text \<open>
  C5: after such a reconcile every resource, the reconciled one and the others, has the specification its
  user gave it last: no write of a worker, a webhook or an agent loses an edit, although workers and
  webhooks write back whole objects.
\<close>

theorem no_lost_edits:
  "wp (reconcile (shared_api P req) req) (\<lambda>o1 t.
     list_all (\<lambda>g. mget (wd_specs (sy_world (io_env t))) (request_of g) = Some (gy_spec g)) (cl_gs (wd_store (sy_world (io_env t)))))
     (s\<lparr>io_env := shared_start P es sched w\<rparr>)"
  by (rule wp_mono [OF reconcile_shared]) (simp add: sound_def latest_specs_def list_all_iff)

text \<open>What an agent finds under the metadata name of a resource, in every sound state of the cluster.\<close>

lemma sound_reads:
  assumes s: "sound P wd"
  shows "case fst (run_state (read_metadata_config_map store_cm_api ns cr) (u\<lparr>io_env := wd_store wd\<rparr>)) of
     Inl err \<Rightarrow> True
   | Inr meta \<Rightarrow> \<exists>gs result. request_of gs = (ns, cr) \<and> ((ns, cr), gy_spec gs) \<in> set (wd_specs wd) \<and>
       metadata_agrees gs result meta \<and> md_profiles meta = ka_encode_profiles P (resolve_profiles gs)"
proof -
  let ?look = "lookup_in (cl_cms (wd_store wd)) (is_cm ns (metadata_config_map_name cr)) (metadata_config_map_name cr)"
  have found: "\<exists>gs result. request_of gs = (ns, cr) \<and> ((ns, cr), gy_spec gs) \<in> set (wd_specs wd) \<and>
      metadata_agrees gs result (metadata_of cm) \<and> md_profiles (metadata_of cm) = ka_encode_profiles P (resolve_profiles gs)"
    if "?look = Inr cm" for cm
  proof -
    from that have "cm \<in> set (cl_cms (wd_store wd))" "is_cm ns (metadata_config_map_name cr) cm"
      by (auto simp: lookup_in_def find_Some_iff split: option.splits)
    then have "is_metadata_of (ns, cr) cm" "backed P wd cm" using s
      by (auto simp: is_cm_def is_metadata_of_def metadata_config_map_name_def metadata_prefix_def sound_def)
    from backedD [OF this(2,1)] obtain gs r where gs: "request_of gs = (ns, cr)" "seen gs wd" "cm_data cm = metadata_data P gs r"
      by blast
    then have "metadata_agrees gs r (metadata_of cm)" "md_profiles (metadata_of cm) = ka_encode_profiles P (resolve_profiles gs)"
      by (simp_all add: metadata_agrees_def metadata_of_def metadata_data_def mstr_def mget_append fmt_bool_def)
    with gs show ?thesis by (auto simp: seen_def)
  qed
  show ?thesis
    by (cases ?look) (use found in \<open>auto simp: read_metadata_config_map_def get_cm_def store_cm_api_def\<close>)
qed

text \<open>
  C6: run a reconcile in any state the system can reach, interleaved with anything, and let anything
  happen afterwards. An agent that then reads the metadata ConfigMap of a resource, of the reconciled one
  or of another, finds none or one whose repository, pause, authentication type and profiles are those of
  one specification a user gave to that resource: what the reconcile wrote, over whatever the ConfigMap
  held before, mixes no two specifications and no two resources.
\<close>

theorem agents_read_given_specs:
  "wp (reconcile (shared_api P req) req) (\<lambda>o1 t.
     let wd = run_events P later (sy_world (io_env t)) in
     case fst (run_state (read_metadata_config_map store_cm_api ns cr) (u\<lparr>io_env := wd_store wd\<rparr>)) of
       Inl err \<Rightarrow> True
     | Inr meta \<Rightarrow> \<exists>gs result. request_of gs = (ns, cr) \<and> ((ns, cr), gy_spec gs) \<in> set (wd_specs wd) \<and>
         metadata_agrees gs result meta \<and> md_profiles meta = ka_encode_profiles P (resolve_profiles gs))
     (s\<lparr>io_env := shared_start P es sched w\<rparr>)"
  by (rule wp_mono [OF reconcile_shared]) (unfold Let_def, elim conjE, rule sound_reads, rule run_events_sound)

text \<open>A deletion by the user removes nothing while the finalizer is there.\<close>

lemma deleting_keeps:
  assumes "sound P wd" "holds (wd_store wd) req" "has_metadata req (wd_store wd)"
  shows "has_metadata req (wd_store (act P (UserDeletes req) wd)) \<and> holds (wd_store (act P (UserDeletes req) wd)) req"
proof (cases "find_gs (wd_store wd) req")
  case (Inr g)
  have "has_finalizer g" using holds_unique [OF _ Inr assms(2)] assms(1) by (simp add: sound_def sound_versions_def)
  then have "holds (put_gs (marked_deleted (cl_time (wd_store wd)) g) (wd_store wd)) req"
    using find_gs_Inr [OF Inr] by (intro holds_put_gs [OF assms(2)]) (simp_all add: Inr)
  with assms Inr show ?thesis by simp
qed (simp add: assms)

text \<open>A history in which a worker publishes metadata; the resource of the sample has the finalizer from the start.\<close>

lemma sample_history:
  "let k = wd_store (run_events P [UserCreates sample_gs, Worker sample_gs (NewMetadata r), UserDeletes (''ns'', ''cr'')] no_world)
   in has_metadata (''ns'', ''cr'') k \<and> holds k (''ns'', ''cr'')"
proof -
  have req: "request_of sample_gs = (''ns'', ''cr'')"
    by (simp add: request_of_def gy_namespace_def gy_name_def sample_gs_def sample_meta_def)
  have fin: "has_finalizer sample_gs" by (simp add: has_finalizer_def sample_gs_def sample_meta_def)
  let ?w = "act P (UserCreates sample_gs) no_world"
  have w: "?w = no_world\<lparr>wd_store := (wd_store no_world)\<lparr>cl_gs := [fresh_resource 0 sample_gs], cl_rev := 1\<rparr>, wd_specs := [(request_of sample_gs, gy_spec sample_gs)]\<rparr>"
    by (simp add: no_world_def find_gs_def lookup_in_def Let_def)
  have h: "holds (wd_store ?w) (''ns'', ''cr'')" unfolding w using fin req
    by (simp add: holds_def) (simp add: fresh_resource_def set_version_def has_finalizer_def)
  have may: "may_write sample_gs (NewMetadata r) ?w" using h unfolding w
    by (simp add: may_write_def Let_def seen_def req)
  let ?v = "act P (Worker sample_gs (NewMetadata r)) ?w"
  have v: "?v = on_store (\<lambda>k. snd (store_create_cm (new_metadata_cm sample_gs (metadata_data P sample_gs r)) k)) ?w"
    using may by (simp add: perform_def [abs_def] del: act.simps(1))
  have cms: "cl_cms (wd_store ?w) = []" unfolding w by (simp add: no_world_def)
  have md: "has_metadata (''ns'', ''cr'') (wd_store ?v)" unfolding v
    using is_metadata_new [of sample_gs "metadata_data P sample_gs r"]
    by (simp add: has_metadata_def store_create_cm_cms cms req del: act.simps)
  have gs: "cl_gs (wd_store ?v) = cl_gs (wd_store ?w)" unfolding v
    using same_resources_cms(1) by (simp add: same_resources_def del: act.simps)
  have hv: "holds (wd_store ?v) (''ns'', ''cr'')" using h gs by (simp add: holds_def del: act.simps)
  have s: "sound P ?v" by (intro act_sound sound_no_world)
  from deleting_keeps [OF s hv md] show ?thesis unfolding Let_def run_events_simps .
qed

subsection \<open>Deletion comes to its end\<close>

lemma quiet_delete_config_maps:
  "\<exists>t. run_state (delete_config_maps (store_api G encode autoBind) gs ns) s = (None, t) \<and> cl_gs (io_env t) = cl_gs (io_env s)"
proof (induction ns arbitrary: s)
  case (Cons n ns)
  let ?look = "lookup_in (cl_cms (io_env s)) (is_cm (gy_namespace gs) n) n"
  show ?case
  proof (cases ?look)
    case (Inl e)
    then have "e = not_found n" by (simp add: lookup_in_Inl)
    with Inl Cons.IH [of s] show ?thesis by (simp add: store_api_def not_found_def)
  next
    case (Inr cm)
    then have ex: "list_ex (is_cm (cm_namespace cm) (cm_name cm)) (cl_cms (io_env s))"
      using lookup_cm [OF Inr] lookup_in_ex [OF Inr] by simp
    from Cons.IH [of "s\<lparr>io_env := snd (store_delete_cm cm (io_env s)), io_log := DeleteCM (cm_namespace cm) (cm_name cm) True # io_log s\<rparr>"] Inr ex show ?thesis
      by (auto simp: store_api_def logged_def store_delete_cm_def delete_from_def ignore_not_found_def)
  qed
qed simp

lemma quiet_cleanup:
  "\<exists>t. run_state (cleanup_owned_resources (store_api G encode autoBind) gs) s = (None, t) \<and> cl_gs (io_env t) = cl_gs (io_env s)"
proof -
  let ?s = "s\<lparr>io_log := rev (map (\<lambda>m. DropSeries m [gy_name gs, gy_namespace gs]) cr_metrics) @ io_log s\<rparr>"
  obtain u where u: "run_state (delete_config_maps (store_api G encode autoBind) gs (owned_config_maps gs)) ?s = (None, u)"
    "cl_gs (io_env u) = cl_gs (io_env s)" using quiet_delete_config_maps [of G encode autoBind gs "owned_config_maps gs" ?s] by auto
  let ?n = "github_token_secret_name (gy_name gs)"
  have "\<exists>t. run_state (delete_token_secret (store_api G encode autoBind) gs) u = (None, t) \<and> cl_gs (io_env t) = cl_gs (io_env u)"
  proof (cases "lookup_in (cl_secrets (io_env u)) (is_secret (gy_namespace gs) ?n) ?n")
    case (Inl e)
    then have "e = not_found ?n" by (simp add: lookup_in_Inl)
    with Inl show ?thesis by (simp add: delete_token_secret_def store_api_def Let_def ignore_not_found_def not_found_def)
  next
    case (Inr se)
    then have "is_secret (gy_namespace gs) ?n se" "list_ex (is_secret (gy_namespace gs) ?n) (cl_secrets (io_env u))"
      by (auto dest: lookup_in_Inr lookup_in_ex)
    then have "list_ex (is_secret (se_namespace se) (se_name se)) (cl_secrets (io_env u))" by (simp add: is_secret_def)
    with Inr show ?thesis
      by (simp add: delete_token_secret_def store_api_def Let_def logged_def store_delete_secret_def delete_from_def ignore_not_found_def)
  qed
  with u show ?thesis by (auto simp: cleanup_owned_resources_def cleanup_cr_metrics_def run_drop_series)
qed

text \<open>
  C9: a reconcile of a deleted resource that nobody disturbs ends without an error, with nothing of the
  resource left and the finalizer gone; when no one else has a finalizer on the resource, the resource
  is gone too.
\<close>

theorem deletion_completes:
  "case find_gs (io_env s) req of
     Inl err \<Rightarrow> True
   | Inr gs \<Rightarrow>
       if om_deletion_timestamp (gy_meta gs) \<noteq> None \<and> has_finalizer gs
       then wp (reconcile (store_api G encode autoBind) req) (\<lambda>o1 t.
         oc_error o1 = None \<and> nothing_left has_cm has_secret gs (io_env t) \<and> \<not> holds (io_env t) req \<and>
         (if list_all (\<lambda>f. f = stoker_finalizer) (om_finalizers (gy_meta gs)) then find_gs (io_env t) req = Inl (not_found (snd req)) else True)) s
       else True"
proof (cases "find_gs (io_env s) req")
  case (Inr gs)
  let ?K = "store_api G encode autoBind"
  show ?thesis
  proof (cases "om_deletion_timestamp (gy_meta gs) \<noteq> None \<and> has_finalizer gs")
    case True
    from find_gs_Inr [OF Inr] have req: "request_of gs = req" by simp
    let ?s = "if requested_ref gs \<noteq> [] then (after_get ?K req s)\<lparr>rc_backoff := reset_backoff req (rc_backoff (after_get ?K req s))\<rparr> else after_get ?K req s"
    have get: "fst (ka_get_gs ?K req (io_env s)) = Inr gs" and env: "io_env ?s = io_env s"
      using Inr by (simp_all add: store_api_def after_get_def)
    obtain u where u: "run_state (cleanup_owned_resources ?K gs) ?s = (None, u)" "cl_gs (io_env u) = cl_gs (io_env s)"
      using quiet_cleanup [of G encode autoBind gs ?s] env by auto
    have left: "nothing_left has_cm has_secret gs (io_env u)" by (rule store.cleanup_leaves_nothing [OF u(1)])
    let ?g = "(remove_finalizer gs)\<lparr>gy_status := gy_status gs\<rparr>"
    have found: "find_gs (io_env u) req = Inr gs" using Inr u(2) by (simp add: find_gs_def)
    then have upd: "store_update_gs (remove_finalizer gs) (io_env u) = (None, put_gs ?g (io_env u))"
      using finalizer_requests(4) [of gs] by (simp add: store_update_gs_def find_gs_request req version_of_def)
    have gone: "\<not> holds (put_gs ?g (io_env u)) req"
      using req by (auto simp: holds_def list_ex_iff dest!: put_gs_cases)
        (auto simp: has_finalizer_def remove_finalizer_def map_finalizers_def)
    have fin: "find_gs (put_gs ?g (io_env u)) req = Inl (not_found (snd req))" if "list_all (\<lambda>f. f = stoker_finalizer) (om_finalizers (gy_meta gs))"
    proof -
      have "finished ?g" using that True by (auto simp: finished_def remove_finalizer_def map_finalizers_def list_all_iff filter_empty_conv)
      then have "g \<in> set (cl_gs (put_gs ?g (io_env u))) \<Longrightarrow> request_of g \<noteq> req" for g
        using req by (auto dest!: put_gs_cases)
      then show ?thesis by (cases req) (auto simp: find_gs_def lookup_in_Inl list_ex_iff is_gs_def request_of_def)
    qed
    have left': "nothing_left has_cm has_secret gs (put_gs ?g (io_env u))"
      using left by (simp add: nothing_left_def has_cm_def has_secret_def)
    have run: "run_state (reconcile_found ?K req gs) (after_get ?K req s) = run_state (reconcile_deleted ?K req gs) ?s"
      using True by (simp add: reconcile_found_def reset_failures_def)
    have del: "run_state (reconcile_deleted ?K req gs) ?s = (success None, u\<lparr>rc_backoff := reset_backoff req (rc_backoff u),
        io_env := put_gs ?g (io_env u), io_log := UpdateGS (remove_finalizer gs) True # io_log u\<rparr>)"
      using u(1) True upd by (simp add: reconcile_deleted_def reset_failures_def update_gs_def logged_def store_api_def)
    show ?thesis unfolding Inr sum.case if_P [OF True] wp_reconcile_found [OF get] unfolding wp_def run del
      using left' gone fin by (simp add: success_def counted_def)
  next
    case False
    then show ?thesis unfolding Inr sum.case by (simp only: if_False)
  qed
qed simp

end
