(* ===== verification/GoHeap.thy ===== *)
theory GoHeap
  imports Effects
begin

section \<open>Go's memory: cells, pointers, slices, maps, and what a deep copy is\<close>

text \<open>
  The memory of a Go program as cells with addresses; a struct with pointers is a record whose
  fields are addresses, so that two structs can share a cell. \<open>new\<close>, \<open>make\<close> and a map literal take
  the next address; what the cell holds before the first write is the zero value, which the code
  modelled here overwrites whole before it reads it. The locale says what a deep copy promises,
  and the lemmas after it build deep copies of pointers, slices, maps and structs from deep copies
  of what they hold.
\<close>

record 'c heap =
  hp_cell :: "nat \<Rightarrow> 'c"
  hp_next :: nat              \<comment> \<open>the first address not in use\<close>

text \<open>A slice header; a nil slice, map or pointer is \<open>None\<close>.\<close>

record slice =
  sl_array :: nat
  sl_offset :: nat
  sl_len :: nat

type_synonym ('c, 'a) copying = "('c heap, 'a) state"

definition hnew :: "('c, nat) copying" where
  "hnew = State (\<lambda>h. (hp_next h, h\<lparr>hp_next := hp_next h + 1\<rparr>))"

definition hload :: "nat \<Rightarrow> ('c, 'c) copying" where
  "hload a = reads (\<lambda>h. hp_cell h a)"

definition hstore :: "nat \<Rightarrow> 'c \<Rightarrow> ('c, unit) copying" where
  "hstore a c = modify (\<lambda>h. h\<lparr>hp_cell := (hp_cell h)(a := c)\<rparr>)"

lemma run_hnew [simp]: "run_state hnew h = (hp_next h, h\<lparr>hp_next := hp_next h + 1\<rparr>)"
  by (simp add: hnew_def)

lemma run_hload [simp]: "run_state (hload a) h = (hp_cell h a, h)"
  by (simp add: hload_def)

lemma run_hstore [simp]: "run_state (hstore a c) h = ((), h\<lparr>hp_cell := (hp_cell h)(a := c)\<rparr>)"
  by (simp add: hstore_def)

lemma run_do [simp]:
  "run_state (ret x) h = (x, h)"
  "run_state (m \<bind> f) h = (case run_state m h of (r, h') \<Rightarrow> run_state (f r) h')"
  by (simp_all add: State_Monad.return_def split: prod.splits)

subsection \<open>Deep copies\<close>

text \<open>What a program may do to memory it was not given: only add to it.\<close>

definition kept :: "'c heap \<Rightarrow> 'c heap \<Rightarrow> bool" where
  "kept h h' \<longleftrightarrow> hp_next h \<le> hp_next h' \<and> (\<forall>a<hp_next h. hp_cell h' a = hp_cell h a)"

lemma kept_refl [simp, intro]: "kept h h"
  by (simp add: kept_def)

lemma kept_trans: "kept h h' \<Longrightarrow> kept h' h'' \<Longrightarrow> kept h h''"
  by (auto simp: kept_def)

definition owned :: "nat list \<Rightarrow> 'c heap \<Rightarrow> bool" where
  "owned as h \<longleftrightarrow> (\<forall>a\<in>set as. a < hp_next h)"

definition fresh_in :: "nat list \<Rightarrow> 'c heap \<Rightarrow> 'c heap \<Rightarrow> bool" where
  "fresh_in as h h' \<longleftrightarrow> distinct as \<and> (\<forall>a\<in>set as. hp_next h \<le> a \<and> a < hp_next h')"

lemma owned_simps [simp]:
  "owned [] h"
  "owned (a # as) h \<longleftrightarrow> a < hp_next h \<and> owned as h"
  "owned (as @ bs) h \<longleftrightarrow> owned as h \<and> owned bs h"
  "owned (concat (map f xs)) h \<longleftrightarrow> (\<forall>x\<in>set xs. owned (f x) h)"
  by (auto simp: owned_def)

lemma owned_kept: "owned as h \<Longrightarrow> kept h h' \<Longrightarrow> owned as h'"
  by (fastforce simp: owned_def kept_def)

lemma fresh_in_Nil [simp]: "fresh_in [] h h'"
  by (simp add: fresh_in_def)

lemma fresh_owned: "fresh_in as h h' \<Longrightarrow> owned as h'"
  by (simp add: owned_def fresh_in_def)

lemma fresh_append:
  "fresh_in as h h1 \<Longrightarrow> fresh_in bs h1 h2 \<Longrightarrow> kept h h1 \<Longrightarrow> kept h1 h2 \<Longrightarrow> fresh_in (as @ bs) h h2"
  by (fastforce simp: fresh_in_def kept_def)

text \<open>
  \<open>view\<close> reads a value with everything it points to as a value without pointers, \<open>reach\<close> lists the
  cells that reading visits, and \<open>into\<close> is the copy.
\<close>

locale deep_copier =
  fixes view :: "'c heap \<Rightarrow> 'a \<Rightarrow> 'b"
    and reach :: "'c heap \<Rightarrow> 'a \<Rightarrow> nat list"
    and into :: "'a \<Rightarrow> ('c, 'a) copying"
  assumes reads_reach: "(\<And>a. a \<in> set (reach h x) \<Longrightarrow> hp_cell h' a = hp_cell h a) \<Longrightarrow>
      view h' x = view h x \<and> reach h' x = reach h x"
    and copies: "owned (reach h x) h \<Longrightarrow> run_state (into x) h = (y, h') \<Longrightarrow>
      kept h h' \<and> view h' y = view h x \<and> fresh_in (reach h' y) h h'"
begin

lemma kept_reach: "kept h h' \<Longrightarrow> owned (reach h x) h \<Longrightarrow> view h' x = view h x \<and> reach h' x = reach h x"
  by (rule reads_reach) (simp add: kept_def owned_def)

text \<open>The copy is the value copied, and stays it whatever is written to any other cell.\<close>

lemma copy_survives:
  assumes "owned (reach h x) h" "run_state (into x) h = (y, h')"
    and "\<And>a. hp_next h \<le> a \<Longrightarrow> a < hp_next h' \<Longrightarrow> hp_cell h'' a = hp_cell h' a"
  shows "view h'' y = view h x"
  using copies[OF assms(1,2)] reads_reach[of h' y h''] assms(3) by (auto simp: fresh_in_def)

lemma original_survives:
  assumes "owned (reach h x) h" "run_state (into x) h = (y, h')"
    and "\<And>a. a < hp_next h \<Longrightarrow> hp_cell h'' a = hp_cell h' a"
  shows "view h'' x = view h x"
  using copies[OF assms(1,2)] assms(1,3) reads_reach[of h x h'']
  by (auto simp: kept_def owned_def)

lemma apart:
  assumes "owned (reach h x) h" "run_state (into x) h = (y, h')"
  shows "set (reach h' y) \<inter> set (reach h' x) = {}"
  using copies[OF assms] kept_reach[of h h' x] assms(1) by (fastforce simp: fresh_in_def owned_def)

end

subsection \<open>Values without pointers, pairs, lists\<close>

lemma copier_flat: "deep_copier (\<lambda>h x. f x) (\<lambda>h x. []) ret"
  by unfold_locales (auto simp: fresh_in_def)

definition copy_pair :: "('a \<Rightarrow> ('c, 'a) copying) \<Rightarrow> ('b \<Rightarrow> ('c, 'b) copying) \<Rightarrow> 'a \<times> 'b \<Rightarrow> ('c, 'a \<times> 'b) copying" where
  "copy_pair i j p = do { x \<leftarrow> i (fst p); y \<leftarrow> j (snd p); ret (x, y) }"

text \<open>Two copies in sequence: the second leaves the first as it is, and takes other cells.\<close>

lemma copy_sequence:
  assumes i: "deep_copier v r i" and own: "owned (r h x) h" and run: "run_state (i x) h = (x', h1)"
    and j: "kept h1 h'" "fresh_in bs h1 h'"
  shows "kept h h' \<and> v h' x' = v h x \<and> fresh_in (r h' x' @ bs) h h'"
proof -
  have 1: "kept h h1" "v h1 x' = v h x" "fresh_in (r h1 x') h h1"
    using deep_copier.copies[OF i own run] by auto
  have "v h' x' = v h1 x'" "r h' x' = r h1 x'" using deep_copier.kept_reach[OF i j(1) fresh_owned[OF 1(3)]] by auto
  thus ?thesis using 1 j kept_trans[OF 1(1) j(1)] fresh_append[OF 1(3) j(2) 1(1) j(1)] by simp
qed

lemma copier_pair:
  fixes v :: "'c heap \<Rightarrow> 'a \<Rightarrow> 'b" and w :: "'c heap \<Rightarrow> 'd \<Rightarrow> 'e"
  assumes "deep_copier v r i" "deep_copier w q j"
  shows "deep_copier (\<lambda>h p. (v h (fst p), w h (snd p))) (\<lambda>h p. r h (fst p) @ q h (snd p)) (copy_pair i j)"
proof
  fix h h' :: "'c heap" and p assume "\<And>a. a \<in> set (r h (fst p) @ q h (snd p)) \<Longrightarrow> hp_cell h' a = hp_cell h a"
  thus "(v h' (fst p), w h' (snd p)) = (v h (fst p), w h (snd p)) \<and>
    r h' (fst p) @ q h' (snd p) = r h (fst p) @ q h (snd p)"
    using deep_copier.reads_reach[OF assms(1), of h "fst p" h']
      deep_copier.reads_reach[OF assms(2), of h "snd p" h'] by auto
next
  fix h h' :: "'c heap" and p y
  assume own: "owned (r h (fst p) @ q h (snd p)) h" and run: "run_state (copy_pair i j p) h = (y, h')"
  obtain x' h1 y' where x: "run_state (i (fst p)) h = (x', h1)" "run_state (j (snd p)) h1 = (y', h')" "y = (x', y')"
    using run by (auto simp: copy_pair_def split: prod.splits)
  have k: "kept h h1" using deep_copier.copies[OF assms(1) _ x(1)] own by simp
  have same: "w h1 (snd p) = w h (snd p)" "q h1 (snd p) = q h (snd p)"
    using deep_copier.kept_reach[OF assms(2) k] own by auto
  have 2: "kept h1 h'" "w h' y' = w h (snd p)" "fresh_in (q h' y') h1 h'"
    using deep_copier.copies[OF assms(2) _ x(2)] owned_kept[OF _ k] own same by auto
  show "kept h h' \<and> (v h' (fst y), w h' (snd y)) = (v h (fst p), w h (snd p)) \<and>
      fresh_in (r h' (fst y) @ q h' (snd y)) h h'"
    using copy_sequence[OF assms(1) _ x(1) 2(1,3)] own 2 x(3) by simp
qed

fun copy_each :: "('a \<Rightarrow> ('c, 'a) copying) \<Rightarrow> 'a list \<Rightarrow> ('c, 'a list) copying" where
  "copy_each i [] = ret []"
| "copy_each i (x # xs) = do { y \<leftarrow> i x; ys \<leftarrow> copy_each i xs; ret (y # ys) }"

lemma length_copy_each: "run_state (copy_each i xs) h = (ys, h') \<Longrightarrow> length ys = length xs"
  by (induction xs arbitrary: h ys h') (auto split: prod.splits)

lemma copier_each:
  fixes v :: "'c heap \<Rightarrow> 'a \<Rightarrow> 'b"
  assumes i: "deep_copier v r i"
  shows "deep_copier (\<lambda>h. map (v h)) (\<lambda>h xs. concat (map (r h) xs)) (copy_each i)"
proof
  fix h h' :: "'c heap" and xs
  assume "\<And>a. a \<in> set (concat (map (r h) xs)) \<Longrightarrow> hp_cell h' a = hp_cell h a"
  hence "\<forall>x\<in>set xs. v h' x = v h x \<and> r h' x = r h x"
    by (auto intro!: deep_copier.reads_reach[OF i])
  thus "map (v h') xs = map (v h) xs \<and> concat (map (r h') xs) = concat (map (r h) xs)"
    by (simp cong: map_cong)
next
  fix h h' :: "'c heap" and xs ys
  assume "owned (concat (map (r h) xs)) h" "run_state (copy_each i xs) h = (ys, h')"
  thus "kept h h' \<and> map (v h') ys = map (v h) xs \<and> fresh_in (concat (map (r h') ys)) h h'"
  proof (induction xs arbitrary: h ys)
    case Nil
    thus ?case by (simp add: fresh_in_def)
  next
    case (Cons x xs)
    obtain y h1 where y: "run_state (i x) h = (y, h1)" by (cases "run_state (i x) h")
    obtain zs h2 where zs: "run_state (copy_each i xs) h1 = (zs, h2)" by (cases "run_state (copy_each i xs) h1")
    have h2: "h2 = h'" "ys = y # zs" using Cons.prems(2) y zs by auto
    have own: "owned (r h x) h" "owned (concat (map (r h) xs)) h" using Cons.prems(1) by simp_all
    have k: "kept h h1" using deep_copier.copies[OF i own(1) y] by simp
    have same: "\<forall>x\<in>set xs. v h1 x = v h x \<and> r h1 x = r h x"
      using own(2) deep_copier.kept_reach[OF i k] by auto
    hence "concat (map (r h1) xs) = concat (map (r h) xs)" "map (v h1) xs = map (v h) xs"
      by (simp_all cong: map_cong)
    hence 2: "kept h1 h'" "map (v h') zs = map (v h) xs" "fresh_in (concat (map (r h') zs)) h1 h'"
      using Cons.IH[of h1 zs] owned_kept[OF own(2) k] zs h2(1) by auto
    show ?case using copy_sequence[OF i own(1) y 2(1,3)] 2(2) h2(2) by simp
  qed
qed

subsection \<open>Pointers, slices, maps\<close>

text \<open>
  \<open>out := new(T); in.DeepCopyInto(out)\<close>: a new cell, and in it a copy of what the other holds. How
  the content is read from the cell (\<open>D\<close>) and how the reference to the new cell is made (\<open>mk\<close>) may
  depend on the reference copied, which a slice needs.
\<close>

definition copy_cell :: "('x \<Rightarrow> nat) \<Rightarrow> ('x \<Rightarrow> nat \<Rightarrow> 'x) \<Rightarrow> ('a \<Rightarrow> 'c) \<Rightarrow> ('x \<Rightarrow> 'c \<Rightarrow> 'a) \<Rightarrow> ('a \<Rightarrow> ('c, 'a) copying) \<Rightarrow>
    'x \<Rightarrow> ('c, 'x) copying" where
  "copy_cell at mk C D i x = do {
     out \<leftarrow> hnew;
     c \<leftarrow> hload (at x);
     v \<leftarrow> i (D x c);
     u \<leftarrow> hstore out (C v);
     ret (mk x out) }"

lemma copier_cell:
  fixes v :: "'c heap \<Rightarrow> 'a \<Rightarrow> 'b"
  assumes i: "deep_copier v r i"
    and at: "\<And>x n. at (mk x n) = n"
    and D: "\<And>x n c h y h'. run_state (i (D x c)) h = (y, h') \<Longrightarrow> D (mk x n) (C y) = y"
  shows "deep_copier (\<lambda>h x. v h (D x (hp_cell h (at x)))) (\<lambda>h x. at x # r h (D x (hp_cell h (at x))))
    (copy_cell at mk C D i)"
proof
  fix h h' :: "'c heap" and x
  assume *: "\<And>a. a \<in> set (at x # r h (D x (hp_cell h (at x)))) \<Longrightarrow> hp_cell h' a = hp_cell h a"
  hence "hp_cell h' (at x) = hp_cell h (at x)" by simp
  thus "v h' (D x (hp_cell h' (at x))) = v h (D x (hp_cell h (at x))) \<and>
     at x # r h' (D x (hp_cell h' (at x))) = at x # r h (D x (hp_cell h (at x)))"
    using deep_copier.reads_reach[OF i, of h "D x (hp_cell h (at x))" h'] * by auto
next
  fix h h' :: "'c heap" and x y
  assume own: "owned (at x # r h (D x (hp_cell h (at x)))) h"
    and run: "run_state (copy_cell at mk C D i x) h = (y, h')"
  note copies = deep_copier.copies[OF i] and kept_reach = deep_copier.kept_reach[OF i]
  let ?h1 = "h\<lparr>hp_next := hp_next h + 1\<rparr>" and ?d = "D x (hp_cell h (at x))"
  obtain z h2 where z: "run_state (i ?d) ?h1 = (z, h2)" by (cases "run_state (i ?d) ?h1")
  have y: "y = mk x (hp_next h)" and h': "h' = h2\<lparr>hp_cell := (hp_cell h2)(hp_next h := C z)\<rparr>"
    using run z by (simp_all add: copy_cell_def)
  have "kept h ?h1" by (simp add: kept_def)
  hence d1: "v ?h1 ?d = v h ?d" "r ?h1 ?d = r h ?d" using kept_reach[of h ?h1 ?d] own by auto
  hence 2: "kept ?h1 h2" "v h2 z = v h ?d" "fresh_in (r h2 z) ?h1 h2"
    using copies[OF owned_kept[OF _ \<open>kept h ?h1\<close>] z] own by simp_all
  have "\<And>a. a \<in> set (r h2 z) \<Longrightarrow> hp_cell h' a = hp_cell h2 a"
    using 2(3) by (auto simp: h' fresh_in_def)
  hence 3: "v h' z = v h2 z" "r h' z = r h2 z" using deep_copier.reads_reach[OF i] by blast+
  have content: "D y (hp_cell h' (at y)) = z" using D[OF z] by (simp add: y h' at)
  show "kept h h' \<and> v h' (D y (hp_cell h' (at y))) = v h ?d \<and>
      fresh_in (at y # r h' (D y (hp_cell h' (at y)))) h h'"
    using 2 3 content by (auto simp: y h' at kept_def fresh_in_def)
qed

definition copy_option :: "('a \<Rightarrow> ('c, 'a) copying) \<Rightarrow> 'a option \<Rightarrow> ('c, 'a option) copying" where
  "copy_option i p = (case p of None \<Rightarrow> ret None | Some a \<Rightarrow> do { b \<leftarrow> i a; ret (Some b) })"

lemma copier_option:
  fixes v :: "'c heap \<Rightarrow> 'a \<Rightarrow> 'b"
  assumes "deep_copier v r i"
  shows "deep_copier (\<lambda>h. map_option (v h)) (\<lambda>h p. case p of None \<Rightarrow> [] | Some a \<Rightarrow> r h a) (copy_option i)"
proof
  fix h h' :: "'c heap" and p
  assume "\<And>a. a \<in> set (case p of None \<Rightarrow> [] | Some a \<Rightarrow> r h a) \<Longrightarrow> hp_cell h' a = hp_cell h a"
  thus "map_option (v h') p = map_option (v h) p \<and>
      (case p of None \<Rightarrow> [] | Some a \<Rightarrow> r h' a) = (case p of None \<Rightarrow> [] | Some a \<Rightarrow> r h a)"
    using deep_copier.reads_reach[OF assms, of h "the p" h'] by (cases p) auto
next
  fix h h' :: "'c heap" and p y
  assume "owned (case p of None \<Rightarrow> [] | Some a \<Rightarrow> r h a) h" "run_state (copy_option i p) h = (y, h')"
  thus "kept h h' \<and> map_option (v h') y = map_option (v h) p \<and>
      fresh_in (case y of None \<Rightarrow> [] | Some a \<Rightarrow> r h' a) h h'"
    using deep_copier.copies[OF assms, of h "the p"]
    by (cases p; cases "run_state (i (the p)) h") (auto simp: copy_option_def)
qed

text \<open>The same for a pointer, a slice and a map: how it is read, the cells behind it, its copy.\<close>

definition view_ptr :: "('c \<Rightarrow> 'a) \<Rightarrow> ('c heap \<Rightarrow> 'a \<Rightarrow> 'b) \<Rightarrow> 'c heap \<Rightarrow> nat option \<Rightarrow> 'b option" where
  "view_ptr D v h p = map_option (\<lambda>a. v h (D (hp_cell h a))) p"

definition reach_ptr :: "('c \<Rightarrow> 'a) \<Rightarrow> ('c heap \<Rightarrow> 'a \<Rightarrow> nat list) \<Rightarrow> 'c heap \<Rightarrow> nat option \<Rightarrow> nat list" where
  "reach_ptr D r h p = (case p of None \<Rightarrow> [] | Some a \<Rightarrow> a # r h (D (hp_cell h a)))"

definition copy_ptr :: "('a \<Rightarrow> 'c) \<Rightarrow> ('c \<Rightarrow> 'a) \<Rightarrow> ('a \<Rightarrow> ('c, 'a) copying) \<Rightarrow> nat option \<Rightarrow> ('c, nat option) copying" where
  "copy_ptr C D i = copy_option (copy_cell (\<lambda>a. a) (\<lambda>a n. n) C (\<lambda>a. D) i)"

lemma copier_ptr:
  assumes "deep_copier v r i" "\<And>x. D (C x) = x"
  shows "deep_copier (view_ptr D v) (reach_ptr D r) (copy_ptr C D i)"
  using copier_option[OF copier_cell[OF assms(1), of "\<lambda>a. a" "\<lambda>a n. n" "\<lambda>a. D" C]] assms(2)
  unfolding view_ptr_def[abs_def] reach_ptr_def[abs_def] copy_ptr_def by simp

text \<open>\<open>make([]T, len(*in))\<close> and a copy of every element; the array may be longer than the slice.\<close>

definition window :: "('c \<Rightarrow> 'a list) \<Rightarrow> slice \<Rightarrow> 'c \<Rightarrow> 'a list" where
  "window D s c = take (sl_len s) (drop (sl_offset s) (D c))"

definition view_slice :: "('c \<Rightarrow> 'a list) \<Rightarrow> ('c heap \<Rightarrow> 'a \<Rightarrow> 'b) \<Rightarrow> 'c heap \<Rightarrow> slice option \<Rightarrow> 'b list option" where
  "view_slice D v h s = map_option (\<lambda>s. map (v h) (window D s (hp_cell h (sl_array s)))) s"

definition reach_slice :: "('c \<Rightarrow> 'a list) \<Rightarrow> ('c heap \<Rightarrow> 'a \<Rightarrow> nat list) \<Rightarrow> 'c heap \<Rightarrow> slice option \<Rightarrow> nat list" where
  "reach_slice D r h s = (case s of None \<Rightarrow> []
     | Some s \<Rightarrow> sl_array s # concat (map (r h) (window D s (hp_cell h (sl_array s)))))"

definition copy_slice :: "('a list \<Rightarrow> 'c) \<Rightarrow> ('c \<Rightarrow> 'a list) \<Rightarrow> ('a \<Rightarrow> ('c, 'a) copying) \<Rightarrow> slice option \<Rightarrow>
    ('c, slice option) copying" where
  "copy_slice C D i = copy_option (copy_cell sl_array (\<lambda>s n. s\<lparr>sl_array := n, sl_offset := 0\<rparr>) C (window D) (copy_each i))"

lemma copier_slice:
  assumes "deep_copier v r i" "\<And>x. D (C x) = x"
  shows "deep_copier (view_slice D v) (reach_slice D r) (copy_slice C D i)"
  using copier_option[OF copier_cell[OF copier_each[OF assms(1)],
    of sl_array "\<lambda>s n. s\<lparr>sl_array := n, sl_offset := 0\<rparr>" "window D" C]] assms(2)
  unfolding view_slice_def[abs_def] reach_slice_def[abs_def] copy_slice_def
  by (fastforce simp: window_def dest: length_copy_each)

text \<open>\<open>make(map[string]T, len(*in))\<close> and an entry for every entry, in the order of the iteration.\<close>

definition copy_entry :: "('a \<Rightarrow> ('c, 'a) copying) \<Rightarrow> 'k \<times> 'a \<Rightarrow> ('c, 'k \<times> 'a) copying" where
  "copy_entry i = copy_pair ret i"

definition view_map :: "('c \<Rightarrow> ('k, 'a) gomap) \<Rightarrow> ('c heap \<Rightarrow> 'a \<Rightarrow> 'b) \<Rightarrow> 'c heap \<Rightarrow> nat option \<Rightarrow> ('k, 'b) gomap option" where
  "view_map D v h p = map_option (\<lambda>a. map (\<lambda>e. (fst e, v h (snd e))) (D (hp_cell h a))) p"

definition reach_map :: "('c \<Rightarrow> ('k, 'a) gomap) \<Rightarrow> ('c heap \<Rightarrow> 'a \<Rightarrow> nat list) \<Rightarrow> 'c heap \<Rightarrow> nat option \<Rightarrow> nat list" where
  "reach_map D r h p = (case p of None \<Rightarrow> [] | Some a \<Rightarrow> a # concat (map (\<lambda>e. r h (snd e)) (D (hp_cell h a))))"

definition copy_map :: "(('k, 'a) gomap \<Rightarrow> 'c) \<Rightarrow> ('c \<Rightarrow> ('k, 'a) gomap) \<Rightarrow> ('a \<Rightarrow> ('c, 'a) copying) \<Rightarrow> nat option \<Rightarrow>
    ('c, nat option) copying" where
  "copy_map C D i = copy_option (copy_cell (\<lambda>a. a) (\<lambda>a n. n) C (\<lambda>a. D) (copy_each (copy_entry i)))"

lemma copier_map:
  assumes "deep_copier v r i" "\<And>x. D (C x) = x"
  shows "deep_copier (view_map D v) (reach_map D r) (copy_map C D i)"
  using copier_option[OF copier_cell[OF copier_each[OF copier_pair[OF copier_flat[of "\<lambda>k. k"] assms(1)]],
    of "\<lambda>a. a" "\<lambda>a n. n" "\<lambda>a. D" C]] assms(2)
  unfolding view_map_def[abs_def] reach_map_def[abs_def] copy_map_def copy_entry_def by simp

subsection \<open>Structs\<close>

text \<open>
  A struct is copied whole (\<open>*out = *in\<close>), and then the fields \<open>dec\<close> that refer to memory are
  replaced by copies of theirs, with \<open>upd\<close>.
\<close>

lemma copier_struct:
  fixes v :: "'c heap \<Rightarrow> 't \<Rightarrow> 'b"
  assumes t: "deep_copier v r i"
    and into: "\<And>s. into s = do { t \<leftarrow> i (dec s); ret (upd s t) }"
    and view: "\<And>h s. view h s = V s (v h (dec s))"
    and reach: "\<And>h s. reach h s = r h (dec s)"
    and upd: "\<And>s t. dec (upd s t) = t" "\<And>s t. V (upd s t) = V s"
  shows "deep_copier view reach into"
proof
  fix h h' :: "'c heap" and s assume "\<And>a. a \<in> set (reach h s) \<Longrightarrow> hp_cell h' a = hp_cell h a"
  thus "view h' s = view h s \<and> reach h' s = reach h s"
    using deep_copier.reads_reach[OF t, of h "dec s" h'] by (auto simp: view reach)
next
  fix h h' :: "'c heap" and s y assume "owned (reach h s) h" "run_state (into s) h = (y, h')"
  thus "kept h h' \<and> view h' y = view h s \<and> fresh_in (reach h' y) h h'"
    using deep_copier.copies[OF t, of h "dec s"] by (auto simp: into view reach upd split: prod.splits)
qed

subsection \<open>Reading and writing slices in place\<close>

text \<open>
  \<open>range\<close>, \<open>s[i] = x\<close> and \<open>append\<close>. An append writes into the array when it has room behind the slice,
  where other slices see it; otherwise it takes a new array, of a size the runtime chooses (\<open>spare\<close>
  is what it has beyond the new element).
\<close>

definition slice_elems :: "('c \<Rightarrow> 'a list) \<Rightarrow> slice option \<Rightarrow> ('c, 'a list) copying" where
  "slice_elems D s = (case s of None \<Rightarrow> ret [] | Some t \<Rightarrow> do { c \<leftarrow> hload (sl_array t); ret (window D t c) })"

definition slice_set :: "('a list \<Rightarrow> 'c) \<Rightarrow> ('c \<Rightarrow> 'a list) \<Rightarrow> slice option \<Rightarrow> nat \<Rightarrow> 'a \<Rightarrow> ('c, unit) copying" where
  "slice_set C D s i x = (case s of None \<Rightarrow> ret ()
     | Some t \<Rightarrow> do { c \<leftarrow> hload (sl_array t); hstore (sl_array t) (C ((D c)[sl_offset t + i := x])) })"

definition slice_append :: "('a list \<Rightarrow> 'c) \<Rightarrow> ('c \<Rightarrow> 'a list) \<Rightarrow> 'a list \<Rightarrow> slice option \<Rightarrow> 'a \<Rightarrow>
    ('c, slice option) copying" where
  "slice_append C D spare s x = (case s of
       None \<Rightarrow> do {
         n \<leftarrow> hnew;
         u \<leftarrow> hstore n (C (x # spare));
         ret (Some \<lparr>sl_array = n, sl_offset = 0, sl_len = 1\<rparr>) }
     | Some t \<Rightarrow> do {
         c \<leftarrow> hload (sl_array t);
         if sl_offset t + sl_len t < length (D c)
         then do {
           u \<leftarrow> hstore (sl_array t) (C ((D c)[sl_offset t + sl_len t := x]));
           ret (Some (t\<lparr>sl_len := sl_len t + 1\<rparr>)) }
         else do {
           n \<leftarrow> hnew;
           u \<leftarrow> hstore n (C (window D t c @ x # spare));
           ret (Some \<lparr>sl_array = n, sl_offset = 0, sl_len = sl_len t + 1\<rparr>) } })"

definition in_bounds :: "('c \<Rightarrow> 'a list) \<Rightarrow> 'c heap \<Rightarrow> slice option \<Rightarrow> bool" where
  "in_bounds D h s \<longleftrightarrow> (case s of None \<Rightarrow> True
     | Some t \<Rightarrow> sl_offset t + sl_len t \<le> length (D (hp_cell h (sl_array t))))"

definition elems :: "('c \<Rightarrow> 'a list) \<Rightarrow> 'c heap \<Rightarrow> slice option \<Rightarrow> 'a list" where
  "elems D h s = (case s of None \<Rightarrow> [] | Some t \<Rightarrow> window D t (hp_cell h (sl_array t)))"

lemma run_slice_elems [simp]: "run_state (slice_elems D s) h = (elems D h s, h)"
  by (simp add: slice_elems_def elems_def split: option.splits)

text \<open>What both writes leave: the cell written, which is the slice's own or a new one.\<close>

definition writes_cell :: "nat list \<Rightarrow> 'c heap \<Rightarrow> nat \<Rightarrow> 'c heap \<Rightarrow> bool" where
  "writes_cell own h n h' \<longleftrightarrow> hp_next h \<le> hp_next h' \<and> n < hp_next h' \<and> (n \<in> set own \<or> n = hp_next h) \<and>
     (\<forall>b. b \<noteq> n \<longrightarrow> hp_cell h' b = hp_cell h b)"

abbreviation cells_of :: "slice option \<Rightarrow> nat list" where
  "cells_of s \<equiv> (case s of None \<Rightarrow> [] | Some t \<Rightarrow> [sl_array t])"

lemma slice_set_spec:
  assumes "\<And>xs. D (C xs) = xs" "in_bounds D h s" "i < length (elems D h s)" "owned (cells_of s) h"
    and "run_state (slice_set C D s i x) h = ((), h')"
  shows "\<exists>t. s = Some t \<and> writes_cell (cells_of s) h (sl_array t) h' \<and>
    elems D h' s = (elems D h s)[i := x] \<and> in_bounds D h' s"
  using assms by (cases s) (auto simp: slice_set_def elems_def in_bounds_def window_def writes_cell_def
      drop_update_swap take_update_swap)

lemma slice_append_spec:
  assumes "\<And>xs. D (C xs) = xs" "in_bounds D h s" "owned (cells_of s) h"
    and "run_state (slice_append C D spare s x) h = (s', h')"
  shows "\<exists>t. s' = Some t \<and> writes_cell (cells_of s) h (sl_array t) h' \<and>
    elems D h' s' = elems D h s @ [x] \<and> in_bounds D h' s'"
proof (cases s)
  case None
  thus ?thesis using assms by (auto simp: slice_append_def elems_def in_bounds_def window_def writes_cell_def)
next
  case (Some t)
  let ?xs = "D (hp_cell h (sl_array t))"
  show ?thesis
  proof (cases "sl_offset t + sl_len t < length ?xs")
    case True
    thus ?thesis using assms Some
      by (auto simp: slice_append_def elems_def in_bounds_def window_def writes_cell_def drop_update_swap
          take_Suc_conv_app_nth)
  next
    case False
    hence "length ?xs = sl_offset t + sl_len t" using assms(2) Some by (simp add: in_bounds_def)
    thus ?thesis using assms Some
      by (auto simp: slice_append_def elems_def in_bounds_def window_def writes_cell_def)
  qed
qed

end
