(* ===== verification/DeepCopy.thy ===== *)
theory DeepCopy
  imports GoHeap ApiTypes
begin

section \<open>api/v1alpha1: the resource in memory, and its deep copies\<close>

text \<open>
  The API types as they are in memory: a pointer, a slice and a map of the Go struct is an address
  or a slice header, and the generated \<open>DeepCopyInto\<close> and \<open>DeepCopy\<close> of each type
  (\<open>zz_generated.deepcopy.go\<close>) over the memory of \<open>GoHeap\<close>. \<open>DeepCopyInto\<close> returns the struct it leaves
  in \<open>*out\<close>; a map is visited in the order of its list. Of the library's types (\<open>metav1\<close>, \<open>corev1\<close>)
  the fields of \<open>ApiTypes\<close> are kept, and their deep copies are the fields of \<open>library_copies\<close>.
\<close>

subsection \<open>The structs and the cells that hold them\<close>

record go_type_meta =
  tm_kind :: string
  tm_api_version :: string

record go_object_meta =
  jm_name :: string
  jm_namespace :: string
  jm_labels :: "nat option"
  jm_annotations :: "nat option"
  jm_resource_version :: string
  jm_generation :: int
  jm_finalizers :: "slice option"
  jm_deletion_timestamp :: "nat option"

record go_list_meta =
  lm_resource_version :: string
  lm_continue :: string
  lm_remaining :: "nat option"

record go_resources =
  lr_limits :: "nat option"
  lr_requests :: "nat option"

record go_known_hosts =
  kh_secret_ref :: secret_key_ref

record go_token_auth =
  tk_secret_ref :: secret_key_ref

record go_ssh_key_auth =
  gk_secret_ref :: secret_key_ref
  gk_known_hosts :: "nat option"

record go_git_auth =
  gu_ssh_key :: "nat option"
  gu_github_app :: "nat option"
  gu_token :: "nat option"

record go_git_spec =
  gg_repo :: string
  gg_ref :: string
  gg_auth :: "nat option"

record go_polling_spec =
  gp_enabled :: "nat option"
  gp_interval :: string

record go_gateway_api =
  gi_secret_name :: string
  gi_secret_key :: string

record go_gateway_spec =
  ge_port :: int
  ge_tls :: "nat option"
  ge_api :: go_gateway_api

record go_agent_image =
  gj_repository :: string
  gj_tag :: string
  gj_pull_policy :: string

record go_agent_spec =
  gz_image :: go_agent_image
  gz_resources :: "nat option"

record go_sync_defaults =
  gf_exclude_patterns :: "slice option"
  gf_vars :: "nat option"
  gf_sync_period :: int
  gf_designer_policy :: string
  gf_dry_run :: bool
  gf_paused :: bool

record go_mapping_patch =
  gq_file :: string
  gq_set :: "nat option"

record go_sync_mapping =
  gn_source :: string
  gn_destination :: string
  gn_type :: string
  gn_required :: bool
  gn_template :: bool
  gn_patches :: "slice option"

record go_sync_profile =
  gr_mappings :: "slice option"
  gr_exclude_patterns :: "slice option"
  gr_vars :: "nat option"
  gr_sync_period :: "nat option"
  gr_dry_run :: "nat option"
  gr_designer_policy :: string
  gr_paused :: "nat option"

record go_sync_spec =
  gb_defaults :: go_sync_defaults
  gb_profiles :: "nat option"

record go_gateway_sync_spec =
  gx_git :: go_git_spec
  gx_polling :: go_polling_spec
  gx_gateway :: go_gateway_spec
  gx_sync :: go_sync_spec
  gx_agent :: go_agent_spec
  gx_paused :: bool

record go_discovered_gateway =
  gv_name :: string
  gv_namespace :: string
  gv_pod_name :: string
  gv_service_account :: string
  gv_profile :: string
  gv_sync_status :: string
  gv_last_sync_time :: "nat option"
  gv_last_sync_duration :: string
  gv_synced_commit :: string
  gv_synced_ref :: string
  gv_agent_version :: string
  gv_last_scan_result :: string
  gv_files_changed :: int
  gv_projects_synced :: "slice option"

record go_gateway_sync_status =
  gc_observed_generation :: int
  gc_last_sync_time :: "nat option"
  gc_last_sync_ref :: string
  gc_last_sync_commit :: string
  gc_last_sync_commit_short :: string
  gc_ref_resolution :: string
  gc_profile_count :: int
  gc_discovered :: "slice option"
  gc_conditions :: "slice option"

record go_gateway_sync =
  go_type :: go_type_meta
  go_meta :: go_object_meta
  go_spec :: go_gateway_sync_spec
  go_status :: go_gateway_sync_status

record go_gateway_sync_list =
  gl_type :: go_type_meta
  gl_meta :: go_list_meta
  gl_items :: "slice option"

text \<open>What an address can refer to: a variable, the array behind a slice, or a map.\<close>

datatype cell =
    CBool (the_bool: bool)
  | CInt (the_int: int)
  | CTime (the_time: int)
  | CStrings (the_strings: "string list")
  | CStringMap (the_string_map: "(string, string) gomap")
  | CResources (the_resources: go_resources)
  | CSecretKeyRef (the_secret_key_ref: secret_key_ref)
  | CKnownHosts (the_known_hosts: go_known_hosts)
  | CTokenAuth (the_token_auth: go_token_auth)
  | CGitHubAppAuth (the_github_app_auth: github_app_auth)
  | CSSHKeyAuth (the_ssh_key_auth: go_ssh_key_auth)
  | CGitAuthSpec (the_git_auth_spec: go_git_auth)
  | CGitSpec (the_git_spec: go_git_spec)
  | CPollingSpec (the_polling_spec: go_polling_spec)
  | CGatewayAPISpec (the_gateway_api_spec: go_gateway_api)
  | CGatewaySpec (the_gateway_spec: go_gateway_spec)
  | CAgentImageSpec (the_agent_image_spec: go_agent_image)
  | CAgentSpec (the_agent_spec: go_agent_spec)
  | CSyncDefaults (the_sync_defaults: go_sync_defaults)
  | CMappingPatch (the_mapping_patch: go_mapping_patch)
  | CMappingPatches (the_mapping_patches: "go_mapping_patch list")
  | CSyncMapping (the_sync_mapping: go_sync_mapping)
  | CSyncMappings (the_sync_mappings: "go_sync_mapping list")
  | CSyncProfileSpec (the_sync_profile_spec: go_sync_profile)
  | CSyncProfiles (the_sync_profiles: "(string, go_sync_profile) gomap")
  | CSyncSpec (the_sync_spec: go_sync_spec)
  | CGatewaySyncSpec (the_gateway_sync_spec: go_gateway_sync_spec)
  | CDiscoveredGateway (the_discovered_gateway: go_discovered_gateway)
  | CDiscoveredGateways (the_discovered_gateways: "go_discovered_gateway list")
  | CConditions (the_conditions: "status_condition list")
  | CGatewaySyncStatus (the_gateway_sync_status: go_gateway_sync_status)
  | CGatewaySync (the_gateway_sync: go_gateway_sync)
  | CGatewaySyncs (the_gateway_syncs: "go_gateway_sync list")
  | CGatewaySyncList (the_gateway_sync_list: go_gateway_sync_list)

record library_copies =
  lc_time :: "nat \<Rightarrow> (cell, nat) copying"          \<comment> \<open>of a pointer that is not nil\<close>
  lc_object_meta :: "go_object_meta \<Rightarrow> (cell, go_object_meta) copying"
  lc_list_meta :: "go_list_meta \<Rightarrow> (cell, go_list_meta) copying"
  lc_condition :: "status_condition \<Rightarrow> (cell, status_condition) copying"
  lc_resources :: "go_resources \<Rightarrow> (cell, go_resources) copying"

text \<open>\<open>*val.DeepCopy()\<close> of a loop variable: the variable has a cell, the copy another, which is read.\<close>

definition copy_value :: "('a \<Rightarrow> cell) \<Rightarrow> (nat option \<Rightarrow> (cell,
    nat option) copying) \<Rightarrow> (cell \<Rightarrow> 'a) \<Rightarrow> 'a \<Rightarrow> (cell, 'a) copying" where
  "copy_value C deep_copy D val = do {
     a \<leftarrow> hnew;
     u \<leftarrow> hstore a (C val);
     p \<leftarrow> deep_copy (Some a);
     c \<leftarrow> hload (the p);
     ret (D c) }"

subsection \<open>The copies\<close>

definition agent_image_spec_deep_copy_into :: "go_agent_image \<Rightarrow> (cell, go_agent_image) copying" where
  "agent_image_spec_deep_copy_into x = ret x"

definition agent_image_spec_deep_copy :: "nat option \<Rightarrow> (cell, nat option) copying" where
  "agent_image_spec_deep_copy = copy_ptr CAgentImageSpec the_agent_image_spec
      agent_image_spec_deep_copy_into"

definition agent_spec_deep_copy_into :: "library_copies \<Rightarrow> go_agent_spec \<Rightarrow> (cell,
    go_agent_spec) copying" where
  "agent_spec_deep_copy_into L x = do {
     resources \<leftarrow> copy_ptr CResources the_resources (lc_resources L) (gz_resources x);
     ret (x\<lparr>gz_image := gz_image x, gz_resources := resources\<rparr>) }"

definition agent_spec_deep_copy :: "library_copies \<Rightarrow> nat option \<Rightarrow> (cell, nat option) copying" where
  "agent_spec_deep_copy L = copy_ptr CAgentSpec the_agent_spec (agent_spec_deep_copy_into L)"

definition gateway_api_spec_deep_copy_into :: "go_gateway_api \<Rightarrow> (cell, go_gateway_api) copying" where
  "gateway_api_spec_deep_copy_into x = ret x"

definition gateway_api_spec_deep_copy :: "nat option \<Rightarrow> (cell, nat option) copying" where
  "gateway_api_spec_deep_copy = copy_ptr CGatewayAPISpec the_gateway_api_spec
      gateway_api_spec_deep_copy_into"

definition gateway_spec_deep_copy_into :: "go_gateway_spec \<Rightarrow> (cell, go_gateway_spec) copying" where
  "gateway_spec_deep_copy_into x = do {
     tls \<leftarrow> copy_ptr CBool the_bool ret (ge_tls x);
     ret (x\<lparr>ge_api := ge_api x, ge_tls := tls\<rparr>) }"

definition gateway_spec_deep_copy :: "nat option \<Rightarrow> (cell, nat option) copying" where
  "gateway_spec_deep_copy = copy_ptr CGatewaySpec the_gateway_spec gateway_spec_deep_copy_into"

definition secret_key_ref_deep_copy_into :: "secret_key_ref \<Rightarrow> (cell, secret_key_ref) copying" where
  "secret_key_ref_deep_copy_into x = ret x"

definition secret_key_ref_deep_copy :: "nat option \<Rightarrow> (cell, nat option) copying" where
  "secret_key_ref_deep_copy = copy_ptr CSecretKeyRef the_secret_key_ref secret_key_ref_deep_copy_into"

definition known_hosts_deep_copy_into :: "go_known_hosts \<Rightarrow> (cell, go_known_hosts) copying" where
  "known_hosts_deep_copy_into x = ret (x\<lparr>kh_secret_ref := kh_secret_ref x\<rparr>)"

definition known_hosts_deep_copy :: "nat option \<Rightarrow> (cell, nat option) copying" where
  "known_hosts_deep_copy = copy_ptr CKnownHosts the_known_hosts known_hosts_deep_copy_into"

definition token_auth_deep_copy_into :: "go_token_auth \<Rightarrow> (cell, go_token_auth) copying" where
  "token_auth_deep_copy_into x = ret (x\<lparr>tk_secret_ref := tk_secret_ref x\<rparr>)"

definition token_auth_deep_copy :: "nat option \<Rightarrow> (cell, nat option) copying" where
  "token_auth_deep_copy = copy_ptr CTokenAuth the_token_auth token_auth_deep_copy_into"

definition github_app_auth_deep_copy_into :: "github_app_auth \<Rightarrow> (cell, github_app_auth) copying" where
  "github_app_auth_deep_copy_into x = ret (x\<lparr>ga_private_key_secret_ref := ga_private_key_secret_ref x\<rparr>)"

definition github_app_auth_deep_copy :: "nat option \<Rightarrow> (cell, nat option) copying" where
  "github_app_auth_deep_copy = copy_ptr CGitHubAppAuth the_github_app_auth
      github_app_auth_deep_copy_into"

definition ssh_key_auth_deep_copy_into :: "go_ssh_key_auth \<Rightarrow> (cell, go_ssh_key_auth) copying" where
  "ssh_key_auth_deep_copy_into x = do {
     hosts \<leftarrow> copy_ptr CKnownHosts the_known_hosts ret (gk_known_hosts x);
     ret (x\<lparr>gk_secret_ref := gk_secret_ref x, gk_known_hosts := hosts\<rparr>) }"

definition ssh_key_auth_deep_copy :: "nat option \<Rightarrow> (cell, nat option) copying" where
  "ssh_key_auth_deep_copy = copy_ptr CSSHKeyAuth the_ssh_key_auth ssh_key_auth_deep_copy_into"

definition git_auth_spec_deep_copy_into :: "go_git_auth \<Rightarrow> (cell, go_git_auth) copying" where
  "git_auth_spec_deep_copy_into x = do {
     ssh \<leftarrow> copy_ptr CSSHKeyAuth the_ssh_key_auth ssh_key_auth_deep_copy_into (gu_ssh_key x);
     app \<leftarrow> copy_ptr CGitHubAppAuth the_github_app_auth ret (gu_github_app x);
     token \<leftarrow> copy_ptr CTokenAuth the_token_auth ret (gu_token x);
     ret (x\<lparr>gu_ssh_key := ssh, gu_github_app := app, gu_token := token\<rparr>) }"

definition git_auth_spec_deep_copy :: "nat option \<Rightarrow> (cell, nat option) copying" where
  "git_auth_spec_deep_copy = copy_ptr CGitAuthSpec the_git_auth_spec git_auth_spec_deep_copy_into"

definition git_spec_deep_copy_into :: "go_git_spec \<Rightarrow> (cell, go_git_spec) copying" where
  "git_spec_deep_copy_into x = do {
     auth \<leftarrow> copy_ptr CGitAuthSpec the_git_auth_spec git_auth_spec_deep_copy_into (gg_auth x);
     ret (x\<lparr>gg_auth := auth\<rparr>) }"

definition git_spec_deep_copy :: "nat option \<Rightarrow> (cell, nat option) copying" where
  "git_spec_deep_copy = copy_ptr CGitSpec the_git_spec git_spec_deep_copy_into"

definition polling_spec_deep_copy_into :: "go_polling_spec \<Rightarrow> (cell, go_polling_spec) copying" where
  "polling_spec_deep_copy_into x = do {
     enabled \<leftarrow> copy_ptr CBool the_bool ret (gp_enabled x);
     ret (x\<lparr>gp_enabled := enabled\<rparr>) }"

definition polling_spec_deep_copy :: "nat option \<Rightarrow> (cell, nat option) copying" where
  "polling_spec_deep_copy = copy_ptr CPollingSpec the_polling_spec polling_spec_deep_copy_into"

definition sync_defaults_deep_copy_into :: "go_sync_defaults \<Rightarrow> (cell, go_sync_defaults) copying" where
  "sync_defaults_deep_copy_into x = do {
     excludes \<leftarrow> copy_slice CStrings the_strings ret (gf_exclude_patterns x);
     vars \<leftarrow> copy_map CStringMap the_string_map ret (gf_vars x);
     ret (x\<lparr>gf_exclude_patterns := excludes, gf_vars := vars\<rparr>) }"

definition sync_defaults_deep_copy :: "nat option \<Rightarrow> (cell, nat option) copying" where
  "sync_defaults_deep_copy = copy_ptr CSyncDefaults the_sync_defaults sync_defaults_deep_copy_into"

definition mapping_patch_deep_copy_into :: "go_mapping_patch \<Rightarrow> (cell, go_mapping_patch) copying" where
  "mapping_patch_deep_copy_into x = do {
     sets \<leftarrow> copy_map CStringMap the_string_map ret (gq_set x);
     ret (x\<lparr>gq_set := sets\<rparr>) }"

definition mapping_patch_deep_copy :: "nat option \<Rightarrow> (cell, nat option) copying" where
  "mapping_patch_deep_copy = copy_ptr CMappingPatch the_mapping_patch mapping_patch_deep_copy_into"

definition sync_mapping_deep_copy_into :: "go_sync_mapping \<Rightarrow> (cell, go_sync_mapping) copying" where
  "sync_mapping_deep_copy_into x = do {
     patches \<leftarrow> copy_slice CMappingPatches the_mapping_patches mapping_patch_deep_copy_into
       (gn_patches x);
     ret (x\<lparr>gn_patches := patches\<rparr>) }"

definition sync_mapping_deep_copy :: "nat option \<Rightarrow> (cell, nat option) copying" where
  "sync_mapping_deep_copy = copy_ptr CSyncMapping the_sync_mapping sync_mapping_deep_copy_into"

definition sync_profile_spec_deep_copy_into :: "go_sync_profile \<Rightarrow> (cell, go_sync_profile) copying" where
  "sync_profile_spec_deep_copy_into x = do {
     mappings \<leftarrow> copy_slice CSyncMappings the_sync_mappings sync_mapping_deep_copy_into
       (gr_mappings x);
     excludes \<leftarrow> copy_slice CStrings the_strings ret (gr_exclude_patterns x);
     vars \<leftarrow> copy_map CStringMap the_string_map ret (gr_vars x);
     period \<leftarrow> copy_ptr CInt the_int ret (gr_sync_period x);
     dry \<leftarrow> copy_ptr CBool the_bool ret (gr_dry_run x);
     paused \<leftarrow> copy_ptr CBool the_bool ret (gr_paused x);
     ret (x\<lparr>gr_mappings := mappings, gr_exclude_patterns := excludes, gr_vars := vars,
         gr_sync_period := period, gr_dry_run := dry, gr_paused := paused\<rparr>) }"

definition sync_profile_spec_deep_copy :: "nat option \<Rightarrow> (cell, nat option) copying" where
  "sync_profile_spec_deep_copy = copy_ptr CSyncProfileSpec the_sync_profile_spec
      sync_profile_spec_deep_copy_into"

definition sync_spec_deep_copy_into :: "go_sync_spec \<Rightarrow> (cell, go_sync_spec) copying" where
  "sync_spec_deep_copy_into x = do {
     defaults \<leftarrow> sync_defaults_deep_copy_into (gb_defaults x);
     profiles \<leftarrow> copy_map CSyncProfiles the_sync_profiles (copy_value CSyncProfileSpec
         sync_profile_spec_deep_copy the_sync_profile_spec)
       (gb_profiles x);
     ret (x\<lparr>gb_defaults := defaults, gb_profiles := profiles\<rparr>) }"

definition sync_spec_deep_copy :: "nat option \<Rightarrow> (cell, nat option) copying" where
  "sync_spec_deep_copy = copy_ptr CSyncSpec the_sync_spec sync_spec_deep_copy_into"

definition gateway_sync_spec_deep_copy_into :: "library_copies \<Rightarrow> go_gateway_sync_spec \<Rightarrow> (cell,
    go_gateway_sync_spec) copying" where
  "gateway_sync_spec_deep_copy_into L x = do {
     git \<leftarrow> git_spec_deep_copy_into (gx_git x);
     polling \<leftarrow> polling_spec_deep_copy_into (gx_polling x);
     gateway \<leftarrow> gateway_spec_deep_copy_into (gx_gateway x);
     sync \<leftarrow> sync_spec_deep_copy_into (gx_sync x);
     agent \<leftarrow> agent_spec_deep_copy_into L (gx_agent x);
     ret (x\<lparr>gx_git := git, gx_polling := polling, gx_gateway := gateway, gx_sync := sync,
         gx_agent := agent\<rparr>) }"

definition gateway_sync_spec_deep_copy :: "library_copies \<Rightarrow> nat option \<Rightarrow> (cell,
    nat option) copying" where
  "gateway_sync_spec_deep_copy L = copy_ptr CGatewaySyncSpec the_gateway_sync_spec
      (gateway_sync_spec_deep_copy_into L)"

definition discovered_gateway_deep_copy_into :: "library_copies \<Rightarrow> go_discovered_gateway \<Rightarrow> (cell,
    go_discovered_gateway) copying" where
  "discovered_gateway_deep_copy_into L x = do {
     time \<leftarrow> copy_option (lc_time L) (gv_last_sync_time x);
     projects \<leftarrow> copy_slice CStrings the_strings ret (gv_projects_synced x);
     ret (x\<lparr>gv_last_sync_time := time, gv_projects_synced := projects\<rparr>) }"

definition discovered_gateway_deep_copy :: "library_copies \<Rightarrow> nat option \<Rightarrow> (cell,
    nat option) copying" where
  "discovered_gateway_deep_copy L = copy_ptr CDiscoveredGateway the_discovered_gateway
      (discovered_gateway_deep_copy_into L)"

definition gateway_sync_status_deep_copy_into :: "library_copies \<Rightarrow> go_gateway_sync_status \<Rightarrow> (cell,
    go_gateway_sync_status) copying" where
  "gateway_sync_status_deep_copy_into L x = do {
     time \<leftarrow> copy_option (lc_time L) (gc_last_sync_time x);
     gateways \<leftarrow> copy_slice CDiscoveredGateways the_discovered_gateways
         (discovered_gateway_deep_copy_into L)
       (gc_discovered x);
     conds \<leftarrow> copy_slice CConditions the_conditions (lc_condition L) (gc_conditions x);
     ret (x\<lparr>gc_last_sync_time := time, gc_discovered := gateways, gc_conditions := conds\<rparr>) }"

definition gateway_sync_status_deep_copy :: "library_copies \<Rightarrow> nat option \<Rightarrow> (cell,
    nat option) copying" where
  "gateway_sync_status_deep_copy L = copy_ptr CGatewaySyncStatus the_gateway_sync_status
      (gateway_sync_status_deep_copy_into L)"

definition gateway_sync_deep_copy_into :: "library_copies \<Rightarrow> go_gateway_sync \<Rightarrow> (cell,
    go_gateway_sync) copying" where
  "gateway_sync_deep_copy_into L x = do {
     meta \<leftarrow> lc_object_meta L (go_meta x);
     spec \<leftarrow> gateway_sync_spec_deep_copy_into L (go_spec x);
     status \<leftarrow> gateway_sync_status_deep_copy_into L (go_status x);
     ret (x\<lparr>go_type := go_type x, go_meta := meta, go_spec := spec, go_status := status\<rparr>) }"

definition gateway_sync_deep_copy :: "library_copies \<Rightarrow> nat option \<Rightarrow> (cell, nat option) copying" where
  "gateway_sync_deep_copy L = copy_ptr CGatewaySync the_gateway_sync (gateway_sync_deep_copy_into L)"

definition gateway_sync_list_deep_copy_into :: "library_copies \<Rightarrow> go_gateway_sync_list \<Rightarrow> (cell,
    go_gateway_sync_list) copying" where
  "gateway_sync_list_deep_copy_into L x = do {
     meta \<leftarrow> lc_list_meta L (gl_meta x);
     items \<leftarrow> copy_slice CGatewaySyncs the_gateway_syncs (gateway_sync_deep_copy_into L)
       (gl_items x);
     ret (x\<lparr>gl_type := gl_type x, gl_meta := meta, gl_items := items\<rparr>) }"

definition gateway_sync_list_deep_copy :: "library_copies \<Rightarrow> nat option \<Rightarrow> (cell,
    nat option) copying" where
  "gateway_sync_list_deep_copy L = copy_ptr CGatewaySyncList the_gateway_sync_list
      (gateway_sync_list_deep_copy_into L)"

subsection \<open>DeepCopyObject\<close>

text \<open>
  An interface value holds a pointer with its type, and one that holds a nil pointer is not the nil
  interface \<open>None\<close>.
\<close>

datatype runtime_object = GatewaySyncObject "nat option" | GatewaySyncListObject "nat option"

definition gateway_sync_deep_copy_object :: "library_copies \<Rightarrow> nat option \<Rightarrow> (cell,
    runtime_object option) copying" where
  "gateway_sync_deep_copy_object L p = do {
     c \<leftarrow> gateway_sync_deep_copy L p;
     ret (if c \<noteq> None then Some (GatewaySyncObject c) else None) }"

definition gateway_sync_list_deep_copy_object :: "library_copies \<Rightarrow> nat option \<Rightarrow> (cell,
    runtime_object option) copying" where
  "gateway_sync_list_deep_copy_object L p = do {
     c \<leftarrow> gateway_sync_list_deep_copy L p;
     ret (if c \<noteq> None then Some (GatewaySyncListObject c) else None) }"

subsection \<open>groupversion_info.go, and the kind the agent asks for\<close>

record group_version_kind =
  gvk_group :: string
  gvk_version :: string
  gvk_kind :: string

definition group_version :: "string \<times> string" where
  "group_version = (''stoker.io'', ''v1alpha1'')"

text \<open>The kinds \<open>SchemeBuilder.Register\<close> adds under the group and version.\<close>

definition registered_kinds :: "group_version_kind list" where
  "registered_kinds = map (\<lambda>k. \<lparr>gvk_group = fst group_version, gvk_version = snd group_version, gvk_kind = k\<rparr>)
     [''GatewaySync'', ''GatewaySyncList'']"

definition gateway_sync_gvk :: group_version_kind where
  "gateway_sync_gvk = \<lparr>gvk_group = ''stoker.io'', gvk_version = ''v1alpha1'', gvk_kind = ''GatewaySync''\<rparr>"

text \<open>The agent reads the resource without its Go type, by a kind that is registered.\<close>

lemma agent_kind_registered: "gateway_sync_gvk \<in> set registered_kinds"
  by (simp add: gateway_sync_gvk_def registered_kinds_def group_version_def)

end
