(* ===== verification/DeepCopyLaws.thy ===== *)
theory DeepCopyLaws
  imports DeepCopy
begin

section \<open>The generated deep copies copy deeply\<close>

text \<open>
  For every type with pointers: the resource of \<open>ApiTypes\<close> that a struct stands for in a memory
  (\<open>view\<close>, in which a nil slice or map reads as the empty one, as everywhere in the development), the
  cells it is spread over (\<open>reach\<close>), and that its \<open>DeepCopyInto\<close> keeps the contract of \<open>deep_copier\<close>.
  The library's copies keep it by assumption, in the locale \<open>library_laws\<close>.
\<close>

abbreviation flat :: "cell heap \<Rightarrow> 'a \<Rightarrow> 'a" where
  "flat \<equiv> \<lambda>h x. x"

abbreviation no_cells :: "cell heap \<Rightarrow> 'a \<Rightarrow> nat list" where
  "no_cells \<equiv> \<lambda>h x. []"

definition the_list :: "'a list option \<Rightarrow> 'a list" where
  "the_list xs = (case xs of None \<Rightarrow> [] | Some ys \<Rightarrow> ys)"

subsection \<open>What a struct in memory stands for\<close>

definition view_object_meta :: "cell heap \<Rightarrow> go_object_meta \<Rightarrow> object_meta" where
  "view_object_meta h x =
     \<lparr>om_name = jm_name x, om_namespace = jm_namespace x,
       om_labels = the_list (view_map the_string_map flat h (jm_labels x)),
       om_annotations = the_list (view_map the_string_map flat h (jm_annotations x)),
       om_resource_version = jm_resource_version x, om_generation = jm_generation x,
       om_finalizers = the_list (view_slice the_strings flat h (jm_finalizers x)),
       om_deletion_timestamp = view_ptr the_time flat h (jm_deletion_timestamp x)\<rparr>"

definition reach_object_meta :: "cell heap \<Rightarrow> go_object_meta \<Rightarrow> nat list" where
  "reach_object_meta h x =
     reach_map the_string_map no_cells h (jm_labels x) @
     reach_map the_string_map no_cells h (jm_annotations x) @
     reach_slice the_strings no_cells h (jm_finalizers x) @
     reach_ptr the_time no_cells h (jm_deletion_timestamp x)"

definition view_list_meta :: "cell heap \<Rightarrow> go_list_meta \<Rightarrow> string \<times> string \<times> int option" where
  "view_list_meta h x =
     (lm_resource_version x, lm_continue x, (view_ptr the_int flat h (lm_remaining x)))"

definition reach_list_meta :: "cell heap \<Rightarrow> go_list_meta \<Rightarrow> nat list" where
  "reach_list_meta h x =
     reach_ptr the_int no_cells h (lm_remaining x)"

definition view_resources :: "cell heap \<Rightarrow> go_resources \<Rightarrow> resource_requirements" where
  "view_resources h x =
     \<lparr>rr_limits = the_list (view_map the_string_map flat h (lr_limits x)),
       rr_requests = the_list (view_map the_string_map flat h (lr_requests x))\<rparr>"

definition reach_resources :: "cell heap \<Rightarrow> go_resources \<Rightarrow> nat list" where
  "reach_resources h x =
     reach_map the_string_map no_cells h (lr_limits x) @
     reach_map the_string_map no_cells h (lr_requests x)"

definition view_ssh_key_auth :: "cell heap \<Rightarrow> go_ssh_key_auth \<Rightarrow> ssh_key_auth" where
  "view_ssh_key_auth h x =
     \<lparr>sa_secret_ref = gk_secret_ref x,
       sa_known_hosts = (view_ptr the_known_hosts (\<lambda>h x. kh_secret_ref x) h (gk_known_hosts x))\<rparr>"

definition reach_ssh_key_auth :: "cell heap \<Rightarrow> go_ssh_key_auth \<Rightarrow> nat list" where
  "reach_ssh_key_auth h x =
     reach_ptr the_known_hosts no_cells h (gk_known_hosts x)"

definition view_git_auth_spec :: "cell heap \<Rightarrow> go_git_auth \<Rightarrow> git_auth_spec" where
  "view_git_auth_spec h x =
     \<lparr>au_ssh_key = view_ptr the_ssh_key_auth view_ssh_key_auth h (gu_ssh_key x),
       au_github_app = view_ptr the_github_app_auth flat h (gu_github_app x),
       au_token = (view_ptr the_token_auth (\<lambda>h x. tk_secret_ref x) h (gu_token x))\<rparr>"

definition reach_git_auth_spec :: "cell heap \<Rightarrow> go_git_auth \<Rightarrow> nat list" where
  "reach_git_auth_spec h x =
     reach_ptr the_ssh_key_auth reach_ssh_key_auth h (gu_ssh_key x) @
     reach_ptr the_github_app_auth no_cells h (gu_github_app x) @
     reach_ptr the_token_auth no_cells h (gu_token x)"

definition view_git_spec :: "cell heap \<Rightarrow> go_git_spec \<Rightarrow> git_spec" where
  "view_git_spec h x =
     \<lparr>gt_repo = gg_repo x, gt_ref = gg_ref x,
       gt_auth = view_ptr the_git_auth_spec view_git_auth_spec h (gg_auth x)\<rparr>"

definition reach_git_spec :: "cell heap \<Rightarrow> go_git_spec \<Rightarrow> nat list" where
  "reach_git_spec h x =
     reach_ptr the_git_auth_spec reach_git_auth_spec h (gg_auth x)"

definition view_polling_spec :: "cell heap \<Rightarrow> go_polling_spec \<Rightarrow> polling_spec" where
  "view_polling_spec h x =
     \<lparr>po_enabled = view_ptr the_bool flat h (gp_enabled x), po_interval = gp_interval x\<rparr>"

definition reach_polling_spec :: "cell heap \<Rightarrow> go_polling_spec \<Rightarrow> nat list" where
  "reach_polling_spec h x =
     reach_ptr the_bool no_cells h (gp_enabled x)"

definition view_gateway_spec :: "cell heap \<Rightarrow> go_gateway_spec \<Rightarrow> gateway_spec" where
  "view_gateway_spec h x =
     \<lparr>gw_port = ge_port x, gw_tls = view_ptr the_bool flat h (ge_tls x),
       gw_secret_name = gi_secret_name (ge_api x), gw_secret_key = gi_secret_key (ge_api x)\<rparr>"

definition reach_gateway_spec :: "cell heap \<Rightarrow> go_gateway_spec \<Rightarrow> nat list" where
  "reach_gateway_spec h x =
     reach_ptr the_bool no_cells h (ge_tls x)"

definition view_agent_spec :: "cell heap \<Rightarrow> go_agent_spec \<Rightarrow> agent_spec" where
  "view_agent_spec h x =
     \<lparr>ag_repository = gj_repository (gz_image x), ag_tag = gj_tag (gz_image x),
       ag_pull_policy = gj_pull_policy (gz_image x),
       ag_resources = view_ptr the_resources view_resources h (gz_resources x)\<rparr>"

definition reach_agent_spec :: "cell heap \<Rightarrow> go_agent_spec \<Rightarrow> nat list" where
  "reach_agent_spec h x =
     reach_ptr the_resources reach_resources h (gz_resources x)"

definition view_sync_defaults :: "cell heap \<Rightarrow> go_sync_defaults \<Rightarrow> sync_defaults" where
  "view_sync_defaults h x =
     \<lparr>df_exclude_patterns = the_list (view_slice the_strings flat h (gf_exclude_patterns x)),
       df_vars = the_list (view_map the_string_map flat h (gf_vars x)),
       df_sync_period = gf_sync_period x, df_designer_policy = gf_designer_policy x,
       df_dry_run = gf_dry_run x, df_paused = gf_paused x\<rparr>"

definition reach_sync_defaults :: "cell heap \<Rightarrow> go_sync_defaults \<Rightarrow> nat list" where
  "reach_sync_defaults h x =
     reach_slice the_strings no_cells h (gf_exclude_patterns x) @
     reach_map the_string_map no_cells h (gf_vars x)"

definition view_mapping_patch :: "cell heap \<Rightarrow> go_mapping_patch \<Rightarrow> mapping_patch" where
  "view_mapping_patch h x =
     \<lparr>mp_file = gq_file x, mp_set = the_list (view_map the_string_map flat h (gq_set x))\<rparr>"

definition reach_mapping_patch :: "cell heap \<Rightarrow> go_mapping_patch \<Rightarrow> nat list" where
  "reach_mapping_patch h x =
     reach_map the_string_map no_cells h (gq_set x)"

definition view_sync_mapping :: "cell heap \<Rightarrow> go_sync_mapping \<Rightarrow> sync_mapping" where
  "view_sync_mapping h x =
     \<lparr>sm_source = gn_source x, sm_destination = gn_destination x, sm_type = gn_type x,
       sm_required = gn_required x, sm_template = gn_template x,
       sm_patches = the_list (view_slice the_mapping_patches view_mapping_patch h (gn_patches x))\<rparr>"

definition reach_sync_mapping :: "cell heap \<Rightarrow> go_sync_mapping \<Rightarrow> nat list" where
  "reach_sync_mapping h x =
     reach_slice the_mapping_patches reach_mapping_patch h (gn_patches x)"

definition view_sync_profile_spec :: "cell heap \<Rightarrow> go_sync_profile \<Rightarrow> sync_profile_spec" where
  "view_sync_profile_spec h x =
     \<lparr>sp_mappings = the_list (view_slice the_sync_mappings view_sync_mapping h (gr_mappings x)),
       sp_exclude_patterns = the_list (view_slice the_strings flat h (gr_exclude_patterns x)),
       sp_vars = the_list (view_map the_string_map flat h (gr_vars x)),
       sp_sync_period = view_ptr the_int flat h (gr_sync_period x),
       sp_dry_run = view_ptr the_bool flat h (gr_dry_run x),
       sp_designer_policy = gr_designer_policy x,
       sp_paused = view_ptr the_bool flat h (gr_paused x)\<rparr>"

definition reach_sync_profile_spec :: "cell heap \<Rightarrow> go_sync_profile \<Rightarrow> nat list" where
  "reach_sync_profile_spec h x =
     reach_slice the_sync_mappings reach_sync_mapping h (gr_mappings x) @
     reach_slice the_strings no_cells h (gr_exclude_patterns x) @
     reach_map the_string_map no_cells h (gr_vars x) @
     reach_ptr the_int no_cells h (gr_sync_period x) @
     reach_ptr the_bool no_cells h (gr_dry_run x) @
     reach_ptr the_bool no_cells h (gr_paused x)"

definition view_sync_spec :: "cell heap \<Rightarrow> go_sync_spec \<Rightarrow> sync_defaults \<times> (string,
    sync_profile_spec) gomap" where
  "view_sync_spec h x =
     ((view_sync_defaults h (gb_defaults x)),
       the_list (view_map the_sync_profiles view_sync_profile_spec h (gb_profiles x)))"

definition reach_sync_spec :: "cell heap \<Rightarrow> go_sync_spec \<Rightarrow> nat list" where
  "reach_sync_spec h x =
     reach_sync_defaults h (gb_defaults x) @
     reach_map the_sync_profiles reach_sync_profile_spec h (gb_profiles x)"

definition view_gateway_sync_spec :: "cell heap \<Rightarrow> go_gateway_sync_spec \<Rightarrow> gateway_sync_spec" where
  "view_gateway_sync_spec h x =
     \<lparr>ss_git = view_git_spec h (gx_git x), ss_polling = view_polling_spec h (gx_polling x),
       ss_gateway = view_gateway_spec h (gx_gateway x),
       ss_defaults = fst (view_sync_spec h (gx_sync x)),
       ss_profiles = snd (view_sync_spec h (gx_sync x)),
       ss_agent = view_agent_spec h (gx_agent x), ss_paused = gx_paused x\<rparr>"

definition reach_gateway_sync_spec :: "cell heap \<Rightarrow> go_gateway_sync_spec \<Rightarrow> nat list" where
  "reach_gateway_sync_spec h x =
     reach_git_spec h (gx_git x) @
     reach_polling_spec h (gx_polling x) @
     reach_gateway_spec h (gx_gateway x) @
     reach_sync_spec h (gx_sync x) @
     reach_agent_spec h (gx_agent x)"

definition view_discovered_gateway :: "cell heap \<Rightarrow> go_discovered_gateway \<Rightarrow> discovered_gateway" where
  "view_discovered_gateway h x =
     \<lparr>dg_name = gv_name x, dg_namespace = gv_namespace x, dg_pod_name = gv_pod_name x,
       dg_service_account = gv_service_account x, dg_profile = gv_profile x,
       dg_sync_status = gv_sync_status x,
       dg_last_sync_time = view_ptr the_time flat h (gv_last_sync_time x),
       dg_last_sync_duration = gv_last_sync_duration x, dg_synced_commit = gv_synced_commit x,
       dg_synced_ref = gv_synced_ref x, dg_agent_version = gv_agent_version x,
       dg_last_scan_result = gv_last_scan_result x, dg_files_changed = gv_files_changed x,
       dg_projects_synced = the_list (view_slice the_strings flat h (gv_projects_synced x))\<rparr>"

definition reach_discovered_gateway :: "cell heap \<Rightarrow> go_discovered_gateway \<Rightarrow> nat list" where
  "reach_discovered_gateway h x =
     reach_ptr the_time no_cells h (gv_last_sync_time x) @
     reach_slice the_strings no_cells h (gv_projects_synced x)"

definition view_gateway_sync_status :: "cell heap \<Rightarrow> go_gateway_sync_status \<Rightarrow> gateway_sync_status" where
  "view_gateway_sync_status h x =
     \<lparr>st_observed_generation = gc_observed_generation x,
       st_last_sync_time = view_ptr the_time flat h (gc_last_sync_time x),
       st_last_sync_ref = gc_last_sync_ref x, st_last_sync_commit = gc_last_sync_commit x,
       st_last_sync_commit_short = gc_last_sync_commit_short x,
       st_ref_resolution = gc_ref_resolution x, st_profile_count = gc_profile_count x,
       st_discovered = the_list (view_slice the_discovered_gateways view_discovered_gateway h
           (gc_discovered x)),
       st_conditions = the_list (view_slice the_conditions flat h (gc_conditions x))\<rparr>"

definition reach_gateway_sync_status :: "cell heap \<Rightarrow> go_gateway_sync_status \<Rightarrow> nat list" where
  "reach_gateway_sync_status h x =
     reach_ptr the_time no_cells h (gc_last_sync_time x) @
     reach_slice the_discovered_gateways reach_discovered_gateway h (gc_discovered x) @
     reach_slice the_conditions no_cells h (gc_conditions x)"

definition view_gateway_sync :: "cell heap \<Rightarrow> go_gateway_sync \<Rightarrow> go_type_meta \<times> gateway_sync" where
  "view_gateway_sync h x =
     (go_type x, \<lparr>gy_meta = view_object_meta h (go_meta x),
       gy_spec = view_gateway_sync_spec h (go_spec x),
       gy_status = view_gateway_sync_status h (go_status x)\<rparr>)"

definition reach_gateway_sync :: "cell heap \<Rightarrow> go_gateway_sync \<Rightarrow> nat list" where
  "reach_gateway_sync h x =
     reach_object_meta h (go_meta x) @
     reach_gateway_sync_spec h (go_spec x) @
     reach_gateway_sync_status h (go_status x)"

definition view_gateway_sync_list :: "cell heap \<Rightarrow> go_gateway_sync_list \<Rightarrow> go_type_meta \<times> (string \<times>
    string \<times> int option) \<times> (go_type_meta \<times> gateway_sync) list" where
  "view_gateway_sync_list h x =
     (gl_type x, (view_list_meta h (gl_meta x)),
       the_list (view_slice the_gateway_syncs view_gateway_sync h (gl_items x)))"

definition reach_gateway_sync_list :: "cell heap \<Rightarrow> go_gateway_sync_list \<Rightarrow> nat list" where
  "reach_gateway_sync_list h x =
     reach_list_meta h (gl_meta x) @
     reach_slice the_gateway_syncs reach_gateway_sync h (gl_items x)"

subsection \<open>The copies that need no library\<close>

lemma copier_ssh_key_auth: "deep_copier view_ssh_key_auth reach_ssh_key_auth
    ssh_key_auth_deep_copy_into"
  by (rule copier_struct[OF copier_ptr[OF copier_flat],
    where dec = "\<lambda>s. gk_known_hosts s"
      and upd = "\<lambda>s hosts. s\<lparr>gk_known_hosts := hosts\<rparr>"
      and V = "\<lambda>s hosts.
        \<lparr>sa_secret_ref = gk_secret_ref s, sa_known_hosts = hosts\<rparr>"])
    (auto simp: view_ssh_key_auth_def reach_ssh_key_auth_def ssh_key_auth_deep_copy_into_def
        copy_pair_def)

lemma copier_git_auth_spec: "deep_copier view_git_auth_spec reach_git_auth_spec
    git_auth_spec_deep_copy_into"
  by (rule copier_struct[OF copier_pair[OF copier_ptr[OF copier_ssh_key_auth] copier_pair[OF
      copier_ptr[OF copier_flat] copier_ptr[OF copier_flat]]],
    where dec = "\<lambda>s. (gu_ssh_key s, gu_github_app s, gu_token s)"
      and upd = "\<lambda>s (ssh, app, token). s\<lparr>gu_ssh_key := ssh, gu_github_app := app, gu_token := token\<rparr>"
      and V = "\<lambda>s (ssh, app, token).
        \<lparr>au_ssh_key = ssh, au_github_app = app, au_token = token\<rparr>"])
    (auto simp: view_git_auth_spec_def reach_git_auth_spec_def git_auth_spec_deep_copy_into_def
        copy_pair_def)

lemma copier_git_spec: "deep_copier view_git_spec reach_git_spec git_spec_deep_copy_into"
  by (rule copier_struct[OF copier_ptr[OF copier_git_auth_spec],
    where dec = "\<lambda>s. gg_auth s"
      and upd = "\<lambda>s auth. s\<lparr>gg_auth := auth\<rparr>"
      and V = "\<lambda>s auth.
        \<lparr>gt_repo = gg_repo s, gt_ref = gg_ref s, gt_auth = auth\<rparr>"])
    (auto simp: view_git_spec_def reach_git_spec_def git_spec_deep_copy_into_def copy_pair_def)

lemma copier_polling_spec: "deep_copier view_polling_spec reach_polling_spec
    polling_spec_deep_copy_into"
  by (rule copier_struct[OF copier_ptr[OF copier_flat],
    where dec = "\<lambda>s. gp_enabled s"
      and upd = "\<lambda>s enabled. s\<lparr>gp_enabled := enabled\<rparr>"
      and V = "\<lambda>s enabled.
        \<lparr>po_enabled = enabled, po_interval = gp_interval s\<rparr>"])
    (auto simp: view_polling_spec_def reach_polling_spec_def polling_spec_deep_copy_into_def
        copy_pair_def)

lemma copier_gateway_spec: "deep_copier view_gateway_spec reach_gateway_spec
    gateway_spec_deep_copy_into"
  by (rule copier_struct[OF copier_ptr[OF copier_flat],
    where dec = "\<lambda>s. ge_tls s"
      and upd = "\<lambda>s tls. s\<lparr>ge_tls := tls\<rparr>"
      and V = "\<lambda>s tls.
        \<lparr>gw_port = ge_port s, gw_tls = tls, gw_secret_name = gi_secret_name (ge_api s),
            gw_secret_key = gi_secret_key (ge_api s)\<rparr>"])
    (auto simp: view_gateway_spec_def reach_gateway_spec_def gateway_spec_deep_copy_into_def
        copy_pair_def)

lemma copier_sync_defaults: "deep_copier view_sync_defaults reach_sync_defaults
    sync_defaults_deep_copy_into"
  by (rule copier_struct[OF copier_pair[OF copier_slice[OF copier_flat] copier_map[OF copier_flat]],
    where dec = "\<lambda>s. (gf_exclude_patterns s, gf_vars s)"
      and upd = "\<lambda>s (excludes, vars). s\<lparr>gf_exclude_patterns := excludes, gf_vars := vars\<rparr>"
      and V = "\<lambda>s (excludes, vars).
        \<lparr>df_exclude_patterns = the_list excludes, df_vars = the_list vars,
            df_sync_period = gf_sync_period s, df_designer_policy = gf_designer_policy s,
            df_dry_run = gf_dry_run s, df_paused = gf_paused s\<rparr>"])
    (auto simp: view_sync_defaults_def reach_sync_defaults_def sync_defaults_deep_copy_into_def
        copy_pair_def)

lemma copier_mapping_patch: "deep_copier view_mapping_patch reach_mapping_patch
    mapping_patch_deep_copy_into"
  by (rule copier_struct[OF copier_map[OF copier_flat],
    where dec = "\<lambda>s. gq_set s"
      and upd = "\<lambda>s sets. s\<lparr>gq_set := sets\<rparr>"
      and V = "\<lambda>s sets.
        \<lparr>mp_file = gq_file s, mp_set = the_list sets\<rparr>"])
    (auto simp: view_mapping_patch_def reach_mapping_patch_def mapping_patch_deep_copy_into_def
        copy_pair_def)

lemma copier_sync_mapping: "deep_copier view_sync_mapping reach_sync_mapping
    sync_mapping_deep_copy_into"
  by (rule copier_struct[OF copier_slice[OF copier_mapping_patch],
    where dec = "\<lambda>s. gn_patches s"
      and upd = "\<lambda>s patches. s\<lparr>gn_patches := patches\<rparr>"
      and V = "\<lambda>s patches.
        \<lparr>sm_source = gn_source s, sm_destination = gn_destination s, sm_type = gn_type s,
            sm_required = gn_required s, sm_template = gn_template s, sm_patches = the_list patches\<rparr>"])
    (auto simp: view_sync_mapping_def reach_sync_mapping_def sync_mapping_deep_copy_into_def
        copy_pair_def)

lemma copier_sync_profile_spec: "deep_copier view_sync_profile_spec reach_sync_profile_spec
    sync_profile_spec_deep_copy_into"
  by (rule copier_struct[OF copier_pair[OF copier_slice[OF copier_sync_mapping] copier_pair[OF
      copier_slice[OF copier_flat] copier_pair[OF copier_map[OF copier_flat] copier_pair[OF
      copier_ptr[OF copier_flat] copier_pair[OF copier_ptr[OF copier_flat] copier_ptr[OF
      copier_flat]]]]]],
    where dec = "\<lambda>s. (gr_mappings s, gr_exclude_patterns s, gr_vars s, gr_sync_period s, gr_dry_run s,
        gr_paused s)"
      and upd = "\<lambda>s (mappings, excludes, vars, period, dry, paused). s\<lparr>gr_mappings := mappings,
          gr_exclude_patterns := excludes, gr_vars := vars, gr_sync_period := period,
          gr_dry_run := dry, gr_paused := paused\<rparr>"
      and V = "\<lambda>s (mappings, excludes, vars, period, dry, paused).
        \<lparr>sp_mappings = the_list mappings, sp_exclude_patterns = the_list excludes,
            sp_vars = the_list vars, sp_sync_period = period, sp_dry_run = dry,
            sp_designer_policy = gr_designer_policy s, sp_paused = paused\<rparr>"])
    (auto simp: view_sync_profile_spec_def reach_sync_profile_spec_def
        sync_profile_spec_deep_copy_into_def copy_pair_def)

lemma copier_value:
  fixes v :: "cell heap \<Rightarrow> 'a \<Rightarrow> 'b"
  assumes i: "deep_copier v r i" and D: "\<And>x. D (C x) = x"
  shows "deep_copier v r (copy_value C (copy_ptr C D i) D)"
proof
  fix h h' :: "cell heap" and x assume "\<And>a. a \<in> set (r h x) \<Longrightarrow> hp_cell h' a = hp_cell h a"
  thus "v h' x = v h x \<and> r h' x = r h x" by (rule deep_copier.reads_reach[OF i])
next
  fix h h' :: "cell heap" and x y
  assume own: "owned (r h x) h" and run: "run_state (copy_value C (copy_ptr C D i) D x) h = (y, h')"
  let ?h1 = "h\<lparr>hp_next := hp_next h + 1, hp_cell := (hp_cell h)(hp_next h := C x)\<rparr>"
  obtain p where p: "run_state (copy_ptr C D i (Some (hp_next h))) ?h1 = (p,
      h')" and y: "y = D (hp_cell h' (the p))"
    using run by (auto simp: copy_value_def split: prod.splits)
  have k: "kept h ?h1" by (simp add: kept_def)
  have same: "v ?h1 x = v h x" "r ?h1 x = r h x" using deep_copier.kept_reach[OF i k own] by auto
  have "kept ?h1 h'" "view_ptr D v h' p = Some (v h x)" "fresh_in (reach_ptr D r h' p) ?h1 h'"
    using deep_copier.copies[OF copier_ptr[OF i, of D C] _ p] owned_kept[OF own k] D same
    by (simp_all add: view_ptr_def reach_ptr_def)
  thus "kept h h' \<and> v h' y = v h x \<and> fresh_in (r h' y) h h'"
    using kept_trans[OF k] y by (auto simp: view_ptr_def reach_ptr_def fresh_in_def)
qed

lemmas copier_profile_value = copier_value[OF copier_sync_profile_spec,
    of the_sync_profile_spec CSyncProfileSpec,
  simplified cell.sel simp_thms, folded sync_profile_spec_deep_copy_def]

lemma copier_sync_spec: "deep_copier view_sync_spec reach_sync_spec sync_spec_deep_copy_into"
  by (rule copier_struct[OF copier_pair[OF copier_sync_defaults copier_map[OF copier_profile_value]],
    where dec = "\<lambda>s. (gb_defaults s, gb_profiles s)"
      and upd = "\<lambda>s (defaults, profiles). s\<lparr>gb_defaults := defaults, gb_profiles := profiles\<rparr>"
      and V = "\<lambda>s (defaults, profiles).
        (defaults, the_list profiles)"])
    (auto simp: view_sync_spec_def reach_sync_spec_def sync_spec_deep_copy_into_def copy_pair_def)

subsection \<open>The copies over the library's\<close>

locale library_laws =
  fixes L :: library_copies
  assumes time: "deep_copier (\<lambda>h a. the_time (hp_cell h a)) (\<lambda>h a. [a]) (lc_time L)"
    and object_meta: "deep_copier view_object_meta reach_object_meta (lc_object_meta L)"
    and list_meta: "deep_copier view_list_meta reach_list_meta (lc_list_meta L)"
    and condition: "deep_copier flat no_cells (lc_condition L)"
    and resources: "deep_copier view_resources reach_resources (lc_resources L)"
begin

lemma copier_time: "deep_copier (view_ptr the_time flat) (reach_ptr the_time no_cells) (copy_option
    (lc_time L))"
  using copier_option[OF time] unfolding view_ptr_def[abs_def] reach_ptr_def[abs_def] .

lemma copier_agent_spec: "deep_copier view_agent_spec reach_agent_spec (agent_spec_deep_copy_into L)"
  by (rule copier_struct[OF copier_ptr[OF resources],
    where dec = "\<lambda>s. gz_resources s"
      and upd = "\<lambda>s resources. s\<lparr>gz_resources := resources\<rparr>"
      and V = "\<lambda>s resources.
        \<lparr>ag_repository = gj_repository (gz_image s), ag_tag = gj_tag (gz_image s),
            ag_pull_policy = gj_pull_policy (gz_image s), ag_resources = resources\<rparr>"])
    (auto simp: view_agent_spec_def reach_agent_spec_def agent_spec_deep_copy_into_def copy_pair_def)

lemma copier_gateway_sync_spec: "deep_copier view_gateway_sync_spec reach_gateway_sync_spec
    (gateway_sync_spec_deep_copy_into L)"
  by (rule copier_struct[OF copier_pair[OF copier_git_spec copier_pair[OF copier_polling_spec
      copier_pair[OF copier_gateway_spec copier_pair[OF copier_sync_spec copier_agent_spec]]]],
    where dec = "\<lambda>s. (gx_git s, gx_polling s, gx_gateway s, gx_sync s, gx_agent s)"
      and upd = "\<lambda>s (git, polling, gateway, sync, agent). s\<lparr>gx_git := git, gx_polling := polling,
          gx_gateway := gateway, gx_sync := sync, gx_agent := agent\<rparr>"
      and V = "\<lambda>s (git, polling, gateway, sync, agent).
        \<lparr>ss_git = git, ss_polling = polling, ss_gateway = gateway, ss_defaults = fst sync,
            ss_profiles = snd sync, ss_agent = agent, ss_paused = gx_paused s\<rparr>"])
    (auto simp: view_gateway_sync_spec_def reach_gateway_sync_spec_def
        gateway_sync_spec_deep_copy_into_def copy_pair_def)

lemma copier_discovered_gateway: "deep_copier view_discovered_gateway reach_discovered_gateway
    (discovered_gateway_deep_copy_into L)"
  by (rule copier_struct[OF copier_pair[OF copier_time copier_slice[OF copier_flat]],
    where dec = "\<lambda>s. (gv_last_sync_time s, gv_projects_synced s)"
      and upd = "\<lambda>s (time, projects). s\<lparr>gv_last_sync_time := time, gv_projects_synced := projects\<rparr>"
      and V = "\<lambda>s (time, projects).
        \<lparr>dg_name = gv_name s, dg_namespace = gv_namespace s, dg_pod_name = gv_pod_name s,
            dg_service_account = gv_service_account s, dg_profile = gv_profile s,
            dg_sync_status = gv_sync_status s, dg_last_sync_time = time,
            dg_last_sync_duration = gv_last_sync_duration s, dg_synced_commit = gv_synced_commit s,
            dg_synced_ref = gv_synced_ref s, dg_agent_version = gv_agent_version s,
            dg_last_scan_result = gv_last_scan_result s, dg_files_changed = gv_files_changed s,
            dg_projects_synced = the_list projects\<rparr>"])
    (auto simp: view_discovered_gateway_def reach_discovered_gateway_def
        discovered_gateway_deep_copy_into_def copy_pair_def)

lemma copier_gateway_sync_status: "deep_copier view_gateway_sync_status reach_gateway_sync_status
    (gateway_sync_status_deep_copy_into L)"
  by (rule copier_struct[OF copier_pair[OF copier_time copier_pair[OF copier_slice[OF
      copier_discovered_gateway] copier_slice[OF condition]]],
    where dec = "\<lambda>s. (gc_last_sync_time s, gc_discovered s, gc_conditions s)"
      and upd = "\<lambda>s (time, gateways, conds). s\<lparr>gc_last_sync_time := time, gc_discovered := gateways,
          gc_conditions := conds\<rparr>"
      and V = "\<lambda>s (time, gateways, conds).
        \<lparr>st_observed_generation = gc_observed_generation s, st_last_sync_time = time,
            st_last_sync_ref = gc_last_sync_ref s, st_last_sync_commit = gc_last_sync_commit s,
            st_last_sync_commit_short = gc_last_sync_commit_short s,
            st_ref_resolution = gc_ref_resolution s, st_profile_count = gc_profile_count s,
            st_discovered = the_list gateways, st_conditions = the_list conds\<rparr>"])
    (auto simp: view_gateway_sync_status_def reach_gateway_sync_status_def
        gateway_sync_status_deep_copy_into_def copy_pair_def)

lemma copier_gateway_sync: "deep_copier view_gateway_sync reach_gateway_sync
    (gateway_sync_deep_copy_into L)"
  by (rule copier_struct[OF copier_pair[OF object_meta copier_pair[OF copier_gateway_sync_spec
      copier_gateway_sync_status]],
    where dec = "\<lambda>s. (go_meta s, go_spec s, go_status s)"
      and upd = "\<lambda>s (meta, spec, status). s\<lparr>go_meta := meta, go_spec := spec, go_status := status\<rparr>"
      and V = "\<lambda>s (meta, spec, status).
        (go_type s, \<lparr>gy_meta = meta, gy_spec = spec, gy_status = status\<rparr>)"])
    (auto simp: view_gateway_sync_def reach_gateway_sync_def gateway_sync_deep_copy_into_def
        copy_pair_def)

lemma copier_gateway_sync_list: "deep_copier view_gateway_sync_list reach_gateway_sync_list
    (gateway_sync_list_deep_copy_into L)"
  by (rule copier_struct[OF copier_pair[OF list_meta copier_slice[OF copier_gateway_sync]],
    where dec = "\<lambda>s. (gl_meta s, gl_items s)"
      and upd = "\<lambda>s (meta, items). s\<lparr>gl_meta := meta, gl_items := items\<rparr>"
      and V = "\<lambda>s (meta, items).
        (gl_type s, meta, the_list items)"])
    (auto simp: view_gateway_sync_list_def reach_gateway_sync_list_def
        gateway_sync_list_deep_copy_into_def copy_pair_def)

end

end
