(* ===== verification/DeepCopyProps.thy ===== *)
theory DeepCopyProps
  imports DeepCopyLaws ControllerStatus
begin

section \<open>Copies and changes in place: what the reconciler relies on\<close>

text \<open>
  A reconcile keeps a deep copy of the resource it read as the base of its merge patches, and then
  changes the resource in place. Here are a library that copies as \<open>library_laws\<close> demands, \<open>setCondition\<close>
  as it writes to memory, and that the functions on values of \<open>ControllerStatus\<close> are what it does: the
  resource changes as they say, and the base does not.
\<close>

subsection \<open>A library\<close>

definition object_meta_copy :: "go_object_meta \<Rightarrow> (cell, go_object_meta) copying" where
  "object_meta_copy x = do {
     labels \<leftarrow> copy_map CStringMap the_string_map ret (jm_labels x);
     annotations \<leftarrow> copy_map CStringMap the_string_map ret (jm_annotations x);
     finalizers \<leftarrow> copy_slice CStrings the_strings ret (jm_finalizers x);
     deleted \<leftarrow> copy_ptr CTime the_time ret (jm_deletion_timestamp x);
     ret (x\<lparr>jm_labels := labels, jm_annotations := annotations, jm_finalizers := finalizers,
         jm_deletion_timestamp := deleted\<rparr>) }"

definition list_meta_copy :: "go_list_meta \<Rightarrow> (cell, go_list_meta) copying" where
  "list_meta_copy x = do {
     remaining \<leftarrow> copy_ptr CInt the_int ret (lm_remaining x);
     ret (x\<lparr>lm_remaining := remaining\<rparr>) }"

definition resources_copy :: "go_resources \<Rightarrow> (cell, go_resources) copying" where
  "resources_copy x = do {
     limits \<leftarrow> copy_map CStringMap the_string_map ret (lr_limits x);
     requests \<leftarrow> copy_map CStringMap the_string_map ret (lr_requests x);
     ret (x\<lparr>lr_limits := limits, lr_requests := requests\<rparr>) }"

lemma copier_object_meta: "deep_copier view_object_meta reach_object_meta object_meta_copy"
  by (rule copier_struct[OF copier_pair[OF copier_map[OF copier_flat] copier_pair[OF copier_map[OF
      copier_flat] copier_pair[OF copier_slice[OF copier_flat] copier_ptr[OF copier_flat]]]],
    where dec = "\<lambda>s. (jm_labels s, jm_annotations s, jm_finalizers s, jm_deletion_timestamp s)"
      and upd = "\<lambda>s (labels, anns, fins, deleted). s\<lparr>jm_labels := labels, jm_annotations := anns,
          jm_finalizers := fins, jm_deletion_timestamp := deleted\<rparr>"
      and V = "\<lambda>s (labels, anns, fins, deleted).
        \<lparr>om_name = jm_name s, om_namespace = jm_namespace s, om_labels = the_list labels,
            om_annotations = the_list anns, om_resource_version = jm_resource_version s,
            om_generation = jm_generation s, om_finalizers = the_list fins,
            om_deletion_timestamp = deleted\<rparr>"])
    (auto simp: view_object_meta_def reach_object_meta_def object_meta_copy_def copy_pair_def)

lemma copier_list_meta: "deep_copier view_list_meta reach_list_meta list_meta_copy"
  by (rule copier_struct[OF copier_ptr[OF copier_flat],
    where dec = "\<lambda>s. lm_remaining s"
      and upd = "\<lambda>s remaining. s\<lparr>lm_remaining := remaining\<rparr>"
      and V = "\<lambda>s remaining.
        (lm_resource_version s, lm_continue s, remaining)"])
    (auto simp: view_list_meta_def reach_list_meta_def list_meta_copy_def copy_pair_def)

lemma copier_resources: "deep_copier view_resources reach_resources resources_copy"
  by (rule copier_struct[OF copier_pair[OF copier_map[OF copier_flat] copier_map[OF copier_flat]],
    where dec = "\<lambda>s. (lr_limits s, lr_requests s)"
      and upd = "\<lambda>s (lim, req). s\<lparr>lr_limits := lim, lr_requests := req\<rparr>"
      and V = "\<lambda>s (lim, req).
        \<lparr>rr_limits = the_list lim, rr_requests = the_list req\<rparr>"])
    (auto simp: view_resources_def reach_resources_def resources_copy_def copy_pair_def)

definition go_library :: library_copies where
  "go_library = \<lparr>lc_time = copy_cell (\<lambda>a. a) (\<lambda>a n. n) CTime (\<lambda>a. the_time) ret,
     lc_object_meta = object_meta_copy, lc_list_meta = list_meta_copy, lc_condition = ret,
     lc_resources = resources_copy\<rparr>"

interpretation runtime: library_laws go_library
proof (rule library_laws.intro)
  show "deep_copier (\<lambda>h a. the_time (hp_cell h a)) (\<lambda>h a. [a]) (lc_time go_library)"
    using copier_cell[OF copier_flat, of "\<lambda>a. a" "\<lambda>a n. n" "\<lambda>a. the_time" CTime "\<lambda>t. t"] by (simp add: go_library_def)
qed (simp_all add: go_library_def copier_object_meta copier_list_meta copier_resources copier_flat)

subsection \<open>setCondition in memory\<close>

text \<open>The index at which the loop of \<open>setCondition\<close> returns, and what it leaves there.\<close>

fun condition_index :: "string \<Rightarrow> status_condition list \<Rightarrow> nat option" where
  "condition_index t [] = None"
| "condition_index t (c # cs) = (if cd_type c = t then Some 0 else map_option Suc (condition_index t cs))"

definition replaced_condition :: "int \<Rightarrow> int \<Rightarrow> cond_update \<Rightarrow> status_condition \<Rightarrow> status_condition" where
  "replaced_condition generation now u c =
     (if cd_status c \<noteq> cu_status u then new_condition generation now u
      else c\<lparr>cd_reason := cu_reason u, cd_message := cu_message u, cd_observed_generation := generation\<rparr>)"

definition set_condition_at :: "status_condition list \<Rightarrow> int \<Rightarrow> cond_update \<Rightarrow> nat \<Rightarrow> (cell, unit) copying" where
  "set_condition_at spare now u a = do {
     c \<leftarrow> hload a;
     let gs = the_gateway_sync c;
     let generation = jm_generation (go_meta gs);
     let s = gc_conditions (go_status gs);
     conds \<leftarrow> slice_elems the_conditions s;
     (case condition_index (cu_type u) conds of
        Some i \<Rightarrow> slice_set CConditions the_conditions s i (replaced_condition generation now u (conds ! i))
      | None \<Rightarrow> do {
          s' \<leftarrow> slice_append CConditions the_conditions spare s (new_condition generation now u);
          hstore a (CGatewaySync (gs\<lparr>go_status := (go_status gs)\<lparr>gc_conditions := s'\<rparr>\<rparr>)) }) }"

lemma condition_index_bound: "condition_index t cs = Some i \<Longrightarrow> i < length cs"
  by (induction cs arbitrary: i) (auto split: if_splits)

lemma put_condition_index:
  "put_condition generation now u cs = (case condition_index (cu_type u) cs of
     Some i \<Rightarrow> cs[i := replaced_condition generation now u (cs ! i)]
   | None \<Rightarrow> cs @ [new_condition generation now u])"
  by (induction cs) (auto simp: replaced_condition_def split: option.splits)

subsection \<open>A resource in memory\<close>

text \<open>The resource at an address, and that it is laid out as a tree: no cell is used twice.\<close>

definition gs_at :: "cell heap \<Rightarrow> nat \<Rightarrow> go_type_meta \<times> gateway_sync" where
  "gs_at h a = view_gateway_sync h (the_gateway_sync (hp_cell h a))"

definition gs_cells :: "cell heap \<Rightarrow> nat \<Rightarrow> nat list" where
  "gs_cells h a = a # reach_gateway_sync h (the_gateway_sync (hp_cell h a))"

definition conditions_at :: "cell heap \<Rightarrow> nat \<Rightarrow> slice option" where
  "conditions_at h a = gc_conditions (go_status (the_gateway_sync (hp_cell h a)))"

definition gs_tree :: "cell heap \<Rightarrow> nat \<Rightarrow> bool" where
  "gs_tree h a \<longleftrightarrow> owned (gs_cells h a) h \<and> distinct (gs_cells h a) \<and> in_bounds the_conditions h (conditions_at h a)"

text \<open>The cells of everything but the conditions.\<close>

definition front_cells :: "cell heap \<Rightarrow> go_gateway_sync \<Rightarrow> nat list" where
  "front_cells h gs = reach_object_meta h (go_meta gs) @ reach_gateway_sync_spec h (go_spec gs) @
     reach_ptr the_time no_cells h (gc_last_sync_time (go_status gs)) @
     reach_slice the_discovered_gateways reach_discovered_gateway h (gc_discovered (go_status gs))"

lemma view_conditions: "the_list (view_slice the_conditions flat h s) = elems the_conditions h s"
  by (cases s) (simp_all add: the_list_def view_slice_def elems_def)

lemma reach_conditions: "reach_slice the_conditions no_cells h s = cells_of s"
  by (cases s) (simp_all add: reach_slice_def)

lemma gs_cells_split:
  "gs_cells h a = a # front_cells h (the_gateway_sync (hp_cell h a)) @ cells_of (conditions_at h a)"
  by (simp add: gs_cells_def front_cells_def reach_gateway_sync_def reach_gateway_sync_status_def
      conditions_at_def reach_conditions)

text \<open>Only the slice of conditions and its array have changed.\<close>

lemma view_other_conditions:
  assumes same: "\<And>b. b \<in> set (front_cells h gs) \<Longrightarrow> hp_cell h' b = hp_cell h b"
    and gs': "gs' = gs\<lparr>go_status := (go_status gs)\<lparr>gc_conditions := s'\<rparr>\<rparr>"
  shows "view_gateway_sync h' gs' = (case view_gateway_sync h gs of (t, x) \<Rightarrow>
      (t, map_status (\<lambda>st. st\<lparr>st_conditions := elems the_conditions h' s'\<rparr>) x)) \<and>
    front_cells h' gs' = front_cells h gs"
proof -
  note meta = deep_copier.reads_reach[OF copier_object_meta, of h "go_meta gs" h']
  note spec = deep_copier.reads_reach[OF runtime.copier_gateway_sync_spec, of h "go_spec gs" h']
  note time = deep_copier.reads_reach[OF runtime.copier_time, of h "gc_last_sync_time (go_status gs)" h']
  note gws = deep_copier.reads_reach[OF copier_slice[OF runtime.copier_discovered_gateway,
      of the_discovered_gateways CDiscoveredGateways, simplified], of h "gc_discovered (go_status gs)" h']
  show ?thesis using meta spec time gws same
    by (simp add: gs' front_cells_def view_gateway_sync_def view_gateway_sync_status_def view_conditions map_status_def)
qed

text \<open>A change in place: the resource's own cells and new ones.\<close>

definition changes_own :: "nat \<Rightarrow> cell heap \<Rightarrow> cell heap \<Rightarrow> bool" where
  "changes_own a h h' \<longleftrightarrow> gs_tree h' a \<and> hp_next h \<le> hp_next h' \<and>
     (\<forall>b. b \<notin> set (gs_cells h a) \<longrightarrow> b < hp_next h \<longrightarrow> hp_cell h' b = hp_cell h b) \<and>
     (\<forall>b\<in>set (gs_cells h' a). b \<in> set (gs_cells h a) \<or> hp_next h \<le> b)"

lemma changes_own_trans: "changes_own a h h1 \<Longrightarrow> changes_own a h1 h2 \<Longrightarrow> changes_own a h h2"
  unfolding changes_own_def by (metis le_trans less_le_trans not_le)

text \<open>
  The two ways \<open>setCondition\<close> writes have this in common: the array \<open>n\<close> of the conditions, which is theirs
  or new, and maybe the cell of the resource, which then holds the new slice.
\<close>

lemma conditions_written:
  assumes tree: "gs_tree h a"
    and n: "n \<in> set (cells_of (conditions_at h a)) \<or> n = hp_next h" "n < hp_next h'" "hp_next h \<le> hp_next h'"
    and same: "\<And>b. b \<noteq> n \<Longrightarrow> b \<noteq> a \<Longrightarrow> hp_cell h' b = hp_cell h b"
    and gs': "the_gateway_sync (hp_cell h' a) = (let gs = the_gateway_sync (hp_cell h a) in
      gs\<lparr>go_status := (go_status gs)\<lparr>gc_conditions := Some t\<rparr>\<rparr>)"
    and t: "sl_array t = n" "in_bounds the_conditions h' (Some t)"
  shows "gs_at h' a = (case gs_at h a of (ty, x) \<Rightarrow>
      (ty, map_status (\<lambda>st. st\<lparr>st_conditions := elems the_conditions h' (Some t)\<rparr>) x)) \<and> changes_own a h h'"
proof -
  let ?gs = "the_gateway_sync (hp_cell h a)"
  have cells: "gs_cells h a = a # front_cells h ?gs @ cells_of (conditions_at h a)" by (rule gs_cells_split)
  have own: "a < hp_next h" "owned (front_cells h ?gs) h" "a \<notin> set (front_cells h ?gs)" "distinct (front_cells h ?gs)"
    "a \<notin> set (cells_of (conditions_at h a))" "set (front_cells h ?gs) \<inter> set (cells_of (conditions_at h a)) = {}"
    using tree by (auto simp: gs_tree_def cells)
  have na: "n \<noteq> a" "n \<notin> set (front_cells h ?gs)" using n(1) own by (auto simp: owned_def)
  have front: "hp_cell h' b = hp_cell h b" if "b \<in> set (front_cells h ?gs)" for b
    using same[of b] that na(2) own(3) by auto
  note view = view_other_conditions[OF front, of ?gs _ "Some t", OF _ gs'[unfolded Let_def]]
  have cells': "gs_cells h' a = a # front_cells h ?gs @ [n]"
    using view t(1) gs' by (simp add: gs_cells_split conditions_at_def Let_def)
  have tree': "gs_tree h' a"
    using own na n t gs' by (auto simp: gs_tree_def cells' conditions_at_def owned_def Let_def)
  have "changes_own a h h'" unfolding changes_own_def
    using tree' n same by (auto simp: cells cells')
  thus ?thesis using view by (simp add: gs_at_def)
qed

text \<open>\<open>set_condition\<close> of \<open>ControllerStatus\<close> is what \<open>setCondition\<close> does to the resource.\<close>

lemma set_condition_at_spec:
  assumes tree: "gs_tree h a" and run: "run_state (set_condition_at spare now u a) h = (r, h')"
  shows "gs_at h' a = apsnd (set_condition now u) (gs_at h a) \<and> changes_own a h h'"
proof -
  let ?gs = "the_gateway_sync (hp_cell h a)" and ?s = "conditions_at h a"
  let ?cs = "elems the_conditions h ?s" and ?gen = "jm_generation (go_meta (the_gateway_sync (hp_cell h a)))"
  have s: "gc_conditions (go_status ?gs) = ?s" by (simp add: conditions_at_def)
  have own: "owned (cells_of ?s) h" "in_bounds the_conditions h ?s" "a \<notin> set (cells_of ?s)" "a < hp_next h"
    using tree by (simp_all add: gs_tree_def gs_cells_split)
  have put: "apsnd (set_condition now u) (gs_at h a) = (case gs_at h a of (ty, x) \<Rightarrow>
      (ty, map_status (\<lambda>st. st\<lparr>st_conditions := put_condition ?gen now u ?cs\<rparr>) x))"
    by (simp add: gs_at_def set_condition_def view_gateway_sync_def view_object_meta_def view_gateway_sync_status_def
        view_conditions map_status_def s)
  show ?thesis
  proof (cases "condition_index (cu_type u) ?cs")
    case (Some i)
    let ?c = "replaced_condition ?gen now u (?cs ! i)"
    have set: "run_state (slice_set CConditions the_conditions ?s i ?c) h = ((), h')"
      using run Some by (simp add: set_condition_at_def Let_def s)
    obtain t where t: "?s = Some t" "writes_cell (cells_of ?s) h (sl_array t) h'"
        "elems the_conditions h' ?s = ?cs[i := ?c]" "in_bounds the_conditions h' ?s"
      using slice_set_spec[OF _ own(2) condition_index_bound[OF Some] own(1) set] by auto
    hence "hp_cell h' a = hp_cell h a" using own(3) by (auto simp: writes_cell_def)
    hence "the_gateway_sync (hp_cell h' a) = (let gs = ?gs in
        gs\<lparr>go_status := (go_status gs)\<lparr>gc_conditions := Some t\<rparr>\<rparr>)" using s t(1) by (simp add: Let_def)
    from conditions_written[OF tree _ _ _ _ this, of "sl_array t"] t put Some show ?thesis
      by (auto simp: writes_cell_def put_condition_index)
  next
    case None
    let ?c = "new_condition ?gen now u"
    obtain s' h1 where app: "run_state (slice_append CConditions the_conditions spare ?s ?c) h = (s', h1)"
      by (cases "run_state (slice_append CConditions the_conditions spare ?s ?c) h")
    obtain t where t: "s' = Some t" "writes_cell (cells_of ?s) h (sl_array t) h1"
        "elems the_conditions h1 s' = ?cs @ [?c]" "in_bounds the_conditions h1 s'"
      using slice_append_spec[OF _ own(2,1) app] by auto
    have h': "h' = h1\<lparr>hp_cell := (hp_cell h1)(a := CGatewaySync (?gs\<lparr>go_status :=
        (go_status ?gs)\<lparr>gc_conditions := s'\<rparr>\<rparr>))\<rparr>"
      using run None app by (simp add: set_condition_at_def Let_def s)
    have na: "sl_array t \<noteq> a" using t(2) own(3,4) by (auto simp: writes_cell_def)
    have "the_gateway_sync (hp_cell h' a) = (let gs = ?gs in
        gs\<lparr>go_status := (go_status gs)\<lparr>gc_conditions := Some t\<rparr>\<rparr>)" using t(1) by (simp add: h' Let_def)
    from conditions_written[OF tree _ _ _ _ this, of "sl_array t"] t na put None show ?thesis
      by (auto simp: writes_cell_def put_condition_index h' elems_def in_bounds_def)
  qed
qed

fun set_conditions_at :: "(status_condition list \<times> int \<times> cond_update) list \<Rightarrow> nat \<Rightarrow> (cell, unit) copying" where
  "set_conditions_at [] a = ret ()"
| "set_conditions_at ((spare, now, u) # us) a = do { x \<leftarrow> set_condition_at spare now u a; set_conditions_at us a }"

lemma set_conditions_at_spec:
  assumes "gs_tree h a" "run_state (set_conditions_at us a) h = (r, h')"
  shows "gs_at h' a = apsnd (fold (\<lambda>(spare, now, u). set_condition now u) us) (gs_at h a) \<and> changes_own a h h'"
  using assms
proof (induction us a arbitrary: h rule: set_conditions_at.induct)
  case (1 a)
  thus ?case by (cases "gs_at h a") (auto simp: changes_own_def)
next
  case (2 spare now u us a)
  obtain x h1 where x: "run_state (set_condition_at spare now u a) h = (x, h1)"
    and us: "run_state (set_conditions_at us a) h1 = (r, h')"
    using 2(3) by (auto split: prod.splits)
  note step = set_condition_at_spec[OF 2(2) x]
  hence "gs_tree h1 a" by (simp add: changes_own_def)
  with 2(1) us step show ?case
    by (cases "gs_at h a") (auto intro: changes_own_trans)
qed

subsection \<open>The base of a patch\<close>

lemma deep_copy_at:
  assumes L: "library_laws L" and tree: "gs_tree h a"
    and run: "run_state (gateway_sync_deep_copy L (Some a)) h = (base, h1)"
  shows "\<exists>b. base = Some b \<and> kept h h1 \<and> gs_at h1 b = gs_at h a \<and> fresh_in (gs_cells h1 b) h h1"
proof -
  note copier = copier_ptr[OF library_laws.copier_gateway_sync[OF L], of the_gateway_sync CGatewaySync, simplified, folded gateway_sync_deep_copy_def]
  have "owned (reach_ptr the_gateway_sync reach_gateway_sync h (Some a)) h"
    using tree by (simp add: gs_tree_def gs_cells_def reach_ptr_def)
  from deep_copier.copies[OF copier this run] show ?thesis
    by (auto simp: view_ptr_def reach_ptr_def gs_at_def gs_cells_def)
qed

lemma original_kept:
  assumes tree: "gs_tree h a" and kept: "kept h h1"
  shows "gs_tree h1 a \<and> gs_at h1 a = gs_at h a \<and> gs_cells h1 a = gs_cells h a"
proof -
  have a: "hp_cell h1 a = hp_cell h a" using kept tree by (simp add: kept_def gs_tree_def gs_cells_def)
  have cells: "gs_cells h1 a = gs_cells h a" "gs_at h1 a = gs_at h a"
    using deep_copier.kept_reach[OF runtime.copier_gateway_sync kept, of "the_gateway_sync (hp_cell h a)"] tree a
    by (simp_all add: gs_tree_def gs_cells_def gs_at_def)
  moreover have "gs_tree h1 a"
    using tree cells owned_kept[OF _ kept] kept a
    by (auto simp: gs_tree_def conditions_at_def in_bounds_def gs_cells_split kept_def split: option.splits)
  ultimately show ?thesis by simp
qed

text \<open>
  Whatever is then written to the cells of the original, or to new ones, the copy is not changed,
  and shares no cell with the original.
\<close>

lemma copy_unchanged:
  assumes tree: "gs_tree h a" and kept: "kept h h1" and fresh: "fresh_in (gs_cells h1 b) h h1"
    and later: "changes_own a h1 h'"
  shows "gs_at h' b = gs_at h1 b \<and> set (gs_cells h' b) \<inter> set (gs_cells h' a) = {}"
proof -
  have cells: "gs_cells h1 a = gs_cells h a" using original_kept[OF tree kept] by simp
  have apart: "b' \<notin> set (gs_cells h1 a)" "b' < hp_next h1" if "b' \<in> set (gs_cells h1 b)" for b'
    using that fresh tree by (fastforce simp: fresh_in_def gs_tree_def owned_def cells)+
  have same: "hp_cell h' b' = hp_cell h1 b'" if "b' \<in> set (gs_cells h1 b)" for b'
    using apart[OF that] later by (simp add: changes_own_def)
  hence "hp_cell h' b = hp_cell h1 b" by (simp add: gs_cells_def)
  hence "gs_at h' b = gs_at h1 b" "gs_cells h' b = gs_cells h1 b"
    using deep_copier.reads_reach[OF runtime.copier_gateway_sync, of h1 "the_gateway_sync (hp_cell h1 b)" h'] same
    by (simp_all add: gs_at_def gs_cells_def)
  thus ?thesis using apart later by (fastforce simp: changes_own_def)
qed

text \<open>
  C10: after \<open>base := gs.DeepCopy()\<close> and any calls of \<open>setCondition\<close> on \<open>gs\<close>, which write to the array
  of its conditions in place or move it, \<open>gs\<close> is the resource with the conditions that the functions on
  values compute, \<open>base\<close> is still the resource as it was read, and the two share no memory; so the merge
  patch \<open>client.MergeFrom(base)\<close> sends the conditions that were changed.
\<close>

theorem base_keeps_original:
  assumes "library_laws L" "gs_tree h a"
    and "run_state (do { base \<leftarrow> gateway_sync_deep_copy L (Some a); u \<leftarrow> set_conditions_at us a; ret base }) h = (base, h')"
  shows "gs_at h' a = apsnd (fold (\<lambda>(spare, now, u). set_condition now u) us) (gs_at h a) \<and>
    (\<exists>b. base = Some b \<and> gs_at h' b = gs_at h a \<and> set (gs_cells h' b) \<inter> set (gs_cells h' a) = {})"
proof -
  obtain h1 u where copy: "run_state (gateway_sync_deep_copy L (Some a)) h = (base, h1)"
    and us: "run_state (set_conditions_at us a) h1 = (u, h')"
    using assms(3) by (auto split: prod.splits)
  obtain b where b: "base = Some b" "kept h h1" "gs_at h1 b = gs_at h a" "fresh_in (gs_cells h1 b) h h1"
    using deep_copy_at[OF assms(1,2) copy] by auto
  have tree: "gs_tree h1 a" "gs_at h1 a = gs_at h a" using original_kept[OF assms(2) b(2)] by simp_all
  from set_conditions_at_spec[OF tree(1) us] copy_unchanged[OF assms(2) b(2,4)] b tree(2) show ?thesis by auto
qed

text \<open>A resource with an annotation, one profile and one condition, at address 0.\<close>

definition sample_condition :: status_condition where
  "sample_condition = \<lparr>cd_type = type_ready, cd_status = CFalse, cd_observed_generation = 1, cd_last_transition = 5,
     cd_reason = ''Pending'', cd_message = []\<rparr>"

definition sample_go_gs :: go_gateway_sync where
  "sample_go_gs = \<lparr>go_type = \<lparr>tm_kind = ''GatewaySync'', tm_api_version = ''stoker.io/v1alpha1''\<rparr>,
     go_meta = \<lparr>jm_name = ''cr'', jm_namespace = ''ns'', jm_labels = None, jm_annotations = Some 1, jm_resource_version = ''1'',
       jm_generation = 1, jm_finalizers = None, jm_deletion_timestamp = None\<rparr>,
     go_spec = \<lparr>gx_git = \<lparr>gg_repo = ''https://host/r'', gg_ref = ''main'', gg_auth = None\<rparr>,
       gx_polling = \<lparr>gp_enabled = None, gp_interval = ''60s''\<rparr>,
       gx_gateway = \<lparr>ge_port = 8088, ge_tls = Some 2, ge_api = \<lparr>gi_secret_name = ''key'', gi_secret_key = ''apiKey''\<rparr>\<rparr>,
       gx_sync = \<lparr>gb_defaults = \<lparr>gf_exclude_patterns = None, gf_vars = None, gf_sync_period = 30, gf_designer_policy = [],
           gf_dry_run = False, gf_paused = False\<rparr>, gb_profiles = Some 3\<rparr>,
       gx_agent = \<lparr>gz_image = \<lparr>gj_repository = [], gj_tag = [], gj_pull_policy = []\<rparr>, gz_resources = None\<rparr>,
       gx_paused = False\<rparr>,
     go_status = \<lparr>gc_observed_generation = 0, gc_last_sync_time = None, gc_last_sync_ref = [], gc_last_sync_commit = [],
       gc_last_sync_commit_short = [], gc_ref_resolution = [], gc_profile_count = 0, gc_discovered = None,
       gc_conditions = Some \<lparr>sl_array = 5, sl_offset = 0, sl_len = 1\<rparr>\<rparr>\<rparr>"

definition sample_heap :: "cell heap" where
  "sample_heap = \<lparr>hp_cell = (\<lambda>_. CBool False)(0 := CGatewaySync sample_go_gs, 1 := CStringMap [(''k'', ''v'')],
       3 := CSyncProfiles [(''default'', \<lparr>gr_mappings = None, gr_exclude_patterns = None, gr_vars = None,
         gr_sync_period = Some 4, gr_dry_run = None, gr_designer_policy = [], gr_paused = None\<rparr>)],
       4 := CInt 60, 5 := CConditions [sample_condition]), hp_next = 6\<rparr>"

lemmas gs_defs = gs_at_def gs_cells_def conditions_at_def view_gateway_sync_def view_gateway_sync_status_def
  view_object_meta_def view_gateway_sync_spec_def view_git_spec_def view_polling_spec_def view_gateway_spec_def
  view_sync_spec_def view_sync_defaults_def view_sync_profile_spec_def view_agent_spec_def
  reach_gateway_sync_def reach_gateway_sync_status_def reach_object_meta_def reach_gateway_sync_spec_def
  reach_git_spec_def reach_polling_spec_def reach_gateway_spec_def reach_sync_spec_def reach_sync_defaults_def
  reach_sync_profile_spec_def reach_agent_spec_def view_ptr_def reach_ptr_def view_slice_def reach_slice_def
  view_map_def reach_map_def the_list_def window_def in_bounds_def

lemma sample_tree: "gs_tree sample_heap 0"
  by (simp add: gs_tree_def gs_defs sample_heap_def sample_go_gs_def)

definition ready_now :: "(status_condition list \<times> int \<times> cond_update) list" where
  "ready_now = [([], 9, cond type_ready CTrue ''Synced'' []), ([], 9, cond type_profiles_valid CTrue ''Valid'' [])]"

theorem base_keeps_original_witness:
  "case run_state (do { base \<leftarrow> gateway_sync_deep_copy go_library (Some 0); u \<leftarrow> set_conditions_at ready_now 0; ret base }) sample_heap of
     (base, h') \<Rightarrow>
       gs_at h' 0 = apsnd (fold (\<lambda>(spare, now, u). set_condition now u) ready_now) (gs_at sample_heap 0) \<and>
       (\<exists>b. base = Some b \<and> gs_at h' b = gs_at sample_heap 0 \<and> set (gs_cells h' b) \<inter> set (gs_cells h' 0) = {})"
  using base_keeps_original[OF runtime.library_laws_axioms sample_tree surjective_pairing, of ready_now]
  by (simp only: case_prod_beta)

text \<open>
  An assignment \<open>base := gs\<close> would not do: the array of the conditions is then the base's as well, the
  write shows in both, and the patch between them is empty.
\<close>

definition assigned_heap :: "cell heap" where
  "assigned_heap = sample_heap\<lparr>hp_cell := (hp_cell sample_heap)(6 := CGatewaySync sample_go_gs), hp_next := 7\<rparr>"

lemma assignment_shares:
  "case run_state (set_condition_at [] 9 (cond type_ready CTrue ''Synced'' []) 0) assigned_heap of (u, h') \<Rightarrow>
     gs_at h' 6 = gs_at h' 0 \<and> gs_at h' 6 \<noteq> gs_at assigned_heap 6"
  by (simp add: set_condition_at_def slice_set_def elems_def gs_defs assigned_heap_def sample_heap_def sample_go_gs_def
      sample_condition_def replaced_condition_def new_condition_def type_ready_def Let_def)

subsection \<open>The other copies\<close>

text \<open>A nil pointer is copied to nil, and \<open>DeepCopyObject\<close> never returns an interface around a nil pointer.\<close>

lemma nil_copies:
  "gateway_sync_deep_copy_object L None = ret None" "gateway_sync_list_deep_copy_object L None = ret None"
  "run_state (gateway_sync_deep_copy_object L p) h = (obj, h') \<Longrightarrow> obj \<noteq> Some (GatewaySyncObject None)"
  "run_state (gateway_sync_list_deep_copy_object L p) h = (obj, h') \<Longrightarrow> obj \<noteq> Some (GatewaySyncListObject None)"
  by (auto simp: gateway_sync_deep_copy_object_def gateway_sync_list_deep_copy_object_def gateway_sync_deep_copy_def
      gateway_sync_list_deep_copy_def copy_ptr_def copy_option_def split: prod.splits option.splits if_splits)

text \<open>Every copy of a type without the library's, as an instance of the contract.\<close>

interpretation sync_profile: deep_copier view_sync_profile_spec reach_sync_profile_spec sync_profile_spec_deep_copy_into
  by (rule copier_sync_profile_spec)

interpretation git: deep_copier view_git_spec reach_git_spec git_spec_deep_copy_into
  by (rule copier_git_spec)

interpretation gateway_syncs: deep_copier view_gateway_sync_list reach_gateway_sync_list
    "gateway_sync_list_deep_copy_into go_library"
  by (rule runtime.copier_gateway_sync_list)

end
