(* ===== verification/HttpServers.thy ===== *)
theory HttpServers
  imports AgentHealth WebhookReceiver WebhookInject
begin

section \<open>The HTTP servers: health.go and receiver.go\<close>

text \<open>
  The three servers of the program: the agent's probes, its metrics, and the controller's webhook
  receiver. \<open>http.ServeMux\<close> of the standard library is modelled for the patterns the code registers: a
  method or any, literal segments, and \<open>{name}\<close>, which matches one segment that is not empty. A
  request path is given as its text. Then the life of the receiver's server from its start to
  the return of \<open>Start\<close>, with the requests that are being handled.
\<close>

subsection \<open>http.ServeMux\<close>

datatype segment = Lit string | Wild string

record 'h route =
  rt_method :: "string option"
  rt_segments :: "segment list"
  rt_handler :: 'h

datatype 'h routed =
    Handled 'h "(string \<times> string) list"    \<comment> \<open>with the path values\<close>
  | Moved                                   \<comment> \<open>a redirect to the cleaned path\<close>
  | NotAllowed
  | Missing

fun match_segments :: "segment list \<Rightarrow> string list \<Rightarrow> (string \<times> string) list option" where
  "match_segments [] [] = Some []"
| "match_segments (Lit s # ps) (t # ts) = (if s = t then match_segments ps ts else None)"
| "match_segments (Wild n # ps) (t # ts) = (if t \<noteq> [] then map_option (\<lambda>vs. (n, t) # vs) (match_segments ps ts) else None)"
| "match_segments _ _ = None"

lemma match_nothing_left [simp]: "match_segments [] ts = (if ts = [] then Some [] else None)"
  by (cases ts) simp_all

definition match_method :: "string option \<Rightarrow> string \<Rightarrow> bool" where
  "match_method m method = (case m of None \<Rightarrow> True
     | Some p \<Rightarrow> method = p \<or> (p = ''GET'' \<and> method = ''HEAD''))"

text \<open>\<open>path.Clean\<close> leaves the path as it is; an empty last segment is a trailing slash.\<close>

definition clean_segments :: "string list \<Rightarrow> bool" where
  "clean_segments ts = (list_all (\<lambda>t. t \<noteq> ''.'' \<and> t \<noteq> ''..'') ts \<and> list_all (\<lambda>t. t \<noteq> []) (butlast ts))"

definition find_route :: "'h route list \<Rightarrow> string \<Rightarrow> string list \<Rightarrow> 'h route option" where
  "find_route routes method ts =
     find (\<lambda>r. match_method (rt_method r) method \<and> match_segments (rt_segments r) ts \<noteq> None) routes"

definition route_request :: "'h route list \<Rightarrow> string \<Rightarrow> string list \<Rightarrow> 'h routed" where
  "route_request routes method ts =
     (if \<not> clean_segments ts then Moved
      else (case find_route routes method ts of
          Some r \<Rightarrow> Handled (rt_handler r) (the (match_segments (rt_segments r) ts))
        | None \<Rightarrow> if list_ex (\<lambda>r. match_segments (rt_segments r) ts \<noteq> None) routes then NotAllowed else Missing))"

definition handle_func :: "string list \<Rightarrow> 'h \<Rightarrow> 'h route" where
  "handle_func ts h = \<lparr>rt_method = None, rt_segments = map Lit ts, rt_handler = h\<rparr>"

definition path_segments :: "string \<Rightarrow> string list" where
  "path_segments path = tl (split_on CHR ''/'' path)"

text \<open>The answers of the multiplexer itself.\<close>

definition mux_answer :: "'h routed \<Rightarrow> int" where
  "mux_answer r = (case r of Moved \<Rightarrow> 301 | NotAllowed \<Rightarrow> 405 | _ \<Rightarrow> 404)"

text \<open>How \<open>ListenAndServe\<close> ends.\<close>

datatype listen_end = ServerClosed | ListenFailed goerror

subsection \<open>health.go: the agent's servers\<close>

datatype probe_handler = Healthz | Readyz | Startupz

record 'h http_server =
  hs_addr :: string
  hs_routes :: "'h route list"

definition new_health_mux :: "string \<Rightarrow> probe_handler http_server" where
  "new_health_mux addr = \<lparr>hs_addr = addr,
     hs_routes = [handle_func [''healthz''] Healthz, handle_func [''readyz''] Readyz, handle_func [''startupz''] Startupz]\<rparr>"

definition serve_health :: "probe_handler http_server \<Rightarrow> health_server \<Rightarrow> string \<Rightarrow> string \<Rightarrow> int \<times> string" where
  "serve_health srv hs method path = (case route_request (hs_routes srv) method (path_segments path) of
       Handled Healthz vs \<Rightarrow> handle_healthz hs
     | Handled Readyz vs \<Rightarrow> handle_readyz hs
     | Handled Startupz vs \<Rightarrow> handle_startupz hs
     | r \<Rightarrow> (mux_answer r, []))"

text \<open>\<open>Start\<close> of both returns in any case; a failure to listen is only logged.\<close>

definition health_start :: "listen_end \<Rightarrow> string list" where
  "health_start e = ''health server starting'' #
     (case e of ServerClosed \<Rightarrow> [] | ListenFailed err \<Rightarrow> [''health server error''])"

definition new_metrics_server :: "string \<Rightarrow> 'h \<Rightarrow> 'h http_server" where
  "new_metrics_server addr handler = \<lparr>hs_addr = addr, hs_routes = [handle_func [''metrics''] handler]\<rparr>"

definition metrics_start :: "listen_end \<Rightarrow> string list" where
  "metrics_start e = ''metrics server starting'' #
     (case e of ServerClosed \<Rightarrow> [] | ListenFailed err \<Rightarrow> [''metrics server error''])"

definition agent_health_server :: "probe_handler http_server" where
  "agent_health_server = new_health_mux '':8082''"

definition agent_metrics_server :: "'h \<Rightarrow> 'h http_server" where
  "agent_metrics_server handler = new_metrics_server '':8083'' handler"

subsection \<open>receiver.go: Start\<close>

definition need_leader_election :: bool where
  "need_leader_election = False"

definition receiver_server :: "int \<Rightarrow> unit http_server" where
  "receiver_server port = \<lparr>hs_addr = '':'' @ itoa port, hs_routes = [\<lparr>rt_method = Some ''POST'',
     rt_segments = [Lit ''webhook'', Wild ''namespace'', Wild ''crName''], rt_handler = ()\<rparr>]\<rparr>"

definition serve_receiver :: "'k receiver_api \<Rightarrow> receiver \<Rightarrow> unit http_server \<Rightarrow> string \<Rightarrow> string \<Rightarrow> webhook_request \<Rightarrow>
    ('k, webhook_reply) webhook_io" where
  "serve_receiver V rv srv method path r = (case route_request (hs_routes srv) method (path_segments path) of
       Handled h vs \<Rightarrow> handle_webhook V rv (r\<lparr>wr_namespace := mstr vs ''namespace'', wr_cr_name := mstr vs ''crName''\<rparr>)
     | a \<Rightarrow> ret (reply (mux_answer a) JNull))"

definition receiver_result :: "listen_end \<Rightarrow> goerror option" where
  "receiver_result e = (case e of ServerClosed \<Rightarrow> None | ListenFailed err \<Rightarrow> Some (Wrapf ''webhook server error'' err))"

text \<open>
  The server while it runs: the handlers run on goroutines of their own, and so does the one that
  waits for the end of the context and calls \<open>Shutdown\<close>. That closes the listener, which ends
  \<open>ListenAndServe\<close> at once, and only then waits for the handlers.
\<close>

record receiver_run =
  rr_cancelled :: bool
  rr_listening :: bool
  rr_handling :: nat
  rr_result :: "goerror option option"    \<comment> \<open>what \<open>Start\<close> returned\<close>

definition receiver_started :: receiver_run where
  "receiver_started = \<lparr>rr_cancelled = False, rr_listening = True, rr_handling = 0, rr_result = None\<rparr>"

inductive receiver_step :: "receiver_run \<Rightarrow> receiver_run \<Rightarrow> bool" where
  accept: "rr_listening s \<Longrightarrow> receiver_step s (s\<lparr>rr_handling := Suc (rr_handling s)\<rparr>)"
| answered: "rr_handling s = Suc n \<Longrightarrow> receiver_step s (s\<lparr>rr_handling := n\<rparr>)"
| cancel: "receiver_step s (s\<lparr>rr_cancelled := True\<rparr>)"
| shutdown: "rr_cancelled s \<Longrightarrow> receiver_step s (s\<lparr>rr_listening := False\<rparr>)"
| failed: "rr_listening s \<Longrightarrow> receiver_step s (s\<lparr>rr_listening := False, rr_result := Some (receiver_result (ListenFailed err))\<rparr>)"
| closed: "\<not> rr_listening s \<Longrightarrow> rr_result s = None \<Longrightarrow>
    receiver_step s (s\<lparr>rr_result := Some (receiver_result ServerClosed)\<rparr>)"

inductive_cases receiver_stepE: "receiver_step s t"

definition receiver_reaches :: "receiver_run \<Rightarrow> bool" where
  "receiver_reaches = receiver_step\<^sup>*\<^sup>* receiver_started"

subsection \<open>What they serve\<close>

lemma health_routes:
  "serve_health agent_health_server hs method ''/healthz'' = handle_healthz hs"
  "serve_health agent_health_server hs method ''/readyz'' = handle_readyz hs"
  "serve_health agent_health_server hs method ''/startupz'' = handle_startupz hs"
  by (simp_all add: serve_health_def agent_health_server_def new_health_mux_def route_request_def clean_segments_def
      find_route_def handle_func_def match_method_def path_segments_def)

text \<open>
  The probes the injector writes into the pod are served by the agent: the port is the one its server
  listens on, and the path is one it has.
\<close>

lemma probes_served:
  assumes "Some pb \<in> {co_startup_probe c, co_liveness_probe c, co_readiness_probe c}"
    and "c = agent_container getenv p gs"
  shows "hs_addr agent_health_server = '':'' @ itoa (pb_port pb)"
    and "fst (serve_health agent_health_server hs ''GET'' (pb_path pb)) \<in> {status_ok, status_service_unavailable}"
proof -
  have c: "co_startup_probe c = co_startup_probe (base_agent_container getenv p gs)"
      "co_liveness_probe c = co_liveness_probe (base_agent_container getenv p gs)"
      "co_readiness_probe c = co_readiness_probe (base_agent_container getenv p gs)"
    by (simp_all add: assms(2) agent_container_def mount_data_volume_def split: prod.splits)
  have pb: "pb_port pb = 8082" "pb_path pb \<in> {''/startupz'', ''/healthz'', ''/readyz''}"
    using assms(1) by (auto simp: c base_agent_container_def agent_probe_def)
  have "itoa 8082 = ''8082''" by (simp add: itoa_def nat_digits.simps[of 8082] nat_digits.simps[of 808] nat_digits.simps[of 80] nat_digits.simps[of 8] digit_char_def char_of_def bit_Suc_0_iff)
  thus "hs_addr agent_health_server = '':'' @ itoa (pb_port pb)"
    by (simp add: pb agent_health_server_def new_health_mux_def)
  show "fst (serve_health agent_health_server hs ''GET'' (pb_path pb)) \<in> {status_ok, status_service_unavailable}"
    using pb(2) by (cases "hv_shutting_down hs"; cases "hv_initial_sync_done hs")
      (auto simp: health_routes handle_healthz_def handle_readyz_def handle_startupz_def)
qed

text \<open>
  A request reaches the webhook handler exactly when it is a POST of \<open>/webhook/\<close> and two segments, which
  are the namespace and the name; anything else is answered without a call of the cluster.
\<close>

lemma receiver_routes_webhook:
  assumes "clean_segments [ns, name]" "name \<noteq> []"
    and "path_segments path = [''webhook'', ns, name]"
  shows "serve_receiver V rv (receiver_server port) method path r =
    (if method = ''POST'' then handle_webhook V rv (r\<lparr>wr_namespace := ns, wr_cr_name := name\<rparr>)
     else ret (reply 405 JNull))"
  using assms by (simp add: serve_receiver_def receiver_server_def route_request_def clean_segments_def find_route_def
      match_method_def mstr_def mget_def mux_answer_def)

lemma receiver_other_paths:
  assumes "\<And>ns name. path_segments path \<noteq> [''webhook'', ns, name]"
  shows "\<exists>c \<in> {301, 404}. serve_receiver V rv (receiver_server port) method path r = ret (reply c JNull)"
proof -
  have "match_segments [Lit ''webhook'', Wild ''namespace'', Wild ''crName''] (path_segments path) = None"
  proof (rule ccontr)
    assume "match_segments [Lit ''webhook'', Wild ''namespace'', Wild ''crName''] (path_segments path) \<noteq> None"
    then obtain ns name where "path_segments path = [''webhook'', ns, name]"
      by (cases "path_segments path"; cases "tl (path_segments path)"; cases "tl (tl (path_segments path))")
        (auto split: if_splits)
    thus False using assms by blast
  qed
  thus ?thesis by (simp add: serve_receiver_def receiver_server_def route_request_def find_route_def mux_answer_def)
qed

subsection \<open>The end of the receiver\<close>

lemma receiver_returns:
  assumes "receiver_reaches s" "rr_result s = Some r"
  shows "\<not> rr_listening s \<and> (case r of None \<Rightarrow> rr_cancelled s | Some e \<Rightarrow> \<exists>err. e = Wrapf ''webhook server error'' err)"
proof -
  have "receiver_step\<^sup>*\<^sup>* receiver_started s" using assms(1) by (simp add: receiver_reaches_def)
  hence "(\<not> rr_listening s \<longrightarrow> rr_result s = None \<longrightarrow> rr_cancelled s) \<and> (rr_result s \<noteq> None \<longrightarrow> \<not> rr_listening s) \<and>
    (\<forall>r. rr_result s = Some r \<longrightarrow> (case r of None \<Rightarrow> rr_cancelled s | Some e \<Rightarrow> \<exists>err. e = Wrapf ''webhook server error'' err))"
  proof (induction rule: rtranclp_induct)
    case base
    show ?case by (simp add: receiver_started_def)
  next
    case (step s t)
    from step(2,3) show ?case
      by (cases rule: receiver_step.cases) (auto simp: receiver_result_def split: option.splits)
  qed
  thus ?thesis using assms(2) by auto
qed

text \<open>
  \<open>Start\<close> does not wait for \<open>Shutdown\<close>: it can return while a request is being handled, and the manager
  then exits with the request unanswered.
\<close>

lemma returns_while_handling:
  "\<exists>s. receiver_reaches s \<and> rr_result s = Some None \<and> rr_handling s = 1"
proof -
  let ?a = "receiver_started\<lparr>rr_handling := Suc (rr_handling receiver_started)\<rparr>"
  let ?b = "?a\<lparr>rr_cancelled := True\<rparr>"
  let ?c = "?b\<lparr>rr_listening := False\<rparr>"
  let ?d = "?c\<lparr>rr_result := Some (receiver_result ServerClosed)\<rparr>"
  have "receiver_step receiver_started ?a" by (rule accept) (simp add: receiver_started_def)
  moreover have "receiver_step ?a ?b" by (rule cancel)
  moreover have "receiver_step ?b ?c" by (rule shutdown) simp
  moreover have "receiver_step ?c ?d" by (rule closed) (simp_all add: receiver_started_def)
  ultimately have "receiver_reaches ?d" unfolding receiver_reaches_def by auto
  thus ?thesis by (intro exI[of _ ?d]) (simp add: receiver_started_def receiver_result_def)
qed

end
