(* ===== verification/Spec2Isabelle.thy ===== *)
theory Spec2Isabelle
  imports SyncProps AgentProps AgentTriggerProps ControllerProps ControllerClusterProps CrossProps
    WebhookProps InjectProps GitProps ScopeProps StatusProps TriggerProps MetricsProps EntryPoints
    SystemProps DeepCopyProps HttpServers
begin

text \<open>
  \<^bold>\<open>stoker-operator.\<close> A Kubernetes operator that keeps the files of Ignition gateways in step with a
  git repository. A custom resource, \<open>GatewaySync\<close>, names a repository, a reference and a set of
  profiles (which directories of the repository go where on a gateway). Four programs cooperate:

  \<^item> the controller (\<open>internal/controller\<close>) reconciles each resource: it checks the profiles and the
    credentials, asks the remote for the commit of the reference, writes commit, URL and resolved
    profiles to a metadata ConfigMap, discovers the gateway pods and publishes conditions;
  \<^item> the injector (\<open>internal/webhook/inject.go\<close>) is an admission webhook that adds the agent's
    container, with its volumes and its environment, to a gateway pod that asks for it;
  \<^item> the agent (\<open>internal/agent\<close>) runs beside the gateway: it reads the metadata ConfigMap, clones or
    fetches with the git binary (\<open>internal/git\<close>), hands a plan to the sync engine
    (\<open>internal/syncengine\<close>), asks the gateway to scan its files (\<open>internal/ignition\<close>) and writes its
    status to another ConfigMap, which the controller reads;
  \<^item> the receiver (\<open>internal/webhook/receiver.go\<close>) is an HTTP endpoint that turns a release
    notification into an annotation of the resource, which starts a reconcile.

  They share no memory: they meet in the ConfigMaps, the Secrets, the annotations and the environment
  variables, and the theorems that span components are about these.

  \<^bold>\<open>How the code is modelled.\<close> A struct is a record with the source's fields (the prefix of a field
  abbreviates its struct); a nil pointer is \<open>None\<close>; an error is a value of \<open>goerror\<close> and a function
  that returns a value and an error returns a sum (\<open>Inl\<close> the error). A Go string is a list of bytes, a
  map an association list without duplicate keys (\<open>mget\<close>, \<open>mput\<close>, \<open>mdel\<close>), and a loop over a map
  visits the list in its order, which the theorems leave arbitrary. Where the code shares or copies memory on
  purpose, \<open>GoHeap\<close> has the memory itself. Integers are unbounded where the
  code cannot reach the bounds, and 64-bit words in \<open>backoff_delay\<close>, where it can. Times and durations are
  nanoseconds. Code outside the repository (the Kubernetes client, go-git, the git binary, HTTP, JSON,
  templates, SHA-256, HMAC, doublestar, the clock) is a parameter: one record of functions for each
  component (\<open>sysenv\<close>, \<open>content_env\<close>, \<open>http_api\<close>, \<open>cm_api\<close>, \<open>agent_env\<close>, \<open>ctrl_api\<close>, \<open>git_api\<close>, \<open>shell_api\<close>,
  \<open>receiver_api\<close>, \<open>injector_api\<close>). What lies behind such a function is a value of an arbitrary type that
  each call may change in any way, so the theorems hold however other programs act between two calls.

  \<^bold>\<open>The theories.\<close> Shared: \<open>Prelude\<close> (errors, maps, the locale \<open>go_map\<close>), \<open>GoStrings\<close> (the functions
  of \<open>strings\<close> and \<open>strconv\<close>), \<open>GoPath\<close> (\<open>path/filepath\<close>), \<open>Effects\<close> (the state monad with its log and
  weakest preconditions, the locale \<open>step_order\<close>), \<open>EffectLaws\<close> (what a computation sends and yields),
  \<open>PodTypes\<close> (pods), \<open>Metrics\<close> (the collectors the three \<open>metrics.go\<close> declare), \<open>SampleResource\<close> (the
  resource and the pod of the examples).

  Sync engine: \<open>FileSys\<close> is a file store with the log of the system calls that changed it, \<open>FileOps\<close> what
  each call changes. \<open>CopyFile\<close> is \<open>copy.go\<close>, \<open>Exclude\<close> is \<open>exclude.go\<close>, \<open>WalkDir\<close> the tree walk of Go's
  library with the contract \<open>walk_client\<close> under which it is an iteration over the entries of the tree,
  \<open>SyncPlan\<close> is \<open>plan.go\<close> and \<open>engine.go\<close>. \<open>SyncEffects\<close>, \<open>SyncWalks\<close>, \<open>SyncPhases\<close> and \<open>SyncCorrect\<close> state
  the effect of one callback, of one walk, of one phase and of a whole run; the properties are in
  \<open>SyncProps\<close>. They are about plans whose file destinations are written in clean form (\<open>plan_ok\<close>) and the
  documented meaning of the built-in patterns; \<open>SyncConfine\<close> shows without either that a run of any plan the
  agent can build (\<open>plan_safe\<close>) stays below its directories.

  Agent: \<open>AgentConfig\<close> (\<open>config.go\<close>, \<open>pkg/types\<close>), \<open>AgentProfile\<close> (\<open>profile.go\<close>), \<open>AgentStatus\<close>
  (\<open>configmap.go\<close>), \<open>AgentHealth\<close> (\<open>health.go\<close>), \<open>AgentWatcher\<close> (\<open>watcher.go\<close>), \<open>Ignition\<close>
  (\<open>internal/ignition\<close>), \<open>AgentSync\<close> and \<open>AgentLoop\<close> (\<open>agent.go\<close>: a sync cycle, the designer sessions,
  a trigger), \<open>AgentRun\<close> (\<open>Run\<close>: the start, and its goroutines as a step relation), \<open>GitNative\<close> (the
  git client of the agent). \<open>AgentLemmas\<close> says what each operation can change, \<open>AgentSends\<close> what it can
  send (the locales \<open>agent_log\<close> and \<open>agent_sends\<close>, interpreted for requests, samples and the mark of readiness). Properties: \<open>AgentSyncProps\<close>, \<open>AgentTriggerProps\<close>, \<open>AgentProps\<close>, \<open>GitProps\<close>.

  Controller: \<open>ApiTypes\<close> (\<open>api/v1alpha1\<close>, names of annotations and conditions), \<open>ControllerProfiles\<close>
  (validation and resolution of profiles), \<open>ControllerStatus\<close> (conditions, backoff, intervals), \<open>GitRemote\<close>
  (\<open>auth.go\<close>, \<open>githubapp.go\<close>, the go-git client), \<open>ControllerCluster\<close> (\<open>gateway_discovery.go\<close>, \<open>rbac.go\<close>),
  \<open>ControllerMetadata\<close> (credentials, the reference, the metadata ConfigMap, the cleanup),
  \<open>ControllerReconcile\<close> (\<open>Reconcile\<close> with every early return), \<open>ControllerTriggers\<close> (\<open>SetupWithManager\<close>: which
  events start one). \<open>ControllerLaws\<close> goes through the steps once, in the
  locales \<open>api_reads\<close> and \<open>reconcile_steps\<close>, whose assumptions are the single calls, and interprets them with what
  each step sends, where it comes from and which entries of the reconciler's maps it may change;
  \<open>ControllerCleanup\<close> states the API's contract as the locales \<open>object_store\<close> and \<open>cluster_laws\<close>, and
  \<open>ClusterStore\<close> interprets them on a cluster that stores its objects, with versions and finalizers. Properties: \<open>ControllerProps\<close>,
  \<open>ControllerClusterProps\<close>, \<open>CrossProps\<close>, \<open>ScopeProps\<close>, \<open>TriggerProps\<close>, \<open>StatusProps\<close>.

  The shared cluster: \<open>ClusterEvents\<close> lists what users, agents, webhooks, other clients and reconcile workers may do
  to the store, as atomic events with their guards; \<open>ClusterInvariant\<close> and \<open>ClusterEventLaws\<close> prove the
  invariant \<open>sound\<close>, and what a program may rely on of an object it read. \<open>Interference\<close> runs a program so that
  any scheduled events happen before each of its calls; \<open>SharedReconcile\<close> interprets \<open>reconcile_steps\<close> and
  \<open>SharedCleanup\<close> interprets \<open>cluster_laws\<close> for it, \<open>SharedStatus\<close> and \<open>SharedWebhook\<close> do the agent's status write
  and the receiver. Properties: \<open>SystemProps\<close>.

  Webhooks: \<open>WebhookReceiver\<close> (\<open>receiver.go\<close>, \<open>hmac.go\<close>), \<open>WebhookInject\<close> (\<open>inject.go\<close>). Properties:
  \<open>WebhookProps\<close>, \<open>InjectProps\<close>.

  Memory and servers: \<open>GoHeap\<close> is Go's memory with the locale \<open>deep_copier\<close> (what a deep copy promises) and the
  copies of pointers, slices, maps and structs; \<open>DeepCopy\<close> is \<open>zz_generated.deepcopy.go\<close> over it, \<open>DeepCopyLaws\<close>
  proves the contract for every type, under the locale \<open>library_laws\<close> for the library's own, and \<open>DeepCopyProps\<close> has
  \<open>setCondition\<close> as it writes in place. \<open>HttpServers\<close> has the routes of the three HTTP servers and the end of the
  receiver's.

  Programs: \<open>EntryPoints\<close> is \<open>cmd/agent\<close> and \<open>cmd/controller\<close>, the two \<open>main\<close> functions as the list of what they
  set up, with the exit code. \<open>MetricsProps\<close> goes through every sample the programs record.

  \<^bold>\<open>What the theorems show.\<close> Of the engine: after a sync the managed directories hold exactly the staged
  files, nothing else is written, protected paths are never touched, a dry run leaves the live directory
  alone, and a crash at any system call leaves every file whole. Of the agent: a commit is recorded as
  synced only after the gateway has accepted both scans, no profile leads outside the data directory, when the
  probes are opened, what each trigger and each failure leads to. Of the controller: the shape of every status it sends, its
  guards, when Ready is true, what it resolves, discovers and binds, that a deleted resource leaves
  nothing behind, that it keeps to its own objects and entries, where a GitHub token comes from, and which
  of its own writes start it again. Across them: what the controller writes
  is what the agent reads, what it validates the agent accepts, what the agent reports is what the
  controller attributes to its pod, what the injector sets is what \<open>LoadConfig\<close> loads, what the receiver
  annotates is what the controller resolves. Of the system, with everybody at work between any two calls: a
  reconcile, a status write and a webhook each come down to atomic events, no metadata and no token
  outlives its resource, no edit of a user is lost, an agent reads only what follows from a
  specification a user gave, and a deletion left in peace comes to its end. Of memory: the functions on values
  say what the changes in place do, and the base of a patch keeps the resource as it was read. Of the programs: every sample they record fits its metric's
  declaration, and in which order they set up and end.

  \<^bold>\<open>Bounds.\<close> The walk's fuel is one more than the longest path of the store, and is shown to be enough
  (\<open>walk_fuel_enough\<close>). \<open>write_status_attempts\<close> has the three tries of the code, \<open>designer_wait\<close> its
  thirty ticks. The agent's start polls without limit in the code; \<open>wait_for_metadata\<close> takes a bound and
  returns \<open>None\<close> while it still polls. All other loops are structural, and \<open>redact\<close> ends because a match
  is never empty.

  \<^bold>\<open>Not modelled.\<close>
  \<^item> the parsing of flags, HTTP below the routes, the durations that histograms observe (their samples and labels are in the logs), log lines; of
    memory everything but the deep copies and the changes of the conditions in place;
  \<^item> in the file store: symbolic links in the middle of a path, and I/O faults other than those the
    operations themselves define (a full disk, a permission), except that a crash may fall
    between any two calls;
  \<^item> in the shared cluster: reads from the informer's cache, which may be older than the store (the store answers
    a Get with its present state); who may write what is the role-based access of the installation, so the
    events let no client but the controller write a ConfigMap or Secret of a reserved name and no user
    take the controller's finalizer away; the garbage collection of owned objects is only the deletion by anyone;
  \<^item> the maps two reconciles share in memory (they are under a mutex); in the agent a section under \<open>syncMu\<close>
    is one step, and the watcher's step relation allows more orders than the runtime produces;
  \<^item> a shutdown that begins within a post-commission sync; Go's difference of a nil and an empty map
    where only \<open>DeepEqual\<close> sees it; a Secret that exists with nil data, on which the code panics.
\<close>

end
